(* ===== verification/Prelude.thy ===== *)
theory Prelude
  imports Main "HOL-Library.Word" "HOL-Library.List_Lexorder" "HOL-Library.Char_ord"
    "HOL-Library.Product_Lexorder" "HOL-Library.Multiset" "HOL-Library.Sublist"
begin

text \<open>
  What the component theories share: the names of Go's machine types, decimal and
  hexadecimal printing, Go's comparison functions and stable sort, and the action type
  in which stateful Go code is written, with its Hoare triples.
\<close>

named_theorems hoare_rules \<open>triples of actions, applied backwards\<close>

section \<open>Machine types\<close>

text \<open>
  An unsigned 64-bit integer is a word, so that \<open>+\<close> wraps as in Go. A hash is the 256-bit
  word of its 32 bytes, an address the 160-bit word of its 20 bytes. A point in time is an
  integer number of nanoseconds, with 0 for Go's zero time; a \<open>time.Duration\<close> is an integer
  in the range of int64, and arithmetic on it wraps through \<open>wrap_i64\<close>.
\<close>

type_synonym u64 = "64 word"
type_synonym u32 = "32 word"
type_synonym hash = "256 word"
type_synonym address = "160 word"
type_synonym time = int
type_synonym duration = int
type_synonym bytes = "8 word list"

definition wrap_i64 :: "int \<Rightarrow> int" where
  "wrap_i64 x = (x + 2 ^ 63) mod 2 ^ 64 - 2 ^ 63"

definition in_i64 :: "int \<Rightarrow> bool" where
  "in_i64 x \<longleftrightarrow> - (2 ^ 63) \<le> x \<and> x < 2 ^ 63"

definition second :: duration where
  "second = 1000000000"

lemma wrap_i64_id [simp]: "in_i64 x \<Longrightarrow> wrap_i64 x = x"
  by (simp add: wrap_i64_def in_i64_def)

lemma in_i64_wrap [simp]: "in_i64 (wrap_i64 x)"
proof -
  have "0 \<le> (x + 2 ^ 63) mod 2 ^ 64" "(x + 2 ^ 63) mod 2 ^ 64 < (2::int) ^ 64" by simp_all
  then show ?thesis by (simp add: wrap_i64_def in_i64_def)
qed

section \<open>Digits, decimal and hexadecimal text\<close>

definition digit_char :: "nat \<Rightarrow> char" where
  "digit_char d = ''0123456789abcdef'' ! d"

definition is_digit :: "char \<Rightarrow> bool" where
  "is_digit c \<longleftrightarrow> CHR ''0'' \<le> c \<and> c \<le> CHR ''9''"

definition digit_val :: "char \<Rightarrow> nat" where
  "digit_val c = of_char c - 48"

text \<open>\<open>dec_nat\<close> is \<open>strconv.FormatUint(n, 10)\<close> and the absolute value of \<open>big.Int.String\<close>.\<close>

fun dec_nat :: "nat \<Rightarrow> string" where
  "dec_nat n = (if n < 10 then [digit_char n] else dec_nat (n div 10) @ [digit_char (n mod 10)])"

declare dec_nat.simps [simp del]

definition dec_int :: "int \<Rightarrow> string" where
  "dec_int i = (if i < 0 then ''-'' @ dec_nat (nat (- i)) else dec_nat (nat i))"

text \<open>The value of a string of decimal digits, most significant first.\<close>

definition digits_val :: "string \<Rightarrow> nat" where
  "digits_val s = foldl (\<lambda>acc c. 10 * acc + digit_val c) 0 s"

text \<open>The low \<open>k\<close> hexadecimal digits of a number.\<close>

fun hex_nat :: "nat \<Rightarrow> nat \<Rightarrow> string" where
  "hex_nat 0 n = []"
| "hex_nat (Suc k) n = hex_nat k (n div 16) @ [digit_char (n mod 16)]"

text \<open>\<open>common.Hash.Hex\<close>: the prefix 0x and 64 lower-case digits.\<close>

definition hash_hex :: "hash \<Rightarrow> string" where
  "hash_hex h = ''0x'' @ hex_nat 64 (unat h)"

lemma less16_cases:
  assumes "d < (16::nat)"
  obtains "d = 0" | "d = 1" | "d = 2" | "d = 3" | "d = 4" | "d = 5" | "d = 6" | "d = 7"
    | "d = 8" | "d = 9" | "d = 10" | "d = 11" | "d = 12" | "d = 13" | "d = 14" | "d = 15"
proof -
  have "d = 0 \<or> d = 1 \<or> d = 2 \<or> d = 3 \<or> d = 4 \<or> d = 5 \<or> d = 6 \<or> d = 7 \<or>
      d = 8 \<or> d = 9 \<or> d = 10 \<or> d = 11 \<or> d = 12 \<or> d = 13 \<or> d = 14 \<or> d = 15"
    using assms by arith
  then show thesis using that by blast
qed

lemma digit_char_inj: "d < 16 \<Longrightarrow> e < 16 \<Longrightarrow> digit_char d = digit_char e \<Longrightarrow> d = e"
  by (erule less16_cases; erule less16_cases; simp add: digit_char_def)

lemma less_eq_char_iff: "c \<le> d \<longleftrightarrow> (of_char c :: nat) \<le> of_char d"
  by (simp add: less_eq_char_def)

lemma digit_char_digit [simp]: "d < 10 \<Longrightarrow> is_digit (digit_char d)"
  by (rule less16_cases [of d]) (auto simp: digit_char_def is_digit_def less_eq_char_iff)

lemma digit_val_char [simp]: "d < 10 \<Longrightarrow> digit_val (digit_char d) = d"
  by (rule less16_cases [of d]) (auto simp: digit_char_def digit_val_def)

lemma is_digit_val: "is_digit c \<Longrightarrow> digit_val c < 10"
  by (auto simp: is_digit_def digit_val_def less_eq_char_iff)

lemma digits_val_snoc [simp]: "digits_val (s @ [c]) = 10 * digits_val s + digit_val c"
  by (simp add: digits_val_def)

lemma digits_val_Nil [simp]: "digits_val [] = 0"
  by (simp add: digits_val_def)

lemma dec_nat_nonempty [simp]: "dec_nat n \<noteq> []"
  by (subst dec_nat.simps) simp

lemma dec_nat_digits: "c \<in> set (dec_nat n) \<Longrightarrow> is_digit c"
proof (induction n rule: dec_nat.induct)
  case (1 n)
  then show ?case
    by (cases "n < 10") (auto simp: dec_nat.simps [of n])
qed

lemma digits_val_dec_nat [simp]: "digits_val (dec_nat n) = n"
proof (induction n rule: dec_nat.induct)
  case (1 n)
  show ?case
  proof (cases "n < 10")
    case True
    then show ?thesis using digits_val_snoc [of "[]"] by (simp add: dec_nat.simps [of n])
  next
    case False
    then have "digits_val (dec_nat n) = 10 * (n div 10) + n mod 10"
      using "1.IH" by (simp add: dec_nat.simps [of n])
    then show ?thesis by simp
  qed
qed

lemma dec_nat_inj: "dec_nat m = dec_nat n \<longleftrightarrow> m = n"
  by (metis digits_val_dec_nat)

lemma length_hex_nat [simp]: "length (hex_nat k n) = k"
  by (induction k arbitrary: n) auto

lemma hex_nat_inj: "m < 16 ^ k \<Longrightarrow> n < 16 ^ k \<Longrightarrow> hex_nat k m = hex_nat k n \<Longrightarrow> m = n"
proof (induction k arbitrary: m n)
  case 0
  then show ?case by simp
next
  case (Suc k)
  then have "hex_nat k (m div 16) = hex_nat k (n div 16)" and d: "m mod 16 = n mod 16"
    by (auto intro: digit_char_inj)
  moreover have "m div 16 < 16 ^ k" "n div 16 < 16 ^ k"
    using Suc.prems by (simp_all add: less_mult_imp_div_less mult.commute)
  ultimately have "m div 16 = n div 16" by (intro Suc.IH)
  with d show ?case by (metis div_mult_mod_eq)
qed

lemma hash_hex_inj [simp]: "hash_hex a = hash_hex b \<longleftrightarrow> a = b"
proof
  assume "hash_hex a = hash_hex b"
  then have "hex_nat 64 (unat a) = hex_nat 64 (unat b)" by (simp add: hash_hex_def)
  moreover have bound: "unat h < 16 ^ 64" for h :: hash
    using unsigned_less [of h] by simp
  ultimately have "unat a = unat b" by (intro hex_nat_inj)
  then show "a = b" by (rule unsigned_word_eqI)
qed simp

section \<open>Go's comparisons and stable sort\<close>

text \<open>\<open>cmp.Compare\<close>, \<open>strings.Compare\<close>, \<open>Time.Compare\<close>: the sign of the comparison.\<close>

definition cmp_compare :: "'a::linorder \<Rightarrow> 'a \<Rightarrow> int" where
  "cmp_compare a b = (if a < b then -1 else if a = b then 0 else 1)"

text \<open>\<open>cmp.Or\<close>: the first argument that is not zero.\<close>

fun cmp_or :: "int list \<Rightarrow> int" where
  "cmp_or [] = 0"
| "cmp_or (x # xs) = (if x \<noteq> 0 then x else cmp_or xs)"

text \<open>\<open>slices.SortStableFunc\<close>, as the insertion sort that keeps equal elements in order.\<close>

fun insort_func :: "('a \<Rightarrow> 'a \<Rightarrow> int) \<Rightarrow> 'a \<Rightarrow> 'a list \<Rightarrow> 'a list" where
  "insort_func c x [] = [x]"
| "insort_func c x (y # ys) = (if c x y \<le> 0 then x # y # ys else y # insort_func c x ys)"

definition sort_stable_func :: "('a \<Rightarrow> 'a \<Rightarrow> int) \<Rightarrow> 'a list \<Rightarrow> 'a list" where
  "sort_stable_func c xs = foldr (insort_func c) xs []"

lemma cmp_compare_le0: "cmp_compare a b \<le> 0 \<longleftrightarrow> a \<le> b"
  by (auto simp: cmp_compare_def)

lemma cmp_compare_eq0 [simp]: "cmp_compare a b = 0 \<longleftrightarrow> a = b"
  by (auto simp: cmp_compare_def)

lemma cmp_or_lex:
  "cmp_or [cmp_compare a b, cmp_compare c d] = cmp_compare (a, c) (b, d)"
  by (auto simp: cmp_compare_def less_prod_def)

lemma insort_func_key:
  assumes "\<And>a b. c a b = cmp_compare (f a) (f b)"
  shows "insort_func c x xs = insort_key f x xs"
  by (induction xs) (auto simp: assms cmp_compare_le0)

text \<open>
  A comparison that compares keys sorts like the library's \<open>sort_key\<close>, whose theory then
  applies; with distinct keys the result does not depend on the order of the input.
\<close>

lemma sort_stable_func_key:
  assumes "\<And>a b. c a b = cmp_compare (f a) (f b)"
  shows "sort_stable_func c xs = sort_key f xs"
  by (induction xs) (simp_all add: sort_stable_func_def insort_func_key [OF assms])

lemma sort_key_perm:
  assumes "mset xs = mset ys" and "inj_on f (set xs)"
  shows "sort_key f xs = sort_key f ys"
  by (rule sort_key_inj_key_eq) (use assms in simp_all)

section \<open>Actions: stateful code that can fail\<close>

text \<open>
  A Go call returns a value, returns an error, or panics, and may change the state. An action
  is a function from a state to one of these outcomes and the next state. \<open>bindA\<close> is
  \<open>x, err := f(); if err != nil { return err }\<close>; \<open>tryA\<close> hands the error to the code that
  inspects it. A panic unwinds through both.
\<close>

datatype ('e, 'a) outcome = Ret 'a | Fail 'e | Panic string

type_synonym ('s, 'e, 'a) action = "'s \<Rightarrow> ('e, 'a) outcome \<times> 's"

definition retA :: "'a \<Rightarrow> ('s, 'e, 'a) action" where
  "retA x = (\<lambda>s. (Ret x, s))"

definition failA :: "'e \<Rightarrow> ('s, 'e, 'a) action" where
  "failA e = (\<lambda>s. (Fail e, s))"

definition panicA :: "string \<Rightarrow> ('s, 'e, 'a) action" where
  "panicA m = (\<lambda>s. (Panic m, s))"

definition bindA :: "('s, 'e, 'a) action \<Rightarrow> ('a \<Rightarrow> ('s, 'e, 'b) action) \<Rightarrow> ('s, 'e, 'b) action" where
  "bindA f g = (\<lambda>s. case f s of
     (Ret x, s') \<Rightarrow> g x s' | (Fail e, s') \<Rightarrow> (Fail e, s') | (Panic m, s') \<Rightarrow> (Panic m, s'))"

definition tryA :: "('s, 'e, 'a) action \<Rightarrow> ('e + 'a \<Rightarrow> ('s, 'e, 'b) action) \<Rightarrow> ('s, 'e, 'b) action" where
  "tryA f g = (\<lambda>s. case f s of
     (Ret x, s') \<Rightarrow> g (Inr x) s' | (Fail e, s') \<Rightarrow> g (Inl e) s' | (Panic m, s') \<Rightarrow> (Panic m, s'))"

text \<open>\<open>if err != nil { return wrap(err) }\<close>.\<close>

definition mapE :: "('e \<Rightarrow> 'e) \<Rightarrow> ('s, 'e, 'a) action \<Rightarrow> ('s, 'e, 'a) action" where
  "mapE h f = tryA f (\<lambda>r. case r of Inl e \<Rightarrow> failA (h e) | Inr x \<Rightarrow> retA x)"

definition liftR :: "'e + 'a \<Rightarrow> ('s, 'e, 'a) action" where
  "liftR r = (case r of Inl e \<Rightarrow> failA e | Inr x \<Rightarrow> retA x)"

lemmas action_defs = retA_def failA_def panicA_def bindA_def tryA_def mapE_def liftR_def

subsection \<open>Triples\<close>

text \<open>
  \<open>triple P f Q\<close>: from a state that satisfies \<open>P\<close>, the outcome and the next state of \<open>f\<close>
  satisfy \<open>Q\<close>. The postcondition speaks of every outcome, so an invariant that must survive
  errors and panics is stated once.

\<close>

definition triple ::
  "('s \<Rightarrow> bool) \<Rightarrow> ('s, 'e, 'a) action \<Rightarrow> (('e, 'a) outcome \<Rightarrow> 's \<Rightarrow> bool) \<Rightarrow> bool" where
  "triple P f Q \<longleftrightarrow> (\<forall>s. P s \<longrightarrow> Q (fst (f s)) (snd (f s)))"

definition onRet :: "('a \<Rightarrow> 's \<Rightarrow> bool) \<Rightarrow> (('e, 'b) outcome \<Rightarrow> 's \<Rightarrow> bool) \<Rightarrow>
    ('e, 'a) outcome \<Rightarrow> 's \<Rightarrow> bool" where
  "onRet R Q r s = (case r of Ret x \<Rightarrow> R x s | Fail e \<Rightarrow> Q (Fail e) s | Panic m \<Rightarrow> Q (Panic m) s)"

definition onTry :: "('e + 'a \<Rightarrow> 's \<Rightarrow> bool) \<Rightarrow> (('e, 'b) outcome \<Rightarrow> 's \<Rightarrow> bool) \<Rightarrow>
    ('e, 'a) outcome \<Rightarrow> 's \<Rightarrow> bool" where
  "onTry R Q r s = (case r of Ret x \<Rightarrow> R (Inr x) s | Fail e \<Rightarrow> R (Inl e) s | Panic m \<Rightarrow> Q (Panic m) s)"

lemma onRet_simps [simp]:
  "onRet R Q (Ret x) s = R x s" "onRet R Q (Fail e) s = Q (Fail e) s"
  "onRet R Q (Panic m) s = Q (Panic m) s"
  by (simp_all add: onRet_def)

lemma onTry_simps [simp]:
  "onTry R Q (Ret x) s = R (Inr x) s" "onTry R Q (Fail e) s = R (Inl e) s"
  "onTry R Q (Panic m) s = Q (Panic m) s"
  by (simp_all add: onTry_def)

lemma tripleI: "(\<And>s. P s \<Longrightarrow> Q (fst (f s)) (snd (f s))) \<Longrightarrow> triple P f Q"
  by (simp add: triple_def)

lemma tripleD: "triple P f Q \<Longrightarrow> P s \<Longrightarrow> f s = (r, s') \<Longrightarrow> Q r s'"
  by (force simp: triple_def)

lemma triple_pre: "triple P f Q \<Longrightarrow> (\<And>s. P' s \<Longrightarrow> P s) \<Longrightarrow> triple P' f Q"
  by (simp add: triple_def)

lemma triple_post: "triple P f Q \<Longrightarrow> (\<And>r s. Q r s \<Longrightarrow> Q' r s) \<Longrightarrow> triple P f Q'"
  by (simp add: triple_def)

lemma triple_conj:
  "triple P f Q \<Longrightarrow> triple P' f Q' \<Longrightarrow> triple (\<lambda>s. P s \<and> P' s) f (\<lambda>r s. Q r s \<and> Q' r s)"
  by (simp add: triple_def)

lemma triple_ret: "(\<And>s. P s \<Longrightarrow> Q (Ret x) s) \<Longrightarrow> triple P (retA x) Q"
  by (simp add: triple_def retA_def)

lemma triple_fail: "(\<And>s. P s \<Longrightarrow> Q (Fail e) s) \<Longrightarrow> triple P (failA e) Q"
  by (simp add: triple_def failA_def)

lemma triple_panic: "(\<And>s. P s \<Longrightarrow> Q (Panic m) s) \<Longrightarrow> triple P (panicA m) Q"
  by (simp add: triple_def panicA_def)

lemma triple_bind:
  assumes "triple P f (onRet R Q)" and "\<And>x. triple (R x) (g x) Q"
  shows "triple P (bindA f g) Q"
proof (rule tripleI)
  fix s assume "P s"
  obtain r s' where f: "f s = (r, s')" by fastforce
  with assms(1) \<open>P s\<close> have "onRet R Q r s'" by (rule tripleD)
  then show "Q (fst (bindA f g s)) (snd (bindA f g s))"
    using assms(2) f by (cases r) (auto simp: bindA_def triple_def)
qed

lemma triple_try:
  assumes "triple P f (onTry R Q)" and "\<And>x. triple (R x) (g x) Q"
  shows "triple P (tryA f g) Q"
proof (rule tripleI)
  fix s assume "P s"
  obtain r s' where f: "f s = (r, s')" by fastforce
  with assms(1) \<open>P s\<close> have "onTry R Q r s'" by (rule tripleD)
  then show "Q (fst (tryA f g s)) (snd (tryA f g s))"
    using assms(2) f by (cases r) (auto simp: tryA_def triple_def)
qed

lemma triple_mapE:
  assumes "triple P f (\<lambda>r s. case r of Ret x \<Rightarrow> Q (Ret x) s | Fail e \<Rightarrow> Q (Fail (h e)) s
     | Panic m \<Rightarrow> Q (Panic m) s)"
  shows "triple P (mapE h f) Q"
  using assms by (auto simp: triple_def mapE_def tryA_def retA_def failA_def
      split: outcome.splits prod.splits)

lemma triple_liftR:
  "(\<And>s e. r = Inl e \<Longrightarrow> P s \<Longrightarrow> Q (Fail e) s) \<Longrightarrow> (\<And>s x. r = Inr x \<Longrightarrow> P s \<Longrightarrow> Q (Ret x) s)
    \<Longrightarrow> triple P (liftR r) Q"
  by (cases r) (auto simp: triple_def liftR_def failA_def retA_def)

subsection \<open>Invariants of actions\<close>

text \<open>
  \<open>keeps I f\<close>: \<open>f\<close> keeps \<open>I\<close> whatever its outcome. These rules decompose an action by its
  syntax, so that an invariant of a large handler follows from the invariant of its primitive
  calls.
\<close>

definition keeps :: "('s \<Rightarrow> bool) \<Rightarrow> ('s, 'e, 'a) action \<Rightarrow> bool" where
  "keeps I f \<longleftrightarrow> (\<forall>s. I s \<longrightarrow> I (snd (f s)))"

lemma keepsD: "keeps I f \<Longrightarrow> I s \<Longrightarrow> I (snd (f s))"
  by (simp add: keeps_def)

lemma keeps_triple: "keeps I f \<longleftrightarrow> triple I f (\<lambda>_. I)"
  by (simp add: keeps_def triple_def)

lemma keeps_ret [hoare_rules]: "keeps I (retA x)"
  by (simp add: keeps_def retA_def)

lemma keeps_fail [hoare_rules]: "keeps I (failA e)"
  by (simp add: keeps_def failA_def)

lemma keeps_panic [hoare_rules]: "keeps I (panicA m)"
  by (simp add: keeps_def panicA_def)

lemma keeps_liftR [hoare_rules]: "keeps I (liftR r)"
  by (cases r) (simp_all add: liftR_def keeps_ret keeps_fail)

lemma keeps_bind [hoare_rules]: "keeps I f \<Longrightarrow> (\<And>x. keeps I (g x)) \<Longrightarrow> keeps I (bindA f g)"
  by (auto simp: keeps_def bindA_def split: prod.splits outcome.splits)

lemma keeps_try [hoare_rules]: "keeps I f \<Longrightarrow> (\<And>x. keeps I (g x)) \<Longrightarrow> keeps I (tryA f g)"
  by (auto simp: keeps_def tryA_def split: prod.splits outcome.splits)

lemma keeps_mapE [hoare_rules]: "keeps I f \<Longrightarrow> keeps I (mapE h f)"
  unfolding mapE_def by (rule keeps_try) (auto intro: hoare_rules split: sum.split)

lemma keeps_if [hoare_rules]:
  "(b \<Longrightarrow> keeps I f) \<Longrightarrow> (\<not> b \<Longrightarrow> keeps I g) \<Longrightarrow> keeps I (if b then f else g)"
  by simp

lemma keeps_option [hoare_rules]:
  "(x = None \<Longrightarrow> keeps I f) \<Longrightarrow> (\<And>y. x = Some y \<Longrightarrow> keeps I (g y)) \<Longrightarrow>
    keeps I (case x of None \<Rightarrow> f | Some y \<Rightarrow> g y)"
  by (cases x) auto

lemma keeps_sum [hoare_rules]:
  "(\<And>e. x = Inl e \<Longrightarrow> keeps I (f e)) \<Longrightarrow> (\<And>y. x = Inr y \<Longrightarrow> keeps I (g y)) \<Longrightarrow>
    keeps I (case x of Inl e \<Rightarrow> f e | Inr y \<Rightarrow> g y)"
  by (cases x) auto

lemma keeps_prod [hoare_rules]:
  "(\<And>a b. x = (a, b) \<Longrightarrow> keeps I (f a b)) \<Longrightarrow> keeps I (case x of (a, b) \<Rightarrow> f a b)"
  by (cases x) auto

lemma keeps_Let [hoare_rules]: "(\<And>y. y = x \<Longrightarrow> keeps I (f y)) \<Longrightarrow> keeps I (Let x f)"
  by (simp add: Let_def)

text \<open>\<open>returns V f\<close>: every value that \<open>f\<close> returns satisfies \<open>V\<close>, whatever the state.\<close>

definition returns :: "('a \<Rightarrow> bool) \<Rightarrow> ('s, 'e, 'a) action \<Rightarrow> bool" where
  "returns V f \<longleftrightarrow> (\<forall>s x s'. f s = (Ret x, s') \<longrightarrow> V x)"

lemma returns_ret [hoare_rules]: "V x \<Longrightarrow> returns V (retA x)"
  by (simp add: returns_def retA_def)

lemma returns_fail [hoare_rules]: "returns V (failA e)" "returns V (panicA msg)"
  by (simp_all add: returns_def failA_def panicA_def)

lemma returns_bind [hoare_rules]: "returns U f \<Longrightarrow> (\<And>x. U x \<Longrightarrow> returns V (g x)) \<Longrightarrow> returns V (bindA f g)"
  by (fastforce simp: returns_def bindA_def split: prod.splits outcome.splits)

lemma returns_bind_any: "(\<And>x. returns V (g x)) \<Longrightarrow> returns V (bindA f g)"
  by (fastforce simp: returns_def bindA_def split: prod.splits outcome.splits)

lemma returns_mapE: "returns V f \<Longrightarrow> returns V (mapE h f)"
  by (fastforce simp: returns_def mapE_def tryA_def retA_def failA_def split: prod.splits outcome.splits)

lemma returns_liftR: "(\<And>x. r = Inr x \<Longrightarrow> V x) \<Longrightarrow> returns V (liftR r)"
  by (cases r) (auto simp: returns_def liftR_def failA_def retA_def)

lemma keeps_bind_returns:
  "keeps I f \<Longrightarrow> returns V f \<Longrightarrow> (\<And>x. V x \<Longrightarrow> keeps I (g x)) \<Longrightarrow> keeps I (bindA f g)"
  by (fastforce simp: keeps_def returns_def bindA_def split: prod.splits outcome.splits)

lemma keeps_try_returns:
  "keeps I f \<Longrightarrow> returns V f \<Longrightarrow> (\<And>e. keeps I (g (Inl e))) \<Longrightarrow> (\<And>x. V x \<Longrightarrow> keeps I (g (Inr x))) \<Longrightarrow>
    keeps I (tryA f g)"
  by (fastforce simp: keeps_def returns_def tryA_def split: prod.splits outcome.splits)

text \<open>What the invariant implies may be assumed.\<close>

lemma keeps_assume: "(\<And>s. I s \<Longrightarrow> P) \<Longrightarrow> (P \<Longrightarrow> keeps I f) \<Longrightarrow> keeps I f"
  by (auto simp: keeps_def)

lemma triple_bind_keeps:
  assumes "keeps I f" and "returns V f" and "\<And>x. V x \<Longrightarrow> triple I (g x) Q"
    and "\<And>s e. I s \<Longrightarrow> Q (Fail e) s" and "\<And>s msg. I s \<Longrightarrow> Q (Panic msg) s"
  shows "triple I (bindA f g) Q"
proof (rule tripleI)
  fix s assume "I s"
  obtain r s' where f: "f s = (r, s')" by fastforce
  with assms(1) \<open>I s\<close> have "I s'" by (metis keepsD snd_conv)
  then show "Q (fst (bindA f g s)) (snd (bindA f g s))"
    using assms(2-) f by (cases r) (auto simp: bindA_def triple_def returns_def)
qed

lemma returns_True: "returns (\<lambda>_. True) f"
  by (simp add: returns_def)

lemma keeps_triple_weaken: "keeps I f \<Longrightarrow> (\<And>r s. I s \<Longrightarrow> Q r s) \<Longrightarrow> triple I f Q"
  by (simp add: keeps_def triple_def)

lemma triple_mapE_Fail:
  assumes "triple P f (\<lambda>r s. (\<forall>x. r = Ret x \<longrightarrow> Q (Ret x) s) \<and> (\<forall>e. r = Fail e \<longrightarrow> Q (Fail (h e)) s) \<and>
     (\<forall>msg. r = Panic msg \<longrightarrow> Q (Panic msg) s))"
  shows "triple P (mapE h f) Q"
  by (rule triple_mapE, rule triple_post [OF assms]) (auto split: outcome.splits)

lemma triple_if:
  "(b \<Longrightarrow> triple P f Q) \<Longrightarrow> (\<not> b \<Longrightarrow> triple P g Q) \<Longrightarrow> triple P (if b then f else g) Q"
  by simp

lemma triple_option:
  "(x = None \<Longrightarrow> triple P f Q) \<Longrightarrow> (\<And>y. x = Some y \<Longrightarrow> triple P (g y) Q) \<Longrightarrow>
    triple P (case x of None \<Rightarrow> f | Some y \<Rightarrow> g y) Q"
  by (cases x) auto

end
