(* ===== verification/Go_Errors.thy ===== *)
theory Go_Errors
  imports Prelude
begin

text \<open>
  Go error values, as far as the code looks into them: the text \<open>Error()\<close> returns, the
  sentinels \<open>errors.Is\<close> finds along the chain of wrapped errors, and what \<open>errors.As\<close> finds
  there of the types the transaction manager asks for (a JSON-RPC response error, an HTTP
  status error, a URL error, a network error).
\<close>

text \<open>
  The sentinels of \<open>txmngr.go\<close>, \<open>observer.go\<close> and \<open>txmngr_provider/tx.go\<close>, then those of the
  standard library and go-ethereum that the code compares with.
\<close>

datatype sentinel =
    ErrIdempotencyConflict
  | ErrAttemptHashConflict
  | ErrStaleTransaction
  | ErrTransactionUnprocessable
  | ErrLaneAwaitingNodeNonce
  | ErrLaneStateChanged
  | ErrUnsignedTransactionExpired
  | CtxCanceled
  | CtxDeadlineExceeded
  | EthNotFound
  | SqlErrNoRows

text \<open>
  \<open>errRPC\<close> is the code and the message of the first \<open>rpc.Error\<close> in the chain, \<open>errHTTP\<close> the
  status of the first \<open>rpc.HTTPError\<close>, \<open>errURL\<close> the operation of the first \<open>url.Error\<close>,
  \<open>errNetTimeout\<close> the answer of the first \<open>net.Error\<close>'s \<open>Timeout()\<close>, and \<open>errTypeName\<close> what
  the verb \<open>%T\<close> prints.
\<close>

record go_error =
  errText :: string
  errIs :: "sentinel list"
  errRPC :: "(int \<times> string) option"
  errHTTP :: "int option"
  errURL :: "string option"
  errNetTimeout :: "bool option"
  errTypeName :: string

type_synonym 'a res = "go_error + 'a"
type_synonym ('s, 'a) act = "('s, go_error, 'a) action"

definition errors_is :: "go_error \<Rightarrow> sentinel \<Rightarrow> bool" where
  "errors_is e s \<longleftrightarrow> s \<in> set (errIs e)"

text \<open>\<open>errors.New\<close> of a sentinel or of a plain message (\<open>None\<close>).\<close>

definition errors_new :: "sentinel option \<Rightarrow> string \<Rightarrow> go_error" where
  "errors_new s msg = \<lparr>errText = msg, errIs = (case s of None \<Rightarrow> [] | Some x \<Rightarrow> [x]),
     errRPC = None, errHTTP = None, errURL = None, errNetTimeout = None,
     errTypeName = ''*errors.fundamental''\<rparr>"

text \<open>\<open>fmt.Errorf("prefix: %w", err)\<close>: the chain stays, the text is prefixed.\<close>

definition wrapf :: "string \<Rightarrow> go_error \<Rightarrow> go_error" where
  "wrapf op e = e\<lparr>errText := op @ '': '' @ errText e, errTypeName := ''*fmt.wrapError''\<rparr>"

text \<open>\<open>fmt.Errorf("%w: %w", a, b)\<close>: both chains, searched from left to right.\<close>

definition first_some :: "'a option \<Rightarrow> 'a option \<Rightarrow> 'a option" where
  "first_some a b = (case a of None \<Rightarrow> b | Some x \<Rightarrow> Some x)"

definition wrap2 :: "go_error \<Rightarrow> go_error \<Rightarrow> go_error" where
  "wrap2 a b = \<lparr>errText = errText a @ '': '' @ errText b, errIs = errIs a @ errIs b,
     errRPC = first_some (errRPC a) (errRPC b), errHTTP = first_some (errHTTP a) (errHTTP b),
     errURL = first_some (errURL a) (errURL b),
     errNetTimeout = first_some (errNetTimeout a) (errNetTimeout b),
     errTypeName = ''*fmt.wrapErrors''\<rparr>"

lemma errors_is_new [simp]: "errors_is (errors_new s msg) x \<longleftrightarrow> s = Some x"
  by (cases s) (auto simp: errors_is_def errors_new_def)

lemma errors_is_wrapf [simp]: "errors_is (wrapf p e) x \<longleftrightarrow> errors_is e x"
  by (simp add: errors_is_def wrapf_def)

lemma errors_is_wrap2 [simp]: "errors_is (wrap2 a b) x \<longleftrightarrow> errors_is a x \<or> errors_is b x"
  by (simp add: errors_is_def wrap2_def)

lemma errRPC_wrap [simp]: "errRPC (wrapf p e) = errRPC e" "errRPC (errors_new s msg) = None"
  by (simp_all add: wrapf_def errors_new_def)

end
