(* ===== verification/Tx_Provider.thy ===== *)
theory Tx_Provider
  imports Go_Errors
begin

text \<open>
  \<open>evm/txmngr/txmngr_provider/tx.go\<close>: transactions, signed attempts, statuses, and the
  interface \<open>TransactionsQ\<close> through which the manager reaches its durable store. A Go interface
  value is a dictionary of operations, so the interface is a record of actions over the
  provider's state \<open>'q\<close>; what a provider promises is the locale \<open>transactions_queue\<close>.
\<close>

section \<open>Transactions of go-ethereum\<close>

text \<open>
  \<open>types.Transaction\<close>, \<open>types.Receipt\<close> and \<open>types.SetCodeAuthorization\<close> are go-ethereum's. The
  model keeps what their accessors report (\<open>Type\<close>, \<open>ChainId\<close>, \<open>Nonce\<close>, \<open>GasPrice\<close>, \<open>GasTipCap\<close>,
  \<open>GasFeeCap\<close>, \<open>Gas\<close>, \<open>To\<close>, \<open>Value\<close>, \<open>Data\<close>, the authorization list and the signature).
  Hashing and signer recovery are parameters of the manager.
\<close>

record SetCodeAuthorization =
  authChainID :: int
  authAddress :: address
  authNonce :: u64
  authV :: int
  authR :: int
  authS :: int

record eth_tx =
  txType :: nat
  txChainId :: "int option"
  txNonce :: u64
  txGasPrice :: int
  txGasTipCap :: int
  txGasFeeCap :: int
  txGas :: u64
  txTo :: "address option"
  txValue :: int
  txData :: bytes
  txAuthList :: "SetCodeAuthorization list"
  txSignature :: "int \<times> int \<times> int"

record receipt =
  receiptTxHash :: hash
  receiptStatus :: u64

definition ReceiptStatusFailed :: u64 where
  "ReceiptStatusFailed = 0"

definition ReceiptStatusSuccessful :: u64 where
  "ReceiptStatusSuccessful = 1"

section \<open>Rows of the store\<close>

datatype TxStatus =
    SucceedTxStatus
  | ErroredTxStatus
  | ProcessingTxStatus
  | ConfirmingTxStatus
  | PendingTxStatus
  | FailedTxStatus

definition ActiveStatuses :: "TxStatus list" where
  "ActiveStatuses = [PendingTxStatus, ProcessingTxStatus, ConfirmingTxStatus]"

definition TerminalStatuses :: "TxStatus list" where
  "TerminalStatuses = [SucceedTxStatus, FailedTxStatus, ErroredTxStatus]"

record TransactionAttempt =
  attTransactionID :: string
  attHash :: hash
  attNonce :: u64
  attTx :: "eth_tx option"
  attCreatedAt :: time

record Transaction =
  ID :: string
  IntentID :: "string option"
  OperationKey :: "string option"
  PayloadHash :: "string option"
  ChainID :: u64
  Sender :: address
  Address :: address
  Data :: bytes
  Value :: "int option"
  GasLimit :: u64
  RawAuthorizations :: "SetCodeAuthorization list"
  AssignedNonce :: "u64 option"
  Tx :: "eth_tx option"
  Receipt :: "receipt option"
  Status :: TxStatus
  Msg :: string
  NextActionAt :: time
  BroadcastPending :: bool
  RejectedAttemptHash :: "string option"
  NonceConsumedAt :: "time option"
  NotifiedAt :: "time option"
  NotificationAttempts :: u32
  NextNotificationAt :: time
  NotificationError :: string
  UpdatedAt :: time
  CreatedAt :: time

definition IsCompleted :: "Transaction \<Rightarrow> bool" where
  "IsCompleted tx \<longleftrightarrow> Status tx = ErroredTxStatus \<or> Status tx = FailedTxStatus \<or>
     Status tx = SucceedTxStatus"

text \<open>\<open>AttemptHashConflictError\<close>: every provider reports the conflict in these words.\<close>

definition AttemptHashConflictError :: "string \<Rightarrow> string \<Rightarrow> go_error" where
  "AttemptHashConflictError h owner = (errors_new (Some ErrAttemptHashConflict)
     (''signed transaction hash already belongs to another transaction'' @ '': hash '' @ h @
      '' belongs to transaction '' @ owner))\<lparr>errTypeName := ''*fmt.wrapError''\<rparr>"

section \<open>Queries\<close>

text \<open>
  The \<open>Filter...\<close>, \<open>OrderBy...\<close> and \<open>Limit\<close> methods each return a branch of the query with one
  more element. A query is the list of its filters, its order and its limit; the closures the
  providers build are the constructors of \<open>tx_filter\<close>.
\<close>

datatype tx_filter =
    FilterByIds "string list"
  | FilterByChainIds "u64 list"
  | FilterBySenderOrUnset address
  | FilterByStatuses "TxStatus list"
  | FilterReadyBefore time
  | FilterNotificationReadyBefore time

datatype txOrder = orderNone | orderNextAction | orderLaneWork | orderNextNotification

record tx_query =
  qFilters :: "tx_filter list"
  qOrderBy :: txOrder
  qLimit :: u64

text \<open>
  What each filter selects, in the words of the in-memory provider's closures (the SQL
  predicates of the PostgreSQL provider say the same).
\<close>

fun filter_holds :: "tx_filter \<Rightarrow> Transaction \<Rightarrow> bool" where
  "filter_holds (FilterByIds ids) v = (ID v \<in> set ids)"
| "filter_holds (FilterByChainIds chainIDs) v = (ChainID v \<in> set chainIDs)"
| "filter_holds (FilterBySenderOrUnset sender) v = (Sender v = sender \<or> Sender v = 0)"
| "filter_holds (FilterByStatuses statuses) v = (Status v \<in> set statuses)"
| "filter_holds (FilterReadyBefore before) v = (\<not> NextActionAt v > before)"
| "filter_holds (FilterNotificationReadyBefore before) v =
     (IsCompleted v \<and> IntentID v \<noteq> None \<and> IntentID v \<noteq> Some [] \<and> NotifiedAt v = None \<and>
      \<not> NextNotificationAt v > before)"

definition New :: tx_query where
  "New = \<lparr>qFilters = [], qOrderBy = orderNone, qLimit = 0\<rparr>"

definition withFilter :: "tx_filter \<Rightarrow> tx_query \<Rightarrow> tx_query" where
  "withFilter f q = q\<lparr>qFilters := qFilters q @ [f]\<rparr>"

definition OrderBy :: "txOrder \<Rightarrow> tx_query \<Rightarrow> tx_query" where
  "OrderBy ord q = q\<lparr>qOrderBy := ord\<rparr>"

definition Limit :: "u64 \<Rightarrow> tx_query \<Rightarrow> tx_query" where
  "Limit n q = q\<lparr>qLimit := n\<rparr>"

section \<open>The interface\<close>

text \<open>A lane lock is a handle: the key of its lane and whether its \<open>sync.Once\<close> has fired.\<close>

record laneLock =
  lockKey :: string
  lockOnce :: bool

record 'q queue =
  qInsertOrGet :: "Transaction \<Rightarrow> ('q, Transaction) act"
  qInsertAttempt :: "TransactionAttempt \<Rightarrow> ('q, unit) act"
  qUpdateIfActive :: "Transaction \<Rightarrow> ('q, unit) act"
  qUpdateNotification :: "Transaction \<Rightarrow> ('q, unit) act"
  qSelect :: "tx_query \<Rightarrow> ('q, Transaction list) act"
  qGet :: "tx_query \<Rightarrow> ('q, Transaction) act"
  qSelectAttempts :: "string \<Rightarrow> ('q, TransactionAttempt list) act"
  qSelectAttemptsByNonce :: "u64 \<Rightarrow> u64 \<Rightarrow> ('q, TransactionAttempt list) act"
  qCountByChain :: "go_error option \<Rightarrow> TxStatus list \<Rightarrow> ('q, (u64 \<times> u64) list) act"
  qMaxAssignedNonce :: "address \<Rightarrow> u64 \<Rightarrow> ('q, u64 option) act"
  qTryLockLane :: "go_error option \<Rightarrow> address \<Rightarrow> u64 \<Rightarrow> ('q, laneLock option) act"
  qUnlock :: "laneLock \<Rightarrow> ('q, laneLock) act"

section \<open>Facts about statuses\<close>

lemma IsCompleted_terminal: "IsCompleted tx \<longleftrightarrow> Status tx \<in> set TerminalStatuses"
  by (cases "Status tx") (auto simp: IsCompleted_def TerminalStatuses_def)

lemma active_iff_not_completed: "Status tx \<in> set ActiveStatuses \<longleftrightarrow> \<not> IsCompleted tx"
  by (cases "Status tx") (auto simp: IsCompleted_def ActiveStatuses_def)

lemma IsCompleted_cong: "Status a = Status b \<Longrightarrow> IsCompleted a = IsCompleted b"
  by (simp add: IsCompleted_def)

section \<open>What a provider promises\<close>

text \<open>
  The laws the manager relies on, over what the provider stores: \<open>rows q id\<close> is the transaction
  with that ID and \<open>atts q id\<close> are its signed attempts in the order they were recorded. A write
  that reports an error may or may not have been committed (the connection can be lost after
  the commit), so the laws say what is stored in either case. Reads change nothing. The
  sentinels \<open>errTransactionUnprocessable\<close>, \<open>errLaneAwaitingNodeNonce\<close> and \<open>errLaneStateChanged\<close>
  are unexported by the manager's package, so no provider can return them.
\<close>

definition private_error :: "go_error \<Rightarrow> bool" where
  "private_error e \<longleftrightarrow> errors_is e ErrTransactionUnprocessable \<or>
     errors_is e ErrLaneAwaitingNodeNonce \<or> errors_is e ErrLaneStateChanged"

definition committed :: "('k \<rightharpoonup> Transaction) \<Rightarrow> 'k \<Rightarrow> Transaction \<Rightarrow> ('k \<rightharpoonup> Transaction) \<Rightarrow> bool" where
  "committed old k tx new \<longleftrightarrow> (\<exists>cur. old k = Some cur \<and> \<not> IsCompleted cur \<and> new = old(k \<mapsto> tx))"

locale transactions_queue =
  fixes Q :: "'q queue"
    and rows :: "'q \<Rightarrow> string \<rightharpoonup> Transaction"
    and atts :: "'q \<Rightarrow> string \<Rightarrow> TransactionAttempt list"
    and invar :: "'q \<Rightarrow> bool"
  assumes row_id: "invar q \<Longrightarrow> rows q i = Some t \<Longrightarrow> ID t = i"
    and att_id: "invar q \<Longrightarrow> a \<in> set (atts q i) \<Longrightarrow> attTransactionID a = i"
    and hash_owner: "invar q \<Longrightarrow> a \<in> set (atts q i) \<Longrightarrow> b \<in> set (atts q j) \<Longrightarrow>
      attHash a = attHash b \<Longrightarrow> i = j"
    and update_law: "invar q \<Longrightarrow> qUpdateIfActive Q tx q = (r, q') \<Longrightarrow>
      invar q' \<and> atts q' = atts q \<and>
      (rows q' = rows q \<or> committed (rows q) (ID tx) tx (rows q')) \<and>
      (r = Ret () \<longrightarrow> committed (rows q) (ID tx) tx (rows q'))"
    and update_error: "invar q \<Longrightarrow> qUpdateIfActive Q tx q = (Fail e, q') \<Longrightarrow>
      \<not> private_error e \<and> (errors_is e ErrStaleTransaction \<longrightarrow> rows q' = rows q)"
    and notification_law: "invar q \<Longrightarrow> qUpdateNotification Q tx q = (r, q') \<Longrightarrow>
      invar q' \<and> atts q' = atts q \<and>
      (rows q' = rows q \<or> (\<exists>cur. rows q (ID tx) = Some cur \<and> IsCompleted cur \<and>
        NotifiedAt cur = None \<and> rows q' = (rows q)(ID tx \<mapsto>
          cur\<lparr>NotifiedAt := NotifiedAt tx, NotificationAttempts := NotificationAttempts tx,
            NextNotificationAt := NextNotificationAt tx, NotificationError := NotificationError tx,
            UpdatedAt := UpdatedAt tx\<rparr>)))"
    and attempt_law: "invar q \<Longrightarrow> qInsertAttempt Q a q = (r, q') \<Longrightarrow>
      invar q' \<and> rows q' = rows q \<and>
      (atts q' = atts q \<or> atts q' = (atts q)(attTransactionID a := atts q (attTransactionID a) @ [a])) \<and>
      (r = Ret () \<longrightarrow> (\<exists>a' \<in> set (atts q' (attTransactionID a)). attHash a' = attHash a))"
    and attempt_error: "invar q \<Longrightarrow> qInsertAttempt Q a q = (Fail e, q') \<Longrightarrow>
      \<not> private_error e \<and> \<not> errors_is e ErrStaleTransaction \<and>
      (errors_is e ErrAttemptHashConflict \<longrightarrow> atts q' = atts q)"
    and insert_law: "invar q \<Longrightarrow> qInsertOrGet Q tx q = (rt, q') \<Longrightarrow> rows q (ID tx) = None \<Longrightarrow>
      invar q' \<and> atts q' = atts q \<and> (rows q' = rows q \<or> rows q' = (rows q)(ID tx \<mapsto> tx))"
    and select_law: "invar q \<Longrightarrow> qSelect Q qy q = (rts, q') \<Longrightarrow> q' = q \<and>
      (\<forall>ts. rts = Ret ts \<longrightarrow> distinct (map ID ts) \<and>
        (\<forall>t \<in> set ts. rows q (ID t) = Some t \<and> (\<forall>f \<in> set (qFilters qy). filter_holds f t)))"
    and get_law: "invar q \<Longrightarrow> qGet Q qy q = (rt, q') \<Longrightarrow> q' = q \<and>
      (\<forall>t. rt = Ret t \<longrightarrow> rows q (ID t) = Some t \<and> (\<forall>f \<in> set (qFilters qy). filter_holds f t))"
    and attempts_law: "invar q \<Longrightarrow> qSelectAttempts Q i q = (ras, q') \<Longrightarrow> q' = q \<and>
      (\<forall>as. ras = Ret as \<longrightarrow> mset as = mset (atts q i)) \<and>
      (\<forall>e. ras = Fail e \<longrightarrow> \<not> private_error e \<and> \<not> errors_is e ErrStaleTransaction)"
    and by_nonce_law: "invar q \<Longrightarrow> qSelectAttemptsByNonce Q c n q = (ras, q') \<Longrightarrow> q' = q \<and>
      (\<forall>e. ras = Fail e \<longrightarrow> \<not> private_error e \<and> \<not> errors_is e ErrStaleTransaction)"
    and count_law: "invar q \<Longrightarrow> qCountByChain Q ce sts q = (rc, q') \<Longrightarrow> q' = q"
    and max_nonce_law: "invar q \<Longrightarrow> qMaxAssignedNonce Q s c q = (rm, q') \<Longrightarrow> q' = q \<and>
      (rm = Ret None \<longrightarrow> (\<forall>i t n. rows q i = Some t \<longrightarrow> Sender t = s \<longrightarrow> ChainID t = c \<longrightarrow>
        AssignedNonce t \<noteq> Some n)) \<and>
      (\<forall>m. rm = Ret (Some m) \<longrightarrow> (\<exists>i t. rows q i = Some t \<and> Sender t = s \<and> ChainID t = c \<and>
        AssignedNonce t = Some m) \<and> (\<forall>i t n. rows q i = Some t \<longrightarrow> Sender t = s \<longrightarrow>
        ChainID t = c \<longrightarrow> AssignedNonce t = Some n \<longrightarrow> n \<le> m))"
    and lock_law: "invar q \<Longrightarrow> qTryLockLane Q ce s c q = (rl, q') \<Longrightarrow>
      invar q' \<and> rows q' = rows q \<and> atts q' = atts q"
    and unlock_law: "invar q \<Longrightarrow> qUnlock Q lk q = (ru, q') \<Longrightarrow>
      invar q' \<and> rows q' = rows q \<and> atts q' = atts q"

end
