(* ===== verification/Nonce_Lane.thy ===== *)
theory Nonce_Lane
  imports Prelude
begin

text \<open>
  \<open>nonceLane\<close> of \<open>evm/txmngr/txmngr.go\<close>: the next free nonce of one (sender, chain) while its
  lane lock is held. Nonces are uint64, so \<open>nonce + 1\<close> wraps at the largest nonce; EIP-2681
  keeps account nonces below it, and the theorems that need it say so.
\<close>

record nonceLane =
  next_nonce :: u64
  known :: bool

definition observe :: "u64 \<Rightarrow> nonceLane \<Rightarrow> nonceLane" where
  "observe nonce l = (let nxt = nonce + 1 in
     if \<not> known l \<or> nxt > next_nonce l then \<lparr>next_nonce = nxt, known = True\<rparr> else l)"

definition reserve :: "u64 \<Rightarrow> nonceLane \<Rightarrow> u64 \<times> bool" where
  "reserve rpcNonce l = (if known l \<and> rpcNonce < next_nonce l then (0, False) else (rpcNonce, True))"

definition isTip :: "u64 \<Rightarrow> nonceLane \<Rightarrow> bool" where
  "isTip nonce l \<longleftrightarrow> known l \<and> next_nonce l = nonce + 1"

definition lane_of :: "u64 option \<Rightarrow> nonceLane" where
  "lane_of maxNonce = (case maxNonce of None \<Rightarrow> \<lparr>next_nonce = 0, known = False\<rparr>
     | Some n \<Rightarrow> \<lparr>next_nonce = n + 1, known = True\<rparr>)"

text \<open>
  \<open>covers l N\<close>: the lane's counter lies above every nonce of \<open>N\<close>, the nonces assigned in the
  lane. This is what a batch maintains.
\<close>

definition covers :: "nonceLane \<Rightarrow> u64 set \<Rightarrow> bool" where
  "covers l N \<longleftrightarrow> (\<forall>n \<in> N. known l \<and> n < next_nonce l)"

lemma less_plus_1: "n \<noteq> (-1::u64) \<Longrightarrow> m < n + 1 \<longleftrightarrow> m \<le> n"
proof -
  assume "n \<noteq> -1"
  then have "1 + n \<noteq> 0" using max_word_wrap [of n] by (auto simp: add.commute)
  then have "unat (n + 1) = Suc (unat n)" by (simp add: unatSuc add.commute)
  then show ?thesis by (auto simp: word_less_nat_alt word_le_nat_alt)
qed

lemma less_succ_word: "n \<noteq> (-1::u64) \<Longrightarrow> n < n + 1"
  by (simp add: less_plus_1)

lemma covers_observe: "covers l N \<Longrightarrow> n \<noteq> -1 \<Longrightarrow> covers (observe n l) (insert n N)"
  using less_succ_word [of n]
  by (auto simp: covers_def observe_def Let_def)

lemma covers_mono: "covers l N \<Longrightarrow> M \<subseteq> N \<Longrightarrow> covers l M"
  by (auto simp: covers_def)

lemma covers_lane_of:
  "\<lbrakk>\<And>m. mx = Some m \<Longrightarrow> m \<noteq> -1 \<and> (\<forall>n \<in> N. n \<le> m); mx = None \<Longrightarrow> N = {}\<rbrakk> \<Longrightarrow> covers (lane_of mx) N"
  using less_succ_word by (cases mx) (fastforce simp: covers_def lane_of_def)+

lemma reserve_fresh: "covers l N \<Longrightarrow> reserve r l = (n, True) \<Longrightarrow> n \<notin> N \<and> n = r"
  by (auto simp: covers_def reserve_def split: if_splits)

lemma isTip_max:
  assumes "covers l N" "isTip n l" "m \<in> N" "n \<noteq> -1"
  shows "m \<le> n"
proof -
  have "m < n + 1" using assms by (auto simp: covers_def isTip_def)
  then show ?thesis using assms(4) by (simp add: less_plus_1)
qed

end
