(* ===== verification/Gas_Fee.thy ===== *)
theory Gas_Fee
  imports Prelude
begin

text \<open>
  The fee arithmetic of \<open>evm/txmngr/txmngr.go\<close>: component-wise maxima of fees and the bump
  that a replacement adds. A \<open>*big.Int\<close> is an \<open>int option\<close>, nil being \<open>None\<close>; \<open>big.Int.Div\<close> is
  Euclidean division, which for the positive divisor 100 is \<open>div\<close>.
\<close>

section \<open>Fees\<close>

record GasFee =
  GasPrice :: "int option"
  GasTipCap :: "int option"
  GasFeeCap :: "int option"

definition cloneBigInt :: "int option \<Rightarrow> int option" where
  "cloneBigInt value = (case value of None \<Rightarrow> None | Some v \<Rightarrow> Some v)"

definition cloneGasFee :: "GasFee option \<Rightarrow> GasFee option" where
  "cloneGasFee fee = (case fee of None \<Rightarrow> None
     | Some f \<Rightarrow> Some \<lparr>GasPrice = cloneBigInt (GasPrice f), GasTipCap = cloneBigInt (GasTipCap f),
         GasFeeCap = cloneBigInt (GasFeeCap f)\<rparr>)"

fun maxBigInt :: "int option \<Rightarrow> int option \<Rightarrow> int option" where
  "maxBigInt None right = cloneBigInt right"
| "maxBigInt (Some l) None = cloneBigInt (Some l)"
| "maxBigInt (Some l) (Some r) = (if l \<ge> r then cloneBigInt (Some l) else cloneBigInt (Some r))"

fun highestGasFee :: "GasFee option \<Rightarrow> GasFee option \<Rightarrow> GasFee option" where
  "highestGasFee None right = cloneGasFee right"
| "highestGasFee (Some l) None = cloneGasFee (Some l)"
| "highestGasFee (Some l) (Some r) = Some \<lparr>GasPrice = maxBigInt (GasPrice l) (GasPrice r),
     GasTipCap = maxBigInt (GasTipCap l) (GasTipCap r),
     GasFeeCap = maxBigInt (GasFeeCap l) (GasFeeCap r)\<rparr>"

definition priorityCoefficient :: int where
  "priorityCoefficient = 15"

definition bumpGasPrice :: "int option \<Rightarrow> int \<Rightarrow> int" where
  "bumpGasPrice gasPrice coef = (case gasPrice of None \<Rightarrow> 0
     | Some p \<Rightarrow>
         (let newGasPrice = p * (100 + coef) div 100
          in if p > 0 \<and> newGasPrice \<le> p then p + 1 else newGasPrice))"

section \<open>Lemmas\<close>

lemma cloneBigInt_id [simp]: "cloneBigInt v = v"
  by (cases v) (simp_all add: cloneBigInt_def)

lemma cloneGasFee_id [simp]: "cloneGasFee f = f"
  by (cases f) (simp_all add: cloneGasFee_def)

text \<open>\<open>below a b\<close>: an absent fee bounds nothing.\<close>

definition below :: "int option \<Rightarrow> int option \<Rightarrow> bool" where
  "below a b \<longleftrightarrow> (case a of None \<Rightarrow> True | Some x \<Rightarrow> (case b of None \<Rightarrow> False | Some y \<Rightarrow> x \<le> y))"

definition fee_below :: "GasFee option \<Rightarrow> GasFee option \<Rightarrow> bool" where
  "fee_below f g \<longleftrightarrow> (case f of None \<Rightarrow> True | Some f \<Rightarrow> (case g of None \<Rightarrow> False | Some g \<Rightarrow>
     below (GasPrice f) (GasPrice g) \<and> below (GasTipCap f) (GasTipCap g) \<and>
     below (GasFeeCap f) (GasFeeCap g)))"

lemma below_refl [simp]: "below a a"
  by (cases a) (simp_all add: below_def)

lemma below_trans: "below a b \<Longrightarrow> below b c \<Longrightarrow> below a c"
  by (auto simp: below_def split: option.splits)

lemma maxBigInt_least:
  "below a (maxBigInt a b)" "below b (maxBigInt a b)"
  "below a c \<Longrightarrow> below b c \<Longrightarrow> below (maxBigInt a b) c"
  by (cases a; cases b; cases c; simp add: below_def)+

lemma fee_below_refl [simp]: "fee_below f f"
  by (cases f) (simp_all add: fee_below_def)

lemma fee_below_trans: "fee_below a b \<Longrightarrow> fee_below b c \<Longrightarrow> fee_below a c"
  by (auto simp: fee_below_def intro: below_trans split: option.splits)

lemma highestGasFee_least:
  "fee_below a (highestGasFee a b)" "fee_below b (highestGasFee a b)"
  "fee_below a c \<Longrightarrow> fee_below b c \<Longrightarrow> fee_below (highestGasFee a b) c"
  by (cases a; cases b; cases c; simp add: fee_below_def maxBigInt_least)+

lemma bumpGasPrice_mono: "p \<le> q \<Longrightarrow> 0 \<le> coef \<Longrightarrow> bumpGasPrice (Some p) coef \<le> bumpGasPrice (Some q) coef"
proof -
  assume "p \<le> q" "0 \<le> coef"
  then have "p * (100 + coef) div 100 \<le> q * (100 + coef) div 100"
    by (intro zdiv_mono1) (simp_all add: mult_right_mono)
  moreover have "r \<le> r * (100 + coef) div 100" if "0 \<le> r" for r :: int
  proof -
    have "r * 100 div 100 \<le> r * (100 + coef) div 100"
      using that \<open>0 \<le> coef\<close> by (intro zdiv_mono1) (simp_all add: mult_left_mono)
    then show ?thesis by simp
  qed
  ultimately show ?thesis
    using \<open>p \<le> q\<close> by (cases "p = q") (force simp: bumpGasPrice_def Let_def)+
qed

text \<open>
  go-ethereum replaces a pooled transaction when both fee caps exceed the old ones and reach
  the old ones raised by its price bump of 10 percent, rounded down.
\<close>

definition replaces_fee :: "int \<Rightarrow> int \<Rightarrow> bool" where
  "replaces_fee old new \<longleftrightarrow> old < new \<and> old * 110 div 100 \<le> new"

lemma replaces_fee_trans: "replaces_fee a b \<Longrightarrow> b \<le> c \<Longrightarrow> replaces_fee a c"
  by (auto simp: replaces_fee_def)

lemma bumpGasPrice_ge: "p \<le> q \<Longrightarrow> 0 \<le> coef \<Longrightarrow> 0 < q \<Longrightarrow> p < bumpGasPrice (Some q) coef"
proof -
  assume *: "p \<le> q" "0 \<le> coef" "0 < q"
  have "q < bumpGasPrice (Some q) coef" by (auto simp: bumpGasPrice_def Let_def \<open>0 < q\<close>)
  with * show ?thesis by simp
qed

lemma bumpGasPrice_replaces:
  assumes "0 < p" and "p \<le> q" and "10 \<le> coef"
  shows "replaces_fee p (bumpGasPrice (Some q) coef)"
proof -
  have "p * 110 div 100 \<le> q * (100 + coef) div 100"
    using assms by (intro zdiv_mono1 mult_mono) simp_all
  also have "\<dots> \<le> bumpGasPrice (Some q) coef"
    by (auto simp: bumpGasPrice_def Let_def)
  finally show ?thesis
    using bumpGasPrice_ge [OF assms(2)] assms by (simp add: replaces_fee_def)
qed



end
