(* ===== verification/Messages.thy ===== *)
theory Messages
  imports Go_Errors
begin

text \<open>
  The durable message of a transaction (\<open>evm/txmngr/txmngr.go\<close>): truncation at rune
  boundaries, and the composition of a rejection reason with later reconciliation errors. A Go
  string is a sequence of bytes, so a \<open>string\<close> here is the list of its bytes, each a \<open>char\<close>.
\<close>

section \<open>UTF-8\<close>

definition byte :: "char \<Rightarrow> nat" where
  "byte c = of_char c"

definition in_range :: "nat \<Rightarrow> nat \<Rightarrow> char \<Rightarrow> bool" where
  "in_range lo hi c \<longleftrightarrow> lo \<le> byte c \<and> byte c \<le> hi"

text \<open>\<open>utf8.RuneStart\<close>: the byte is not a continuation byte.\<close>

definition RuneStart :: "char \<Rightarrow> bool" where
  "RuneStart c \<longleftrightarrow> \<not> in_range 128 191 c"

text \<open>
  The width of the encoding that the string starts with, as \<open>utf8.DecodeRuneInString\<close> reports
  it; 0 where that reports an invalid encoding (\<open>RuneError\<close> of width 1) or an empty string.
\<close>

fun rune_width :: "string \<Rightarrow> nat" where
  "rune_width [] = 0"
| "rune_width (c # s) =
     (if byte c < 128 then 1
      else if byte c < 194 then 0
      else if byte c < 224 then
        (case s of c1 # _ \<Rightarrow> if in_range 128 191 c1 then 2 else 0 | [] \<Rightarrow> 0)
      else if byte c < 240 then
        (case s of c1 # c2 # _ \<Rightarrow>
           if in_range (if byte c = 224 then 160 else 128) (if byte c = 237 then 159 else 191) c1 \<and>
              in_range 128 191 c2 then 3 else 0
         | _ \<Rightarrow> 0)
      else if byte c < 245 then
        (case s of c1 # c2 # c3 # _ \<Rightarrow>
           if in_range (if byte c = 240 then 144 else 128) (if byte c = 244 then 143 else 191) c1 \<and>
              in_range 128 191 c2 \<and> in_range 128 191 c3 then 4 else 0
         | _ \<Rightarrow> 0)
      else 0)"

function valid_utf8 :: "string \<Rightarrow> bool" where
  "valid_utf8 s = (if s = [] then True else if rune_width s = 0 then False
     else valid_utf8 (drop (rune_width s) s))"
  by auto
termination by (relation "measure length") auto

text \<open>\<open>strings.ToValidUTF8(s, "")\<close>: the invalid bytes are dropped.\<close>

function ToValidUTF8 :: "string \<Rightarrow> string" where
  "ToValidUTF8 s = (if s = [] then [] else if rune_width s = 0 then ToValidUTF8 (tl s)
     else take (rune_width s) s @ ToValidUTF8 (drop (rune_width s) s))"
  by auto
termination by (relation "measure length") auto

declare valid_utf8.simps [simp del] ToValidUTF8.simps [simp del] rune_width.simps(2) [simp del]

section \<open>Truncation\<close>

definition maxTransactionMessageBytes :: nat where
  "maxTransactionMessageBytes = 512"

definition maxReconciliationPrimaryBytes :: nat where
  "maxReconciliationPrimaryBytes = maxTransactionMessageBytes div 2"

definition reconciliationSeparator :: string where
  "reconciliationSeparator = ''; reconciliation: ''"

definition messageOmissionMarker :: string where
  "messageOmissionMarker = ''...''"

text \<open>\<open>for start < len(message) && !utf8.RuneStart(message[start]) { start++ }\<close>\<close>

function tail_start :: "string \<Rightarrow> nat \<Rightarrow> nat" where
  "tail_start message start =
     (if start < length message \<and> \<not> RuneStart (message ! start)
      then tail_start message (start + 1) else start)"
  by auto
termination by (relation "measure (\<lambda>(m, i). length m - i)") auto

text \<open>\<open>for headEnd > 0 && !utf8.RuneStart(message[headEnd]) { headEnd-- }\<close>\<close>

fun head_end :: "string \<Rightarrow> nat \<Rightarrow> nat" where
  "head_end message 0 = 0"
| "head_end message (Suc k) =
     (if \<not> RuneStart (message ! Suc k) then head_end message k else Suc k)"

declare tail_start.simps [simp del]

definition messageTail :: "string \<Rightarrow> nat \<Rightarrow> string" where
  "messageTail message0 maxBytes =
     (let message = ToValidUTF8 message0
      in if length message \<le> maxBytes then message
         else drop (tail_start message (length message - maxBytes)) message)"

definition messageHeadAndTail :: "string \<Rightarrow> nat \<Rightarrow> string" where
  "messageHeadAndTail message0 maxBytes =
     (let message = ToValidUTF8 message0
      in if maxBytes \<le> 0 then []
         else if length message \<le> maxBytes then message
         else if maxBytes \<le> length messageOmissionMarker then messageTail message maxBytes
         else
           let contentBytes = maxBytes - length messageOmissionMarker;
               tailBytes = contentBytes div 2;
               headEnd = head_end message (contentBytes - tailBytes)
           in take headEnd message @ messageOmissionMarker @ messageTail message tailBytes)"

definition transactionMessageTail :: "string \<Rightarrow> string" where
  "transactionMessageTail message = messageTail message maxTransactionMessageBytes"

section \<open>Composition\<close>

text \<open>\<open>strings.Index\<close>: the first position at which the substring starts.\<close>

fun index_of :: "string \<Rightarrow> string \<Rightarrow> nat option" where
  "index_of sub [] = (if sub = [] then Some 0 else None)"
| "index_of sub (c # s) = (if prefix sub (c # s) then Some 0 else map_option Suc (index_of sub s))"

definition appendReconciliationError :: "string \<Rightarrow> go_error option \<Rightarrow> string" where
  "appendReconciliationError message0 err =
     (let message = ToValidUTF8 message0
      in case err of
           None \<Rightarrow> transactionMessageTail message
         | Some e \<Rightarrow>
             let detail = ToValidUTF8 (errText e)
             in if message = [] then transactionMessageTail detail
                else
                  let combined = message @ reconciliationSeparator @ detail
                  in if length combined \<le> maxTransactionMessageBytes then combined
                     else
                       let primaryEnd = (case index_of reconciliationSeparator message of
                             None \<Rightarrow> length message | Some i \<Rightarrow> i);
                           primary = messageHeadAndTail (take primaryEnd message) maxReconciliationPrimaryBytes;
                           tailBytes = int maxTransactionMessageBytes - int (length primary) -
                             int (length reconciliationSeparator)
                       in if tailBytes \<le> 0 then transactionMessageTail combined
                          else
                            let history = drop (primaryEnd + length reconciliationSeparator) combined
                            in primary @ reconciliationSeparator @ messageTail history (nat tailBytes))"

definition attempt_prefix :: "hash \<Rightarrow> string" where
  "attempt_prefix h = ''broadcast attempt '' @ hash_hex h @ '': ''"

definition broadcastAttemptReason :: "hash \<Rightarrow> string \<Rightarrow> string" where
  "broadcastAttemptReason h detail =
     (let detailBytes = int maxReconciliationPrimaryBytes - int (length (attempt_prefix h))
      in if detailBytes \<le> 0 then messageHeadAndTail (attempt_prefix h) maxReconciliationPrimaryBytes
         else attempt_prefix h @ messageHeadAndTail detail (nat detailBytes))"

section \<open>Encodings concatenate\<close>

lemma rune_width_le: "rune_width s \<le> length s"
  by (cases s) (auto simp: rune_width.simps split: list.splits)

text \<open>Five shapes are enough to compute a width.\<close>

lemma rune_shapes:
  obtains "s = []" | c where "s = [c]" | c c1 where "s = [c, c1]" | c c1 c2 where "s = [c, c1, c2]"
    | c c1 c2 c3 r where "s = c # c1 # c2 # c3 # r"
  by (metis neq_Nil_conv)

lemma rune_width_append: "rune_width s \<noteq> 0 \<Longrightarrow> rune_width (s @ t) = rune_width s"
  by (cases s rule: rune_shapes) (simp_all add: rune_width.simps split: if_splits)

lemma rune_width_take: "rune_width s \<noteq> 0 \<Longrightarrow> rune_width (take (rune_width s) s) = rune_width s"
  by (cases s rule: rune_shapes) (simp_all add: rune_width.simps split: if_splits)

lemma valid_utf8_Nil [simp]: "valid_utf8 []" and ToValidUTF8_Nil [simp]: "ToValidUTF8 [] = []"
  by (simp_all add: valid_utf8.simps ToValidUTF8.simps)

lemma valid_utf8_width: "valid_utf8 s \<Longrightarrow> s \<noteq> [] \<Longrightarrow> rune_width s \<noteq> 0 \<and> valid_utf8 (drop (rune_width s) s)"
  using valid_utf8.simps [of s] by (auto split: if_splits)

lemma valid_utf8_append: "valid_utf8 s \<Longrightarrow> valid_utf8 t \<Longrightarrow> valid_utf8 (s @ t)"
proof (induction s rule: valid_utf8.induct)
  case (1 s)
  show ?case
  proof (cases "s = []")
    case False
    with 1 have w: "rune_width s \<noteq> 0" "valid_utf8 (drop (rune_width s) s)"
      using valid_utf8_width by auto
    with 1 False have "valid_utf8 (drop (rune_width s) s @ t)" by blast
    then show ?thesis
      using False w rune_width_le [of s] by (subst valid_utf8.simps) (simp add: rune_width_append)
  qed (use 1 in simp)
qed

lemma ToValidUTF8_valid [simp]: "valid_utf8 (ToValidUTF8 s)"
proof (induction s rule: ToValidUTF8.induct)
  case (1 s)
  show ?case
  proof (cases "s = [] \<or> rune_width s = 0")
    case False
    have "valid_utf8 (take (rune_width s) s)"
      using False rune_width_le [of s] by (subst valid_utf8.simps) (auto simp: rune_width_take)
    with False 1 show ?thesis by (subst ToValidUTF8.simps) (auto intro: valid_utf8_append)
  qed (use 1 in \<open>auto simp: ToValidUTF8.simps [of s]\<close>)
qed

lemma ToValidUTF8_id [simp]: "valid_utf8 s \<Longrightarrow> ToValidUTF8 s = s"
proof (induction s rule: valid_utf8.induct)
  case (1 s)
  then show ?case using valid_utf8_width [of s] by (cases "s = []") (auto simp: ToValidUTF8.simps [of s])
qed

lemma valid_utf8_ascii: "(\<And>c. c \<in> set s \<Longrightarrow> byte c < 128) \<Longrightarrow> valid_utf8 s"
  by (induction s) (auto simp: valid_utf8.simps [of "_ # _"] rune_width.simps)

text \<open>Inside an encoding there are continuation bytes only, so a rune start is a boundary.\<close>

lemma rune_inner: "0 < i \<Longrightarrow> i < rune_width s \<Longrightarrow> \<not> RuneStart (s ! i)"
  by (cases s) (auto simp: rune_width.simps RuneStart_def in_range_def nth_Cons less_Suc_eq
      split: list.splits if_splits nat.splits)

lemma valid_utf8_boundary:
  "valid_utf8 s \<Longrightarrow> i \<le> length s \<Longrightarrow> i < length s \<Longrightarrow> RuneStart (s ! i) \<Longrightarrow>
    valid_utf8 (take i s) \<and> valid_utf8 (drop i s)"
proof (induction s arbitrary: i rule: valid_utf8.induct)
  case (1 s)
  define w where "w = rune_width s"
  from 1(2,4) have w: "w \<noteq> 0" "valid_utf8 (drop w s)"
    using valid_utf8_width [of s] by (cases s; auto simp: w_def)+
  have wl: "w \<le> length s" by (simp add: w_def rune_width_le)
  show ?case
  proof (cases "i = 0")
    case True
    then show ?thesis using 1(2) by simp
  next
    case False
    with rune_inner [of i s] 1(5) have iw: "w \<le> i" by (auto simp: w_def not_less [symmetric])
    have s: "s \<noteq> []" using 1(4) by auto
    have "valid_utf8 (take (i - w) (drop w s)) \<and> valid_utf8 (drop (i - w) (drop w s))"
      using 1(1) [of "i - w"] s w 1(4,5) iw by (simp add: w_def)
    moreover have "take i s = take w s @ take (i - w) (drop w s)"
      using iw by (metis le_add_diff_inverse take_add)
    moreover have "valid_utf8 (take w s)"
      using w(1) wl s by (subst valid_utf8.simps) (auto simp: w_def rune_width_take)
    ultimately show ?thesis using iw by (simp add: valid_utf8_append)
  qed
qed

section \<open>Bounds\<close>

lemma tail_start_spec:
  "start \<le> length m \<Longrightarrow> start \<le> tail_start m start \<and> tail_start m start \<le> length m \<and>
    (tail_start m start < length m \<longrightarrow> RuneStart (m ! tail_start m start))"
proof (induction m start rule: tail_start.induct)
  case (1 m start)
  then show ?case by (subst (1 2 3 4) tail_start.simps) auto
qed

lemma head_end_spec:
  "head_end m k \<le> k \<and> (0 < head_end m k \<longrightarrow> RuneStart (m ! head_end m k))"
  by (induction k) auto

lemma messageTail_spec:
  "length (messageTail m n) \<le> n \<and> valid_utf8 (messageTail m n) \<and> suffix (messageTail m n) (ToValidUTF8 m)"
proof -
  let ?m = "ToValidUTF8 m"
  let ?i = "tail_start ?m (length ?m - n)"
  have i: "length ?m - n \<le> ?i \<and> ?i \<le> length ?m \<and> (?i < length ?m \<longrightarrow> RuneStart (?m ! ?i))"
    by (rule tail_start_spec) simp
  have "valid_utf8 (drop ?i ?m)"
    using i valid_utf8_boundary [of ?m ?i] by (cases "?i < length ?m") auto
  with i show ?thesis by (auto simp: messageTail_def Let_def suffix_drop)
qed

lemma messageTail_short: "valid_utf8 m \<Longrightarrow> length m \<le> n \<Longrightarrow> messageTail m n = m"
  by (simp add: messageTail_def)

lemma marker_valid [simp]: "valid_utf8 messageOmissionMarker" "valid_utf8 reconciliationSeparator"
  by (rule valid_utf8_ascii; auto simp: messageOmissionMarker_def reconciliationSeparator_def byte_def)+

lemma messageHeadAndTail_spec:
  "length (messageHeadAndTail m n) \<le> n \<and> valid_utf8 (messageHeadAndTail m n)"
proof (cases "n = 0 \<or> length (ToValidUTF8 m) \<le> n \<or> n \<le> length messageOmissionMarker")
  case True
  then show ?thesis using messageTail_spec [of "ToValidUTF8 m" n]
    by (auto simp: messageHeadAndTail_def Let_def)
next
  case False
  let ?m = "ToValidUTF8 m"
  define c where "c = n - length messageOmissionMarker"
  define h where "h = head_end ?m (c - c div 2)"
  have h: "h \<le> c - c div 2" "0 < h \<longrightarrow> RuneStart (?m ! h)"
    using head_end_spec [of ?m "c - c div 2"] by (simp_all add: h_def)
  have "h < length ?m" using h(1) False by (auto simp: c_def)
  then have "valid_utf8 (take h ?m)"
    using h(2) valid_utf8_boundary [of ?m h] by (cases "h = 0") auto
  moreover have "length (take h ?m @ messageOmissionMarker @ messageTail ?m (c div 2)) \<le> n"
    using h(1) messageTail_spec [of ?m "c div 2"] False by (auto simp: c_def)
  ultimately show ?thesis
    using False messageTail_spec [of ?m "c div 2"]
    by (simp add: messageHeadAndTail_def Let_def valid_utf8_append flip: c_def h_def)
qed

lemma messageHeadAndTail_short: "valid_utf8 m \<Longrightarrow> length m \<le> n \<Longrightarrow> messageHeadAndTail m n = m"
  by (cases "n = 0") (simp_all add: messageHeadAndTail_def)

lemma transactionMessageTail_ok:
  "length (transactionMessageTail m) \<le> maxTransactionMessageBytes \<and> valid_utf8 (transactionMessageTail m)"
  using messageTail_spec by (simp add: transactionMessageTail_def)

section \<open>Properties\<close>

lemma index_of_Some: "index_of sub s = Some i \<Longrightarrow> i + length sub \<le> length s \<and> prefix sub (drop i s)"
  by (induction s arbitrary: i) (auto split: if_splits dest: prefix_length_le)

lemma separator_length [simp]: "length reconciliationSeparator = 18"
  by (simp add: reconciliationSeparator_def)

text \<open>The part of a message before its first separator.\<close>

definition primary_end :: "string \<Rightarrow> nat" where
  "primary_end m = (case index_of reconciliationSeparator m of None \<Rightarrow> length m | Some i \<Rightarrow> i)"

lemma primary_end_le: "primary_end m \<le> length m"
  using index_of_Some [of reconciliationSeparator m] by (auto simp: primary_end_def split: option.splits)

lemma valid_utf8_Cons_ascii: "byte c < 128 \<Longrightarrow> valid_utf8 (c # s) \<longleftrightarrow> valid_utf8 s"
  by (simp add: valid_utf8.simps [of "c # s"] rune_width.simps)

lemma valid_utf8_ascii_append: "(\<And>c. c \<in> set a \<Longrightarrow> byte c < 128) \<Longrightarrow> valid_utf8 (a @ b) \<longleftrightarrow> valid_utf8 b"
  by (induction a) (simp_all add: valid_utf8_Cons_ascii)

lemma separator_ascii: "c \<in> set reconciliationSeparator \<Longrightarrow> byte c < 128"
  by (auto simp: reconciliationSeparator_def byte_def)

lemma valid_utf8_hd: "valid_utf8 s \<Longrightarrow> s \<noteq> [] \<Longrightarrow> RuneStart (s ! 0)"
  using valid_utf8_width [of s]
  by (cases s) (auto simp: rune_width.simps RuneStart_def in_range_def split: if_splits)

lemma tail_start_le:
  "start \<le> k \<Longrightarrow> k \<le> length m \<Longrightarrow> k = length m \<or> RuneStart (m ! k) \<Longrightarrow> tail_start m start \<le> k"
proof (induction m start rule: tail_start.induct)
  case (1 m start)
  then show ?case
    by (cases "start = k"; subst tail_start.simps) auto
qed

lemma messageTail_keeps:
  assumes "valid_utf8 (h @ e)" and "valid_utf8 e" and "length e \<le> n"
  shows "suffix e (messageTail (h @ e) n)"
proof (cases "length (h @ e) \<le> n")
  case True
  then show ?thesis using assms(1) by (simp add: messageTail_short suffix_def)
next
  case False
  have "tail_start (h @ e) (length (h @ e) - n) \<le> length h"
    using False assms(3) valid_utf8_hd [OF assms(2)]
    by (intro tail_start_le) (auto simp: nth_append)
  then show ?thesis
    using False assms(1) by (simp add: messageTail_def suffix_def)
qed

lemma history_split:
  assumes "valid_utf8 m" and "valid_utf8 d"
  shows "valid_utf8 (take (primary_end m) m) \<and> (\<exists>h.
    drop (primary_end m + 18) (m @ reconciliationSeparator @ d) = h @ d \<and> valid_utf8 (h @ d))"
proof (cases "index_of reconciliationSeparator m")
  case None
  then show ?thesis using assms by (auto simp: primary_end_def)
next
  case (Some i)
  then have i: "primary_end m = i" by (simp add: primary_end_def)
  from index_of_Some [OF Some] obtain r where r: "drop i m = reconciliationSeparator @ r"
    and il: "i + 18 \<le> length m" by (auto simp: prefix_def)
  have "m ! i = drop i m ! 0" using il by simp
  then have "m ! i = reconciliationSeparator ! 0" by (simp add: r nth_append)
  then have "byte (m ! i) < 128" by (metis nth_mem separator_ascii separator_length zero_less_numeral)
  then have "RuneStart (m ! i)" by (simp add: RuneStart_def in_range_def)
  with il assms(1) have b: "valid_utf8 (take i m)" "valid_utf8 (drop i m)"
    using valid_utf8_boundary [of m i] by auto
  then have "valid_utf8 r" using r separator_ascii valid_utf8_ascii_append [of reconciliationSeparator r] by simp
  moreover have "drop (i + 18) m = r"
    using r by (metis add.commute append_eq_conv_conj drop_drop separator_length)
  ultimately show ?thesis
    using b(1) il assms(2) i
    by (intro conjI exI [of _ "r @ reconciliationSeparator"]) (simp_all add: valid_utf8_append)
qed

lemma hex_nat_ascii: "c \<in> set (hex_nat k n) \<Longrightarrow> (of_char c :: nat) < 128"
proof (induction k arbitrary: n)
  case (Suc k)
  have "(of_char (digit_char d) :: nat) < 128" if "d < 16" for d
    using that by (rule less16_cases) (simp_all add: digit_char_def)
  with Suc show ?case by auto
qed simp

text \<open>The branches of \<open>appendReconciliationError\<close>; the fallback for a long primary is never taken.\<close>

lemma appendReconciliationError_cases:
  obtains "err = None" "appendReconciliationError m err = transactionMessageTail (ToValidUTF8 m)"
  | e where "err = Some e" "ToValidUTF8 m = []"
      "appendReconciliationError m err = transactionMessageTail (ToValidUTF8 (errText e))"
  | e where "err = Some e" "appendReconciliationError m err =
        ToValidUTF8 m @ reconciliationSeparator @ ToValidUTF8 (errText e)"
      "length (ToValidUTF8 m @ reconciliationSeparator @ ToValidUTF8 (errText e)) \<le> maxTransactionMessageBytes"
  | e P n where "err = Some e"
      "P = messageHeadAndTail (take (primary_end (ToValidUTF8 m)) (ToValidUTF8 m)) maxReconciliationPrimaryBytes"
      "n = maxTransactionMessageBytes - length P - 18" "length P \<le> 256"
      "appendReconciliationError m err = P @ reconciliationSeparator @ messageTail
        (drop (primary_end (ToValidUTF8 m) + 18)
          (ToValidUTF8 m @ reconciliationSeparator @ ToValidUTF8 (errText e))) n"
proof (cases err)
  case None
  then show ?thesis using that(1) by (simp add: appendReconciliationError_def)
next
  case (Some e)
  let ?m = "ToValidUTF8 m" and ?c = "ToValidUTF8 m @ reconciliationSeparator @ ToValidUTF8 (errText e)"
  let ?P = "messageHeadAndTail (take (primary_end ?m) ?m) maxReconciliationPrimaryBytes"
  have P: "length ?P \<le> 256"
    using messageHeadAndTail_spec [of "take (primary_end ?m) ?m" maxReconciliationPrimaryBytes]
    by (simp add: maxReconciliationPrimaryBytes_def maxTransactionMessageBytes_def)
  then have n: "nat (int maxTransactionMessageBytes - int (length ?P) - int (length reconciliationSeparator)) =
      maxTransactionMessageBytes - length ?P - 18"
    "int maxTransactionMessageBytes - int (length ?P) - int (length reconciliationSeparator) > 0"
    by (auto simp: maxTransactionMessageBytes_def)
  consider "?m = []" | "?m \<noteq> []" "length ?c \<le> maxTransactionMessageBytes"
    | "?m \<noteq> []" "\<not> length ?c \<le> maxTransactionMessageBytes" by blast
  then show ?thesis
  proof cases
    case 1
    with Some that(2) show ?thesis by (simp add: appendReconciliationError_def)
  next
    case 2
    with Some that(3) show ?thesis by (simp add: appendReconciliationError_def)
  next
    case 3
    then have "appendReconciliationError m err = ?P @ reconciliationSeparator @
        messageTail (drop (primary_end ?m + 18) ?c) (maxTransactionMessageBytes - length ?P - 18)"
      using Some n unfolding appendReconciliationError_def Let_def primary_end_def [symmetric]
      by simp
    with Some that(4) P show ?thesis by blast
  qed
qed

lemma appendReconciliationError_ok:
  "length (appendReconciliationError m err) \<le> 512 \<and> valid_utf8 (appendReconciliationError m err)"
proof (cases rule: appendReconciliationError_cases [of err m])
  case (4 e P n)
  have P: "valid_utf8 P" using 4(2) messageHeadAndTail_spec by simp
  define T where "T = messageTail (drop (primary_end (ToValidUTF8 m) + 18)
        (ToValidUTF8 m @ reconciliationSeparator @ ToValidUTF8 (errText e))) n"
  have T: "length T \<le> n" "valid_utf8 T" using messageTail_spec by (simp_all add: T_def)
  show ?thesis
    unfolding 4(5) T_def [symmetric] using P T 4(3,4)
    by (simp add: valid_utf8_append maxTransactionMessageBytes_def)
qed (use transactionMessageTail_ok in \<open>simp_all add: valid_utf8_append maxTransactionMessageBytes_def\<close>)

text \<open>
  Whatever message a row carries and whatever the error says, the message recorded after a
  failed reconciliation has at most 512 bytes and is valid UTF-8 (PostgreSQL refuses any other
  text), and so are the truncated message and the reason of a rejected broadcast.
\<close>

theorem durable_message_bounds:
  "length (appendReconciliationError m err) \<le> 512 \<and> valid_utf8 (appendReconciliationError m err) \<and>
   length (transactionMessageTail m) \<le> 512 \<and> valid_utf8 (transactionMessageTail m) \<and>
   length (broadcastAttemptReason h m) \<le> 256 \<and> valid_utf8 (broadcastAttemptReason h m)"
proof -
  have pre: "length (attempt_prefix h) = 86"
    by (simp add: attempt_prefix_def hash_hex_def)
  have "valid_utf8 (attempt_prefix h)"
    unfolding attempt_prefix_def hash_hex_def
    by (intro valid_utf8_append valid_utf8_ascii) (auto simp: byte_def dest: hex_nat_ascii)
  then have "length (broadcastAttemptReason h m) \<le> 256 \<and> valid_utf8 (broadcastAttemptReason h m)"
    using messageHeadAndTail_spec [of m 170]
    by (simp add: broadcastAttemptReason_def pre maxReconciliationPrimaryBytes_def
        maxTransactionMessageBytes_def valid_utf8_append)
  then show ?thesis
    using transactionMessageTail_ok [of m] appendReconciliationError_ok [of m err]
    by (simp add: maxTransactionMessageBytes_def)
qed

text \<open>
  Truncation keeps the evidence that matters: however many reconciliation errors follow, the
  original reason (everything before the first separator, when it fits its half of the
  message, as every rejection reason does) stays at the front, and the newest error stays at
  the end in full when it has at most 238 bytes.
\<close>

theorem reconciliation_keeps_reason:
  assumes "valid_utf8 m" and "m \<noteq> []" and "primary_end m \<le> 256"
    and "valid_utf8 (errText e)" and "length (errText e) \<le> 238"
  shows "prefix (take (primary_end m) m) (appendReconciliationError m (Some e)) \<and>
    suffix (errText e) (appendReconciliationError m (Some e))"
proof (cases rule: appendReconciliationError_cases [of "Some e" m])
  case (3 e')
  then show ?thesis using assms by (auto simp: take_is_prefix suffix_def intro: prefix_prefix)
next
  case (4 e' P n)
  obtain h where h: "drop (primary_end m + 18) (m @ reconciliationSeparator @ errText e) = h @ errText e"
      "valid_utf8 (h @ errText e)" and p: "valid_utf8 (take (primary_end m) m)"
    using history_split [OF assms(1,4)] by metis
  have P: "P = take (primary_end m) m"
    using 4(2) assms(1,3) p by (simp add: messageHeadAndTail_short maxReconciliationPrimaryBytes_def
        maxTransactionMessageBytes_def)
  have "length (errText e) \<le> n"
    using 4(3,4) assms(5) by (simp add: maxTransactionMessageBytes_def)
  then have "suffix (errText e) (messageTail (h @ errText e) n)"
    using h(2) assms(4) by (intro messageTail_keeps)
  then show ?thesis
    using 4(1,5) assms(1,4) h(1) unfolding P by (auto simp: suffix_def)
qed (use assms in auto)

theorem reconciliation_keeps_reason_witness:
  "prefix (take (primary_end ''rejected'') ''rejected'')
     (appendReconciliationError ''rejected'' (Some (errors_new None ''timeout''))) \<and>
   suffix ''timeout'' (appendReconciliationError ''rejected'' (Some (errors_new None ''timeout'')))"
proof -
  have "valid_utf8 ''rejected''" "valid_utf8 ''timeout''"
    by (rule valid_utf8_ascii; auto simp: byte_def)+
  then show ?thesis
    using reconciliation_keeps_reason [of "''rejected''" "errors_new None ''timeout''"]
    by (simp add: errors_new_def primary_end_def reconciliationSeparator_def)
qed

end
