(* ===== verification/Broadcast_Errors.thy ===== *)
theory Broadcast_Errors
  imports Messages
begin

text \<open>
  What \<open>evm/txmngr/txmngr.go\<close> reads out of an RPC error: its classification into a
  disposition, and a summary that is safe to store, with the three redaction patterns.
\<close>

section \<open>Searching in messages\<close>

text \<open>
  \<open>strings.ToLower\<close>, as far as a search for ASCII text can tell: the upper-case ASCII letters,
  and the two other runes whose lower case is ASCII (the Kelvin sign, U+212A, and the dotted
  capital I, U+0130). Every other rune has a lower case outside ASCII and is left as it is.
\<close>

definition ascii_lower :: "char \<Rightarrow> char" where
  "ascii_lower c = (if in_range 65 90 c then char_of (byte c + 32) else c)"

fun go_lower :: "string \<Rightarrow> string" where
  "go_lower [] = []"
| "go_lower (c # s) =
     (if byte c = 226 \<and> take 2 s = [CHR 0x84, CHR 0xAA] then CHR ''k'' # go_lower (drop 2 s)
      else if byte c = 196 \<and> take 1 s = [CHR 0xB0] then CHR ''i'' # go_lower (drop 1 s)
      else ascii_lower c # go_lower s)"

definition go_contains :: "string \<Rightarrow> string \<Rightarrow> bool" where
  "go_contains s sub \<longleftrightarrow> index_of sub s \<noteq> None"

definition containsAny :: "go_error option \<Rightarrow> string list \<Rightarrow> bool" where
  "containsAny err needles = (case err of None \<Rightarrow> False
     | Some e \<Rightarrow> (let message = go_lower (errText e)
         in list_ex (\<lambda>needle. go_contains message needle) needles))"

section \<open>Classification\<close>

datatype broadcastErrorDisposition =
    broadcastAmbiguous
  | broadcastAlreadyKnown
  | broadcastNonceConsumed
  | broadcastFeeRejected
  | broadcastTransactionRejectedRetryable
  | broadcastTransactionRejectedPermanent

definition rpcErrorCode :: "go_error option \<Rightarrow> int" where
  "rpcErrorCode err = (case err of None \<Rightarrow> 0
     | Some e \<Rightarrow> (case errRPC e of None \<Rightarrow> 0 | Some (code, _) \<Rightarrow> code))"

definition feePolicyRejectionMessages :: "string list" where
  "feePolicyRejectionMessages =
     [''replacement transaction underpriced'', ''replacement underpriced'', ''transaction underpriced'',
      ''fee too low to replace'', ''max fee per gas less than block base fee'',
      ''max fee per gas below block base fee'', ''fee cap less than block base fee'',
      ''fee cap below base fee'']"

definition permanentRejectionMessages :: "string list" where
  "permanentRejectionMessages =
     [''gas limit too high'', ''exceeds block gas limit'', ''tx gas limit exceeds'',
      ''intrinsic gas too low'', ''intrinsic gas exceeds gas limit'', ''gas uint64 overflow'',
      ''invalid sender'', ''sender not an eoa'', ''invalid transaction signature'',
      ''invalid signature'', ''invalid chain id'', ''only replay-protected'',
      ''unsupported transaction type'', ''transaction type not supported'',
      ''max initcode size exceeded'', ''initcode size exceeded'',
      ''max priority fee per gas higher than max fee per gas'',
      ''max priority fee per gas exceeds max fee per gas'', ''tip above fee cap'']"

definition isNonceTooLowError :: "go_error option \<Rightarrow> bool" where
  "isNonceTooLowError err = (let code = rpcErrorCode err
     in code = 1 \<or> code = -38010 \<or> containsAny err [''nonce too low''])"

definition isAlreadyKnownError :: "go_error option \<Rightarrow> bool" where
  "isAlreadyKnownError err = (rpcErrorCode err = 1000 \<or>
     (\<not> containsAny err [''unknown transaction''] \<and>
      containsAny err [''already known'', ''known transaction'']))"

definition isFeePolicyRejectionError :: "go_error option \<Rightarrow> bool" where
  "isFeePolicyRejectionError err = (let code = rpcErrorCode err
     in code = 802 \<or> code = 806 \<or> containsAny err feePolicyRejectionMessages)"

definition isRetryableTransactionRejectionError :: "go_error option \<Rightarrow> bool" where
  "isRetryableTransactionRejectionError err = (let code = rpcErrorCode err
     in code = 2 \<or> code = 809 \<or> code = -38011 \<or> code = -38014 \<or> code = -38026 \<or>
        code = -32700 \<or> code = -32600 \<or> code = -32601 \<or> code = -32004 \<or> code = -32006 \<or>
        containsAny err [''nonce too high'', ''insufficient funds'', ''transaction pool is full'',
          ''txpool is full''])"

definition permanent_codes :: "int list" where
  "permanent_codes = [3, 4, 800, 801, 803, 804, 805, 807, 808, 1001,
     -38013, -38015, -38024, -38025, -32602]"

definition isPermanentTransactionRejectionError :: "go_error option \<Rightarrow> bool" where
  "isPermanentTransactionRejectionError err =
     (if isAlreadyKnownError err \<or> isNonceTooLowError err \<or> isFeePolicyRejectionError err \<or>
         isRetryableTransactionRejectionError err
      then False
      else case err of
             None \<Rightarrow> False
           | Some e \<Rightarrow>
               (case errRPC e of
                  None \<Rightarrow> False
                | Some (code, _) \<Rightarrow>
                    if code \<in> set permanent_codes then True
                    else containsAny err permanentRejectionMessages))"

definition classifyBroadcastError :: "go_error option \<Rightarrow> broadcastErrorDisposition" where
  "classifyBroadcastError err =
     (if err = None then broadcastAmbiguous
      else if isAlreadyKnownError err then broadcastAlreadyKnown
      else if isNonceTooLowError err then broadcastNonceConsumed
      else if isFeePolicyRejectionError err then broadcastFeeRejected
      else if isRetryableTransactionRejectionError err then broadcastTransactionRejectedRetryable
      else if isPermanentTransactionRejectionError err then broadcastTransactionRejectedPermanent
      else broadcastAmbiguous)"

section \<open>Redaction\<close>

text \<open>
  The patterns, byte by byte: every class of theirs is a set of ASCII characters, the negation
  of one, or one with the two other runes that fold to an ASCII letter (the long s, U+017F, to
  s, and the Kelvin sign to k), so that runes of several bytes are matched or refused as a
  whole. Each pattern is a fixed text and maximal runs of classes that exclude what follows
  them, so the leftmost match at a position is determined.
\<close>

text \<open>\<open>strip_fold lit s\<close> removes the literal (in lower case), compared under \<open>(?i)\<close>.\<close>

fun strip_fold :: "string \<Rightarrow> string \<Rightarrow> string option" where
  "strip_fold [] s = Some s"
| "strip_fold (l # lit) [] = None"
| "strip_fold (l # lit) (c # s) =
     (if ascii_lower c = l then strip_fold lit s
      else if l = CHR ''s'' \<and> byte c = 197 \<and> take 1 s = [CHR 0xBF] then strip_fold lit (drop 1 s)
      else None)"

definition url_char :: "char \<Rightarrow> bool" where
  "url_char c \<longleftrightarrow> byte c \<notin> {9, 10, 12, 13, 32, 34, 39, 60, 62}"

text \<open>A matcher looks at the previous character and at the text, and returns what follows a match.\<close>

type_synonym matcher = "char option \<Rightarrow> string \<Rightarrow> string option"

definition url_alternative :: "string \<Rightarrow> string \<Rightarrow> string option" where
  "url_alternative lit s = (case strip_fold lit s of
       Some (c # r) \<Rightarrow> if url_char c then Some (dropWhile url_char r) else None
     | _ \<Rightarrow> None)"

fun first_alternative :: "string list \<Rightarrow> string \<Rightarrow> string option" where
  "first_alternative [] s = None"
| "first_alternative (l # ls) s =
     (case url_alternative l s of Some r \<Rightarrow> Some r | None \<Rightarrow> first_alternative ls s)"

definition url_schemes :: "string list" where
  "url_schemes = [''https://'', ''http://'', ''wss://'', ''ws://'']"

text \<open>\<open>(?i)(?:https?|wss?)://[^\s"'<>]+\<close>\<close>

definition rpcURLPattern :: matcher where
  "rpcURLPattern prev s = first_alternative url_schemes s"

definition word_char :: "char \<Rightarrow> bool" where
  "word_char c \<longleftrightarrow> in_range 48 57 c \<or> in_range 65 90 c \<or> in_range 97 122 c \<or> c = CHR ''_''"

definition boundary :: "char option \<Rightarrow> string \<Rightarrow> bool" where
  "boundary prev s \<longleftrightarrow> (case prev of None \<Rightarrow> False | Some p \<Rightarrow> word_char p) \<noteq>
     (case s of [] \<Rightarrow> False | c # _ \<Rightarrow> word_char c)"

definition space_char :: "char \<Rightarrow> bool" where
  "space_char c \<longleftrightarrow> byte c \<in> {9, 10, 12, 13, 32}"

fun skip_token :: "string \<Rightarrow> string" where
  "skip_token [] = []"
| "skip_token (c # s) =
     (if word_char c \<or> c \<in> set ''.~+/=-'' then skip_token s
      else if byte c = 197 \<and> take 1 s = [CHR 0xBF] then skip_token (drop 1 s)
      else if byte c = 226 \<and> take 2 s = [CHR 0x84, CHR 0xAA] then skip_token (drop 2 s)
      else c # s)"

text \<open>\<open>(?i)\bbearer\s+[a-z0-9._~+/=-]+\<close>\<close>

definition bearerPattern :: matcher where
  "bearerPattern prev s =
     (if \<not> boundary prev s then None
      else case strip_fold ''bearer'' s of
             None \<Rightarrow> None
           | Some r \<Rightarrow>
               (let t = dropWhile space_char r
                in if t = r \<or> skip_token t = t then None else Some (skip_token t)))"

definition jwt_char :: "char \<Rightarrow> bool" where
  "jwt_char c \<longleftrightarrow> word_char c \<or> c = CHR ''-''"

text \<open>One segment and the dot behind it.\<close>

definition jwt_segment :: "string \<Rightarrow> string option" where
  "jwt_segment s = (case (takeWhile jwt_char s, dropWhile jwt_char s) of
       (_ # _, c # r) \<Rightarrow> if c = CHR ''.'' then Some r else None
     | _ \<Rightarrow> None)"

text \<open>The longest non-empty part of the last segment, at most \<open>k\<close> characters, that ends at a boundary.\<close>

fun jwt_last :: "string \<Rightarrow> nat \<Rightarrow> string option" where
  "jwt_last s 0 = None"
| "jwt_last s (Suc k) = (if boundary (Some (s ! k)) (drop (Suc k) s) then Some (drop (Suc k) s)
     else jwt_last s k)"

text \<open>\<open>\beyJ[a-zA-Z0-9_-]+\.[a-zA-Z0-9_-]+\.[a-zA-Z0-9_-]+\b\<close>\<close>

definition jwtPattern :: matcher where
  "jwtPattern prev s =
     (if \<not> boundary prev s \<or> take 3 s \<noteq> ''eyJ'' then None
      else case jwt_segment (drop 3 s) of
             None \<Rightarrow> None
           | Some r \<Rightarrow>
               (case jwt_segment r of
                  None \<Rightarrow> None
                | Some t \<Rightarrow> jwt_last t (length (takeWhile jwt_char t))))"

text \<open>\<open>Regexp.ReplaceAllString\<close> for a pattern that never matches the empty string.\<close>

function ReplaceAllString :: "matcher \<Rightarrow> string \<Rightarrow> char option \<Rightarrow> string \<Rightarrow> string" where
  "ReplaceAllString m rep prev s =
     (case s of
        [] \<Rightarrow> []
      | c # t \<Rightarrow>
          (case m prev s of
             Some r \<Rightarrow>
               if length r < length s
               then rep @ ReplaceAllString m rep (Some (s ! (length s - length r - 1))) r
               else c # ReplaceAllString m rep (Some c) t
           | None \<Rightarrow> c # ReplaceAllString m rep (Some c) t))"
  by pat_completeness auto
termination by (relation "measure (\<lambda>(_, _, _, s). length s)") auto

declare ReplaceAllString.simps [simp del]

definition redactRPCText :: "string \<Rightarrow> string" where
  "redactRPCText message =
     ReplaceAllString jwtPattern ''<redacted-jwt>'' None
       (ReplaceAllString bearerPattern ''Bearer <redacted>'' None
          (ReplaceAllString rpcURLPattern ''<redacted-rpc-url>'' None message))"

definition rpcErrorSummary :: "go_error option \<Rightarrow> string" where
  "rpcErrorSummary err =
     (case err of
        None \<Rightarrow> []
      | Some e \<Rightarrow>
          (case errRPC e of
             Some (code, message) \<Rightarrow> ''rpc error '' @ dec_int code @ '': '' @ redactRPCText message
           | None \<Rightarrow>
               (case errHTTP e of
                  Some status \<Rightarrow> ''rpc HTTP status '' @ dec_int status
                | None \<Rightarrow>
                    if errors_is e CtxDeadlineExceeded then ''rpc transport timeout''
                    else if errors_is e CtxCanceled then ''rpc transport cancelled''
                    else case errURL e of
                           Some op \<Rightarrow> ''rpc transport '' @ op @ '' failed''
                         | None \<Rightarrow>
                             if errNetTimeout e = Some True then ''rpc transport timeout''
                             else ''rpc transport error ('' @ errTypeName e @ '')'')))"

definition redactedRPCError :: "string \<Rightarrow> go_error \<Rightarrow> go_error" where
  "redactedRPCError operation err =
     (if errors_is err CtxCanceled \<or> errors_is err CtxDeadlineExceeded then wrapf operation err
      else errors_new None (operation @ '': '' @ rpcErrorSummary (Some err)))"

section \<open>Properties\<close>

lemma redacted_private [simp]:
  "errors_is (redactedRPCError op err) s \<longleftrightarrow>
    errors_is err s \<and> (errors_is err CtxCanceled \<or> errors_is err CtxDeadlineExceeded)"
  by (auto simp: redactedRPCError_def)



section \<open>No URL survives redaction\<close>

definition url_at :: "string \<Rightarrow> bool" where
  "url_at u \<longleftrightarrow> rpcURLPattern None u \<noteq> None"

definition url_free :: "string \<Rightarrow> bool" where
  "url_free s \<longleftrightarrow> (\<forall>u. suffix u s \<longrightarrow> \<not> url_at u)"

lemma strip_fold_append: "strip_fold l p = Some r \<Longrightarrow> strip_fold l (p @ t) = Some (r @ t)"
proof (induction l p arbitrary: r rule: strip_fold.induct)
  case (3 l lit c s)
  then show ?case by (cases s) (auto split: if_splits)
qed auto

lemma strip_fold_split:
  "strip_fold l s = Some r \<Longrightarrow> \<exists>p. s = p @ r \<and> strip_fold l p = Some [] \<and>
    (\<forall>x \<in> set p. ascii_lower x \<in> set l \<or> byte x \<in> {197, 191})"
proof (induction l s rule: strip_fold.induct)
  case (3 l lit c s)
  show ?case
  proof (cases "ascii_lower c = l")
    case True
    with 3 obtain p where "s = p @ r" "strip_fold lit p = Some []"
      "\<forall>x \<in> set p. ascii_lower x \<in> set lit \<or> byte x \<in> {197, 191}" by auto
    then show ?thesis using True by (intro exI [of _ "c # p"]) auto
  next
    case False
    with 3 have c: "l = CHR ''s''" "byte c = 197" "take 1 s = [CHR 0xBF]"
      and "strip_fold lit (drop 1 s) = Some r" by (auto split: if_splits)
    with 3(2) False obtain p where p: "drop 1 s = p @ r" "strip_fold lit p = Some []"
      "\<forall>x \<in> set p. ascii_lower x \<in> set lit \<or> byte x \<in> {197, 191}" by blast
    from c(3) p(1) have "s = CHR 0xBF # p @ r" by (cases s) auto
    then show ?thesis
      using False c p by (intro exI [of _ "c # CHR 0xBF # p"]) (auto simp: byte_def)
  qed
qed auto

lemma url_alternative_iff:
  "url_alternative l u \<noteq> None \<longleftrightarrow> (\<exists>c r. strip_fold l u = Some (c # r) \<and> url_char c)"
  by (auto simp: url_alternative_def split: option.splits list.splits)

lemma first_alternative_iff:
  "first_alternative ls u \<noteq> None \<longleftrightarrow> (\<exists>l \<in> set ls. url_alternative l u \<noteq> None)"
  by (induction ls) (auto split: option.splits)

lemma first_alternative_Some: "first_alternative ls u = Some r \<Longrightarrow> \<exists>l. url_alternative l u = Some r"
  by (induction ls) (auto split: option.splits)

definition scheme :: "string \<Rightarrow> bool" where
  "scheme p \<longleftrightarrow> (\<exists>l \<in> set url_schemes. strip_fold l p = Some [])"

lemma url_at_iff: "url_at u \<longleftrightarrow> (\<exists>p c t. u = p @ c # t \<and> url_char c \<and> scheme p)"
proof
  assume "url_at u"
  then obtain l c r where l: "l \<in> set url_schemes" "strip_fold l u = Some (c # r)" "url_char c"
    unfolding url_at_def rpcURLPattern_def first_alternative_iff url_alternative_iff by blast
  with strip_fold_split [OF l(2)] show "\<exists>p c t. u = p @ c # t \<and> url_char c \<and> scheme p"
    unfolding scheme_def by blast
next
  assume "\<exists>p c t. u = p @ c # t \<and> url_char c \<and> scheme p"
  then obtain p c t l where "u = p @ c # t" "url_char c" "l \<in> set url_schemes" "strip_fold l p = Some []"
    by (auto simp: scheme_def)
  moreover from this have "strip_fold l u = Some (c # t)"
    using strip_fold_append [of l p "[]" "c # t"] by simp
  ultimately show "url_at u"
    unfolding url_at_def rpcURLPattern_def first_alternative_iff url_alternative_iff by blast
qed

lemma scheme_chars:
  assumes "scheme p" and "x \<in> set p"
  shows "ascii_lower x \<in> set ''https://w'' \<or> byte x \<in> {197, 191}"
proof -
  obtain l where l: "l \<in> set url_schemes" "strip_fold l p = Some []"
    using assms(1) by (auto simp: scheme_def)
  from strip_fold_split [OF l(2)] assms(2)
  have "ascii_lower x \<in> set l \<or> byte x \<in> {197, 191}" by auto
  moreover have "set l \<subseteq> set ''https://w''" using l(1) by (auto simp: url_schemes_def)
  ultimately show ?thesis by blast
qed

lemma ascii_lower_eq: "ascii_lower c = d \<Longrightarrow> byte c = byte d \<or> byte c + 32 = byte d"
  by (auto simp: ascii_lower_def in_range_def byte_def split: if_splits)

lemma url_at_Cons:
  assumes "url_at (c # u)"
  shows "byte c \<in> {72, 87, 104, 119}"
proof -
  obtain p d t l where p: "c # u = p @ d # t" "l \<in> set url_schemes" "strip_fold l p = Some []"
    using assms by (auto simp: url_at_iff scheme_def)
  then obtain p' where "p = c # p'" by (cases p) (auto simp: url_schemes_def)
  with p(2,3) have "ascii_lower c = CHR ''h'' \<or> ascii_lower c = CHR ''w''"
    by (auto simp: url_schemes_def split: if_splits)
  then show ?thesis by (auto dest!: ascii_lower_eq simp: byte_def)
qed

lemma ReplaceAllString_match:
  "m prev s = Some r \<Longrightarrow> length r < length s \<Longrightarrow> \<exists>prev'. ReplaceAllString m rep prev s =
    rep @ ReplaceAllString m rep prev' r"
  by (subst ReplaceAllString.simps) (auto split: list.splits)

lemma ReplaceAllString_copy:
  "\<nexists>r. m prev (c # u) = Some r \<and> length r < length (c # u) \<Longrightarrow>
    ReplaceAllString m rep prev (c # u) = c # ReplaceAllString m rep (Some c) u"
  by (subst ReplaceAllString.simps) (auto split: option.splits)

lemma ReplaceAllString_shape:
  "\<exists>a t t'. s = a @ t' \<and> ReplaceAllString m rep prev s = a @ t \<and>
    ((t = [] \<and> t' = []) \<or> (\<exists>prev r t2. m prev t' = Some r \<and> t = rep @ t2))"
proof (induction s arbitrary: prev)
  case Nil
  then show ?case by (simp add: ReplaceAllString.simps)
next
  case (Cons c u)
  show ?case
  proof (cases "\<exists>r. m prev (c # u) = Some r \<and> length r < length (c # u)")
    case True
    then obtain r where r: "m prev (c # u) = Some r" "length r < length (c # u)" by blast
    obtain prev' where eq: "ReplaceAllString m rep prev (c # u) = rep @ ReplaceAllString m rep prev' r"
      using ReplaceAllString_match [of m prev "c # u" r rep, OF r] by (rule exE)
    show ?thesis
      by (rule exI [of _ "[]"], rule exI [of _ "rep @ ReplaceAllString m rep prev' r"], rule exI [of _ "c # u"])
        (use r(1) eq in simp, blast)
  next
    case False
    obtain a t t' where "u = a @ t'" "ReplaceAllString m rep (Some c) u = a @ t"
        "(t = [] \<and> t' = []) \<or> (\<exists>prev r t2. m prev t' = Some r \<and> t = rep @ t2)"
      using Cons [of "Some c"] by (elim exE conjE) (rule that)
    then show ?thesis using ReplaceAllString_copy [of m prev c u rep, OF False]
      by (intro exI [of _ "c # a"] exI [of _ t] exI [of _ t']) simp
  qed
qed

lemma url_free_Cons: "url_free (c # s) \<longleftrightarrow> \<not> url_at (c # s) \<and> url_free s"
  by (auto simp: url_free_def suffix_Cons)

lemma url_free_append:
  "(\<And>u. suffix u a \<Longrightarrow> u \<noteq> [] \<Longrightarrow> \<not> url_at (u @ b)) \<Longrightarrow> url_free b \<Longrightarrow> url_free (a @ b)"
proof (induction a)
  case (Cons c a)
  from Cons.prems(1) [of "c # a"] Cons.IH Cons.prems show ?case
    by (simp add: url_free_Cons suffix_Cons)
qed simp

text \<open>
  A replacement keeps a text free of URLs, or makes it so, when no URL starts where it leaves
  the text unchanged, none starts inside the replacement, and none runs into it that was not
  there before.
\<close>

lemma ReplaceAllString_url_free:
  assumes skip: "\<And>prev v. suffix v s \<Longrightarrow> url_at v \<Longrightarrow> \<exists>r. m prev v = Some r \<and> length r < length v"
    and run: "\<And>prev a t t' r. m prev t' = Some r \<Longrightarrow> url_at (a @ rep @ t) \<Longrightarrow> a \<noteq> [] \<Longrightarrow> url_at (a @ t')"
    and suf: "\<And>prev v r. m prev v = Some r \<Longrightarrow> suffix r v"
    and rep: "\<And>u t. suffix u rep \<Longrightarrow> u \<noteq> [] \<Longrightarrow> \<not> url_at (u @ t)"
  shows "url_free (ReplaceAllString m rep prev s)"
  using skip
proof (induction s arbitrary: prev rule: length_induct)
  case (1 s)
  show ?case
  proof (cases s)
    case Nil
    then show ?thesis by (auto simp: ReplaceAllString.simps url_free_def url_at_iff)
  next
    case (Cons c u)
    show ?thesis
    proof (cases "\<exists>r. m prev s = Some r \<and> length r < length s")
      case True
      then obtain r where r: "m prev s = Some r" "length r < length s" by blast
      obtain prev' where eq: "ReplaceAllString m rep prev s = rep @ ReplaceAllString m rep prev' r"
        using ReplaceAllString_match [of m prev s r rep, OF r] by (rule exE)
      have "url_free (ReplaceAllString m rep prev' r)"
        using 1(1) [rule_format, OF r(2)] 1(2) suffix_order.trans [OF _ suf [OF r(1)]] by metis
      with rep show ?thesis unfolding eq by (intro url_free_append)
    next
      case False
      then have eq: "ReplaceAllString m rep prev s = c # ReplaceAllString m rep (Some c) u"
        unfolding Cons by (rule ReplaceAllString_copy)
      have free: "url_free (ReplaceAllString m rep (Some c) u)"
        by (rule 1(1) [rule_format]) (use 1(2) Cons in \<open>simp_all add: suffix_Cons\<close>)
      have "\<not> url_at (c # u)" using 1(2) [of "c # u" prev] False Cons by auto
      moreover obtain a t t' where sh: "u = a @ t'" "ReplaceAllString m rep (Some c) u = a @ t"
          "(t = [] \<and> t' = []) \<or> (\<exists>prev r t2. m prev t' = Some r \<and> t = rep @ t2)"
        using ReplaceAllString_shape [of u m rep "Some c"] by (elim exE conjE) (rule that)
      ultimately have "\<not> url_at (c # ReplaceAllString m rep (Some c) u)"
        using run [of _ t' _ "c # a"] by auto
      with free eq show ?thesis by (simp add: url_free_Cons)
    qed
  qed
qed

lemma byte_eq: "byte c = byte d \<longleftrightarrow> c = d"
  by (simp add: byte_def)

lemma append_avoid: "a @ x # t = q @ r \<Longrightarrow> x \<notin> set q \<Longrightarrow> \<exists>a2. a = q @ a2"
  by (auto simp: append_eq_append_conv2 append_eq_Cons_conv Cons_eq_append_conv)

text \<open>
  Before a character that no scheme contains, a URL is complete, or that character is the one
  behind the scheme, and then any other such character does as well.
\<close>

lemma url_at_before:
  assumes "url_at (a @ x # t)" and x: "\<And>p. scheme p \<Longrightarrow> x \<notin> set p"
    and y: "url_char x \<Longrightarrow> \<exists>y t2. t' = y # t2 \<and> url_char y"
  shows "url_at (a @ t')"
proof -
  obtain p c r where u: "a @ x # t = p @ c # r" "url_char c" "scheme p"
    using assms(1) by (auto simp: url_at_iff)
  from append_avoid [OF u(1) x [OF u(3)]] obtain a2 where a2: "a = p @ a2" by blast
  show ?thesis
  proof (cases a2)
    case Nil
    then have "c = x" using u(1) a2 by simp
    with y u(2) Nil a2 u(3) show ?thesis by (auto simp: url_at_iff)
  next
    case (Cons d a3)
    then have "c = d" using u(1) a2 by simp
    with Cons a2 u(2,3) show ?thesis by (auto simp: url_at_iff)
  qed
qed

lemma scheme_avoids: "scheme p \<Longrightarrow> x \<in> set p \<Longrightarrow> byte x \<notin> {60, 66}"
  using scheme_chars [of p x] by (auto dest!: ascii_lower_eq simp: byte_def)

lemma bearer_first:
  "bearerPattern prev t = Some r \<Longrightarrow> \<exists>y t2. t = y # t2 \<and> url_char y"
  by (cases t) (auto simp: bearerPattern_def url_char_def byte_def dest!: ascii_lower_eq
      split: if_splits option.splits)

lemma suffix_dropWhile: "suffix (dropWhile P s) s"
  by (metis suffixI takeWhile_dropWhile_id)

lemma strip_fold_suffix: "strip_fold l s = Some r \<Longrightarrow> suffix r s"
  unfolding suffix_def using strip_fold_split by blast

lemma skip_token_suffix: "suffix (skip_token s) s"
proof (induction s rule: skip_token.induct)
  case (2 c s)
  then show ?case
    using suffix_drop [of 1 s] suffix_drop [of 2 s]
    by (auto intro: suffix_ConsI suffix_order.trans)
qed simp

lemma url_suffix: "rpcURLPattern prev s = Some r \<Longrightarrow> suffix r s \<and> length r < length s"
proof -
  assume "rpcURLPattern prev s = Some r"
  then obtain l where "url_alternative l s = Some r"
    using first_alternative_Some unfolding rpcURLPattern_def by blast
  then obtain c t where t: "strip_fold l s = Some (c # t)" "r = dropWhile url_char t"
    by (auto simp: url_alternative_def split: option.splits list.splits if_splits)
  have "suffix (c # t) s" using strip_fold_suffix [OF t(1)] .
  then have "suffix t s" "length t < length s" by (auto simp: suffix_def)
  then show ?thesis
    using suffix_dropWhile [of url_char t] t(2) length_dropWhile_le [of url_char t]
    by (auto intro: suffix_order.trans)
qed

lemma bearer_suffix: "bearerPattern prev s = Some r \<Longrightarrow> suffix r s"
  by (auto simp: bearerPattern_def Let_def dest!: strip_fold_suffix
      intro: suffix_order.trans [OF skip_token_suffix] suffix_order.trans [OF suffix_dropWhile]
      split: if_splits option.splits)

lemma jwt_last_suffix: "jwt_last s k = Some r \<Longrightarrow> suffix r s"
  by (induction k) (auto simp: suffix_drop split: if_splits)

lemma jwt_segment_suffix: "jwt_segment s = Some r \<Longrightarrow> suffix r s"
  using suffix_dropWhile [of jwt_char s]
  by (auto simp: jwt_segment_def suffix_Cons split: list.splits if_splits dest: suffix_ConsD)

lemma jwt_suffix: "jwtPattern prev s = Some r \<Longrightarrow> suffix r s"
  by (auto simp: jwtPattern_def dest!: jwt_segment_suffix jwt_last_suffix
      intro: suffix_order.trans [OF _ suffix_drop] suffix_order.trans
      split: if_splits option.splits)

lemma url_at_w: "\<not> url_at (CHR ''w'' # CHR ''t'' # u)"
proof
  assume "url_at (CHR ''w'' # CHR ''t'' # u)"
  then obtain p c t l where p: "CHR ''w'' # CHR ''t'' # u = p @ c # t" "l \<in> set url_schemes"
      "strip_fold l p = Some []" by (auto simp: url_at_iff scheme_def)
  from p(1) consider "p = []" | "p = [CHR ''w'']" | p' where "p = CHR ''w'' # CHR ''t'' # p'"
    by (auto simp: Cons_eq_append_conv)
  then show False
    using p(2,3) by cases (auto simp: url_schemes_def ascii_lower_def in_range_def byte_def split: if_splits)
qed

lemma suffix_no_url:
  assumes "\<And>c t. c \<in> set rep \<Longrightarrow> byte c \<in> {72, 87, 104, 119} \<Longrightarrow> False" and "suffix u rep" and "u \<noteq> []"
  shows "\<not> url_at (u @ t)"
proof -
  obtain c u' where u: "u = c # u'" using assms(3) by (cases u) auto
  have "c \<in> set rep" using assms(2) u by (auto simp: suffix_def)
  then show ?thesis using assms(1) url_at_Cons [of c "u' @ t"] u by auto
qed

lemma jwt_no_url: "suffix u ''<redacted-jwt>'' \<Longrightarrow> u \<noteq> [] \<Longrightarrow> \<not> url_at (u @ t)"
  using url_at_Cons [of "hd u" "tl u @ t"] url_at_w
  by (auto simp: suffix_Cons byte_def)



end
