(* ===== verification/Tx_World.thy ===== *)
theory Tx_World
  imports Tx_Provider Nonce_Lane Gas_Fee Broadcast_Errors
begin

text \<open>
  The world in which \<open>evm/txmngr/txmngr.go\<close> runs and the operations its steps are made of.
  Everything outside the repository answers through a counter: the \<open>i\<close>-th call of the
  environment (an RPC, the clock, the context, a callback, the signer) gets the answer the
  parameters give for \<open>i\<close>, so a theorem for all parameters covers every behaviour of nodes,
  clocks and signers, changes between two calls included.
\<close>

section \<open>The environment\<close>

text \<open>
  \<open>EthClient\<close>: the methods of go-ethereum's client that the manager calls. A nil \<open>*big.Int\<close>,
  header, receipt or transaction is \<open>None\<close>; a header is represented by its base fee.
\<close>

record eth_client =
  PendingNonceAt :: "nat \<Rightarrow> address \<Rightarrow> u64 res"
  SendTransaction :: "nat \<Rightarrow> eth_tx \<Rightarrow> unit res"
  TransactionReceipt :: "nat \<Rightarrow> hash \<Rightarrow> receipt option res"
  TransactionByHash :: "nat \<Rightarrow> hash \<Rightarrow> eth_tx option res"
  SuggestGasPrice :: "nat \<Rightarrow> int option res"
  HeaderByNumber :: "nat \<Rightarrow> int option option res"
  SuggestGasTipCap :: "nat \<Rightarrow> int option res"

text \<open>\<open>bind.TransactOpts\<close>: the account and its signer.\<close>

record transact_opts =
  optFrom :: address
  optSigner :: "nat \<Rightarrow> address \<Rightarrow> eth_tx \<Rightarrow> eth_tx res"

datatype callback_result = CallbackOk | CallbackErr go_error | CallbackPanic string

text \<open>
  The clock, the context, \<open>uuid.New\<close>, and go-ethereum's functions on values: transaction hash,
  signer recovery (\<open>types.Sender\<close> with the latest signer of the transaction's chain),
  \<open>Address.Hex\<close>, Keccak-256 and the JSON of an authorization list.
\<close>

record host =
  clock :: "nat \<Rightarrow> time"
  ctxErr :: "nat \<Rightarrow> go_error option"
  uuid :: "nat \<Rightarrow> string"
  txHash :: "eth_tx \<Rightarrow> hash"
  txSender :: "eth_tx \<Rightarrow> address res"
  addrHex :: "address \<Rightarrow> string"
  keccak :: "string \<Rightarrow> hash"
  authJSON :: "SetCodeAuthorization list \<Rightarrow> string res"

text \<open>\<open>txManager\<close>: what \<open>New\<close> and its options configure. A Go map is an association list.\<close>

record 'q txManager =
  mHost :: host
  transactionsQ :: "'q queue"
  clients :: "(u64 \<times> eth_client) list"
  mSender :: address
  bumpIntervalMap :: "(u64 \<times> duration) list"
  blockTimeMap :: "(u64 \<times> duration) list"
  getTransactOpts :: "(nat \<Rightarrow> u64 \<Rightarrow> transact_opts option res) option"
  beforeAttempt :: "(nat \<Rightarrow> Transaction \<Rightarrow> bool \<Rightarrow> time \<times> go_error option) option"
  onStatusChange :: "(nat \<Rightarrow> Transaction \<Rightarrow> callback_result) option"

text \<open>
  The state: the durable store, the number of environment calls so far, the nonce lane of the
  batch in progress, the round-robin index, and the trace of what left the process, newest
  first. A send is recorded with the store as it was when the send happened.
\<close>

datatype 'q event =
    EvSend u64 eth_tx 'q
  | EvLaneBarrier u64 string
  | EvResult u64 string
  | EvActive u64 u64
  | EvCallback Transaction

record 'q world =
  store :: 'q
  tick :: nat
  lane :: nonceLane
  nextChainIndex :: nat
  trace :: "'q event list"

definition env :: "(nat \<Rightarrow> 'a) \<Rightarrow> ('q world, 'a) act" where
  "env f w = (Ret (f (tick w)), w\<lparr>tick := tick w + 1\<rparr>)"

definition rpc :: "(nat \<Rightarrow> 'a res) \<Rightarrow> ('q world, 'a) act" where
  "rpc f = bindA (env f) liftR"

definition onQ :: "('q, 'a) act \<Rightarrow> ('q world, 'a) act" where
  "onQ f w = (case f (store w) of (r, q) \<Rightarrow> (r, w\<lparr>store := q\<rparr>))"

definition getLane :: "('q world, nonceLane) act" where
  "getLane w = (Ret (lane w), w)"

definition setLane :: "nonceLane \<Rightarrow> ('q world, unit) act" where
  "setLane l w = (Ret (), w\<lparr>lane := l\<rparr>)"

definition laneObserve :: "u64 \<Rightarrow> ('q world, unit) act" where
  "laneObserve nonce w = (Ret (), w\<lparr>lane := observe nonce (lane w)\<rparr>)"

definition emit :: "('q \<Rightarrow> 'q event) \<Rightarrow> ('q world, unit) act" where
  "emit ev w = (Ret (), w\<lparr>trace := ev (store w) # trace w\<rparr>)"

text \<open>\<open>defer\<close>: the second action runs whatever the outcome of the first, and its error is dropped.\<close>

definition deferA :: "('s, 'a) act \<Rightarrow> ('s, 'b) act \<Rightarrow> ('s, 'a) act" where
  "deferA f g s = (case f s of (r, s') \<Rightarrow> (r, snd (g s')))"

definition time_now :: "'q txManager \<Rightarrow> ('q world, time) act" where
  "time_now m = env (clock (mHost m))"

definition ctx_err :: "'q txManager \<Rightarrow> ('q world, go_error option) act" where
  "ctx_err m = env (ctxErr (mHost m))"

text \<open>Calling a method of the nil client of an unknown chain panics.\<close>

definition client_of :: "'q txManager \<Rightarrow> u64 \<Rightarrow> ('q world, eth_client) act" where
  "client_of m chainID = (case map_of (clients m) chainID of
     None \<Rightarrow> panicA ''invalid memory address or nil pointer dereference'' | Some c \<Rightarrow> retA c)"

definition update_if_active :: "'q txManager \<Rightarrow> Transaction \<Rightarrow> ('q world, unit) act" where
  "update_if_active m tx = onQ (qUpdateIfActive (transactionsQ m) tx)"

section \<open>Constants and sentinels\<close>

definition maxFeeReplacements :: nat where "maxFeeReplacements = 5"
definition notificationWorkBatch :: u64 where "notificationWorkBatch = 50"
definition maxChainWorkers :: nat where "maxChainWorkers = 4"
definition maxTransactionsPerLane :: u64 where "maxTransactionsPerLane = 25"
definition maxHashCollisionResigns :: nat where "maxHashCollisionResigns = 8"
definition exhaustedPollInterval :: duration where "exhaustedPollInterval = 30 * second"
definition consumedNonceGrace :: duration where "consumedNonceGrace = 120 * second"
definition recoveredAttemptRejectionGrace :: duration where
  "recoveredAttemptRejectionGrace = 120 * second"
definition notificationMinBackoff :: duration where "notificationMinBackoff = second"
definition notificationMaxBackoff :: duration where "notificationMaxBackoff = 60 * second"

definition errTransactionUnprocessable :: go_error where
  "errTransactionUnprocessable = errors_new (Some ErrTransactionUnprocessable) ''transaction cannot be advanced''"

definition errLaneAwaitingNodeNonce :: go_error where
  "errLaneAwaitingNodeNonce = errors_new (Some ErrLaneAwaitingNodeNonce)
     ''transaction lane is awaiting node nonce''"

definition errLaneStateChanged :: go_error where
  "errLaneStateChanged = errors_new (Some ErrLaneStateChanged) ''transaction lane state changed''"

definition errAttemptHashConflict :: go_error where
  "errAttemptHashConflict = errors_new (Some ErrAttemptHashConflict)
     ''signed transaction hash already belongs to another transaction''"

definition LaneBarrierRPCNonceBehind :: string where
  "LaneBarrierRPCNonceBehind = ''rpc_nonce_behind''"
definition LaneBarrierRejectionNotTip :: string where
  "LaneBarrierRejectionNotTip = ''rejection_not_tip''"
definition LaneBarrierRejectionNodeBehind :: string where
  "LaneBarrierRejectionNodeBehind = ''rejection_node_behind''"

fun status_text :: "TxStatus \<Rightarrow> string" where
  "status_text SucceedTxStatus = ''succeed''"
| "status_text ErroredTxStatus = ''errored''"
| "status_text ProcessingTxStatus = ''processing''"
| "status_text ConfirmingTxStatus = ''confirming''"
| "status_text PendingTxStatus = ''pending''"
| "status_text FailedTxStatus = ''failed''"

abbreviation dec_u64 :: "u64 \<Rightarrow> string" where
  "dec_u64 n \<equiv> dec_nat (unat n)"

section \<open>Schedules\<close>

text \<open>A missing key of a map of durations reads as 0.\<close>

definition duration_of :: "(u64 \<times> duration) list \<Rightarrow> u64 \<Rightarrow> duration" where
  "duration_of mp c = (case map_of mp c of None \<Rightarrow> 0 | Some d \<Rightarrow> d)"

definition blockTime :: "'q txManager \<Rightarrow> u64 \<Rightarrow> duration" where
  "blockTime m chainID = (let d = duration_of (blockTimeMap m) chainID in if d \<le> 0 then second else d)"

definition bumpInterval :: "'q txManager \<Rightarrow> u64 \<Rightarrow> duration" where
  "bumpInterval m chainID = (let d = duration_of (bumpIntervalMap m) chainID
     in if d \<le> 0 then wrap_i64 (3 * blockTime m chainID) else d)"

definition nextBumpAt :: "'q txManager \<Rightarrow> u64 \<Rightarrow> TransactionAttempt \<Rightarrow> time" where
  "nextBumpAt m chainID latest = attCreatedAt latest + bumpInterval m chainID"

text \<open>The row that \<open>scheduleNextCheckNotBefore\<close> writes.\<close>

definition next_check_at :: "'q txManager \<Rightarrow> Transaction \<Rightarrow> TransactionAttempt list \<Rightarrow> time \<Rightarrow> time \<Rightarrow> time" where
  "next_check_at m tx attempts notBefore now =
     (let next = now + blockTime m (ChainID tx);
          next = (if NonceConsumedAt tx \<noteq> None \<or> length attempts \<ge> maxFeeReplacements
                  then now + exhaustedPollInterval
                  else if attempts \<noteq> [] then
                    let bumpAt = nextBumpAt m (ChainID tx) (last attempts)
                    in if bumpAt < next then bumpAt else next
                  else next)
      in if next < notBefore then notBefore else next)"

definition scheduled :: "'q txManager \<Rightarrow> Transaction \<Rightarrow> TransactionAttempt list \<Rightarrow> time \<Rightarrow> time \<Rightarrow> Transaction" where
  "scheduled m tx attempts notBefore now =
     tx\<lparr>Status := (if attempts \<noteq> [] then ConfirmingTxStatus else Status tx),
        Msg := transactionMessageTail (Msg tx),
        NextActionAt := next_check_at m tx attempts notBefore now, UpdatedAt := now\<rparr>"

definition scheduleNextCheckNotBefore ::
  "'q txManager \<Rightarrow> Transaction \<Rightarrow> TransactionAttempt list \<Rightarrow> time \<Rightarrow> ('q world, unit) act" where
  "scheduleNextCheckNotBefore m tx attempts notBefore =
     bindA (time_now m) (\<lambda>now.
       mapE (wrapf (''scheduling transaction '' @ ID tx @ '' confirmation''))
         (update_if_active m (scheduled m tx attempts notBefore now)))"

definition scheduleNextCheck ::
  "'q txManager \<Rightarrow> Transaction \<Rightarrow> TransactionAttempt list \<Rightarrow> ('q world, unit) act" where
  "scheduleNextCheck m tx attempts = scheduleNextCheckNotBefore m tx attempts 0"

definition scheduleRetryAfterBlock ::
  "'q txManager \<Rightarrow> Transaction \<Rightarrow> TransactionAttempt list \<Rightarrow> ('q world, unit) act" where
  "scheduleRetryAfterBlock m tx attempts =
     bindA (time_now m) (\<lambda>now. scheduleNextCheckNotBefore m tx attempts (now + blockTime m (ChainID tx)))"

section \<open>Terminal transitions\<close>

definition terminal_row :: "Transaction \<Rightarrow> time \<Rightarrow> Transaction" where
  "terminal_row tx now =
     (let tx = tx\<lparr>Msg := transactionMessageTail (Msg tx), UpdatedAt := now, NextActionAt := now\<rparr>
      in if IntentID tx = None \<or> IntentID tx = Some [] then tx\<lparr>NotifiedAt := Some now\<rparr>
         else tx\<lparr>NotifiedAt := None, NotificationAttempts := 0, NextNotificationAt := now,
                 NotificationError := []\<rparr>)"

definition persistTerminal :: "'q txManager \<Rightarrow> Transaction \<Rightarrow> ('q world, unit) act" where
  "persistTerminal m tx =
     bindA (time_now m) (\<lambda>now.
     bindA (mapE (wrapf (''persisting terminal transaction '' @ ID tx)) (update_if_active m (terminal_row tx now))) (\<lambda>_.
     emit (\<lambda>_. EvResult (ChainID tx) (status_text (Status tx)))))"

definition finalizeTransaction ::
  "'q txManager \<Rightarrow> Transaction \<Rightarrow> eth_tx option \<Rightarrow> receipt \<Rightarrow> ('q world, unit) act" where
  "finalizeTransaction m tx winner rc =
     persistTerminal m (tx\<lparr>Tx := winner, Receipt := Some rc, Msg := [], RejectedAttemptHash := None,
       Status := (if receiptStatus rc = ReceiptStatusFailed then FailedTxStatus else SucceedTxStatus)\<rparr>)"

definition abandonTransaction :: "'q txManager \<Rightarrow> Transaction \<Rightarrow> string \<Rightarrow> ('q world, unit) act" where
  "abandonTransaction m tx reason =
     persistTerminal m (tx\<lparr>Status := ErroredTxStatus, Msg := reason, RejectedAttemptHash := None\<rparr>)"

end
