(* ===== verification/Tx_Attempts.thy ===== *)
theory Tx_Attempts
  imports Tx_World
begin

text \<open>
  The operations of \<open>evm/txmngr/txmngr.go\<close> on signed attempts: checking the recorded ones,
  looking for their receipts and transactions, suggesting fees, signing, and recording a new
  attempt under a hash that no other row owns.
\<close>

section \<open>Recorded attempts\<close>

fun validate_loop :: "host \<Rightarrow> u64 \<Rightarrow> TransactionAttempt list \<Rightarrow> address \<Rightarrow> (address \<times> u64) res" where
  "validate_loop h nonce [] sender = Inr (sender, nonce)"
| "validate_loop h nonce (attempt # rest) sender =
     (case attTx attempt of
        None \<Rightarrow> Inl (errors_new None
          (''persisted attempt '' @ hash_hex (attHash attempt) @ '' has no signed transaction''))
      | Some tx \<Rightarrow>
          if txHash h tx \<noteq> attHash attempt
          then Inl (errors_new None (''persisted attempt hash '' @ hash_hex (attHash attempt) @
            '' differs from raw transaction hash '' @ hash_hex (txHash h tx)))
          else if txNonce tx \<noteq> attNonce attempt
          then Inl (errors_new None (''persisted attempt '' @ hash_hex (attHash attempt) @ '' nonce '' @
            dec_u64 (attNonce attempt) @ '' differs from raw transaction nonce '' @ dec_u64 (txNonce tx)))
          else if attNonce attempt \<noteq> nonce
          then Inl (errors_new None (''signed attempts contain different nonces: '' @ dec_u64 nonce @
            '' and '' @ dec_u64 (attNonce attempt)))
          else case txSender h tx of
                 Inl err \<Rightarrow> Inl (wrapf (''recovering signer for persisted attempt '' @
                   hash_hex (attHash attempt)) err)
               | Inr derived \<Rightarrow>
                   if sender = 0 then validate_loop h nonce rest derived
                   else if derived \<noteq> sender
                   then Inl (errors_new None (''persisted attempt '' @ hash_hex (attHash attempt) @
                     '' signer '' @ addrHex h derived @ '' differs from attempt sender '' @ addrHex h sender))
                   else validate_loop h nonce rest sender)"

definition validatePersistedAttempts :: "host \<Rightarrow> TransactionAttempt list \<Rightarrow> (address \<times> u64) res" where
  "validatePersistedAttempts h attempts =
     (case attempts of
        [] \<Rightarrow> Inl (errors_new None ''no persisted attempts'')
      | first # _ \<Rightarrow> validate_loop h (attNonce first) attempts 0)"

text \<open>The result is the receipt with the transaction it belongs to, or nothing, and the last error.\<close>

fun findKnownReceipt_loop :: "'q txManager \<Rightarrow> u64 \<Rightarrow> TransactionAttempt list \<Rightarrow> go_error option \<Rightarrow>
    ('q world, (receipt \<times> eth_tx option) option \<times> go_error option) act" where
  "findKnownReceipt_loop m chainID [] lastErr = retA (None, lastErr)"
| "findKnownReceipt_loop m chainID (attempt # rest) lastErr =
     bindA (client_of m chainID) (\<lambda>client.
     bindA (env (\<lambda>i. TransactionReceipt client i (attHash attempt))) (\<lambda>answer.
       case answer of
         Inr (Some rc) \<Rightarrow>
           if receiptTxHash rc \<noteq> attHash attempt
           then findKnownReceipt_loop m chainID rest (Some (errors_new None (''receipt hash '' @
             hash_hex (receiptTxHash rc) @ '' does not match requested attempt '' @ hash_hex (attHash attempt))))
           else if receiptStatus rc \<noteq> ReceiptStatusFailed \<and> receiptStatus rc \<noteq> ReceiptStatusSuccessful
           then findKnownReceipt_loop m chainID rest (Some (errors_new None (''receipt '' @
             hash_hex (attHash attempt) @ '' has unsupported status '' @ dec_u64 (receiptStatus rc))))
           else retA (Some (rc, attTx attempt), None)
       | Inr None \<Rightarrow> findKnownReceipt_loop m chainID rest lastErr
       | Inl err \<Rightarrow>
           if errors_is err EthNotFound then findKnownReceipt_loop m chainID rest lastErr
           else findKnownReceipt_loop m chainID rest
             (Some (redactedRPCError (''retrieving receipt '' @ hash_hex (attHash attempt)) err))))"

definition findKnownReceipt :: "'q txManager \<Rightarrow> u64 \<Rightarrow> TransactionAttempt list \<Rightarrow>
    ('q world, (receipt \<times> eth_tx option) option \<times> go_error option) act" where
  "findKnownReceipt m chainID attempts = findKnownReceipt_loop m chainID attempts None"

fun findKnownTransaction_loop :: "'q txManager \<Rightarrow> u64 \<Rightarrow> TransactionAttempt list \<Rightarrow> go_error option \<Rightarrow>
    ('q world, eth_tx option option \<times> go_error option) act" where
  "findKnownTransaction_loop m chainID [] lastErr = retA (None, lastErr)"
| "findKnownTransaction_loop m chainID (attempt # rest) lastErr =
     bindA (client_of m chainID) (\<lambda>client.
     bindA (env (\<lambda>i. TransactionByHash client i (attHash attempt))) (\<lambda>answer.
       case answer of
         Inr (Some found) \<Rightarrow>
           if txHash (mHost m) found \<noteq> attHash attempt
           then findKnownTransaction_loop m chainID rest (Some (errors_new None (''transaction hash '' @
             hash_hex (txHash (mHost m) found) @ '' does not match requested attempt '' @
             hash_hex (attHash attempt))))
           else retA (Some (attTx attempt), None)
       | Inr None \<Rightarrow> findKnownTransaction_loop m chainID rest lastErr
       | Inl err \<Rightarrow>
           if errors_is err EthNotFound then findKnownTransaction_loop m chainID rest lastErr
           else findKnownTransaction_loop m chainID rest
             (Some (redactedRPCError (''retrieving transaction '' @ hash_hex (attHash attempt)) err))))"

text \<open>
  The Go function returns a nil transaction and the last error where the loop finds nothing; a
  caller looks at the error first, so the error is the failure of the action.
\<close>

definition findKnownTransaction ::
  "'q txManager \<Rightarrow> u64 \<Rightarrow> TransactionAttempt list \<Rightarrow> ('q world, eth_tx option) act" where
  "findKnownTransaction m chainID attempts =
     bindA (findKnownTransaction_loop m chainID attempts None) (\<lambda>(found, lastErr).
       case found of
         Some tx \<Rightarrow> retA tx
       | None \<Rightarrow> (case lastErr of Some err \<Rightarrow> failA err | None \<Rightarrow> retA None))"

section \<open>Fees\<close>

definition attempt_fee :: "eth_tx \<Rightarrow> GasFee" where
  "attempt_fee tx = \<lparr>GasPrice = Some (txGasPrice tx), GasTipCap = Some (txGasTipCap tx),
     GasFeeCap = Some (txGasFeeCap tx)\<rparr>"

text \<open>\<open>rawChainID.IsUint64() && rawChainID.Uint64() == chainID\<close>\<close>

definition chain_matches :: "eth_tx \<Rightarrow> u64 \<Rightarrow> bool" where
  "chain_matches tx chainID \<longleftrightarrow> txChainId tx = Some (uint chainID)"

fun highestAttemptFee_loop :: "host \<Rightarrow> TransactionAttempt list \<Rightarrow> address \<Rightarrow> u64 \<Rightarrow> nat \<Rightarrow>
    GasFee option \<Rightarrow> GasFee option res" where
  "highestAttemptFee_loop h [] sender chainID ty highest = Inr highest"
| "highestAttemptFee_loop h (attempt # rest) sender chainID ty highest =
     (case attTx attempt of
        None \<Rightarrow> Inl (errors_new None (''attempt '' @ hash_hex (attHash attempt) @ '' has no signed transaction''))
      | Some tx \<Rightarrow>
          if \<not> chain_matches tx chainID \<or> txType tx \<noteq> ty
          then highestAttemptFee_loop h rest sender chainID ty highest
          else case txSender h tx of
                 Inl err \<Rightarrow> Inl (wrapf (''recovering signer for attempt '' @ hash_hex (attHash attempt)) err)
               | Inr attemptSender \<Rightarrow>
                   if attemptSender \<noteq> sender then highestAttemptFee_loop h rest sender chainID ty highest
                   else if txHash h tx \<noteq> attHash attempt
                   then Inl (errors_new None (''attempt hash '' @ hash_hex (attHash attempt) @
                     '' differs from raw transaction hash '' @ hash_hex (txHash h tx)))
                   else if txNonce tx \<noteq> attNonce attempt
                   then Inl (errors_new None (''attempt '' @ hash_hex (attHash attempt) @ '' nonce '' @
                     dec_u64 (attNonce attempt) @ '' differs from raw transaction nonce '' @ dec_u64 (txNonce tx)))
                   else highestAttemptFee_loop h rest sender chainID ty
                     (highestGasFee highest (Some (attempt_fee tx))))"

definition highestAttemptFee ::
  "host \<Rightarrow> TransactionAttempt list \<Rightarrow> address \<Rightarrow> u64 \<Rightarrow> nat \<Rightarrow> GasFee option res" where
  "highestAttemptFee h attempts sender chainID ty =
     highestAttemptFee_loop h attempts sender chainID ty None"

text \<open>
  \<open>a != nil && b.Cmp(a) > 0\<close> with the base \<open>a\<close> from the node: \<open>Cmp\<close> with a nil operand panics.
\<close>

definition fee_base :: "int option \<Rightarrow> int option \<Rightarrow> ('s, int option) act" where
  "fee_base current suggested =
     (case current of
        None \<Rightarrow> retA suggested
      | Some c \<Rightarrow>
          (case suggested of
             None \<Rightarrow> panicA ''invalid memory address or nil pointer dereference''
           | Some s \<Rightarrow> retA (if c > s then Some c else Some s)))"

definition suggestGasPrice ::
  "'q txManager \<Rightarrow> u64 \<Rightarrow> GasFee option \<Rightarrow> int \<Rightarrow> ('q world, GasFee) act" where
  "suggestGasPrice m chainId current coef =
     (case map_of (clients m) chainId of
        None \<Rightarrow> failA (errors_new None (''no client found for chainId: '' @ dec_u64 chainId))
      | Some client \<Rightarrow>
          bindA (mapE (redactedRPCError (''suggesting gas price for chain '' @ dec_u64 chainId))
            (rpc (SuggestGasPrice client))) (\<lambda>suggested.
          bindA (fee_base (Option.bind current GasPrice) suggested) (\<lambda>base.
          retA \<lparr>GasPrice = Some (bumpGasPrice base coef), GasTipCap = None, GasFeeCap = None\<rparr>)))"

text \<open>The two fee caps that follow from the base fee, the tip to use and the previous fee cap.\<close>

definition fee_cap :: "int \<Rightarrow> int \<Rightarrow> int option \<Rightarrow> int \<Rightarrow> int" where
  "fee_cap baseFee tip previous coef =
     (let gasFeeCap = baseFee * 2 + tip
      in case previous of
           None \<Rightarrow> gasFeeCap
         | Some p \<Rightarrow> (let bumped = bumpGasPrice (Some p) coef in if bumped > gasFeeCap then bumped else gasFeeCap))"

definition suggestEIP1559GasFee ::
  "'q txManager \<Rightarrow> u64 \<Rightarrow> GasFee option \<Rightarrow> int \<Rightarrow> ('q world, GasFee) act" where
  "suggestEIP1559GasFee m chainId current coef =
     (case map_of (clients m) chainId of
        None \<Rightarrow> failA (errors_new None (''no client found for chainId: '' @ dec_u64 chainId))
      | Some client \<Rightarrow>
          bindA (mapE (redactedRPCError (''getting latest block header for chain '' @ dec_u64 chainId))
            (rpc (HeaderByNumber client))) (\<lambda>header.
          case Option.bind header id of
            None \<Rightarrow> failA (errors_new None
              ''client returned a block header without a base fee, EIP-1559 may not be supported'')
          | Some baseFee \<Rightarrow>
              bindA (mapE (redactedRPCError (''suggesting gas tip cap for chain '' @ dec_u64 chainId))
                (rpc (SuggestGasTipCap client))) (\<lambda>suggested.
              bindA (fee_base (Option.bind current GasTipCap) suggested) (\<lambda>base.
              let tip = bumpGasPrice base coef
              in retA \<lparr>GasPrice = None, GasTipCap = Some tip,
                   GasFeeCap = Some (fee_cap baseFee tip (Option.bind current GasFeeCap) coef)\<rparr>))))"

section \<open>Signing\<close>

text \<open>\<open>uint256.MustFromBig\<close>: panics above 256 bits; a negative number is taken modulo \<open>2 ^ 256\<close>.\<close>

definition MustFromBig :: "int option \<Rightarrow> ('s, int) act" where
  "MustFromBig v = (case v of
     None \<Rightarrow> panicA ''invalid memory address or nil pointer dereference''
   | Some x \<Rightarrow> if \<bar>x\<bar> \<ge> 2 ^ 256 then panicA ''overflow'' else retA (x mod 2 ^ 256))"

text \<open>\<open>types.NewTx\<close> of the two payloads; the chain and the signature are the signer's to set.\<close>

definition SetCodeTx :: "Transaction \<Rightarrow> u64 \<Rightarrow> int \<Rightarrow> int \<Rightarrow> int \<Rightarrow> eth_tx" where
  "SetCodeTx tx nonce tip cap val = \<lparr>txType = 4, txChainId = None, txNonce = nonce, txGasPrice = cap,
     txGasTipCap = tip, txGasFeeCap = cap, txGas = GasLimit tx, txTo = Some (Address tx), txValue = val,
     txData = Data tx, txAuthList = RawAuthorizations tx, txSignature = (0, 0, 0)\<rparr>"

definition LegacyTx :: "Transaction \<Rightarrow> u64 \<Rightarrow> int \<Rightarrow> int \<Rightarrow> eth_tx" where
  "LegacyTx tx nonce price val = \<lparr>txType = 0, txChainId = None, txNonce = nonce, txGasPrice = price,
     txGasTipCap = price, txGasFeeCap = price, txGas = GasLimit tx, txTo = Some (Address tx), txValue = val,
     txData = Data tx, txAuthList = [], txSignature = (0, 0, 0)\<rparr>"

definition deref :: "'a option \<Rightarrow> ('s, 'a) act" where
  "deref p = (case p of None \<Rightarrow> panicA ''invalid memory address or nil pointer dereference'' | Some x \<Rightarrow> retA x)"

text \<open>The fee of the newest attempt, which is what a replacement has to outbid.\<close>

definition previous_fee :: "TransactionAttempt list \<Rightarrow> ('s, GasFee option) act" where
  "previous_fee attempts = (if attempts = [] then retA None
     else bindA (deref (attTx (last attempts))) (\<lambda>previous. retA (Some (attempt_fee previous))))"

definition sign_with :: "'q txManager \<Rightarrow> Transaction \<Rightarrow> TransactionAttempt list \<Rightarrow> GasFee option \<Rightarrow>
    transact_opts \<Rightarrow> ('q world, eth_tx) act" where
  "sign_with m tx attempts feeFloor auth =
     (let val = (case Value tx of None \<Rightarrow> 0 | Some v \<Rightarrow> v);
          coef = priorityCoefficient * int (length attempts + 1)
      in bindA (previous_fee attempts) (\<lambda>previous.
         let currentFee = highestGasFee previous feeFloor
         in if RawAuthorizations tx \<noteq> [] then
              bindA (mapE (wrapf ''suggesting EIP-1559 gas fee'') (suggestEIP1559GasFee m (ChainID tx) currentFee coef)) (\<lambda>fee.
              bindA (deref (AssignedNonce tx)) (\<lambda>nonce.
              bindA (MustFromBig (GasTipCap fee)) (\<lambda>tip.
              bindA (MustFromBig (GasFeeCap fee)) (\<lambda>cap.
              bindA (MustFromBig (Some val)) (\<lambda>v.
              rpc (\<lambda>i. optSigner auth i (optFrom auth) (SetCodeTx tx nonce tip cap v)))))))
            else
              bindA (mapE (wrapf ''suggesting gas price'') (suggestGasPrice m (ChainID tx) currentFee coef)) (\<lambda>fee.
              bindA (deref (AssignedNonce tx)) (\<lambda>nonce.
              bindA (deref (GasPrice fee)) (\<lambda>price.
              rpc (\<lambda>i. optSigner auth i (optFrom auth) (LegacyTx tx nonce price val)))))))"

definition signAttempt ::
  "'q txManager \<Rightarrow> Transaction \<Rightarrow> TransactionAttempt list \<Rightarrow> GasFee option \<Rightarrow> ('q world, eth_tx) act" where
  "signAttempt m tx attempts feeFloor =
     (case getTransactOpts m of
        None \<Rightarrow> failA (errors_new None ''transact options provider is nil'')
      | Some provider \<Rightarrow>
          bindA (mapE (wrapf ''loading transact options'') (rpc (\<lambda>i. provider i (ChainID tx)))) (\<lambda>opts.
          case opts of
            None \<Rightarrow> failA (errors_new None ''transact options are nil'')
          | Some auth \<Rightarrow>
              if optFrom auth \<noteq> mSender m
              then failA (errors_new None (''transact signer '' @ addrHex (mHost m) (optFrom auth) @
                '' differs from nonce-lane sender '' @ addrHex (mHost m) (mSender m)))
              else sign_with m tx attempts feeFloor auth))"

section \<open>Recording a unique attempt\<close>

definition new_attempt :: "host \<Rightarrow> Transaction \<Rightarrow> eth_tx \<Rightarrow> time \<Rightarrow> TransactionAttempt" where
  "new_attempt h tx signedTx now = \<lparr>attTransactionID = ID tx, attHash = txHash h signedTx,
     attNonce = txNonce signedTx, attTx = Some signedTx, attCreatedAt = now\<rparr>"

text \<open>The fee floor from the recorded attempts of every row at the nonce.\<close>

definition collision_floor :: "'q txManager \<Rightarrow> Transaction \<Rightarrow> TransactionAttempt \<Rightarrow> nat \<Rightarrow> ('q world, GasFee) act" where
  "collision_floor m tx attempt ty =
     bindA (mapE (wrapf ''loading durable nonce attempt history'')
       (onQ (qSelectAttemptsByNonce (transactionsQ m) (ChainID tx) (attNonce attempt)))) (\<lambda>laneAttempts.
     bindA (mapE (wrapf ''deriving collision fee floor'')
       (liftR (highestAttemptFee (mHost m) laneAttempts (mSender m) (ChainID tx) ty))) (\<lambda>floor.
     case floor of
       None \<Rightarrow> failA (errAttemptHashConflict\<lparr>errText := errText errAttemptHashConflict @
         '': conflicting hash '' @ hash_hex (attHash attempt) @ '' is absent from durable lane history''\<rparr>)
     | Some fee \<Rightarrow> retA fee))"

text \<open>
  \<open>remaining\<close> counts the iterations that are left of \<open>maxHashCollisionResigns\<close>; \<open>previousHash\<close>
  is \<open>None\<close> in the first.
\<close>

fun persist_loop :: "'q txManager \<Rightarrow> Transaction \<Rightarrow> TransactionAttempt list \<Rightarrow> nat \<Rightarrow> GasFee option \<Rightarrow>
    hash option \<Rightarrow> ('q world, TransactionAttempt) act" where
  "persist_loop m tx attempts 0 feeFloor previousHash =
     failA (wrapf (''persisting a unique signed attempt after '' @ dec_nat maxHashCollisionResigns @
       '' collisions'') errAttemptHashConflict)"
| "persist_loop m tx attempts (Suc remaining) feeFloor previousHash =
     bindA (mapE (wrapf ''signing transaction attempt'') (signAttempt m tx attempts feeFloor)) (\<lambda>signedTx.
     bindA (time_now m) (\<lambda>now.
     let attempt = new_attempt (mHost m) tx signedTx now
     in tryA (onQ (qInsertAttempt (transactionsQ m) attempt)) (\<lambda>r.
        case r of
          Inr _ \<Rightarrow> retA attempt
        | Inl insertErr \<Rightarrow>
            if \<not> errors_is insertErr ErrAttemptHashConflict
            then failA (wrapf ''persisting signed attempt'' insertErr)
            else if previousHash = Some (attHash attempt)
            then failA (wrapf (''re-signing above the durable fee floor did not change hash '' @
              hash_hex (attHash attempt)) insertErr)
            else
              bindA (collision_floor m tx attempt (txType signedTx)) (\<lambda>fee.
              persist_loop m tx attempts remaining (Some fee) (Some (attHash attempt))))))"

definition persistUniqueAttempt ::
  "'q txManager \<Rightarrow> Transaction \<Rightarrow> TransactionAttempt list \<Rightarrow> ('q world, TransactionAttempt) act" where
  "persistUniqueAttempt m tx attempts = persist_loop m tx attempts maxHashCollisionResigns None None"

end
