(* ===== verification/Tx_Step.thy ===== *)
theory Tx_Step
  imports Tx_Attempts
begin

text \<open>
  One step of one transaction (\<open>evm/txmngr/txmngr.go\<close>): \<open>processTransactionStep\<close> and what it
  calls to sign, broadcast, reconcile a rejection, and wait out a consumed nonce.
\<close>

section \<open>Rejections\<close>

definition reconcile_by_nonce :: "'q txManager \<Rightarrow> Transaction \<Rightarrow> TransactionAttempt list \<Rightarrow> time \<Rightarrow> bool \<Rightarrow>
    string \<Rightarrow> u64 \<Rightarrow> ('q world, unit) act" where
  "reconcile_by_nonce m tx attempts now canReleaseNonce reason pendingNonce =
     (let latest = last attempts
      in if pendingNonce = attNonce latest then
           if \<not> canReleaseNonce then
             bindA (emit (\<lambda>_. EvLaneBarrier (ChainID tx) LaneBarrierRejectionNotTip)) (\<lambda>_.
             scheduleRetryAfterBlock m tx attempts)
           else
             bindA (abandonTransaction m (tx\<lparr>AssignedNonce := None, BroadcastPending := False\<rparr>) reason) (\<lambda>_.
             failA errLaneStateChanged)
         else if pendingNonce > attNonce latest then
           scheduleNextCheck m (tx\<lparr>NonceConsumedAt := Some now, BroadcastPending := False,
             RejectedAttemptHash := None\<rparr>) attempts
         else
           bindA (emit (\<lambda>_. EvLaneBarrier (ChainID tx) LaneBarrierRejectionNodeBehind)) (\<lambda>_.
           scheduleRetryAfterBlock m tx attempts))"

definition reconcileRejectedSubmission :: "'q txManager \<Rightarrow> Transaction \<Rightarrow> TransactionAttempt list \<Rightarrow> time \<Rightarrow>
    bool \<Rightarrow> ('q world, unit) act" where
  "reconcileRejectedSubmission m tx attempts now canReleaseNonce =
     (let reason = Msg tx
      in tryA (findKnownTransaction m (ChainID tx) attempts) (\<lambda>r.
         case r of
           Inl err \<Rightarrow>
             scheduleRetryAfterBlock m (tx\<lparr>Msg := appendReconciliationError (Msg tx) (Some err)\<rparr>) attempts
         | Inr (Some found) \<Rightarrow>
             scheduleNextCheck m (tx\<lparr>Tx := Some found, Msg := [], BroadcastPending := False,
               RejectedAttemptHash := None\<rparr>) attempts
         | Inr None \<Rightarrow>
             bindA (client_of m (ChainID tx)) (\<lambda>client.
             bindA (env (\<lambda>i. PendingNonceAt client i (mSender m))) (\<lambda>answer.
             case answer of
               Inl err \<Rightarrow>
                 scheduleRetryAfterBlock m (tx\<lparr>Msg := appendReconciliationError (Msg tx)
                   (Some (errors_new None (''pending nonce: '' @ rpcErrorSummary (Some err))))\<rparr>) attempts
             | Inr pendingNonce \<Rightarrow>
                 reconcile_by_nonce m tx attempts now canReleaseNonce reason pendingNonce))))"

section \<open>Broadcasting\<close>

record broadcastPolicy =
  firstAttemptThisPass :: bool
  nonceReleasable :: bool

text \<open>What the \<open>switch\<close> over the disposition leaves in the row.\<close>

fun record_disposition :: "broadcastErrorDisposition \<Rightarrow> Transaction \<Rightarrow> TransactionAttempt \<Rightarrow> time \<Rightarrow> bool \<Rightarrow>
    string \<Rightarrow> Transaction" where
  "record_disposition broadcastAlreadyKnown tx latest now mayReconcile reason =
     tx\<lparr>Msg := [], BroadcastPending := False\<rparr>"
| "record_disposition broadcastNonceConsumed tx latest now mayReconcile reason =
     tx\<lparr>Msg := reason, NonceConsumedAt := Some now, BroadcastPending := False\<rparr>"
| "record_disposition broadcastFeeRejected tx latest now mayReconcile reason =
     tx\<lparr>Msg := reason, BroadcastPending := False\<rparr>"
| "record_disposition broadcastTransactionRejectedPermanent tx latest now mayReconcile reason =
     tx\<lparr>Msg := reason, BroadcastPending := \<not> mayReconcile,
        RejectedAttemptHash := (if mayReconcile then Some (hash_hex (attHash latest)) else RejectedAttemptHash tx)\<rparr>"
| "record_disposition broadcastTransactionRejectedRetryable tx latest now mayReconcile reason =
     tx\<lparr>Msg := reason, BroadcastPending := True\<rparr>"
| "record_disposition broadcastAmbiguous tx latest now mayReconcile reason =
     tx\<lparr>Msg := ''ambiguous '' @ reason, BroadcastPending := True\<rparr>"

text \<open>The last part of \<open>handleBroadcastFailure\<close>: a receipt wins over the node's answer.\<close>

definition settle_failure :: "'q txManager \<Rightarrow> Transaction \<Rightarrow> TransactionAttempt list \<Rightarrow> broadcastPolicy \<Rightarrow>
    time \<Rightarrow> bool \<Rightarrow> bool \<Rightarrow> time \<Rightarrow> ('q world, unit) act" where
  "settle_failure m tx attempts policy now rejected mayReconcile reconcileAfter =
     bindA (findKnownReceipt m (ChainID tx) attempts) (\<lambda>(found, receiptErr).
     case found of
       Some (rc, winner) \<Rightarrow> finalizeTransaction m tx winner rc
     | None \<Rightarrow>
         (case receiptErr of
            Some err \<Rightarrow>
              scheduleNextCheckNotBefore m (tx\<lparr>Msg := appendReconciliationError (Msg tx) (Some err)\<rparr>) attempts
                (if rejected then if mayReconcile then now + blockTime m (ChainID tx) else reconcileAfter else 0)
          | None \<Rightarrow>
              if rejected then
                if mayReconcile
                then reconcileRejectedSubmission m tx attempts now (nonceReleasable policy)
                else scheduleNextCheckNotBefore m tx attempts reconcileAfter
              else scheduleNextCheck m tx attempts))"

definition handleBroadcastFailure :: "'q txManager \<Rightarrow> Transaction \<Rightarrow> TransactionAttempt list \<Rightarrow> go_error \<Rightarrow>
    broadcastPolicy \<Rightarrow> ('q world, unit) act" where
  "handleBroadcastFailure m tx attempts sendErr policy =
     (let latest = last attempts
      in bindA (time_now m) (\<lambda>now.
         let reconcileAfter = attCreatedAt latest + recoveredAttemptRejectionGrace;
             mayReconcile = (firstAttemptThisPass policy \<and> nonceReleasable policy) \<or> \<not> now < reconcileAfter;
             reason = broadcastAttemptReason (attHash latest) (rpcErrorSummary (Some sendErr));
             disposition = classifyBroadcastError (Some sendErr);
             rejected = (disposition = broadcastTransactionRejectedPermanent);
             tx = record_disposition disposition (tx\<lparr>RejectedAttemptHash := None\<rparr>) latest now mayReconcile reason
         in bindA (if RejectedAttemptHash tx \<noteq> None then scheduleNextCheck m tx attempts else retA ()) (\<lambda>_.
            settle_failure m tx attempts policy now rejected mayReconcile reconcileAfter)))"

definition broadcastAndSchedule :: "'q txManager \<Rightarrow> Transaction \<Rightarrow> TransactionAttempt list \<Rightarrow>
    broadcastPolicy \<Rightarrow> ('q world, unit) act" where
  "broadcastAndSchedule m tx attempts policy =
     bindA (client_of m (ChainID tx)) (\<lambda>client.
     bindA (deref (attTx (last attempts))) (\<lambda>raw.
     bindA (emit (EvSend (ChainID tx) raw)) (\<lambda>_.
     bindA (env (\<lambda>i. SendTransaction client i raw)) (\<lambda>answer.
     case answer of
       Inl err \<Rightarrow> handleBroadcastFailure m tx attempts err policy
     | Inr _ \<Rightarrow>
         scheduleNextCheck m (tx\<lparr>Msg := [], BroadcastPending := False, RejectedAttemptHash := None\<rparr>) attempts))))"

definition canonical_row :: "'q txManager \<Rightarrow> Transaction \<Rightarrow> TransactionAttempt \<Rightarrow> Transaction" where
  "canonical_row m tx attempt = tx\<lparr>Tx := attTx attempt, Status := ConfirmingTxStatus,
     BroadcastPending := True, RejectedAttemptHash := None,
     NextActionAt := attCreatedAt attempt + blockTime m (ChainID tx), Msg := [],
     UpdatedAt := attCreatedAt attempt\<rparr>"

definition createAndBroadcastAttempt :: "'q txManager \<Rightarrow> Transaction \<Rightarrow> TransactionAttempt list \<Rightarrow> bool \<Rightarrow>
    ('q world, unit) act" where
  "createAndBroadcastAttempt m tx attempts canReleaseNonce =
     (if AssignedNonce tx = None
      then failA (errors_new None ''cannot sign transaction without an assigned nonce'')
      else
        bindA (persistUniqueAttempt m tx attempts) (\<lambda>attempt.
        let tx' = canonical_row m tx attempt
        in bindA (mapE (wrapf ''persisting canonical transaction attempt'') (update_if_active m tx')) (\<lambda>_.
           broadcastAndSchedule m tx' (attempts @ [attempt])
             \<lparr>firstAttemptThisPass = (attempts = []), nonceReleasable = canReleaseNonce\<rparr>)))"

section \<open>The step\<close>

definition pollConsumedNonce :: "'q txManager \<Rightarrow> Transaction \<Rightarrow> TransactionAttempt list \<Rightarrow> ('q world, unit) act" where
  "pollConsumedNonce m tx attempts =
     bindA (deref (NonceConsumedAt tx)) (\<lambda>consumedAt.
     bindA (time_now m) (\<lambda>now.
       if now - consumedAt > consumedNonceGrace then
         let nonce = (case AssignedNonce tx of None \<Rightarrow> 0 | Some n \<Rightarrow> n)
         in abandonTransaction m tx (''nonce '' @ dec_u64 nonce @
              '' was consumed by another transaction and no attempt was mined'')
       else scheduleNextCheck m tx attempts))"

text \<open>\<open>lane.isTip(*tx.AssignedNonce)\<close>\<close>

definition nonce_is_tip :: "Transaction \<Rightarrow> ('q world, bool) act" where
  "nonce_is_tip tx = bindA (deref (AssignedNonce tx)) (\<lambda>n. bindA getLane (\<lambda>l. retA (isTip n l)))"

definition unprocessable :: "string \<Rightarrow> go_error" where
  "unprocessable msg = wrapf msg errTransactionUnprocessable"

text \<open>Rows from before attempts were recorded: the raw transaction becomes the first attempt.\<close>

definition recover_legacy :: "'q txManager \<Rightarrow> Transaction \<Rightarrow> TransactionAttempt list \<Rightarrow>
    ('q world, Transaction \<times> TransactionAttempt list) act" where
  "recover_legacy m tx attempts =
     (case (attempts, Tx tx) of
        ([], Some raw) \<Rightarrow>
          bindA (if UpdatedAt tx = 0 then time_now m else retA (UpdatedAt tx)) (\<lambda>created.
          let legacyAttempt = new_attempt (mHost m) tx raw created
          in case validatePersistedAttempts (mHost m) [legacyAttempt] of
               Inl err \<Rightarrow> failA (wrapf ''validating legacy signed attempt'' (wrap2 err errTransactionUnprocessable))
             | Inr _ \<Rightarrow>
                 bindA (mapE (wrapf ''recovering legacy signed attempt'')
                   (onQ (qInsertAttempt (transactionsQ m) legacyAttempt))) (\<lambda>_.
                 retA (tx\<lparr>BroadcastPending := True\<rparr>, [legacyAttempt])))
      | _ \<Rightarrow> retA (tx, attempts))"

text \<open>The row as its recorded attempts define it.\<close>

definition adopt_attempts :: "host \<Rightarrow> Transaction \<Rightarrow> TransactionAttempt list \<Rightarrow> address \<Rightarrow> u64 \<Rightarrow> Transaction" where
  "adopt_attempts h tx attempts attemptSender nonce =
     (let latest = attTx (last attempts);
          tx = tx\<lparr>Sender := attemptSender, AssignedNonce := Some nonce, Status := ConfirmingTxStatus\<rparr>
      in if Tx tx = None \<or> map_option (txHash h) (Tx tx) \<noteq> map_option (txHash h) latest
         then tx\<lparr>Tx := latest, BroadcastPending := True\<rparr> else tx)"

definition assign_nonce :: "'q txManager \<Rightarrow> Transaction \<Rightarrow> ('q world, Transaction) act" where
  "assign_nonce m tx =
     (case AssignedNonce tx of
        Some _ \<Rightarrow> retA tx
      | None \<Rightarrow>
          bindA (client_of m (ChainID tx)) (\<lambda>client.
          bindA (mapE (redactedRPCError ''getting pending nonce'')
            (rpc (\<lambda>i. PendingNonceAt client i (mSender m)))) (\<lambda>rpcNonce.
          bindA getLane (\<lambda>l.
          case reserve rpcNonce l of
            (nonce, ready) \<Rightarrow>
              if \<not> ready then
                bindA (emit (\<lambda>_. EvLaneBarrier (ChainID tx) LaneBarrierRPCNonceBehind)) (\<lambda>_.
                failA (errLaneAwaitingNodeNonce\<lparr>errText := errText errLaneAwaitingNodeNonce @
                  '': node pending nonce '' @ dec_u64 rpcNonce @ '' is behind durable next nonce '' @
                  dec_u64 (next_nonce l)\<rparr>))
              else
                bindA (time_now m) (\<lambda>now.
                let tx' = tx\<lparr>AssignedNonce := Some nonce, Status := ProcessingTxStatus, UpdatedAt := now\<rparr>
                in bindA (mapE (wrapf ''persisting assigned nonce'') (update_if_active m tx')) (\<lambda>_.
                   bindA (laneObserve nonce) (\<lambda>_. retA tx')))))))"

text \<open>After admission: resume a broadcast, or assign a nonce and sign, or resend.\<close>

definition send_or_sign :: "'q txManager \<Rightarrow> Transaction \<Rightarrow> TransactionAttempt list \<Rightarrow> bool \<Rightarrow> ('q world, unit) act" where
  "send_or_sign m tx attempts resumeBroadcast =
     (if resumeBroadcast then
        bindA (nonce_is_tip tx) (\<lambda>tip. broadcastAndSchedule m tx attempts
          \<lparr>firstAttemptThisPass = False, nonceReleasable = tip\<rparr>)
      else
        bindA (assign_nonce m tx) (\<lambda>tx.
        if attempts = [] then bindA (nonce_is_tip tx) (\<lambda>tip. createAndBroadcastAttempt m tx attempts tip)
        else if length attempts < maxFeeReplacements then createAndBroadcastAttempt m tx attempts False
        else bindA (nonce_is_tip tx) (\<lambda>tip. broadcastAndSchedule m tx attempts
          \<lparr>firstAttemptThisPass = False, nonceReleasable = tip\<rparr>)))"

text \<open>The admission hook: it can expire unsigned work, refuse, defer or let through.\<close>

definition admit_attempt :: "'q txManager \<Rightarrow> Transaction \<Rightarrow> TransactionAttempt list \<Rightarrow> bool \<Rightarrow> ('q world, unit) act" where
  "admit_attempt m tx attempts resumeBroadcast =
     (case beforeAttempt m of
        None \<Rightarrow> send_or_sign m tx attempts resumeBroadcast
      | Some gate \<Rightarrow>
          bindA (env (\<lambda>i. gate i tx (attempts \<noteq> []))) (\<lambda>(retryAt, admissionErr).
          bindA getLane (\<lambda>l.
          case admissionErr of
            Some err \<Rightarrow>
              if errors_is err ErrUnsignedTransactionExpired \<and> attempts = [] \<and>
                 (case AssignedNonce tx of None \<Rightarrow> True | Some n \<Rightarrow> isTip n l)
              then
                bindA (abandonTransaction m (tx\<lparr>AssignedNonce := None\<rparr>)
                  ''unsigned transaction expired before signing'') (\<lambda>_.
                failA errLaneStateChanged)
              else failA (wrapf ''attempt admission'' err)
          | None \<Rightarrow>
              bindA (time_now m) (\<lambda>now.
                if retryAt > now
                then scheduleNextCheckNotBefore m
                  (tx\<lparr>Msg := ''attempt deferred by application admission''\<rparr>) attempts retryAt
                else send_or_sign m tx attempts resumeBroadcast))))"

text \<open>The part of the step behind reconciliation with the recorded attempts.\<close>

definition advance_transaction :: "'q txManager \<Rightarrow> Transaction \<Rightarrow> TransactionAttempt list \<Rightarrow> bool \<Rightarrow>
    ('q world, unit) act" where
  "advance_transaction m tx attempts receiptReadFailed =
     (if Sender tx \<noteq> mSender m
      then failA (unprocessable (''persisted sender '' @ addrHex (mHost m) (Sender tx) @
        '' differs from manager sender '' @ addrHex (mHost m) (mSender m)))
      else case RejectedAttemptHash tx of
        Some rejectedHash \<Rightarrow>
          if attempts = [] \<or> AssignedNonce tx = None \<or> rejectedHash \<noteq> hash_hex (attHash (last attempts))
          then failA (unprocessable ''persisted rejection does not match the latest assigned attempt'')
          else if receiptReadFailed then scheduleRetryAfterBlock m tx attempts
          else
            bindA (time_now m) (\<lambda>now.
            bindA (nonce_is_tip tx) (\<lambda>tip. reconcileRejectedSubmission m tx attempts now tip))
      | None \<Rightarrow>
          let resumeBroadcast = (attempts \<noteq> [] \<and> BroadcastPending tx)
          in if NonceConsumedAt tx \<noteq> None \<and> \<not> resumeBroadcast then pollConsumedNonce m tx attempts
             else if attempts \<noteq> [] \<and> \<not> BroadcastPending tx then
               bindA (time_now m) (\<lambda>now.
                 if now < nextBumpAt m (ChainID tx) (last attempts)
                 then scheduleNextCheck m tx attempts
                 else admit_attempt m tx attempts resumeBroadcast)
             else admit_attempt m tx attempts resumeBroadcast)"

definition reconcile_attempts :: "'q txManager \<Rightarrow> Transaction \<Rightarrow> TransactionAttempt list \<Rightarrow> ('q world, unit) act" where
  "reconcile_attempts m tx0 attempts =
     (case validatePersistedAttempts (mHost m) attempts of
        Inl err \<Rightarrow> failA (wrap2 err errTransactionUnprocessable)
      | Inr (attemptSender, nonce) \<Rightarrow>
          bindA (if attemptSender = mSender m then laneObserve nonce else retA ()) (\<lambda>_.
          let tx = adopt_attempts (mHost m) tx0 attempts attemptSender nonce
          in bindA (findKnownReceipt m (ChainID tx) attempts) (\<lambda>(found, receiptErr).
             case found of
               Some (rc, winner) \<Rightarrow> finalizeTransaction m tx winner rc
             | None \<Rightarrow>
                 let tx = (case receiptErr of None \<Rightarrow> tx
                       | Some err \<Rightarrow> tx\<lparr>Msg := appendReconciliationError (Msg tx) (Some err)\<rparr>)
                 in if AssignedNonce tx0 \<noteq> None \<and> AssignedNonce tx0 \<noteq> Some nonce
                    then failA (unprocessable (''assigned nonce '' @ dec_u64 (the (AssignedNonce tx0)) @
                      '' differs from signed attempt nonce '' @ dec_u64 nonce))
                    else if Sender tx0 \<noteq> 0 \<and> Sender tx0 \<noteq> attemptSender
                    then failA (unprocessable (''persisted sender '' @ addrHex (mHost m) (Sender tx0) @
                      '' differs from signed attempt sender '' @ addrHex (mHost m) attemptSender))
                    else advance_transaction m tx attempts (receiptErr \<noteq> None))))"

definition processTransactionStep :: "'q txManager \<Rightarrow> Transaction \<Rightarrow> ('q world, unit) act" where
  "processTransactionStep m tx =
     (if map_of (clients m) (ChainID tx) = None
      then failA (unprocessable (''no client configured for chain '' @ dec_u64 (ChainID tx)))
      else
        bindA (mapE (wrapf ''loading signed attempts'')
          (onQ (qSelectAttempts (transactionsQ m) (ID tx)))) (\<lambda>attempts0.
        bindA (recover_legacy m tx attempts0) (\<lambda>(tx, attempts).
        if attempts \<noteq> [] then reconcile_attempts m tx attempts
        else advance_transaction m (if Sender tx = 0 then tx\<lparr>Sender := mSender m\<rparr> else tx) attempts False)))"

end
