(* ===== verification/Tx_Batch.thy ===== *)
theory Tx_Batch
  imports Tx_Step
begin

text \<open>
  The loops around the steps (\<open>evm/txmngr/txmngr.go\<close>): a batch of one lane under its lock, the
  round robin over chains, the notification outbox, metrics, and the caller's side,
  \<open>SendTxAsync\<close> and \<open>WaitTxCompleted\<close>. A batch is one transition: its lane lock keeps other
  batches of the lane out, and the batches that \<open>processTxs\<close> starts in parallel are for
  different chains, so they are run one after the other here. What is only logged is dropped.
\<close>

section \<open>A batch of one lane\<close>

definition logLane :: "'q txManager \<Rightarrow> ('q world, unit) act" where
  "logLane m = bindA (ctx_err m) (\<lambda>_. retA ())"

definition rescheduled :: "'q txManager \<Rightarrow> Transaction \<Rightarrow> go_error \<Rightarrow> time \<Rightarrow> time \<Rightarrow> Transaction" where
  "rescheduled m current cause now1 now2 =
     current\<lparr>Msg := transactionMessageTail (errText cause),
       NextActionAt := now1 + blockTime m (ChainID current), UpdatedAt := now2,
       Status := (if Tx current \<noteq> None \<or> AssignedNonce current \<noteq> None then ConfirmingTxStatus
                  else Status current)\<rparr>"

definition rescheduleTransaction :: "'q txManager \<Rightarrow> Transaction \<Rightarrow> go_error \<Rightarrow> ('q world, unit) act" where
  "rescheduleTransaction m tx cause =
     tryA (onQ (qGet (transactionsQ m) (withFilter (FilterByIds [ID tx]) New))) (\<lambda>r.
       case r of
         Inl _ \<Rightarrow> retA ()
       | Inr current \<Rightarrow>
           if IsCompleted current then retA ()
           else
             bindA (time_now m) (\<lambda>now1.
             bindA (time_now m) (\<lambda>now2.
             tryA (update_if_active m (rescheduled m current cause now1 now2)) (\<lambda>_. retA ()))))"

fun lane_loop :: "'q txManager \<Rightarrow> Transaction list \<Rightarrow> ('q world, unit) act" where
  "lane_loop m [] = retA ()"
| "lane_loop m (tx # rest) =
     bindA (ctx_err m) (\<lambda>done.
     if done \<noteq> None then retA ()
     else
       tryA (processTransactionStep m tx) (\<lambda>r.
       case r of
         Inr _ \<Rightarrow> lane_loop m rest
       | Inl err \<Rightarrow>
           if errors_is err ErrStaleTransaction then lane_loop m rest
           else if errors_is err ErrLaneAwaitingNodeNonce \<or> errors_is err ErrLaneStateChanged then retA ()
           else
             bindA (ctx_err m) (\<lambda>done.
             if done \<noteq> None then retA ()
             else
               bindA (rescheduleTransaction m tx err) (\<lambda>_.
               if errors_is err ErrTransactionUnprocessable then lane_loop m rest else retA ()))))"

definition lane_query :: "'q txManager \<Rightarrow> u64 \<Rightarrow> time \<Rightarrow> tx_query" where
  "lane_query m chainID now =
     Limit maxTransactionsPerLane (OrderBy orderLaneWork
       (withFilter (FilterReadyBefore now) (withFilter (FilterByStatuses ActiveStatuses)
         (withFilter (FilterBySenderOrUnset (mSender m)) (withFilter (FilterByChainIds [chainID]) New)))))"

text \<open>What runs between taking the lane lock and releasing it.\<close>

definition locked_batch :: "'q txManager \<Rightarrow> u64 \<Rightarrow> ('q world, unit) act" where
  "locked_batch m chainID =
     tryA (onQ (qMaxAssignedNonce (transactionsQ m) (mSender m) chainID)) (\<lambda>r.
       case r of
         Inl _ \<Rightarrow> logLane m
       | Inr maxNonce \<Rightarrow>
           bindA (setLane (lane_of maxNonce)) (\<lambda>_.
           bindA (time_now m) (\<lambda>now.
           tryA (onQ (qSelect (transactionsQ m) (lane_query m chainID now))) (\<lambda>r.
           case r of
             Inl _ \<Rightarrow> logLane m
           | Inr transactions \<Rightarrow> lane_loop m transactions))))"

definition processLaneBatch :: "'q txManager \<Rightarrow> u64 \<Rightarrow> ('q world, unit) act" where
  "processLaneBatch m chainID =
     bindA (ctx_err m) (\<lambda>done.
     if done \<noteq> None then retA ()
     else
       bindA (ctx_err m) (\<lambda>ce.
       tryA (onQ (qTryLockLane (transactionsQ m) ce (mSender m) chainID)) (\<lambda>r.
       case r of
         Inl _ \<Rightarrow> logLane m
       | Inr None \<Rightarrow> retA ()
       | Inr (Some lock) \<Rightarrow>
           deferA (locked_batch m chainID) (onQ (qUnlock (transactionsQ m) lock)))))"

section \<open>Round robin over chains\<close>

text \<open>\<open>slices.Sorted(maps.Keys(m.clients))\<close>\<close>

definition chain_ids :: "'q txManager \<Rightarrow> u64 list" where
  "chain_ids m = sort (remdups (map fst (clients m)))"

definition nextWorkChainIDs :: "'q txManager \<Rightarrow> nat \<Rightarrow> ('q world, u64 list) act" where
  "nextWorkChainIDs m limit w =
     (let chainIDs = chain_ids m
      in if length chainIDs = 0 \<or> limit \<le> 0 then (Ret [], w)
         else
           let limit = min limit (length chainIDs);
               start = nextChainIndex w mod length chainIDs;
               selected = map (\<lambda>offset. chainIDs ! ((start + offset) mod length chainIDs)) [0..<limit]
           in (Ret selected, w\<lparr>nextChainIndex := (start + limit) mod length chainIDs\<rparr>))"

fun for_each :: "('a \<Rightarrow> ('s, unit) act) \<Rightarrow> 'a list \<Rightarrow> ('s, unit) act" where
  "for_each f [] = retA ()"
| "for_each f (x # xs) = bindA (f x) (\<lambda>_. for_each f xs)"

definition processTxs :: "'q txManager \<Rightarrow> ('q world, unit) act" where
  "processTxs m = bindA (nextWorkChainIDs m maxChainWorkers) (for_each (processLaneBatch m))"

section \<open>Notifications\<close>

definition notificationBackoff :: "u32 \<Rightarrow> duration" where
  "notificationBackoff attempt = min (notificationMinBackoff * 2 ^ min (unat attempt) 6) notificationMaxBackoff"

text \<open>A panic of the callback is recovered and becomes an error.\<close>

definition callStatusCallback :: "'q txManager \<Rightarrow> Transaction \<Rightarrow> ('q world, unit) act" where
  "callStatusCallback m tx =
     (case onStatusChange m of
        None \<Rightarrow> failA (errors_new None (''transaction status callback panicked: '' @
          ''runtime error: invalid memory address or nil pointer dereference''))
      | Some callback \<Rightarrow>
          bindA (emit (\<lambda>_. EvCallback tx)) (\<lambda>_.
          bindA (env (\<lambda>i. callback i tx)) (\<lambda>r.
          case r of
            CallbackOk \<Rightarrow> retA ()
          | CallbackErr err \<Rightarrow> failA err
          | CallbackPanic msg \<Rightarrow> failA (errors_new None (''transaction status callback panicked: '' @ msg)))))"

definition notified :: "Transaction \<Rightarrow> go_error + unit \<Rightarrow> time \<Rightarrow> Transaction" where
  "notified tx r now =
     (case r of
        Inr _ \<Rightarrow> tx\<lparr>NotifiedAt := Some now, NotificationError := [], UpdatedAt := now\<rparr>
      | Inl err \<Rightarrow>
          tx\<lparr>NotificationAttempts := NotificationAttempts tx + 1, NotificationError := errText err,
             NextNotificationAt := now + notificationBackoff (NotificationAttempts tx + 1), UpdatedAt := now\<rparr>)"

definition deliverStatusNotification :: "'q txManager \<Rightarrow> Transaction \<Rightarrow> ('q world, unit) act" where
  "deliverStatusNotification m tx =
     tryA (callStatusCallback m tx) (\<lambda>r.
     bindA (ctx_err m) (\<lambda>done.
     if done \<noteq> None then retA ()
     else
       bindA (time_now m) (\<lambda>now.
       tryA (onQ (qUpdateNotification (transactionsQ m) (notified tx r now))) (\<lambda>_. retA ()))))"

definition notification_query :: "time \<Rightarrow> tx_query" where
  "notification_query now = OrderBy orderNextNotification (Limit notificationWorkBatch
     (withFilter (FilterNotificationReadyBefore now) New))"

fun notify_loop :: "'q txManager \<Rightarrow> Transaction list \<Rightarrow> ('q world, unit) act" where
  "notify_loop m [] = retA ()"
| "notify_loop m (tx # rest) =
     bindA (ctx_err m) (\<lambda>done.
     if done \<noteq> None then retA ()
     else bindA (deliverStatusNotification m tx) (\<lambda>_. notify_loop m rest))"

definition deliverStatusNotifications :: "'q txManager \<Rightarrow> ('q world, unit) act" where
  "deliverStatusNotifications m =
     bindA (time_now m) (\<lambda>now.
     tryA (onQ (qSelect (transactionsQ m) (notification_query now))) (\<lambda>r.
     case r of Inl _ \<Rightarrow> retA () | Inr rows \<Rightarrow> notify_loop m rows))"

section \<open>Metrics\<close>

fun observe_clients :: "(u64 \<times> eth_client) list \<Rightarrow> (u64 \<times> u64) list \<Rightarrow> ('q world, (u64 \<times> u64) list) act" where
  "observe_clients [] counts = retA counts"
| "observe_clients ((chainID, _) # rest) counts =
     bindA (emit (\<lambda>_. EvActive chainID (case map_of counts chainID of None \<Rightarrow> 0 | Some n \<Rightarrow> n))) (\<lambda>_.
     observe_clients rest (filter (\<lambda>(c, _). c \<noteq> chainID) counts))"

definition observeTransactionMetrics :: "'q txManager \<Rightarrow> ('q world, unit) act" where
  "observeTransactionMetrics m =
     bindA (ctx_err m) (\<lambda>ce.
     tryA (onQ (qCountByChain (transactionsQ m) ce ActiveStatuses)) (\<lambda>r.
     case r of
       Inl _ \<Rightarrow> bindA (ctx_err m) (\<lambda>_. retA ())
     | Inr counts \<Rightarrow>
         bindA (observe_clients (clients m) counts) (\<lambda>left.
         for_each (\<lambda>(chainID, count). emit (\<lambda>_. EvActive chainID count)) left)))"

section \<open>The caller's side\<close>

text \<open>\<open>base64.StdEncoding\<close>, which \<open>encoding/json\<close> uses for \<open>[]byte\<close>.\<close>

definition base64_char :: "nat \<Rightarrow> char" where
  "base64_char n = ''ABCDEFGHIJKLMNOPQRSTUVWXYZabcdefghijklmnopqrstuvwxyz0123456789+/'' ! n"

fun base64 :: "bytes \<Rightarrow> string" where
  "base64 [] = []"
| "base64 [a] = [base64_char (unat a div 4), base64_char (unat a mod 4 * 16), CHR ''='', CHR ''='']"
| "base64 [a, b] = [base64_char (unat a div 4), base64_char (unat a mod 4 * 16 + unat b div 16),
     base64_char (unat b mod 16 * 4), CHR ''='']"
| "base64 (a # b # c # rest) = [base64_char (unat a div 4), base64_char (unat a mod 4 * 16 + unat b div 16),
     base64_char (unat b mod 16 * 4 + unat c div 64), base64_char (unat c mod 64)] @ base64 rest"

definition quoted :: "string \<Rightarrow> string" where
  "quoted s = CHR 0x22 # s @ [CHR 0x22]"

text \<open>The JSON of a nil byte slice is \<open>null\<close>, and an empty list of authorizations is omitted.\<close>

definition payload_json :: "host \<Rightarrow> u64 \<Rightarrow> address \<Rightarrow> bytes option \<Rightarrow> u64 \<Rightarrow> int \<Rightarrow> SetCodeAuthorization list \<Rightarrow> string res" where
  "payload_json h chainID addr data gasLimit val auths =
     (let head = ''{'' @ quoted ''chain_id'' @ '':'' @ dec_u64 chainID @ '','' @ quoted ''address'' @ '':'' @
            quoted (addrHex h addr) @ '','' @ quoted ''data'' @ '':'' @
            (case data of None \<Rightarrow> ''null'' | Some bs \<Rightarrow> quoted (base64 bs)) @ '','' @
            quoted ''gas_limit'' @ '':'' @ dec_u64 gasLimit @ '','' @ quoted ''value'' @ '':'' @ quoted (dec_int val)
      in if auths = [] then Inr (head @ ''}'')
         else case authJSON h auths of
                Inl err \<Rightarrow> Inl err
              | Inr js \<Rightarrow> Inr (head @ '','' @ quoted ''authorizations'' @ '':'' @ js @ ''}''))"

definition transactionPayloadHash :: "host \<Rightarrow> u64 \<Rightarrow> address \<Rightarrow> bytes option \<Rightarrow> u64 \<Rightarrow> int \<Rightarrow> SetCodeAuthorization list \<Rightarrow> string res" where
  "transactionPayloadHash h chainID addr data gasLimit val auths =
     (case payload_json h chainID addr data gasLimit val auths of
        Inl err \<Rightarrow> Inl (wrapf ''marshalling canonical payload'' err)
      | Inr encoded \<Rightarrow> Inr (hash_hex (keccak h encoded)))"

text \<open>\<open>WithOperationKey\<close>: the options are applied in order and an empty key is ignored.\<close>

definition WithOperationKey :: "string \<Rightarrow> string option \<Rightarrow> string option" where
  "WithOperationKey operationKey current = (if operationKey \<noteq> [] then Some operationKey else current)"

definition new_row :: "'q txManager \<Rightarrow> string \<Rightarrow> u64 \<Rightarrow> address \<Rightarrow> bytes option \<Rightarrow> u64 \<Rightarrow> int \<Rightarrow>
    SetCodeAuthorization list \<Rightarrow> string option \<Rightarrow> string option \<Rightarrow> string \<Rightarrow> time \<Rightarrow> Transaction" where
  "new_row m i chainId addr data gasLimit val auths intentID key payloadHash now =
     \<lparr>ID = i, IntentID = intentID, OperationKey = key, PayloadHash = Some payloadHash, ChainID = chainId,
      Sender = mSender m, Address = addr, Data = (case data of None \<Rightarrow> [] | Some bs \<Rightarrow> bs), Value = Some val,
      GasLimit = gasLimit, RawAuthorizations = auths, AssignedNonce = None, Tx = None, Receipt = None,
      Status = PendingTxStatus, Msg = [], NextActionAt = now, BroadcastPending = False,
      RejectedAttemptHash = None, NonceConsumedAt = None, NotifiedAt = None, NotificationAttempts = 0,
      NextNotificationAt = now, NotificationError = [], UpdatedAt = now, CreatedAt = now\<rparr>"

definition SendTxAsync :: "'q txManager \<Rightarrow> u64 \<Rightarrow> address \<Rightarrow> bytes option \<Rightarrow> u64 \<Rightarrow> int option \<Rightarrow>
    SetCodeAuthorization list \<Rightarrow> string option \<Rightarrow> string list \<Rightarrow> ('q world, string) act" where
  "SendTxAsync m chainId addr data gasLimit value auths intentID keys =
     (if map_of (clients m) chainId = None
      then failA (errors_new None (''unsupported chain ID: '' @ dec_u64 chainId))
      else
        let key = fold WithOperationKey keys None;
            val = (case value of None \<Rightarrow> 0 | Some v \<Rightarrow> v)
        in bindA (mapE (wrapf ''hashing transaction payload'')
             (liftR (transactionPayloadHash (mHost m) chainId addr data gasLimit val auths))) (\<lambda>payloadHash.
           bindA (env (uuid (mHost m))) (\<lambda>i.
           bindA (time_now m) (\<lambda>now.
           bindA (mapE (wrapf ''failed to store tx in the transactionsQ'')
             (onQ (qInsertOrGet (transactionsQ m)
               (new_row m i chainId addr data gasLimit val auths intentID key payloadHash now)))) (\<lambda>stored.
           retA (ID stored))))))"

text \<open>
  \<open>WaitTxCompleted\<close> polls until the context ends or the row is terminal. With \<open>fuel\<close> polls the
  result \<open>Ret None\<close> means that it is still waiting.
\<close>

fun WaitTxCompleted :: "nat \<Rightarrow> 'q txManager \<Rightarrow> string \<Rightarrow> ('q world, Transaction option) act" where
  "WaitTxCompleted 0 m i = retA None"
| "WaitTxCompleted (Suc fuel) m i =
     bindA (ctx_err m) (\<lambda>done.
     case done of
       Some err \<Rightarrow> failA err
     | None \<Rightarrow>
         tryA (onQ (qGet (transactionsQ m) (withFilter (FilterByIds [i]) New))) (\<lambda>r.
         case r of
           Inl err \<Rightarrow> if errors_is err SqlErrNoRows then WaitTxCompleted fuel m i else failA err
         | Inr tx \<Rightarrow> if IsCompleted tx then retA (Some tx) else WaitTxCompleted fuel m i))"

end
