(* ===== verification/Tx_Frame.thy ===== *)
theory Tx_Frame
  imports Tx_Batch
begin

text \<open>
  Frame properties: what every operation of the store keeps, the manager keeps. The interface
  \<open>store_invariant\<close> asks it of the operations that the body of a batch and the notification
  loop use; \<open>locked_invariant\<close> adds the lane locks.
\<close>

section \<open>Operations that only ask the environment\<close>

lemma keeps_time_now [hoare_rules]: "keeps I (env (clock (mHost m))) \<Longrightarrow> keeps I (time_now m)"
  by (simp add: time_now_def)

lemma keeps_ctx_err [hoare_rules]: "keeps I (env (ctxErr (mHost m))) \<Longrightarrow> keeps I (ctx_err m)"
  by (simp add: ctx_err_def)

lemma keeps_rpc [hoare_rules]: "keeps I (env f) \<Longrightarrow> keeps I (rpc f)"
  unfolding rpc_def by (intro hoare_rules)

lemma keeps_client_of [hoare_rules]: "keeps I (client_of m c)"
  by (auto simp: client_of_def intro!: hoare_rules)

lemma keeps_deref [hoare_rules]: "keeps I (deref p)"
  by (auto simp: deref_def intro!: hoare_rules)

lemma keeps_getLane [hoare_rules]: "keeps I getLane"
  by (simp add: keeps_def getLane_def)

text \<open>A call of the environment changes the counter only.\<close>

definition env_stable :: "('q world \<Rightarrow> bool) \<Rightarrow> bool" where
  "env_stable I \<longleftrightarrow> (\<forall>w. I w \<longrightarrow> I (w\<lparr>tick := tick w + 1\<rparr>))"

lemma env_stable_keeps: "env_stable I \<Longrightarrow> keeps I (env f)"
  by (simp add: env_stable_def keeps_def env_def)

lemma keeps_findKnownReceipt:
  "(\<And>g. keeps I (env (g :: nat \<Rightarrow> receipt option res))) \<Longrightarrow> keeps I (findKnownReceipt m c as)"
proof -
  assume env: "\<And>g. keeps I (env (g :: nat \<Rightarrow> receipt option res))"
  have "keeps I (findKnownReceipt_loop m c xs e)" for xs e
    by (induction xs arbitrary: e) (auto intro!: hoare_rules env)
  then show ?thesis by (simp add: findKnownReceipt_def)
qed

lemma keeps_findKnownTransaction:
  "(\<And>g. keeps I (env (g :: nat \<Rightarrow> eth_tx option res))) \<Longrightarrow> keeps I (findKnownTransaction m c as)"
proof -
  assume env: "\<And>g. keeps I (env (g :: nat \<Rightarrow> eth_tx option res))"
  have "keeps I (findKnownTransaction_loop m c xs e)" for xs e
    by (induction xs arbitrary: e) (auto intro!: hoare_rules env)
  then show ?thesis unfolding findKnownTransaction_def by (auto intro!: hoare_rules)
qed
lemma keeps_previous_fee [hoare_rules]: "keeps I (previous_fee as)"
  unfolding previous_fee_def by (intro hoare_rules)

lemma keeps_fee_base [hoare_rules]: "keeps I (fee_base a b)"
  unfolding fee_base_def by (intro hoare_rules)

lemma keeps_MustFromBig [hoare_rules]: "keeps I (MustFromBig v)"
  unfolding MustFromBig_def by (intro hoare_rules)

lemma keeps_signAttempt:
  assumes "env_stable I"
  shows "keeps I (signAttempt m tx as floor)"
  unfolding signAttempt_def sign_with_def suggestGasPrice_def suggestEIP1559GasFee_def Let_def
  by (intro hoare_rules env_stable_keeps [OF assms])

lemma keeps_deferA: "keeps I f \<Longrightarrow> keeps I g \<Longrightarrow> keeps I (deferA f g)"
  by (simp add: keeps_def deferA_def split: prod.splits) (metis snd_conv)

lemma keeps_for_each: "(\<And>x. x \<in> set xs \<Longrightarrow> keeps I (f x)) \<Longrightarrow> keeps I (for_each f xs)"
  by (induction xs) (auto intro!: hoare_rules)

section \<open>The interface\<close>

locale store_invariant =
  fixes Q :: "'q queue" and P :: "'q \<Rightarrow> bool"
  assumes keep_update: "P q \<Longrightarrow> P (snd (qUpdateIfActive Q t q))"
    and keep_record: "P q \<Longrightarrow> P (snd (qInsertAttempt Q a q))"
    and keep_notify: "P q \<Longrightarrow> P (snd (qUpdateNotification Q t q))"
    and keep_select: "P q \<Longrightarrow> P (snd (qSelect Q qy q))"
    and keep_get: "P q \<Longrightarrow> P (snd (qGet Q qy q))"
    and keep_attempts: "P q \<Longrightarrow> P (snd (qSelectAttempts Q i q))"
    and keep_by_nonce: "P q \<Longrightarrow> P (snd (qSelectAttemptsByNonce Q c n q))"
    and keep_count: "P q \<Longrightarrow> P (snd (qCountByChain Q ce sts q))"
    and keep_max_nonce: "P q \<Longrightarrow> P (snd (qMaxAssignedNonce Q s c q))"

locale locked_invariant = store_invariant +
  assumes keep_lock: "P q \<Longrightarrow> P (snd (qTryLockLane Q ce s c q))"
    and keep_unlock: "P q \<Longrightarrow> P (snd (qUnlock Q lk q))"

lemma env_stable_store: "env_stable (\<lambda>w. P (store w))"
  by (simp add: env_stable_def)

lemma keeps_store_emit: "keeps (\<lambda>w. P (store w)) (emit ev)"
  by (simp add: keeps_def emit_def)

lemma keeps_store_lane:
  "keeps (\<lambda>w. P (store w)) (laneObserve n)" "keeps (\<lambda>w. P (store w)) (setLane l)"
  by (simp_all add: keeps_def laneObserve_def setLane_def)

lemma keeps_store_onQ: "(\<And>q. P q \<Longrightarrow> P (snd (f q))) \<Longrightarrow> keeps (\<lambda>w. P (store w)) (onQ f)"
  by (simp add: keeps_def onQ_def split: prod.splits) (metis snd_conv)

lemmas store_prims = env_stable_keeps [OF env_stable_store] keeps_store_emit keeps_store_lane
  keeps_signAttempt [OF env_stable_store] keeps_findKnownReceipt keeps_findKnownTransaction

context store_invariant
begin

lemma store_update:
  assumes "transactionsQ m = Q"
  shows "keeps (\<lambda>w. P (store w)) (update_if_active m t)"
  unfolding update_if_active_def assms by (rule keeps_store_onQ) (rule keep_update)

lemma store_schedule:
  assumes "transactionsQ m = Q"
  shows "keeps (\<lambda>w. P (store w)) (scheduleNextCheckNotBefore m t as nb)"
    and "keeps (\<lambda>w. P (store w)) (scheduleNextCheck m t as)"
    and "keeps (\<lambda>w. P (store w)) (scheduleRetryAfterBlock m t as)"
  unfolding scheduleNextCheck_def scheduleRetryAfterBlock_def scheduleNextCheckNotBefore_def
  by (intro hoare_rules store_prims store_update assms)+

lemma store_terminal:
  assumes "transactionsQ m = Q"
  shows "keeps (\<lambda>w. P (store w)) (abandonTransaction m t r)" "keeps (\<lambda>w. P (store w)) (finalizeTransaction m t x rc)"
  unfolding abandonTransaction_def finalizeTransaction_def persistTerminal_def
  by (intro hoare_rules store_prims store_update assms)+

lemma store_reconcile:
  assumes "transactionsQ m = Q"
  shows "keeps (\<lambda>w. P (store w)) (reconcileRejectedSubmission m t as now rel)"
  unfolding reconcileRejectedSubmission_def reconcile_by_nonce_def Let_def
  by (intro hoare_rules store_prims store_schedule store_terminal assms)

lemma store_broadcast:
  assumes "transactionsQ m = Q"
  shows "keeps (\<lambda>w. P (store w)) (broadcastAndSchedule m t as policy)"
  unfolding broadcastAndSchedule_def handleBroadcastFailure_def settle_failure_def Let_def
  by (intro hoare_rules store_prims store_schedule store_terminal store_reconcile assms)

lemma store_persist:
  assumes "transactionsQ m = Q"
  shows "keeps (\<lambda>w. P (store w)) (persist_loop m t as k floor prev)"
proof (induction k arbitrary: floor prev)
  case (Suc k)
  have "keeps (\<lambda>w. P (store w)) (collision_floor m t a ty)" for a ty
    unfolding collision_floor_def
    by (intro hoare_rules keeps_store_onQ) (simp add: assms keep_by_nonce)
  then show ?case
    unfolding persist_loop.simps Let_def
    by (intro hoare_rules store_prims Suc.IH keeps_store_onQ) (simp add: assms keep_record)
qed (auto intro!: hoare_rules)

lemma store_create:
  assumes "transactionsQ m = Q"
  shows "keeps (\<lambda>w. P (store w)) (createAndBroadcastAttempt m t as rel)"
  unfolding createAndBroadcastAttempt_def persistUniqueAttempt_def Let_def
  by (intro hoare_rules store_persist store_update store_broadcast assms)

lemma store_step:
  assumes "transactionsQ m = Q"
  shows "keeps (\<lambda>w. P (store w)) (processTransactionStep m t)"
proof -
  have tip: "keeps (\<lambda>w. P (store w)) (nonce_is_tip t)" for t
    unfolding nonce_is_tip_def by (intro hoare_rules)
  have assign: "keeps (\<lambda>w. P (store w)) (assign_nonce m t)" for t
    unfolding assign_nonce_def Let_def by (intro hoare_rules store_prims store_update assms)
  have send: "keeps (\<lambda>w. P (store w)) (send_or_sign m t as b)" for t as b
    unfolding send_or_sign_def by (intro hoare_rules tip assign store_broadcast store_create assms)
  have admit: "keeps (\<lambda>w. P (store w)) (admit_attempt m t as b)" for t as b
    unfolding admit_attempt_def
    by (intro hoare_rules store_prims send store_schedule store_terminal assms)
  have advance: "keeps (\<lambda>w. P (store w)) (advance_transaction m t as b)" for t as b
    unfolding advance_transaction_def pollConsumedNonce_def Let_def
    by (intro hoare_rules store_prims admit tip store_schedule store_terminal store_reconcile assms)
  have reconcile: "keeps (\<lambda>w. P (store w)) (reconcile_attempts m t as)" for t as
    unfolding reconcile_attempts_def Let_def
    by (intro hoare_rules store_prims advance store_terminal assms)
  have legacy: "keeps (\<lambda>w. P (store w)) (recover_legacy m t as)" for t as
    unfolding recover_legacy_def Let_def
    by (auto intro!: hoare_rules store_prims keeps_store_onQ simp: assms keep_record split: list.splits option.splits sum.splits)
  show ?thesis
    unfolding processTransactionStep_def
    by (intro hoare_rules reconcile advance legacy keeps_store_onQ) (simp add: assms keep_attempts)
qed

lemma store_reschedule:
  assumes "transactionsQ m = Q"
  shows "keeps (\<lambda>w. P (store w)) (rescheduleTransaction m t e)"
  unfolding rescheduleTransaction_def
  by (intro hoare_rules store_prims store_update keeps_store_onQ assms) (simp add: assms keep_get)

lemma store_locked_batch:
  assumes "transactionsQ m = Q"
  shows "keeps (\<lambda>w. P (store w)) (locked_batch m c)"
proof -
  have "keeps (\<lambda>w. P (store w)) (lane_loop m ts)" for ts
    by (induction ts) (auto intro!: hoare_rules store_prims store_step store_reschedule assms)
  then show ?thesis
    unfolding locked_batch_def logLane_def
    by (intro hoare_rules store_prims keeps_store_onQ) (simp_all add: assms keep_max_nonce keep_select)
qed

lemma store_notifications:
  assumes "transactionsQ m = Q"
  shows "keeps (\<lambda>w. P (store w)) (deliverStatusNotifications m)"
proof -
  have "keeps (\<lambda>w. P (store w)) (callStatusCallback m t)" for t
    unfolding callStatusCallback_def by (auto intro!: hoare_rules store_prims split: callback_result.splits)
  then have one: "keeps (\<lambda>w. P (store w)) (deliverStatusNotification m t)" for t
    unfolding deliverStatusNotification_def
    by (intro hoare_rules store_prims keeps_store_onQ) (simp_all add: assms keep_notify)
  have "keeps (\<lambda>w. P (store w)) (notify_loop m ts)" for ts
    by (induction ts) (auto intro!: hoare_rules store_prims one)
  then show ?thesis
    unfolding deliverStatusNotifications_def
    by (intro hoare_rules store_prims keeps_store_onQ) (simp_all add: assms keep_select)
qed

lemma store_metrics:
  assumes "transactionsQ m = Q"
  shows "keeps (\<lambda>w. P (store w)) (observeTransactionMetrics m)"
proof -
  have "keeps (\<lambda>w. P (store w)) (observe_clients cs counts)" for cs counts
    by (induction cs counts rule: observe_clients.induct) (auto intro!: hoare_rules store_prims)
  then show ?thesis
    unfolding observeTransactionMetrics_def
    by (intro hoare_rules store_prims keeps_for_each keeps_store_onQ) (simp_all add: assms keep_count)
qed

end

context locked_invariant
begin

lemma store_processTxs:
  assumes "transactionsQ m = Q"
  shows "keeps (\<lambda>w. P (store w)) (processTxs m)"
proof -
  have rr: "keeps (\<lambda>w. P (store w)) (nextWorkChainIDs m k)" for k
    by (auto simp: keeps_def nextWorkChainIDs_def Let_def)
  have "keeps (\<lambda>w. P (store w)) (processLaneBatch m c)" for c
    unfolding processLaneBatch_def logLane_def
    by (intro hoare_rules store_prims keeps_deferA store_locked_batch keeps_store_onQ assms)
      (simp_all add: assms keep_lock keep_unlock)
  then show ?thesis unfolding processTxs_def by (intro hoare_rules rr keeps_for_each)
qed

end

end
