(* ===== verification/Tx_Invariant.thy ===== *)
theory Tx_Invariant
  imports Tx_Frame
begin

text \<open>
  The invariant of the durable store on which the safety theorems rest, over the rows \<open>R\<close> and
  the signed attempts \<open>A\<close> that a provider stores, and its preservation by the writes that the
  manager makes.
\<close>

section \<open>The invariant\<close>

type_synonym row_map = "string \<rightharpoonup> Transaction"
type_synonym attempt_map = "string \<Rightarrow> TransactionAttempt list"

text \<open>An attempt is well formed for a sender and a nonce when its raw transaction says the same.\<close>

definition attempt_wf :: "host \<Rightarrow> address \<Rightarrow> u64 option \<Rightarrow> TransactionAttempt \<Rightarrow> bool" where
  "attempt_wf h s nn a \<longleftrightarrow> nn = Some (attNonce a) \<and>
     (\<exists>x. attTx a = Some x \<and> txHash h x = attHash a \<and> txNonce x = attNonce a \<and> txSender h x = Inr s)"

text \<open>Every attempt of an active row is signed for the nonce and by the sender of the row.\<close>

definition attempts_ok :: "host \<Rightarrow> row_map \<Rightarrow> attempt_map \<Rightarrow> bool" where
  "attempts_ok h R A \<longleftrightarrow> (\<forall>i t a. R i = Some t \<longrightarrow> \<not> IsCompleted t \<longrightarrow> a \<in> set (A i) \<longrightarrow>
     attempt_wf h (Sender t) (AssignedNonce t) a)"

text \<open>
  A nonce has an owner and lies in the range of EIP-2681, an active raw transaction is an
  attempt, and attempts belong to rows.
\<close>

definition owners_ok :: "row_map \<Rightarrow> attempt_map \<Rightarrow> bool" where
  "owners_ok R A \<longleftrightarrow> (\<forall>i t. R i = Some t \<longrightarrow> (AssignedNonce t \<noteq> None \<longrightarrow> Sender t \<noteq> 0) \<and>
     AssignedNonce t \<noteq> Some (-1) \<and> (\<not> IsCompleted t \<longrightarrow> Tx t \<noteq> None \<longrightarrow> A i \<noteq> [])) \<and>
     (\<forall>i. R i = None \<longrightarrow> A i = [])"

definition holds_nonce :: "Transaction \<Rightarrow> u64 \<Rightarrow> address \<Rightarrow> u64 \<Rightarrow> bool" where
  "holds_nonce t c s n \<longleftrightarrow> ChainID t = c \<and> Sender t = s \<and> AssignedNonce t = Some n"

text \<open>No nonce of a (sender, chain) belongs to two rows.\<close>

definition nonces_unique :: "row_map \<Rightarrow> bool" where
  "nonces_unique R \<longleftrightarrow> (\<forall>i j t u c s n. R i = Some t \<longrightarrow> R j = Some u \<longrightarrow>
     holds_nonce t c s n \<longrightarrow> holds_nonce u c s n \<longrightarrow> i = j)"

text \<open>
  A row is reported as succeeded or failed only on a receipt of one of its own attempts, with
  the status of that receipt and the transaction it names.
\<close>

definition receipted :: "host \<Rightarrow> TransactionAttempt set \<Rightarrow> Transaction \<Rightarrow> bool" where
  "receipted h as t \<longleftrightarrow> (\<exists>rc x a. a \<in> as \<and> Receipt t = Some rc \<and> Tx t = Some x \<and>
     receiptTxHash rc = attHash a \<and> txHash h x = attHash a \<and>
     (Status t = FailedTxStatus \<and> receiptStatus rc = ReceiptStatusFailed \<or>
      Status t = SucceedTxStatus \<and> receiptStatus rc = ReceiptStatusSuccessful))"

definition results_ok :: "host \<Rightarrow> row_map \<Rightarrow> attempt_map \<Rightarrow> bool" where
  "results_ok h R A \<longleftrightarrow> (\<forall>i t. R i = Some t \<longrightarrow> Status t = SucceedTxStatus \<or> Status t = FailedTxStatus \<longrightarrow>
     receipted h (set (A i)) t)"

definition message_ok :: "string \<Rightarrow> bool" where
  "message_ok s \<longleftrightarrow> length s \<le> maxTransactionMessageBytes \<and> valid_utf8 s"

definition messages_ok :: "row_map \<Rightarrow> bool" where
  "messages_ok R \<longleftrightarrow> (\<forall>i t. R i = Some t \<longrightarrow> message_ok (Msg t))"

definition counts_ok :: "attempt_map \<Rightarrow> bool" where
  "counts_ok A \<longleftrightarrow> (\<forall>i. length (A i) \<le> maxFeeReplacements)"

definition store_ok :: "host \<Rightarrow> row_map \<Rightarrow> attempt_map \<Rightarrow> bool" where
  "store_ok h R A \<longleftrightarrow> attempts_ok h R A \<and> owners_ok R A \<and> nonces_unique R \<and> results_ok h R A \<and>
     messages_ok R \<and> counts_ok A"

section \<open>Writes\<close>

definition lane_set :: "row_map \<Rightarrow> u64 \<Rightarrow> address \<Rightarrow> u64 set" where
  "lane_set R c s = {n. \<exists>i t. R i = Some t \<and> holds_nonce t c s n}"

text \<open>Every other row of the lane holds a lower nonce.\<close>

definition others_below :: "row_map \<Rightarrow> string \<Rightarrow> u64 \<Rightarrow> address \<Rightarrow> u64 option \<Rightarrow> bool" where
  "others_below R i c s nn \<longleftrightarrow> (\<forall>n j t m. nn = Some n \<longrightarrow> j \<noteq> i \<longrightarrow> R j = Some t \<longrightarrow>
     holds_nonce t c s m \<longrightarrow> m < n)"

text \<open>
  What a step writes to the row \<open>i\<close> that holds \<open>nn\<close>: it keeps the identity, the chain, the
  sender and the nonce, or gives up the nonce in a terminal row where every other nonce of the
  lane is lower; a success or a failure has the receipt of an attempt.
\<close>

definition same_lane :: "string \<Rightarrow> u64 \<Rightarrow> address \<Rightarrow> Transaction \<Rightarrow> bool" where
  "same_lane i c s t \<longleftrightarrow> ID t = i \<and> ChainID t = c \<and> Sender t = s"

definition good_write :: "host \<Rightarrow> row_map \<Rightarrow> string \<Rightarrow> u64 \<Rightarrow> address \<Rightarrow> u64 option \<Rightarrow>
    TransactionAttempt list \<Rightarrow> Transaction \<Rightarrow> bool" where
  "good_write h F i c s nn as t \<longleftrightarrow> same_lane i c s t \<and> message_ok (Msg t) \<and>
     (AssignedNonce t = nn \<and> (\<not> IsCompleted t \<and> (Tx t = None \<or> as \<noteq> []) \<or> Status t = ErroredTxStatus \<or>
        receipted h (set as) t) \<or>
      others_below F i c s nn \<and> AssignedNonce t = None \<and> Status t = ErroredTxStatus)"

text \<open>The row as the step finds it and leaves it.\<close>

definition own_active :: "row_map \<Rightarrow> string \<Rightarrow> u64 \<Rightarrow> address \<Rightarrow> u64 option \<Rightarrow> bool" where
  "own_active R i c s nn \<longleftrightarrow> (\<exists>t. R i = Some t \<and> \<not> IsCompleted t \<and> ChainID t = c \<and>
     AssignedNonce t = nn \<and> (Sender t = s \<or> Sender t = 0 \<and> nn = None))"

definition own_done :: "row_map \<Rightarrow> row_map \<Rightarrow> string \<Rightarrow> u64 \<Rightarrow> address \<Rightarrow> u64 option \<Rightarrow> bool" where
  "own_done F R i c s nn \<longleftrightarrow> (\<exists>t. R i = Some t \<and> IsCompleted t \<and> ChainID t = c \<and> Sender t = s \<and>
     (AssignedNonce t = nn \<or> AssignedNonce t = None \<and> others_below F i c s nn))"

definition own :: "row_map \<Rightarrow> row_map \<Rightarrow> string \<Rightarrow> u64 \<Rightarrow> address \<Rightarrow> u64 option \<Rightarrow> bool" where
  "own F R i c s nn \<longleftrightarrow> own_active R i c s nn \<or> own_done F R i c s nn"

definition framed :: "row_map \<Rightarrow> row_map \<Rightarrow> string \<Rightarrow> bool" where
  "framed F R i \<longleftrightarrow> (\<forall>j. j \<noteq> i \<longrightarrow> R j = F j)"

text \<open>The attempts a step has in hand are recorded, up to the raw bytes that their hash fixes.\<close>

definition in_hand :: "host \<Rightarrow> attempt_map \<Rightarrow> string \<Rightarrow> address \<Rightarrow> u64 option \<Rightarrow> TransactionAttempt list \<Rightarrow> bool" where
  "in_hand h A i s nn as \<longleftrightarrow> length (A i) \<le> length as \<and> length as \<le> maxFeeReplacements \<and>
     (\<forall>a \<in> set as. attempt_wf h s nn a \<and> (\<exists>a' \<in> set (A i). attHash a' = attHash a))"

lemma active_status: "Status t \<noteq> SucceedTxStatus \<Longrightarrow> Status t \<noteq> FailedTxStatus \<Longrightarrow> Status t \<noteq> ErroredTxStatus \<Longrightarrow>
    \<not> IsCompleted t"
  by (simp add: IsCompleted_def)

lemma receipted_completed: "receipted h as t \<Longrightarrow> IsCompleted t \<and> (Status t = SucceedTxStatus \<or> Status t = FailedTxStatus)"
  by (auto simp: receipted_def IsCompleted_def)

text \<open>The rows of the lane that a good write leaves: no new nonce.\<close>

lemma good_write_cases:
  assumes "good_write h F i c s nn as t"
  shows "same_lane i c s t \<and> message_ok (Msg t) \<and> (AssignedNonce t = nn \<or> AssignedNonce t = None) \<and>
    (\<not> IsCompleted t \<longrightarrow> AssignedNonce t = nn \<and> (Tx t = None \<or> as \<noteq> []))"
  using assms receipted_completed [of h "set as" t] by (auto simp: good_write_def IsCompleted_def)

lemma lane_set_write:
  assumes "own_active R i c s nn" and "good_write h F i c s nn as t"
  shows "lane_set (R(i \<mapsto> t)) c' s' \<subseteq> lane_set R c' s'"
proof
  fix n assume "n \<in> lane_set (R(i \<mapsto> t)) c' s'"
  then obtain j u where ju: "(R(i \<mapsto> t)) j = Some u" "holds_nonce u c' s' n" by (auto simp: lane_set_def)
  show "n \<in> lane_set R c' s'"
  proof (cases "j = i")
    case True
    with ju assms have "\<exists>u. R i = Some u \<and> holds_nonce u c' s' n"
      by (auto simp: own_active_def same_lane_def holds_nonce_def dest!: good_write_cases)
    then show ?thesis by (auto simp: lane_set_def)
  next
    case False
    with ju show ?thesis by (auto simp: lane_set_def)
  qed
qed

lemma nonces_unique_write:
  assumes "nonces_unique R" and "own_active R i c s nn" and "good_write h F i c s nn as t"
  shows "nonces_unique (R(i \<mapsto> t))"
proof -
  have own: "holds_nonce t c' s' n \<Longrightarrow> \<exists>u. R i = Some u \<and> holds_nonce u c' s' n" for c' s' n
    using assms(2,3) by (auto simp: own_active_def same_lane_def holds_nonce_def dest!: good_write_cases)
  show ?thesis
    unfolding nonces_unique_def
  proof (intro allI impI)
    fix k j x u c' s' n
    assume *: "(R(i \<mapsto> t)) k = Some x" "(R(i \<mapsto> t)) j = Some u" "holds_nonce x c' s' n" "holds_nonce u c' s' n"
    obtain x' where "R k = Some x'" "holds_nonce x' c' s' n"
      using *(1,3) own [of c' s' n] by (cases "k = i") auto
    moreover obtain u' where "R j = Some u'" "holds_nonce u' c' s' n"
      using *(2,4) own [of c' s' n] by (cases "j = i") auto
    ultimately show "k = j" using assms(1) unfolding nonces_unique_def by blast
  qed
qed

lemma receipted_mono:
  assumes "receipted h as t" and "\<And>a. a \<in> as \<Longrightarrow> \<exists>a' \<in> bs. attHash a' = attHash a"
  shows "receipted h bs t"
  using assms unfolding receipted_def by metis

lemma store_ok_write:
  assumes ok: "store_ok h R A" and own: "own_active R i c s nn" and s: "nn \<noteq> None \<Longrightarrow> s \<noteq> 0"
    and hand: "in_hand h A i s nn as" and w: "good_write h F i c s nn as t"
  shows "store_ok h (R(i \<mapsto> t)) A"
proof -
  note t = good_write_cases [OF w]
  obtain t0 where t0: "R i = Some t0" "\<not> IsCompleted t0" "AssignedNonce t0 = nn"
      "Sender t0 = s \<or> Sender t0 = 0 \<and> nn = None" using own by (auto simp: own_active_def)
  have "attempts_ok h (R(i \<mapsto> t)) A"
    using ok t t0 unfolding store_ok_def attempts_ok_def attempt_wf_def
    by (auto simp: same_lane_def) (metis option.distinct(1))+
  moreover have "owners_ok (R(i \<mapsto> t)) A"
  proof -
    have "as \<noteq> [] \<Longrightarrow> A i \<noteq> []" using hand by (cases as) (auto simp: in_hand_def)
    moreover have "owners_ok R A" using ok by (simp add: store_ok_def)
    moreover from this have "nn \<noteq> Some (-1)" using t0 unfolding owners_ok_def by blast
    ultimately show ?thesis
      using t s unfolding owners_ok_def fun_upd_apply
      by (auto simp: same_lane_def split: if_splits)
  qed
  moreover have "results_ok h (R(i \<mapsto> t)) A"
  proof -
    have "receipted h (set (A i)) t" if st: "Status t = SucceedTxStatus \<or> Status t = FailedTxStatus"
    proof (rule receipted_mono)
      show "receipted h (set as) t" using w st by (auto simp: good_write_def IsCompleted_def)
      show "\<exists>a' \<in> set (A i). attHash a' = attHash a" if "a \<in> set as" for a
        using hand that by (simp add: in_hand_def)
    qed
    then show ?thesis using ok unfolding store_ok_def results_ok_def by auto
  qed
  moreover have "messages_ok (R(i \<mapsto> t))" using ok t unfolding store_ok_def messages_ok_def by auto
  ultimately show ?thesis
    using ok nonces_unique_write [OF _ own w] by (simp add: store_ok_def)
qed

lemma own_write:
  assumes "own_active R i c s nn" and "good_write h F i c s nn as t"
  shows "own F (R(i \<mapsto> t)) i c s nn"
  using assms unfolding own_def own_active_def own_done_def good_write_def
  by (auto simp: same_lane_def IsCompleted_def dest: receipted_completed)

text \<open>Recording an attempt for the nonce of an active row.\<close>

lemma store_ok_record:
  assumes ok: "store_ok h R A" and own: "own_active R i c s nn"
    and wf: "attempt_wf h s nn a" and len: "length (A i) < maxFeeReplacements"
  shows "store_ok h R (A(i := A i @ [a]))"
proof -
  obtain t0 where t0: "R i = Some t0" "\<not> IsCompleted t0" "AssignedNonce t0 = nn" "Sender t0 = s"
    using own wf by (auto simp: own_active_def attempt_wf_def)
  have "attempts_ok h R (A(i := A i @ [a]))"
    using ok t0 wf unfolding store_ok_def attempts_ok_def by auto
  moreover have "owners_ok R (A(i := A i @ [a]))"
    using ok t0(1) unfolding store_ok_def owners_ok_def by auto
  moreover have "results_ok h R (A(i := A i @ [a]))"
    using ok unfolding store_ok_def results_ok_def
    by (auto intro: receipted_mono)
  moreover have "counts_ok (A(i := A i @ [a]))"
    using ok len unfolding store_ok_def counts_ok_def by auto
  ultimately show ?thesis using ok by (simp add: store_ok_def)
qed

end
