(* ===== verification/Tx_Safety.thy ===== *)
theory Tx_Safety
  imports Tx_Invariant
begin

text \<open>
  The invariant through the operations of a step: scheduling, terminal transitions,
  reconciliation of rejections, signing, recording and broadcasting. Each operation is
  verified once, inside the interface of the store, from the laws that the store promises.
\<close>

section \<open>What the theorems assume of the parameters\<close>

text \<open>
  The signer of go-ethereum's \<open>bind\<close> package keeps the payload it is given and signs for the
  account it is configured with, and a node reports pending nonces below the bound of EIP-2681.
\<close>

definition signed_as :: "host \<Rightarrow> address \<Rightarrow> eth_tx \<Rightarrow> eth_tx \<Rightarrow> bool" where
  "signed_as h from raw stx \<longleftrightarrow> txNonce stx = txNonce raw \<and> txType stx = txType raw \<and>
     txGasPrice stx = txGasPrice raw \<and> txGasTipCap stx = txGasTipCap raw \<and>
     txGasFeeCap stx = txGasFeeCap raw \<and> txSender h stx = Inr from"

definition signer_law :: "'q txManager \<Rightarrow> bool" where
  "signer_law m \<longleftrightarrow> (\<forall>provider k c auth j raw stx. getTransactOpts m = Some provider \<longrightarrow>
     provider k c = Inr (Some auth) \<longrightarrow> optSigner auth j (optFrom auth) raw = Inr stx \<longrightarrow>
     signed_as (mHost m) (optFrom auth) raw stx)"

definition nonce_law :: "'q txManager \<Rightarrow> bool" where
  "nonce_law m \<longleftrightarrow> (\<forall>c client k a n. map_of (clients m) c = Some client \<longrightarrow>
     PendingNonceAt client k a = Inr n \<longrightarrow> n \<noteq> -1)"

definition manager_ok :: "'q queue \<Rightarrow> 'q txManager \<Rightarrow> bool" where
  "manager_ok Q m \<longleftrightarrow> transactionsQ m = Q \<and> mSender m \<noteq> 0 \<and> signer_law m \<and> nonce_law m"

text \<open>
  A send is durable when, in the store at that moment, an active row of the chain holds the
  nonce and the signer of the transaction sent, and its hash is recorded among the row's attempts.
\<close>

definition durable_send :: "host \<Rightarrow> row_map \<Rightarrow> attempt_map \<Rightarrow> u64 \<Rightarrow> eth_tx \<Rightarrow> bool" where
  "durable_send h R A c raw \<longleftrightarrow> (\<exists>i t. R i = Some t \<and> \<not> IsCompleted t \<and> ChainID t = c \<and>
     AssignedNonce t = Some (txNonce raw) \<and> txSender h raw = Inr (Sender t) \<and>
     (\<exists>a \<in> set (A i). attHash a = txHash h raw))"

definition sent_ok :: "host \<Rightarrow> ('q \<Rightarrow> row_map) \<Rightarrow> ('q \<Rightarrow> attempt_map) \<Rightarrow> 'q event list \<Rightarrow> bool" where
  "sent_ok h rows atts tr \<longleftrightarrow> (\<forall>c raw q. EvSend c raw q \<in> set tr \<longrightarrow> durable_send h (rows q) (atts q) c raw)"

section \<open>Local rows\<close>

text \<open>The copy of the row that a step carries along.\<close>

definition local_row :: "string \<Rightarrow> u64 \<Rightarrow> address \<Rightarrow> u64 option \<Rightarrow> TransactionAttempt list \<Rightarrow> Transaction \<Rightarrow> bool" where
  "local_row i c s nn as tx \<longleftrightarrow> same_lane i c s tx \<and> AssignedNonce tx = nn \<and> \<not> IsCompleted tx \<and>
     (Tx tx = None \<or> as \<noteq> [])"

lemma message_ok_tail [simp]: "message_ok (transactionMessageTail s)" "message_ok []"
  using transactionMessageTail_ok by (simp_all add: message_ok_def)

lemma terminal_row_sel [simp]:
  "ID (terminal_row t now) = ID t" "ChainID (terminal_row t now) = ChainID t"
  "Sender (terminal_row t now) = Sender t" "AssignedNonce (terminal_row t now) = AssignedNonce t"
  "Status (terminal_row t now) = Status t" "Tx (terminal_row t now) = Tx t"
  "Receipt (terminal_row t now) = Receipt t" "Msg (terminal_row t now) = transactionMessageTail (Msg t)"
  by (simp_all add: terminal_row_def Let_def)

lemma good_write_terminal:
  "same_lane i c s t \<Longrightarrow> AssignedNonce t = nn \<and> (Status t = ErroredTxStatus \<or> receipted h (set as) t) \<or>
     others_below F i c s nn \<and> AssignedNonce t = None \<and> Status t = ErroredTxStatus \<Longrightarrow>
    good_write h F i c s nn as (terminal_row t now)"
  by (auto simp: good_write_def same_lane_def receipted_def)

lemma good_write_scheduled:
  "local_row i c s nn as t \<Longrightarrow> good_write h F i c s nn as (scheduled m t as nb now)"
  by (auto simp: good_write_def same_lane_def scheduled_def local_row_def IsCompleted_def)

context transactions_queue
begin

definition step_inv :: "host \<Rightarrow> row_map \<Rightarrow> string \<Rightarrow> u64 \<Rightarrow> address \<Rightarrow> u64 option \<Rightarrow> 'q world \<Rightarrow> bool" where
  "step_inv h F i c s nn w \<longleftrightarrow> invar (store w) \<and> store_ok h (rows (store w)) (atts (store w)) \<and>
     own F (rows (store w)) i c s nn \<and> framed F (rows (store w)) i \<and>
     covers (lane w) (lane_set (rows (store w)) c s) \<and> sent_ok h rows atts (trace w)"

definition hand_inv where
  "hand_inv h F i c s nn as w \<longleftrightarrow> step_inv h F i c s nn w \<and> in_hand h (atts (store w)) i s nn as"

definition active_inv where
  "active_inv h F i c s nn as w \<longleftrightarrow> hand_inv h F i c s nn as w \<and> own_active (rows (store w)) i c s nn"

lemma own_not_completed: "own F R i c s nn \<Longrightarrow> R i = Some t \<Longrightarrow> \<not> IsCompleted t \<Longrightarrow> own_active R i c s nn"
  by (auto simp: own_def own_done_def)

lemma write_rows:
  assumes hand: "hand_inv h F i c s nn as w" and s: "s \<noteq> 0" and gw: "good_write h F i c s nn as t"
    and c: "committed (rows (store w)) (ID t) t R'"
    and q': "invar q'" "atts q' = atts (store w)" "rows q' = R'"
  shows "hand_inv h F i c s nn as (w\<lparr>store := q'\<rparr>)"
proof -
  have id: "ID t = i" using gw by (simp add: good_write_def same_lane_def)
  from c obtain cur where cur: "rows (store w) i = Some cur" "\<not> IsCompleted cur"
    and R': "R' = (rows (store w))(i \<mapsto> t)" by (auto simp: committed_def id)
  have act: "own_active (rows (store w)) i c s nn"
    using hand cur by (auto simp: hand_inv_def step_inv_def intro: own_not_completed)
  have "store_ok h R' (atts (store w))"
    unfolding R' by (rule store_ok_write [OF _ act s _ gw]) (use hand in \<open>auto simp: hand_inv_def step_inv_def\<close>)
  moreover have "covers (lane w) (lane_set R' c s)"
    using hand lane_set_write [OF act gw] unfolding R' hand_inv_def step_inv_def by (auto intro: covers_mono)
  moreover have "own F R' i c s nn" unfolding R' by (rule own_write [OF act gw])
  ultimately show ?thesis
    using hand q' by (simp add: hand_inv_def step_inv_def framed_def R')
qed

lemma keeps_write:
  assumes "transactionsQ m = Q" and "s \<noteq> 0" and "good_write h F i c s nn as t"
  shows "keeps (hand_inv h F i c s nn as) (update_if_active m t)"
proof -
  have "hand_inv h F i c s nn as (snd (update_if_active m t w))" if w: "hand_inv h F i c s nn as w" for w
  proof -
    obtain r q' where run: "qUpdateIfActive Q t (store w) = (r, q')" by fastforce
    have "invar (store w)" using w by (simp add: hand_inv_def step_inv_def)
    from update_law [OF this run]
    have q': "invar q'" "atts q' = atts (store w)"
      "rows q' = rows (store w) \<or> committed (rows (store w)) (ID t) t (rows q')" by auto
    have "snd (update_if_active m t w) = w\<lparr>store := q'\<rparr>"
      by (simp add: update_if_active_def onQ_def assms(1) run)
    moreover have "hand_inv h F i c s nn as (w\<lparr>store := q'\<rparr>)"
      using q'(3)
    proof
      assume "rows q' = rows (store w)"
      then show ?thesis using w q' by (simp add: hand_inv_def step_inv_def)
    next
      assume "committed (rows (store w)) (ID t) t (rows q')"
      from write_rows [OF w assms(2,3) this q'(1,2) refl] show ?thesis .
    qed
    ultimately show ?thesis by simp
  qed
  then show ?thesis by (simp add: keeps_def)
qed

lemma keeps_env [hoare_rules]: "keeps (hand_inv h F i c s nn as) (env f)"
  by (simp add: keeps_def env_def hand_inv_def step_inv_def)

lemma keeps_emit [hoare_rules]:
  "(\<And>cc raw q. e \<noteq> EvSend cc raw q) \<Longrightarrow> keeps (hand_inv h F i c s nn as) (emit (\<lambda>_. e))"
  by (auto simp: keeps_def emit_def hand_inv_def step_inv_def sent_ok_def)

end

text \<open>A receipt that the search returns belongs to one of the attempts, with a known status.\<close>

definition receipt_of :: "TransactionAttempt list \<Rightarrow> receipt \<Rightarrow> eth_tx option \<Rightarrow> bool" where
  "receipt_of as rc winner \<longleftrightarrow> (\<exists>a \<in> set as. receiptTxHash rc = attHash a \<and> winner = attTx a \<and>
     (receiptStatus rc = ReceiptStatusFailed \<or> receiptStatus rc = ReceiptStatusSuccessful))"

lemma returns_findKnownReceipt:
  "returns (\<lambda>(found, _). \<forall>rc winner. found = Some (rc, winner) \<longrightarrow> receipt_of as rc winner) (findKnownReceipt m c as)"
proof -
  have "returns (\<lambda>(found, _). \<forall>rc winner. found = Some (rc, winner) \<longrightarrow> receipt_of as rc winner)
      (findKnownReceipt_loop m c xs e)" if "set xs \<subseteq> set as" for xs e
    using that
    by (induction xs arbitrary: e)
      (auto intro!: returns_ret returns_bind_any simp: receipt_of_def split: sum.splits option.splits)
  then show ?thesis by (simp add: findKnownReceipt_def)
qed

context transactions_queue
begin

lemma keeps_scheduleNB:
  assumes "transactionsQ m = Q" "s \<noteq> 0" "local_row i c s nn as t"
  shows "keeps (hand_inv h F i c s nn as) (scheduleNextCheckNotBefore m t as nb)"
  unfolding scheduleNextCheckNotBefore_def
  by (intro hoare_rules keeps_write good_write_scheduled assms)

lemma keeps_schedule:
  assumes "transactionsQ m = Q" "s \<noteq> 0" "local_row i c s nn as t"
  shows "keeps (hand_inv h F i c s nn as) (scheduleNextCheck m t as)"
    and "keeps (hand_inv h F i c s nn as) (scheduleRetryAfterBlock m t as)"
  unfolding scheduleNextCheck_def scheduleRetryAfterBlock_def
  by (intro hoare_rules keeps_scheduleNB assms)+

lemma keeps_persistTerminal:
  assumes "transactionsQ m = Q" "s \<noteq> 0" "same_lane i c s t"
    "AssignedNonce t = nn \<and> (Status t = ErroredTxStatus \<or> receipted h (set as) t) \<or>
     others_below F i c s nn \<and> AssignedNonce t = None \<and> Status t = ErroredTxStatus"
  shows "keeps (hand_inv h F i c s nn as) (persistTerminal m t)"
  unfolding persistTerminal_def
  by (intro hoare_rules keeps_write good_write_terminal assms) simp

lemma keeps_abandon:
  assumes "transactionsQ m = Q" "s \<noteq> 0" "same_lane i c s t"
    "AssignedNonce t = nn \<or> others_below F i c s nn \<and> AssignedNonce t = None"
  shows "keeps (hand_inv h F i c s nn as) (abandonTransaction m t reason)"
  unfolding abandonTransaction_def
  by (intro keeps_persistTerminal) (use assms in \<open>auto simp: same_lane_def\<close>)

lemma keeps_finalize:
  assumes "transactionsQ m = Q" "s \<noteq> 0" "local_row i c s nn as t" "receipt_of as rc winner"
  shows "keeps (hand_inv h F i c s nn as) (finalizeTransaction m t winner rc)"
proof (rule keeps_assume)
  show "hand_inv h F i c s nn as w \<Longrightarrow> \<forall>a \<in> set as. attempt_wf h s nn a" for w
    by (simp add: hand_inv_def in_hand_def)
  assume wf: "\<forall>a \<in> set as. attempt_wf h s nn a"
  from assms(4) obtain a where a: "a \<in> set as" "receiptTxHash rc = attHash a" "winner = attTx a"
    "receiptStatus rc = ReceiptStatusFailed \<or> receiptStatus rc = ReceiptStatusSuccessful"
    by (auto simp: receipt_of_def)
  from wf a(1) obtain x where x: "attTx a = Some x" "txHash h x = attHash a" by (auto simp: attempt_wf_def)
  let ?t = "t\<lparr>Tx := winner, Receipt := Some rc, Msg := [], RejectedAttemptHash := None,
       Status := (if receiptStatus rc = ReceiptStatusFailed then FailedTxStatus else SucceedTxStatus)\<rparr>"
  have "receipted h (set as) ?t"
    unfolding receipted_def
    by (rule exI [of _ rc], rule exI [of _ x], rule exI [of _ a])
      (use a x in \<open>auto simp: ReceiptStatusFailed_def ReceiptStatusSuccessful_def\<close>)
  then show "keeps (hand_inv h F i c s nn as) (finalizeTransaction m t winner rc)"
    unfolding finalizeTransaction_def
    by (intro keeps_persistTerminal) (use assms(1-3) in \<open>auto simp: same_lane_def local_row_def\<close>)
qed

text \<open>The copy may change in every field but those that place it in its lane.\<close>

lemma keeps_reconcile_by_nonce:
  assumes "transactionsQ m = Q" "s \<noteq> 0" "local_row i c s nn as t" "as \<noteq> []"
    "rel \<Longrightarrow> others_below F i c s nn"
  shows "keeps (hand_inv h F i c s nn as) (reconcile_by_nonce m t as now rel reason pn)"
  unfolding reconcile_by_nonce_def Let_def
  by (intro hoare_rules keeps_schedule keeps_abandon assms)
    (use assms in \<open>auto simp: local_row_def same_lane_def IsCompleted_def\<close>)

lemma keeps_reconcile:
  assumes "transactionsQ m = Q" "s \<noteq> 0" "local_row i c s nn as t" "as \<noteq> []"
    "rel \<Longrightarrow> others_below F i c s nn"
  shows "keeps (hand_inv h F i c s nn as) (reconcileRejectedSubmission m t as now rel)"
  unfolding reconcileRejectedSubmission_def Let_def
  by (intro hoare_rules keeps_schedule keeps_reconcile_by_nonce keeps_findKnownTransaction assms)
    (use assms in \<open>auto simp: local_row_def same_lane_def IsCompleted_def\<close>)

lemma keeps_settle_failure:
  assumes "transactionsQ m = Q" "s \<noteq> 0" "local_row i c s nn as t" "as \<noteq> []"
    "nonceReleasable policy \<Longrightarrow> others_below F i c s nn"
  shows "keeps (hand_inv h F i c s nn as) (settle_failure m t as policy now rej may ra)"
  unfolding settle_failure_def
proof (rule keeps_bind_returns [OF keeps_findKnownReceipt returns_findKnownReceipt])
  fix x :: "(receipt \<times> eth_tx option) option \<times> go_error option"
  assume "case x of (found, _) \<Rightarrow> \<forall>rc winner. found = Some (rc, winner) \<longrightarrow> receipt_of as rc winner"
  then obtain found e where x: "x = (found, e)" "\<And>rc winner. found = Some (rc, winner) \<Longrightarrow> receipt_of as rc winner"
    by (cases x) auto
  show "keeps (hand_inv h F i c s nn as) (case x of (found, receiptErr) \<Rightarrow> (case found of
       Some (rc, winner) \<Rightarrow> finalizeTransaction m t winner rc
     | None \<Rightarrow> (case receiptErr of
          Some err \<Rightarrow> scheduleNextCheckNotBefore m (t\<lparr>Msg := appendReconciliationError (Msg t) (Some err)\<rparr>) as
              (if rej then if may then now + blockTime m (ChainID t) else ra else 0)
        | None \<Rightarrow> if rej then if may then reconcileRejectedSubmission m t as now (nonceReleasable policy)
              else scheduleNextCheckNotBefore m t as ra else scheduleNextCheck m t as)))"
    unfolding x(1) prod.case
    by (intro hoare_rules keeps_finalize keeps_scheduleNB keeps_schedule keeps_reconcile assms)
      (use assms x(2) in \<open>auto simp: local_row_def same_lane_def IsCompleted_def\<close>)
qed (intro hoare_rules)

lemma local_row_disposition:
  "local_row i c s nn as t \<Longrightarrow> local_row i c s nn as (record_disposition d t a now may reason)"
  by (cases d) (auto simp: local_row_def same_lane_def IsCompleted_def)

lemma keeps_handleBroadcastFailure:
  assumes "transactionsQ m = Q" "s \<noteq> 0" "local_row i c s nn as t" "as \<noteq> []"
    "nonceReleasable policy \<Longrightarrow> others_below F i c s nn"
  shows "keeps (hand_inv h F i c s nn as) (handleBroadcastFailure m t as err policy)"
proof -
  have "local_row i c s nn as (t\<lparr>RejectedAttemptHash := None\<rparr>)"
    using assms(3) by (auto simp: local_row_def same_lane_def IsCompleted_def)
  then show ?thesis
    unfolding handleBroadcastFailure_def Let_def
    by (intro hoare_rules keeps_schedule keeps_settle_failure local_row_disposition assms)
qed

lemma keeps_poll:
  assumes "transactionsQ m = Q" "s \<noteq> 0" "local_row i c s nn as t"
  shows "keeps (hand_inv h F i c s nn as) (pollConsumedNonce m t as)"
  unfolding pollConsumedNonce_def Let_def
  by (intro hoare_rules keeps_schedule keeps_abandon assms)
    (use assms in \<open>auto simp: local_row_def same_lane_def\<close>)

text \<open>A send happens in a state in which the row is active and its newest attempt recorded.\<close>

lemma send_sent_ok:
  assumes "active_inv h F i c s nn as w" and "as \<noteq> []" and "attTx (last as) = Some raw"
  shows "active_inv h F i c s nn as (snd (emit (EvSend c raw) w))"
proof -
  let ?a = "last as"
  have "?a \<in> set as" using assms(2) by simp
  then obtain x a' where x: "attTx ?a = Some x" "txHash h x = attHash ?a" "txNonce x = attNonce ?a"
      "txSender h x = Inr s" "nn = Some (attNonce ?a)" and a': "a' \<in> set (atts (store w) i)" "attHash a' = attHash ?a"
    using assms(1) by (auto simp: active_inv_def hand_inv_def in_hand_def attempt_wf_def)
  obtain t where t: "rows (store w) i = Some t" "\<not> IsCompleted t" "ChainID t = c" "AssignedNonce t = nn" "Sender t = s"
    using assms(1) x(5) by (auto simp: active_inv_def own_active_def)
  have "durable_send h (rows (store w)) (atts (store w)) c raw"
    unfolding durable_send_def using assms(3) x a' t by auto
  then show ?thesis
    using assms(1) by (auto simp: active_inv_def hand_inv_def step_inv_def emit_def sent_ok_def)
qed

lemma active_hand: "active_inv h F i c s nn as w \<Longrightarrow> hand_inv h F i c s nn as w"
  by (simp add: active_inv_def)

lemma active_env: "keeps (active_inv h F i c s nn as) (env f)"
  by (simp add: keeps_def env_def active_inv_def hand_inv_def step_inv_def)

lemma triple_broadcast:
  assumes "transactionsQ m = Q" "s \<noteq> 0" "local_row i c s nn as t" "as \<noteq> []"
    "nonceReleasable policy \<Longrightarrow> others_below F i c s nn"
  shows "triple (active_inv h F i c s nn as) (broadcastAndSchedule m t as policy) (\<lambda>_. hand_inv h F i c s nn as)"
proof -
  have c: "ChainID t = c" using assms(3) by (simp add: local_row_def same_lane_def)
  have keeps: "keeps (hand_inv h F i c s nn as) (case answer of
       Inl err \<Rightarrow> handleBroadcastFailure m t as err policy
     | Inr (_::unit) \<Rightarrow> scheduleNextCheck m (t\<lparr>Msg := [], BroadcastPending := False, RejectedAttemptHash := None\<rparr>) as)"
    for answer
    by (intro hoare_rules keeps_handleBroadcastFailure keeps_schedule assms)
      (use assms in \<open>auto simp: local_row_def same_lane_def IsCompleted_def\<close>)
  show ?thesis
  proof (rule tripleI)
    fix w assume w: "active_inv h F i c s nn as w"
    show "hand_inv h F i c s nn as (snd (broadcastAndSchedule m t as policy w))"
    proof (cases "map_of (clients m) c")
      case None
      then show ?thesis using w by (simp add: broadcastAndSchedule_def action_defs client_of_def c active_hand)
    next
      case (Some client)
      show ?thesis
      proof (cases "attTx (last as)")
        case None
        then show ?thesis using w Some
          by (simp add: broadcastAndSchedule_def action_defs client_of_def c active_hand deref_def)
      next
        case raw: (Some raw)
        let ?w = "snd (env (\<lambda>i. SendTransaction client i raw) (snd (emit (EvSend c raw) w)))"
        let ?a = "SendTransaction client (tick w) raw"
        have run: "broadcastAndSchedule m t as policy w = (case ?a of
            Inl err \<Rightarrow> handleBroadcastFailure m t as err policy
          | Inr _ \<Rightarrow> scheduleNextCheck m (t\<lparr>Msg := [], BroadcastPending := False, RejectedAttemptHash := None\<rparr>) as) ?w"
          using Some raw by (simp add: broadcastAndSchedule_def bindA_def retA_def client_of_def c deref_def emit_def env_def)
        have "hand_inv h F i c s nn as ?w"
          by (intro active_hand keepsD [OF active_env] send_sent_ok w assms(4) raw)
        then show ?thesis unfolding run using keeps [of ?a] by (simp add: keeps_def)
      qed
    qed
  qed
qed

end
section \<open>Signing and recording\<close>

lemma returns_rpc: "(\<And>k x. f k = Inr x \<Longrightarrow> V x) \<Longrightarrow> returns V (rpc f)"
  unfolding rpc_def
  by (rule returns_bind [where U = "\<lambda>r. \<exists>k. r = f k"])
    (auto simp: env_def returns_def [of _ "env f"] intro!: returns_liftR)

lemma returns_sign_with:
  assumes "signer_law m" and "getTransactOpts m = Some provider" "provider k cc = Inr (Some auth)"
  shows "returns (\<lambda>x. \<exists>raw n. AssignedNonce tx = Some n \<and> txNonce raw = n \<and>
    signed_as (mHost m) (optFrom auth) raw x) (sign_with m tx as floor auth)"
proof -
  have law: "optSigner auth j (optFrom auth) raw = Inr x \<Longrightarrow> signed_as (mHost m) (optFrom auth) raw x" for j raw x
    using assms unfolding signer_law_def by blast
  have nonce: "returns (\<lambda>n. AssignedNonce tx = Some n) (deref (AssignedNonce tx))"
    by (auto simp: deref_def intro!: hoare_rules split: option.splits)
  show ?thesis
    unfolding sign_with_def Let_def
    by (auto intro!: returns_bind_any returns_rpc returns_bind [OF nonce] dest!: law
        simp: SetCodeTx_def LegacyTx_def split: option.splits)
      (metis eth_tx.select_convs(3))+
qed

lemma returns_signAttempt:
  assumes "signer_law m"
  shows "returns (\<lambda>x. AssignedNonce tx = Some (txNonce x) \<and> txSender (mHost m) x = Inr (mSender m))
    (signAttempt m tx as floor)"
proof (cases "getTransactOpts m")
  case None
  then show ?thesis by (simp add: signAttempt_def returns_fail)
next
  case (Some provider)
  have "returns (\<lambda>x. AssignedNonce tx = Some (txNonce x) \<and> txSender (mHost m) x = Inr (mSender m))
      (sign_with m tx as floor auth)" if "provider k (ChainID tx) = Inr (Some auth)" "optFrom auth = mSender m" for k auth
    using returns_sign_with [OF assms Some that(1), of tx as floor] that(2)
    unfolding returns_def signed_as_def by metis
  then show ?thesis
    unfolding signAttempt_def Some option.case
    by (intro returns_bind [where U = "\<lambda>opts. \<exists>k. provider k (ChainID tx) = Inr opts"] returns_mapE returns_rpc)
      (auto intro!: hoare_rules split: option.splits)
qed

context transactions_queue
begin

lemma active_env_stable: "env_stable (active_inv h F i c s nn as)"
  by (simp add: env_stable_def active_inv_def hand_inv_def step_inv_def)

lemma active_step: "active_inv h F i c s nn as w \<Longrightarrow> step_inv h F i c s nn w"
  by (simp add: active_inv_def hand_inv_def)

lemma triple_insert_attempt:
  assumes "transactionsQ m = Q" and wf: "attempt_wf h s nn a" and id: "attTransactionID a = i"
    and len: "length as < maxFeeReplacements"
  shows "triple (active_inv h F i c s nn as) (onQ (qInsertAttempt (transactionsQ m) a))
    (\<lambda>r w. step_inv h F i c s nn w \<and> (r = Ret () \<longrightarrow> active_inv h F i c s nn (as @ [a]) w) \<and>
      (\<forall>e. r = Fail e \<longrightarrow> errors_is e ErrAttemptHashConflict \<longrightarrow> active_inv h F i c s nn as w))"
proof (rule tripleI)
  fix w assume w: "active_inv h F i c s nn as w"
  obtain r q' where run: "qInsertAttempt Q a (store w) = (r, q')" by fastforce
  have inv: "invar (store w)" using w by (simp add: active_inv_def hand_inv_def step_inv_def)
  note law = attempt_law [OF inv run]
  let ?A = "atts (store w)"
  have A: "atts q' = ?A \<or> atts q' = ?A(i := ?A i @ [a])" using law id by auto
  have hand: "in_hand h ?A i s nn as" and own: "own_active (rows (store w)) i c s nn"
    and ok: "store_ok h (rows (store w)) ?A" using w by (auto simp: active_inv_def hand_inv_def step_inv_def)
  have "store_ok h (rows q') (atts q')"
    using A ok law hand len store_ok_record [OF ok own wf] by (auto simp: in_hand_def)
  then have st: "step_inv h F i c s nn (w\<lparr>store := q'\<rparr>)"
    using w law by (simp add: active_inv_def hand_inv_def step_inv_def)
  have "in_hand h (atts q') i s nn (as @ [a])" if "r = Ret ()"
    using that A hand law wf id len by (auto simp: in_hand_def)
  moreover have "in_hand h (atts q') i s nn as" if "r = Fail e" "errors_is e ErrAttemptHashConflict" for e
    using that hand attempt_error [OF inv, of a e q'] run by simp
  moreover have "own_active (rows q') i c s nn" using own law by simp
  ultimately show "step_inv h F i c s nn (snd (onQ (qInsertAttempt (transactionsQ m) a) w)) \<and>
     (fst (onQ (qInsertAttempt (transactionsQ m) a) w) = Ret () \<longrightarrow>
       active_inv h F i c s nn (as @ [a]) (snd (onQ (qInsertAttempt (transactionsQ m) a) w))) \<and>
     (\<forall>e. fst (onQ (qInsertAttempt (transactionsQ m) a) w) = Fail e \<longrightarrow> errors_is e ErrAttemptHashConflict \<longrightarrow>
       active_inv h F i c s nn as (snd (onQ (qInsertAttempt (transactionsQ m) a) w)))"
    using st by (simp add: onQ_def run assms(1) active_inv_def hand_inv_def)
qed

lemma keeps_by_nonce:
  assumes "transactionsQ m = Q"
  shows "keeps (active_inv h F i c s nn as) (onQ (qSelectAttemptsByNonce (transactionsQ m) cc n))"
proof -
  have "snd (onQ (qSelectAttemptsByNonce (transactionsQ m) cc n) w) = w" if "invar (store w)" for w :: "'q world"
  proof -
    obtain r q' where run: "qSelectAttemptsByNonce Q cc n (store w) = (r, q')" by fastforce
    with by_nonce_law [OF that run] show ?thesis by (simp add: onQ_def assms)
  qed
  then show ?thesis by (auto simp: keeps_def active_inv_def hand_inv_def step_inv_def)
qed

lemma triple_persist_loop:
  assumes m: "manager_ok Q m" and h: "h = mHost m" and s: "s = mSender m"
    and tx: "ID tx = i" "AssignedNonce tx = nn" and len: "length as < maxFeeReplacements"
  shows "triple (active_inv h F i c s nn as) (persist_loop m tx as k floor prev)
    (\<lambda>r w. step_inv h F i c s nn w \<and> (\<forall>a. r = Ret a \<longrightarrow> active_inv h F i c s nn (as @ [a]) w))"
proof (induction k arbitrary: floor prev)
  case 0
  then show ?case by (auto intro: triple_fail simp: active_step)
next
  case (Suc k)
  have Qm: "transactionsQ m = Q" and law: "signer_law m" using m by (auto simp: manager_ok_def)
  have floor: "keeps (active_inv h F i c s nn as) (collision_floor m tx a ty)" for a ty
    unfolding collision_floor_def by (intro hoare_rules keeps_by_nonce Qm)
  have insert_tail: "triple (active_inv h F i c s nn as)
      (tryA (onQ (qInsertAttempt (transactionsQ m) (new_attempt (mHost m) tx x now))) (\<lambda>r. case r of
            Inr _ \<Rightarrow> retA (new_attempt (mHost m) tx x now)
          | Inl e \<Rightarrow> if \<not> errors_is e ErrAttemptHashConflict then failA (f e)
              else if prev = Some (attHash (new_attempt (mHost m) tx x now)) then failA (g e)
              else bindA (collision_floor m tx (new_attempt (mHost m) tx x now) ty) (\<lambda>fee.
                persist_loop m tx as k (Some fee) (Some (attHash (new_attempt (mHost m) tx x now))))))
      (\<lambda>r w. step_inv h F i c s nn w \<and> (\<forall>a. r = Ret a \<longrightarrow> active_inv h F i c s nn (as @ [a]) w))" (is "triple ?I (tryA ?ins ?k) ?Q")
    if wf: "attempt_wf h s nn (new_attempt (mHost m) tx x now)" for x now f g ty
  proof (rule triple_try [where R = "\<lambda>r w. step_inv h F i c s nn w \<and> (case r of
        Inr _ \<Rightarrow> active_inv h F i c s nn (as @ [new_attempt (mHost m) tx x now]) w
      | Inl e \<Rightarrow> errors_is e ErrAttemptHashConflict \<longrightarrow> active_inv h F i c s nn as w)"])
    show "triple ?I ?ins (onTry (\<lambda>r w. step_inv h F i c s nn w \<and> (case r of
        Inr _ \<Rightarrow> active_inv h F i c s nn (as @ [new_attempt (mHost m) tx x now]) w
      | Inl e \<Rightarrow> errors_is e ErrAttemptHashConflict \<longrightarrow> active_inv h F i c s nn as w)) ?Q)"
      by (rule triple_post [OF triple_insert_attempt [OF Qm wf _ len]])
        (use tx in \<open>auto simp: new_attempt_def onTry_def split: outcome.splits\<close>)
    fix r
    have again: "triple ?I (bindA (collision_floor m tx (new_attempt (mHost m) tx x now) ty) (\<lambda>fee.
                persist_loop m tx as k (Some fee) (Some (attHash (new_attempt (mHost m) tx x now))))) ?Q"
      by (rule triple_bind_keeps [OF floor returns_True Suc.IH]) (auto simp: active_step)
    show "triple (\<lambda>w. step_inv h F i c s nn w \<and> (case r of
        Inr _ \<Rightarrow> active_inv h F i c s nn (as @ [new_attempt (mHost m) tx x now]) w
      | Inl e \<Rightarrow> errors_is e ErrAttemptHashConflict \<longrightarrow> active_inv h F i c s nn as w)) (?k r) ?Q"
      using again by (cases r) (auto intro!: triple_ret triple_fail elim!: triple_pre)
  qed
  show ?case
    unfolding persist_loop.simps
  proof (rule triple_bind_keeps [where V = "\<lambda>x. nn = Some (txNonce x) \<and> txSender h x = Inr s"])
    show "keeps (active_inv h F i c s nn as) (mapE (wrapf ''signing transaction attempt'') (signAttempt m tx as floor))"
      by (intro hoare_rules keeps_signAttempt active_env_stable)
    show "returns (\<lambda>x. nn = Some (txNonce x) \<and> txSender h x = Inr s)
        (mapE (wrapf ''signing transaction attempt'') (signAttempt m tx as floor))"
      using returns_signAttempt [OF law, of tx as floor] tx(2) by (simp add: returns_mapE h s)
    fix x assume x: "nn = Some (txNonce x) \<and> txSender h x = Inr s"
    have wf: "attempt_wf h s nn (new_attempt (mHost m) tx x now)" for now
      using x by (simp add: attempt_wf_def new_attempt_def h)
    show "triple (active_inv h F i c s nn as)
        (bindA (time_now m) (\<lambda>now. let attempt = new_attempt (mHost m) tx x now
         in tryA (onQ (qInsertAttempt (transactionsQ m) attempt)) (\<lambda>r. case r of
            Inr _ \<Rightarrow> retA attempt
          | Inl e \<Rightarrow> if \<not> errors_is e ErrAttemptHashConflict then failA (wrapf ''persisting signed attempt'' e)
              else if prev = Some (attHash attempt)
              then failA (wrapf (''re-signing above the durable fee floor did not change hash '' @
                hash_hex (attHash attempt)) e)
              else bindA (collision_floor m tx attempt (txType x)) (\<lambda>fee.
                persist_loop m tx as k (Some fee) (Some (attHash attempt))))))
        (\<lambda>r w. step_inv h F i c s nn w \<and> (\<forall>a. r = Ret a \<longrightarrow> active_inv h F i c s nn (as @ [a]) w))"
      unfolding Let_def
      by (rule triple_bind_keeps [OF _ returns_True insert_tail [OF wf]])
        (auto intro!: hoare_rules env_stable_keeps active_env_stable simp: active_step)
  qed (auto simp: active_step)
qed

end

end
