(* ===== verification/Tx_Step_Safety.thy ===== *)
theory Tx_Step_Safety
  imports Tx_Safety
begin

text \<open>
  The invariant through a whole step: assignment of a nonce, the first attempt and its
  replacements, admission, and the reconciliation with recorded attempts.
\<close>

section \<open>The step\<close>

text \<open>After which outcomes of a step a batch goes on to the next row.\<close>

definition continues :: "(go_error, 'a) outcome \<Rightarrow> bool" where
  "continues r \<longleftrightarrow> (case r of Ret _ \<Rightarrow> True
     | Fail e \<Rightarrow> errors_is e ErrStaleTransaction \<or> errors_is e ErrTransactionUnprocessable
     | Panic _ \<Rightarrow> False)"

lemma triple_ex: "(\<And>n. triple (P n) f Q) \<Longrightarrow> triple (\<lambda>s. \<exists>n. P n s) f Q"
  by (auto simp: triple_def)

lemma triple_pure: "(b \<Longrightarrow> triple P f Q) \<Longrightarrow> triple (\<lambda>s. P s \<and> b) f Q"
  by (auto simp: triple_def)

lemma triple_assume: "(\<And>s. P s \<Longrightarrow> b) \<Longrightarrow> (b \<Longrightarrow> triple P f Q) \<Longrightarrow> triple P f Q"
  by (auto simp: triple_def)

text \<open>A row that takes a nonce no row of its lane holds.\<close>

lemma store_ok_assign:
  assumes ok: "store_ok h R A" and t0: "R i = Some t0" "AssignedNonce t0 = None" "A i = []"
    and t: "same_lane i c s t" "AssignedNonce t = Some n" "\<not> IsCompleted t" "Tx t = None" "message_ok (Msg t)"
    and s: "s \<noteq> 0" and n: "n \<noteq> -1" "n \<notin> lane_set R c s"
  shows "store_ok h (R(i \<mapsto> t)) A"
proof -
  have st: "Status t \<noteq> SucceedTxStatus" "Status t \<noteq> FailedTxStatus" using t(3) by (auto simp: IsCompleted_def)
  have "attempts_ok h (R(i \<mapsto> t)) A" using ok t0 unfolding store_ok_def attempts_ok_def by auto
  moreover have "owners_ok (R(i \<mapsto> t)) A"
    using ok t s n(1) unfolding store_ok_def owners_ok_def by (auto simp: same_lane_def)
  moreover have "nonces_unique (R(i \<mapsto> t))"
  proof -
    have uniq: "nonces_unique R" using ok by (simp add: store_ok_def)
    have new: "holds_nonce t c' s' n' \<Longrightarrow> R j = Some u \<Longrightarrow> \<not> holds_nonce u c' s' n'" for c' s' n' j u
      using n(2) t(1,2) by (auto simp: holds_nonce_def same_lane_def lane_set_def)
    show ?thesis
      unfolding nonces_unique_def
    proof (intro allI impI)
      fix k j x u c' s' n'
      assume *: "(R(i \<mapsto> t)) k = Some x" "(R(i \<mapsto> t)) j = Some u" "holds_nonce x c' s' n'" "holds_nonce u c' s' n'"
      show "k = j"
      proof (cases "k = i \<or> j = i")
        case True
        then show ?thesis using * new [of c' s' n' j u] new [of c' s' n' k x] by (auto split: if_splits)
      next
        case False
        then show ?thesis using * uniq unfolding nonces_unique_def by (metis fun_upd_other)
      qed
    qed
  qed
  moreover have "results_ok h (R(i \<mapsto> t)) A" using ok st unfolding store_ok_def results_ok_def by auto
  moreover have "messages_ok (R(i \<mapsto> t))" using ok t(5) unfolding store_ok_def messages_ok_def by auto
  ultimately show ?thesis using ok by (simp add: store_ok_def)
qed

context transactions_queue
begin

definition final_inv where
  "final_inv h F i c s nn0 r w \<longleftrightarrow> invar (store w) \<and> store_ok h (rows (store w)) (atts (store w)) \<and>
     framed F (rows (store w)) i \<and> sent_ok h rows atts (trace w) \<and>
     (\<exists>nn. (nn0 \<noteq> None \<longrightarrow> nn = nn0) \<and> own F (rows (store w)) i c s nn) \<and>
     (continues r \<longrightarrow> covers (lane w) (lane_set (rows (store w)) c s))"

lemma step_final: "step_inv h F i c s nn w \<Longrightarrow> nn0 \<noteq> None \<longrightarrow> nn = nn0 \<Longrightarrow> final_inv h F i c s nn0 r w"
  by (auto simp: final_inv_def step_inv_def)

lemma hand_final: "hand_inv h F i c s nn as w \<Longrightarrow> final_inv h F i c s nn r w"
  by (auto simp: hand_inv_def intro: step_final)

lemma tip_others_below:
  assumes w: "hand_inv h F i c s nn as w" and nn: "nn = Some n" and tip: "isTip n (lane w)"
  shows "others_below F i c s nn"
proof -
  let ?R = "rows (store w)"
  have own: "own F ?R i c s nn" and fr: "framed F ?R i" and cov: "covers (lane w) (lane_set ?R c s)"
    and ok: "store_ok h ?R (atts (store w))" using w by (auto simp: hand_inv_def step_inv_def)
  show ?thesis
  proof (cases "\<exists>t. ?R i = Some t \<and> holds_nonce t c s n")
    case True
    then obtain t where t: "?R i = Some t" "holds_nonce t c s n" by blast
    have n: "n \<noteq> -1" using ok t by (auto simp: store_ok_def owners_ok_def holds_nonce_def)
    have "k < n" if "j \<noteq> i" "F j = Some u" "holds_nonce u c s k" for j u k
    proof -
      have u: "?R j = Some u" using fr that by (simp add: framed_def)
      then have "k \<in> lane_set ?R c s" using that(3) by (auto simp: lane_set_def)
      then have "k \<le> n" by (rule isTip_max [OF cov tip _ n])
      moreover have "k \<noteq> n"
        using ok t u that(1,3) unfolding store_ok_def nonces_unique_def by metis
      ultimately show ?thesis by simp
    qed
    then show ?thesis by (auto simp: others_below_def nn)
  next
    case False
    then show ?thesis using own nn
      by (auto simp: own_def own_active_def own_done_def holds_nonce_def)
  qed
qed

lemma triple_getLane:
  assumes "\<And>w. P w \<Longrightarrow> hand_inv h F i c s nn as w"
    and "\<And>l. (\<And>n. nn = Some n \<Longrightarrow> isTip n l \<Longrightarrow> others_below F i c s nn) \<Longrightarrow> triple P (g l) S"
  shows "triple P (bindA getLane g) S"
proof (rule tripleI)
  fix w assume w: "P w"
  from assms(2) [OF tip_others_below [OF assms(1) [OF w]]]
  show "S (fst (bindA getLane g w)) (snd (bindA getLane g w))"
    using w by (simp add: bindA_def getLane_def triple_def)
qed

lemma triple_nonce_is_tip:
  assumes "\<And>w. P w \<Longrightarrow> hand_inv h F i c s nn as w" and "AssignedNonce tx = nn" and "nn \<noteq> None"
    and "\<And>tip. (tip \<Longrightarrow> others_below F i c s nn) \<Longrightarrow> triple P (g tip) S"
  shows "triple P (bindA (nonce_is_tip tx) g) S"
proof -
  obtain n where n: "nn = Some n" using assms(3) by auto
  have "bindA (nonce_is_tip tx) g = bindA getLane (\<lambda>l. g (isTip n l))"
    using assms(2) n by (simp add: nonce_is_tip_def action_defs deref_def getLane_def fun_eq_iff)
  moreover have "triple P (bindA getLane (\<lambda>l. g (isTip n l))) S"
    by (rule triple_getLane [OF assms(1)]) (auto intro!: assms(4) simp: n)
  ultimately show ?thesis by simp
qed

lemma triple_write_active:
  assumes "transactionsQ m = Q" and "s \<noteq> 0" and gw: "good_write h F i c s nn as t" and t: "\<not> IsCompleted t"
  shows "triple (hand_inv h F i c s nn as) (update_if_active m t)
    (\<lambda>r w. hand_inv h F i c s nn as w \<and> (r = Ret () \<longrightarrow> active_inv h F i c s nn as w))"
proof (rule tripleI)
  fix w assume w: "hand_inv h F i c s nn as w"
  obtain r q' where run: "qUpdateIfActive Q t (store w) = (r, q')" by fastforce
  have upd: "update_if_active m t w = (r, w\<lparr>store := q'\<rparr>)"
    by (simp add: update_if_active_def onQ_def assms(1) run)
  have H: "hand_inv h F i c s nn as (w\<lparr>store := q'\<rparr>)"
    using keepsD [OF keeps_write [OF assms(1-3)] w] by (simp add: upd)
  have id: "same_lane i c s t" "AssignedNonce t = nn" using good_write_cases [OF gw] t by auto
  have "own_active (rows q') i c s nn" if "r = Ret ()"
  proof -
    have "invar (store w)" using w by (simp add: hand_inv_def step_inv_def)
    from update_law [OF this run] that have "committed (rows (store w)) (ID t) t (rows q')" by blast
    then have "rows q' i = Some t" using id(1) by (auto simp: committed_def same_lane_def)
    then show ?thesis using t id by (auto simp: own_active_def same_lane_def)
  qed
  with H show "hand_inv h F i c s nn as (snd (update_if_active m t w)) \<and>
      (fst (update_if_active m t w) = Ret () \<longrightarrow> active_inv h F i c s nn as (snd (update_if_active m t w)))"
    by (simp add: upd active_inv_def)
qed

lemma triple_create:
  assumes m: "manager_ok Q m" and h: "h = mHost m" and s: "s = mSender m"
    and tx: "local_row i c s nn as tx" and len: "length as < maxFeeReplacements"
    and rel: "rel \<Longrightarrow> others_below F i c s nn"
  shows "triple (active_inv h F i c s nn as) (createAndBroadcastAttempt m tx as rel) (\<lambda>_. step_inv h F i c s nn)"
proof (cases "nn = None")
  case True
  then show ?thesis using tx
    by (auto simp: createAndBroadcastAttempt_def local_row_def intro!: triple_fail active_step)
next
  case False
  have Qm: "transactionsQ m = Q" and s0: "s \<noteq> 0" using m s by (auto simp: manager_ok_def)
  have nn: "AssignedNonce tx = nn" "ID tx = i" using tx by (auto simp: local_row_def same_lane_def)
  have row: "local_row i c s nn (as @ [a]) (canonical_row m tx a)" for a
    using tx by (auto simp: local_row_def same_lane_def canonical_row_def IsCompleted_def)
  have gw: "good_write h F i c s nn (as @ [a]) (canonical_row m tx a)" for a
    using row [of a] by (auto simp: good_write_def local_row_def canonical_row_def)
  have act: "\<not> IsCompleted (canonical_row m tx a)" for a by (simp add: canonical_row_def IsCompleted_def)
  have tail: "triple (hand_inv h F i c s nn (as @ [a]))
      (bindA (mapE f (update_if_active m (canonical_row m tx a))) (\<lambda>_.
        broadcastAndSchedule m (canonical_row m tx a) (as @ [a])
          \<lparr>firstAttemptThisPass = (as = []), nonceReleasable = rel\<rparr>)) (\<lambda>_. step_inv h F i c s nn)" for a f
  proof (rule triple_bind [where R = "\<lambda>_. active_inv h F i c s nn (as @ [a])"])
    show "triple (hand_inv h F i c s nn (as @ [a])) (mapE f (update_if_active m (canonical_row m tx a)))
        (onRet (\<lambda>_. active_inv h F i c s nn (as @ [a])) (\<lambda>_. step_inv h F i c s nn))"
      by (rule triple_mapE_Fail, rule triple_post [OF triple_write_active [OF Qm s0 gw act]])
        (auto simp: hand_inv_def)
    show "triple (active_inv h F i c s nn (as @ [a])) (broadcastAndSchedule m (canonical_row m tx a) (as @ [a])
          \<lparr>firstAttemptThisPass = (as = []), nonceReleasable = rel\<rparr>) (\<lambda>_. step_inv h F i c s nn)"
      by (rule triple_post [OF triple_broadcast [OF Qm s0 row]]) (auto simp: hand_inv_def intro: rel)
  qed
  have "triple (active_inv h F i c s nn as) (persistUniqueAttempt m tx as)
      (onRet (\<lambda>a. hand_inv h F i c s nn (as @ [a])) (\<lambda>_. step_inv h F i c s nn))"
    unfolding persistUniqueAttempt_def
    by (rule triple_post [OF triple_persist_loop [OF m h s nn(2,1) len]])
      (auto simp: onRet_def active_hand split: outcome.splits)
  from triple_bind [OF this tail] show ?thesis
    unfolding createAndBroadcastAttempt_def nn Let_def if_not_P [OF False] .
qed

end
context transactions_queue
begin

lemma private_not_unprocessable: "\<not> private_error e \<Longrightarrow> \<not> errors_is e ErrTransactionUnprocessable"
  by (simp add: private_error_def)

text \<open>
  The assignment of a nonce. Where the write fails without being stale, the nonce may have been
  assigned all the same; the lane counter is then behind, but such an error ends the batch.
\<close>

lemma assign_write:
  assumes Qm: "transactionsQ m = Q" and s: "s \<noteq> 0" and w: "active_inv h F i c s None [] w"
    and tx: "local_row i c s None [] tx" "message_ok (Msg tx)" and n: "n \<noteq> -1" "n \<notin> lane_set (rows (store w)) c s"
    and upd: "update_if_active m (tx\<lparr>AssignedNonce := Some n, Status := ProcessingTxStatus, UpdatedAt := now\<rparr>) w = (r, w')"
  shows "(r = Ret () \<longrightarrow> active_inv h F i c s (Some n) [] (snd (laneObserve n w'))) \<and>
    (\<forall>e. r = Fail e \<longrightarrow> final_inv h F i c s None (Fail (wrapf msg e) :: (go_error, unit) outcome) w') \<and>
    (\<forall>p. r = Panic p \<longrightarrow> final_inv h F i c s None (Panic p :: (go_error, unit) outcome) w')"
proof -
  let ?t = "tx\<lparr>AssignedNonce := Some n, Status := ProcessingTxStatus, UpdatedAt := now\<rparr>"
  let ?R = "rows (store w)"
  obtain q' where run: "qUpdateIfActive Q ?t (store w) = (r, q')" and w': "w' = w\<lparr>store := q'\<rparr>"
    using upd by (auto simp: update_if_active_def onQ_def Qm split: prod.splits)
  have inv: "invar (store w)" and ok: "store_ok h ?R (atts (store w))" and fr: "framed F ?R i"
    and cov: "covers (lane w) (lane_set ?R c s)" and sent: "sent_ok h rows atts (trace w)"
    and A: "atts (store w) i = []"
    using w by (auto simp: active_inv_def hand_inv_def step_inv_def in_hand_def)
  obtain t0 where t0: "?R i = Some t0" "AssignedNonce t0 = None" "\<not> IsCompleted t0" "ChainID t0 = c"
      "Sender t0 = s \<or> Sender t0 = 0"
    using w by (auto simp: active_inv_def own_active_def)
  have t: "same_lane i c s ?t" "AssignedNonce ?t = Some n" "\<not> IsCompleted ?t" "Tx ?t = None" "message_ok (Msg ?t)"
    using tx by (auto simp: local_row_def same_lane_def IsCompleted_def)
  note law = update_law [OF inv run]
  have ok': "store_ok h (?R(i \<mapsto> ?t)) (atts (store w))"
    by (rule store_ok_assign [OF ok t0(1,2) A t s n])
  have own': "own_active (?R(i \<mapsto> ?t)) i c s (Some n)" using t by (auto simp: own_active_def same_lane_def)
  have cov': "covers (observe n (lane w)) (lane_set (?R(i \<mapsto> ?t)) c s)"
  proof (rule covers_mono [OF covers_observe [OF cov n(1)]])
    show "lane_set (?R(i \<mapsto> ?t)) c s \<subseteq> insert n (lane_set ?R c s)"
      using t(2) by (auto simp: lane_set_def holds_nonce_def split: if_splits)
  qed
  have fin: "final_inv h F i c s None x w'" if "rows q' = ?R \<or> (rows q' = ?R(i \<mapsto> ?t) \<and> \<not> continues x)" for x :: "(go_error, unit) outcome"
    using that
  proof
    assume same: "rows q' = ?R"
    then have "step_inv h F i c s None w'" using w law by (simp add: w' active_inv_def hand_inv_def step_inv_def)
    then show ?thesis by (rule step_final) simp
  next
    assume new: "rows q' = ?R(i \<mapsto> ?t) \<and> \<not> continues x"
    then show ?thesis
      using law ok' fr sent own'
      by (auto simp: final_inv_def w' framed_def own_def intro!: exI [of _ "Some n"])
  qed
  have com: "committed ?R (ID ?t) ?t (rows q') \<Longrightarrow> rows q' = ?R(i \<mapsto> ?t)"
    using t(1) by (auto simp: committed_def same_lane_def)
  show ?thesis
  proof (intro conjI allI impI)
    assume "r = Ret ()"
    then have R': "rows q' = ?R(i \<mapsto> ?t)" using law com by blast
    show "active_inv h F i c s (Some n) [] (snd (laneObserve n w'))"
      using law ok' own' cov' fr sent A
      by (simp add: laneObserve_def w' active_inv_def hand_inv_def step_inv_def in_hand_def own_def framed_def R')
  next
    fix e assume e: "r = Fail e"
    note err = update_error [OF inv run [unfolded e]]
    show "final_inv h F i c s None (Fail (wrapf msg e) :: (go_error, unit) outcome) w'"
      using law com err by (intro fin) (auto simp: continues_def private_error_def)
  next
    fix p assume "r = Panic p"
    then show "final_inv h F i c s None (Panic p :: (go_error, unit) outcome) w'"
      using law com by (intro fin) (auto simp: continues_def)
  qed
qed

lemma final_any: "final_inv h F i c s nn (x :: (go_error, 'x) outcome) w \<Longrightarrow> continues x \<or> \<not> continues y \<Longrightarrow>
    final_inv h F i c s nn (y :: (go_error, 'y) outcome) w"
  by (auto simp: final_inv_def)

lemma triple_assign:
  assumes m: "manager_ok Q m" and s: "s = mSender m"
    and tx: "local_row i c s None [] tx" "message_ok (Msg tx)"
  shows "triple (active_inv h F i c s None []) (assign_nonce m tx)
    (onRet (\<lambda>tx' w. \<exists>n. active_inv h F i c s (Some n) [] w \<and> local_row i c s (Some n) [] tx')
      (final_inv h F i c s None :: (go_error, unit) outcome \<Rightarrow> 'q world \<Rightarrow> bool))"
proof (rule tripleI)
  fix w assume w: "active_inv h F i c s None [] w"
  have Qm: "transactionsQ m = Q" and s0: "s \<noteq> 0" and law: "nonce_law m" using m s by (auto simp: manager_ok_def)
  have nn: "AssignedNonce tx = None" "ChainID tx = c" using tx by (auto simp: local_row_def same_lane_def)
  have stable: "final_inv h F i c s None r (w\<lparr>tick := k\<rparr>)" for r :: "(go_error, unit) outcome" and k
    using w by (intro step_final [where nn = None]) (auto simp: active_inv_def hand_inv_def step_inv_def)
  show "onRet (\<lambda>tx' w. \<exists>n. active_inv h F i c s (Some n) [] w \<and> local_row i c s (Some n) [] tx')
      (final_inv h F i c s None :: (go_error, unit) outcome \<Rightarrow> 'q world \<Rightarrow> bool)
      (fst (assign_nonce m tx w)) (snd (assign_nonce m tx w))"
  proof (cases "map_of (clients m) c")
    case None
    then show ?thesis using step_final [OF active_step [OF w], of None]
      by (simp add: assign_nonce_def nn client_of_def action_defs)
  next
    case (Some client)
    show ?thesis
    proof (cases "PendingNonceAt client (tick w) (mSender m)")
      case (Inl e)
      then show ?thesis using stable
        by (simp add: assign_nonce_def nn client_of_def Some action_defs rpc_def env_def)
    next
      case (Inr n)
      have n: "n \<noteq> -1" using law Some Inr unfolding nonce_law_def by blast
      show ?thesis
      proof (cases "known (lane w) \<and> n < next_nonce (lane w)")
        case True
        then have "final_inv h F i c s None (Fail e) (w\<lparr>tick := k, trace := EvLaneBarrier c b # trace w\<rparr>)" for k b and e
          using w by (intro step_final [where nn = None]) (auto simp: active_inv_def hand_inv_def step_inv_def sent_ok_def)
        then show ?thesis using True Inr
          by (simp add: assign_nonce_def nn client_of_def Some action_defs rpc_def env_def getLane_def reserve_def emit_def)
      next
        case False
        let ?w = "w\<lparr>tick := Suc (Suc (tick w))\<rparr>" and ?now = "clock (mHost m) (Suc (tick w))"
        let ?t = "tx\<lparr>AssignedNonce := Some n, Status := ProcessingTxStatus, UpdatedAt := ?now\<rparr>"
        have w2: "active_inv h F i c s None [] ?w" using w by (simp add: active_inv_def hand_inv_def step_inv_def)
        have fresh: "n \<notin> lane_set (rows (store ?w)) c s"
          using w False by (auto simp: active_inv_def hand_inv_def step_inv_def covers_def)
        obtain r w' where upd: "update_if_active m ?t ?w = (r, w')" by fastforce
        note res = assign_write [OF Qm s0 w2 tx n fresh upd, of "''persisting assigned nonce''"]
        have run: "assign_nonce m tx w = (case r of Ret _ \<Rightarrow> (Ret ?t, snd (laneObserve n w'))
            | Fail e \<Rightarrow> (Fail (wrapf ''persisting assigned nonce'' e), w') | Panic p \<Rightarrow> (Panic p, w'))"
          using False Inr upd
          by (auto simp: assign_nonce_def nn client_of_def Some action_defs rpc_def env_def getLane_def reserve_def
              time_now_def Let_def laneObserve_def split: outcome.splits)
        have "local_row i c s (Some n) [] ?t"
          using tx by (auto simp: local_row_def same_lane_def IsCompleted_def)
        then show ?thesis using res unfolding run by (cases r) auto
      qed
    qed
  qed
qed

lemma active_nn: "active_inv h F i c s nn as w \<Longrightarrow> as \<noteq> [] \<Longrightarrow> nn \<noteq> None"
  by (cases as) (auto simp: active_inv_def hand_inv_def in_hand_def attempt_wf_def)

lemma triple_send_or_sign:
  assumes m: "manager_ok Q m" and h: "h = mHost m" and s: "s = mSender m"
    and tx: "local_row i c s nn as tx" "message_ok (Msg tx)" and res: "resume \<Longrightarrow> as \<noteq> []"
  shows "triple (active_inv h F i c s nn as) (send_or_sign m tx as resume) (final_inv h F i c s nn)"
proof (rule triple_assume [of _ "as \<noteq> [] \<longrightarrow> nn \<noteq> None"])
  show "active_inv h F i c s nn as w \<Longrightarrow> as \<noteq> [] \<longrightarrow> nn \<noteq> None" for w using active_nn by blast
  assume nn: "as \<noteq> [] \<longrightarrow> nn \<noteq> None"
  have Qm: "transactionsQ m = Q" and s0: "s \<noteq> 0" using m s by (auto simp: manager_ok_def)
  have an: "AssignedNonce tx = nn" using tx by (simp add: local_row_def)
  have bcast: "triple (active_inv h F i c s nn as)
      (bindA (nonce_is_tip tx) (\<lambda>tip. broadcastAndSchedule m tx as
        \<lparr>firstAttemptThisPass = False, nonceReleasable = tip\<rparr>)) (final_inv h F i c s nn)" if "as \<noteq> []"
  proof (rule triple_nonce_is_tip [OF active_hand an])
    show "nn \<noteq> None" using nn that by simp
    fix tip assume "tip \<Longrightarrow> others_below F i c s nn"
    then show "triple (active_inv h F i c s nn as) (broadcastAndSchedule m tx as
        \<lparr>firstAttemptThisPass = False, nonceReleasable = tip\<rparr>) (final_inv h F i c s nn)"
      by (intro triple_post [OF triple_broadcast [OF Qm s0 tx(1) that]]) (auto intro: hand_final)
  qed
  have create: "triple (active_inv h F i c s nn' as')
      (createAndBroadcastAttempt m tx' as' rel) (final_inv h F i c s nn)"
    if "local_row i c s nn' as' tx'" "length as' < maxFeeReplacements" "rel \<Longrightarrow> others_below F i c s nn'"
      "nn \<noteq> None \<longrightarrow> nn' = nn" for tx' nn' as' rel
    by (rule triple_post [OF triple_create [OF m h s that(1,2,3)]]) (use that(4) in \<open>auto intro: step_final\<close>)
  have first: "triple (active_inv h F i c s nn' [])
      (bindA (nonce_is_tip tx') (\<lambda>tip. createAndBroadcastAttempt m tx' [] tip)) (final_inv h F i c s nn)"
    if "local_row i c s nn' [] tx'" "nn \<noteq> None \<longrightarrow> nn' = nn" "nn' \<noteq> None" for tx' nn'
  proof (rule triple_nonce_is_tip [OF active_hand _ that(3)])
    show "AssignedNonce tx' = nn'" using that(1) by (simp add: local_row_def)
    fix tip assume "tip \<Longrightarrow> others_below F i c s nn'"
    then show "triple (active_inv h F i c s nn' []) (createAndBroadcastAttempt m tx' [] tip) (final_inv h F i c s nn)"
      by (intro create [OF that(1) _ _ that(2)]) (simp_all add: maxFeeReplacements_def)
  qed
  show "triple (active_inv h F i c s nn as) (send_or_sign m tx as resume) (final_inv h F i c s nn)"
  proof (cases resume)
    case True
    then show ?thesis using bcast res by (simp add: send_or_sign_def)
  next
    case False
    show ?thesis
    proof (cases nn)
      case (Some n)
      have run: "send_or_sign m tx as resume = (if as = [] then bindA (nonce_is_tip tx) (\<lambda>tip. createAndBroadcastAttempt m tx as tip)
        else if length as < maxFeeReplacements then createAndBroadcastAttempt m tx as False
        else bindA (nonce_is_tip tx) (\<lambda>tip. broadcastAndSchedule m tx as
          \<lparr>firstAttemptThisPass = False, nonceReleasable = tip\<rparr>))"
        using False Some an by (simp add: send_or_sign_def assign_nonce_def bindA_def retA_def fun_eq_iff)
      show ?thesis
        unfolding run using first [of nn tx] create [of nn as tx False] bcast tx(1) Some by auto
    next
      case None
      with nn have as: "as = []" by auto
      have tail: "triple (\<lambda>w. \<exists>n. active_inv h F i c s (Some n) [] w \<and> local_row i c s (Some n) [] tx')
          (bindA (nonce_is_tip tx') (\<lambda>tip. createAndBroadcastAttempt m tx' [] tip)) (final_inv h F i c s nn)" for tx'
        by (intro triple_ex triple_pure first) (use None in auto)
      have "triple (active_inv h F i c s nn as) (assign_nonce m tx) (onRet
          (\<lambda>tx' w. \<exists>n. active_inv h F i c s (Some n) [] w \<and> local_row i c s (Some n) [] tx')
          (final_inv h F i c s nn :: (go_error, unit) outcome \<Rightarrow> 'q world \<Rightarrow> bool))"
        using triple_assign [OF m s, of i c tx h F] tx None as by simp
      from triple_bind [OF this tail] show ?thesis using False by (simp add: send_or_sign_def as)
    qed
  qed
qed

lemma final_keeps: "keeps (hand_inv h F i c s nn as) f \<Longrightarrow> triple (active_inv h F i c s nn as) f (final_inv h F i c s nn)"
  unfolding keeps_def triple_def using active_hand hand_final by blast

lemma triple_admit:
  assumes m: "manager_ok Q m" and h: "h = mHost m" and s: "s = mSender m"
    and tx: "local_row i c s nn as tx" "message_ok (Msg tx)" and res: "resume \<Longrightarrow> as \<noteq> []"
  shows "triple (active_inv h F i c s nn as) (admit_attempt m tx as resume) (final_inv h F i c s nn)"
proof (cases "beforeAttempt m")
  case None
  then show ?thesis using triple_send_or_sign [OF assms] by (simp add: admit_attempt_def)
next
  case (Some gate)
  have Qm: "transactionsQ m = Q" and s0: "s \<noteq> 0" using m s by (auto simp: manager_ok_def)
  have an: "AssignedNonce tx = nn" using tx by (simp add: local_row_def)
  have f: "active_inv h F i c s nn as w \<Longrightarrow> final_inv h F i c s nn r w" for w and r :: "(go_error, unit) outcome"
    by (intro hand_final active_hand)
  have row: "local_row i c s nn as (tx\<lparr>Msg := x\<rparr>)" for x
    using tx by (auto simp: local_row_def same_lane_def IsCompleted_def)
  have expire: "keeps (hand_inv h F i c s nn as) (bindA (abandonTransaction m (tx\<lparr>AssignedNonce := None\<rparr>) x) (\<lambda>_. failA e))"
    if "\<And>n. nn = Some n \<Longrightarrow> others_below F i c s nn" for x e
  proof (intro hoare_rules keeps_abandon [OF Qm s0])
    show "same_lane i c s (tx\<lparr>AssignedNonce := None\<rparr>)" using tx by (simp add: local_row_def same_lane_def)
    show "AssignedNonce (tx\<lparr>AssignedNonce := None\<rparr>) = nn \<or>
        others_below F i c s nn \<and> AssignedNonce (tx\<lparr>AssignedNonce := None\<rparr>) = None"
      using that by (cases nn) auto
  qed
  have now: "triple (active_inv h F i c s nn as) (bindA (time_now m) (\<lambda>now.
                if retryAt > now
                then scheduleNextCheckNotBefore m (tx\<lparr>Msg := x\<rparr>) as retryAt
                else send_or_sign m tx as resume)) (final_inv h F i c s nn)" for retryAt x
    by (rule triple_bind_keeps [OF _ returns_True])
      (auto intro!: f keeps_time_now active_env final_keeps [OF keeps_scheduleNB [OF Qm s0 row]] triple_send_or_sign assms)
  show ?thesis
    unfolding admit_attempt_def Some option.case
  proof (rule triple_bind_keeps [OF active_env returns_True], goal_cases)
    case (1 r)
    obtain retryAt e where r: "r = (retryAt, e)" by fastforce
    show ?case
      unfolding r prod.case
    proof (rule triple_getLane [OF active_hand])
      fix l assume tip: "\<And>n. nn = Some n \<Longrightarrow> isTip n l \<Longrightarrow> others_below F i c s nn"
      show "triple (active_inv h F i c s nn as) (case e of
            Some err \<Rightarrow>
              if errors_is err ErrUnsignedTransactionExpired \<and> as = [] \<and>
                 (case AssignedNonce tx of None \<Rightarrow> True | Some n \<Rightarrow> isTip n l)
              then bindA (abandonTransaction m (tx\<lparr>AssignedNonce := None\<rparr>)
                  ''unsigned transaction expired before signing'') (\<lambda>_. failA errLaneStateChanged)
              else failA (wrapf ''attempt admission'' err)
          | None \<Rightarrow> bindA (time_now m) (\<lambda>now.
                if retryAt > now
                then scheduleNextCheckNotBefore m (tx\<lparr>Msg := ''attempt deferred by application admission''\<rparr>) as retryAt
                else send_or_sign m tx as resume)) (final_inv h F i c s nn)"
      proof (cases e)
        case None
        then show ?thesis using now by simp
      next
        case (Some err)
        show ?thesis
        proof (cases "errors_is err ErrUnsignedTransactionExpired \<and> as = [] \<and>
            (case AssignedNonce tx of None \<Rightarrow> True | Some n \<Rightarrow> isTip n l)")
          case True
          then have "\<And>n. nn = Some n \<Longrightarrow> others_below F i c s nn" using tip an by auto
          then show ?thesis unfolding Some option.case if_P [OF True] by (intro final_keeps expire)
        next
          case False
          show ?thesis unfolding Some option.case if_not_P [OF False] by (intro triple_fail f)
        qed
      qed
    qed
  qed (auto intro: f)
qed

lemma triple_advance:
  assumes m: "manager_ok Q m" and h: "h = mHost m" and s: "s = mSender m"
    and tx: "local_row i c s nn as tx" "message_ok (Msg tx)"
  shows "triple (active_inv h F i c s nn as) (advance_transaction m tx as failed) (final_inv h F i c s nn)"
proof -
  have Qm: "transactionsQ m = Q" and s0: "s \<noteq> 0" using m s by (auto simp: manager_ok_def)
  have an: "AssignedNonce tx = nn" using tx by (simp add: local_row_def)
  have f: "active_inv h F i c s nn as w \<Longrightarrow> final_inv h F i c s nn r w" for w and r :: "(go_error, unit) outcome"
    by (intro hand_final active_hand)
  have rej: "triple (active_inv h F i c s nn as) (bindA (time_now m) (\<lambda>now.
            bindA (nonce_is_tip tx) (\<lambda>tip. reconcileRejectedSubmission m tx as now tip))) (final_inv h F i c s nn)"
    if "as \<noteq> []" "nn \<noteq> None"
  proof (rule triple_bind_keeps [OF _ returns_True])
    fix now
    show "triple (active_inv h F i c s nn as) (bindA (nonce_is_tip tx) (\<lambda>tip. reconcileRejectedSubmission m tx as now tip))
        (final_inv h F i c s nn)"
      by (rule triple_nonce_is_tip [OF active_hand an that(2)])
        (auto intro!: final_keeps keeps_reconcile Qm s0 tx that)
  qed (auto intro!: f keeps_time_now active_env)
  have bump: "triple (active_inv h F i c s nn as) (bindA (time_now m) (\<lambda>now.
                 if now < b then scheduleNextCheck m tx as else admit_attempt m tx as resume)) (final_inv h F i c s nn)"
    if "resume \<Longrightarrow> as \<noteq> []" for b resume
    by (rule triple_bind_keeps [OF _ returns_True])
      (auto intro!: f keeps_time_now active_env final_keeps [OF keeps_schedule(1) [OF Qm s0 tx(1)]] triple_admit assms that)
  show ?thesis
    unfolding advance_transaction_def Let_def
    by (intro triple_if triple_option triple_fail f final_keeps [OF keeps_schedule(2) [OF Qm s0 tx(1)]] rej bump
        final_keeps [OF keeps_poll [OF Qm s0 tx(1)]] triple_admit m h s tx) (auto simp: an)
qed

end

end
