(* ===== verification/Tx_Batch_Safety.thy ===== *)
theory Tx_Batch_Safety
  imports Tx_Step_Safety
begin

text \<open>
  The invariant through a batch of a lane, the round robin over chains, notifications, metrics
  and submissions: every operation of the manager keeps it, whatever the environment answers.
\<close>

lemma appendReconciliationError_message_ok [simp]: "message_ok (appendReconciliationError m err)"
  using appendReconciliationError_ok [of m err] by (simp add: message_ok_def maxTransactionMessageBytes_def)

text \<open>Well-formed attempts validate, with their sender and nonce.\<close>

lemma validate_loop_wf:
  "\<forall>a \<in> set as. attempt_wf h s (Some n) a \<Longrightarrow> s \<noteq> 0 \<Longrightarrow> s0 = 0 \<or> s0 = s \<Longrightarrow>
    validate_loop h n as s0 = Inr (if as = [] then s0 else s, n)"
  by (induction as arbitrary: s0) (auto simp: attempt_wf_def)

lemma validatePersistedAttempts_wf:
  assumes "\<forall>a \<in> set as. attempt_wf h s nn a" and "as \<noteq> []" and "s \<noteq> 0"
  shows "\<exists>n. nn = Some n \<and> validatePersistedAttempts h as = Inr (s, n)"
proof -
  obtain a r where as: "as = a # r" using assms(2) by (cases as) auto
  then have nn: "nn = Some (attNonce a)" using assms(1) by (simp add: attempt_wf_def)
  show ?thesis
    using validate_loop_wf [of as h s "attNonce a" 0] assms as nn by (simp add: validatePersistedAttempts_def)
qed

lemma local_row_adopt:
  "local_row i c s (Some n) as tx \<Longrightarrow> as \<noteq> [] \<Longrightarrow> local_row i c s (Some n) as (adopt_attempts h tx as s n)"
  by (auto simp: local_row_def same_lane_def adopt_attempts_def Let_def IsCompleted_def)

lemma adopt_attempts_Msg [simp]: "Msg (adopt_attempts h tx as s n) = Msg tx"
  "ChainID (adopt_attempts h tx as s n) = ChainID tx"
  by (simp_all add: adopt_attempts_def Let_def)

context transactions_queue
begin

lemma active_observe:
  assumes "active_inv h F i c s (Some n) as w" shows "active_inv h F i c s (Some n) as (snd (laneObserve n w))"
proof -
  let ?R = "rows (store w)"
  have "own_active ?R i c s (Some n)" and ok: "store_ok h ?R (atts (store w))" and cov: "covers (lane w) (lane_set ?R c s)"
    using assms by (auto simp: active_inv_def hand_inv_def step_inv_def)
  then have "n \<noteq> -1" unfolding own_active_def store_ok_def owners_ok_def by blast
  from covers_observe [OF cov this] have "covers (observe n (lane w)) (lane_set ?R c s)"
    by (rule covers_mono) auto
  then show ?thesis using assms by (simp add: active_inv_def hand_inv_def step_inv_def laneObserve_def)
qed

lemma triple_reconcile_attempts:
  assumes m: "manager_ok Q m" and h: "h = mHost m" and s: "s = mSender m"
    and tx: "local_row i c s nn as tx" "message_ok (Msg tx)" and as: "as \<noteq> []"
  shows "triple (active_inv h F i c s nn as) (reconcile_attempts m tx as) (final_inv h F i c s nn)"
proof (rule triple_assume [of _ "\<forall>a \<in> set as. attempt_wf h s nn a"])
  show "active_inv h F i c s nn as w \<Longrightarrow> \<forall>a \<in> set as. attempt_wf h s nn a" for w
    by (simp add: active_inv_def hand_inv_def in_hand_def)
  assume wf: "\<forall>a \<in> set as. attempt_wf h s nn a"
  have Qm: "transactionsQ m = Q" and s0: "s \<noteq> 0" using m s by (auto simp: manager_ok_def)
  obtain n where n: "nn = Some n" and val: "validatePersistedAttempts (mHost m) as = Inr (s, n)"
    using validatePersistedAttempts_wf [OF wf as s0] h by auto
  let ?tx = "adopt_attempts (mHost m) tx as s n"
  have row: "local_row i c s nn as ?tx" using local_row_adopt tx as n by simp
  have row': "local_row i c s nn as (?tx\<lparr>Msg := x\<rparr>)" for x
    using row by (simp add: local_row_def same_lane_def IsCompleted_def)
  have mine: "AssignedNonce tx = Some n" "Sender tx = s" using tx n by (auto simp: local_row_def same_lane_def)
  let ?k = "\<lambda>(found, receiptErr). case found of
      Some (rc, winner) \<Rightarrow> finalizeTransaction m ?tx winner rc
    | None \<Rightarrow> advance_transaction m (case receiptErr of None \<Rightarrow> ?tx
        | Some err \<Rightarrow> ?tx\<lparr>Msg := appendReconciliationError (Msg ?tx) (Some err)\<rparr>) as (receiptErr \<noteq> None)"
  have run: "reconcile_attempts m tx as = bindA (laneObserve n) (\<lambda>_. bindA (findKnownReceipt m (ChainID ?tx) as) ?k)"
    unfolding reconcile_attempts_def val using mine s
    by (auto simp: Let_def fun_eq_iff bindA_def laneObserve_def split: outcome.splits option.splits prod.splits intro!: arg_cong2 [where f = bindA])
  have f: "active_inv h F i c s nn as w \<Longrightarrow> final_inv h F i c s nn r w" for w and r :: "(go_error, unit) outcome"
    by (intro hand_final active_hand)
  have "triple (active_inv h F i c s nn as) (?k x) (final_inv h F i c s nn)"
    if "case x of (found, _) \<Rightarrow> \<forall>rc winner. found = Some (rc, winner) \<longrightarrow> receipt_of as rc winner" for x
    using that
    by (cases x) (auto intro!: final_keeps [OF keeps_finalize [OF Qm s0 row]] triple_advance m h s row row' tx(2) split: option.splits)
  then have "triple (active_inv h F i c s nn as) (bindA (findKnownReceipt m (ChainID ?tx) as) ?k) (final_inv h F i c s nn)"
    by (rule triple_bind_keeps [OF keeps_findKnownReceipt [OF active_env] returns_findKnownReceipt]) (auto intro: f)
  then show "triple (active_inv h F i c s nn as) (reconcile_attempts m tx as) (final_inv h F i c s nn)"
    unfolding run n
    by (auto simp: triple_def bindA_def laneObserve_def dest: active_observe)
qed

definition base_inv :: "host \<Rightarrow> 'q world \<Rightarrow> bool" where
  "base_inv h w \<longleftrightarrow> invar (store w) \<and> store_ok h (rows (store w)) (atts (store w)) \<and> sent_ok h rows atts (trace w)"

definition lane_covered :: "u64 \<Rightarrow> address \<Rightarrow> 'q world \<Rightarrow> bool" where
  "lane_covered c s w \<longleftrightarrow> covers (lane w) (lane_set (rows (store w)) c s)"

text \<open>The rows a batch has selected and not yet processed are stored as they were read.\<close>

definition selected :: "u64 \<Rightarrow> address \<Rightarrow> row_map \<Rightarrow> Transaction list \<Rightarrow> bool" where
  "selected c s R txs \<longleftrightarrow> distinct (map ID txs) \<and> (\<forall>t \<in> set txs. R (ID t) = Some t \<and> \<not> IsCompleted t \<and>
     ChainID t = c \<and> (Sender t = s \<or> Sender t = 0))"

lemma start_active:
  assumes base: "base_inv h w" "lane_covered c s w" and F: "rows (store w) = F"
    and tx: "F (ID tx) = Some tx" "\<not> IsCompleted tx" "ChainID tx = c" "Sender tx = s \<or> Sender tx = 0"
    and as: "mset as = mset (atts (store w) (ID tx))"
  shows "active_inv h F (ID tx) c s (AssignedNonce tx) as w"
proof -
  have ok: "store_ok h F (atts (store w))" using base F by (simp add: base_inv_def)
  have owner: "AssignedNonce tx \<noteq> None \<Longrightarrow> Sender tx \<noteq> 0"
    using ok tx(1) unfolding store_ok_def owners_ok_def by blast
  have own: "own_active F (ID tx) c s (AssignedNonce tx)"
    using tx owner by (cases "AssignedNonce tx") (auto simp: own_active_def)
  have set: "set as = set (atts (store w) (ID tx))" and len: "length as = length (atts (store w) (ID tx))"
    using as by (auto dest: mset_eq_setD mset_eq_length)
  have wf: "attempt_wf h s (AssignedNonce tx) a" if "a \<in> set as" for a
  proof -
    have "attempt_wf h (Sender tx) (AssignedNonce tx) a"
      using ok tx that set unfolding store_ok_def attempts_ok_def by metis
    moreover from this have "Sender tx \<noteq> 0"
      using ok tx unfolding store_ok_def owners_ok_def attempt_wf_def by (metis option.distinct(1))
    ultimately show ?thesis using tx(4) by auto
  qed
  have "in_hand h (atts (store w)) (ID tx) s (AssignedNonce tx) as"
    using ok wf set len by (auto simp: in_hand_def store_ok_def counts_ok_def)
  then show ?thesis
    using base own ok F
    by (simp add: active_inv_def hand_inv_def step_inv_def own_def framed_def base_inv_def lane_covered_def)
qed

lemma triple_step:
  assumes m: "manager_ok Q m" and h: "h = mHost m" and s: "s = mSender m"
    and tx: "\<not> IsCompleted tx" "ChainID tx = c" "Sender tx = s \<or> Sender tx = 0" "F (ID tx) = Some tx"
  shows "triple (\<lambda>w. base_inv h w \<and> lane_covered c s w \<and> rows (store w) = F) (processTransactionStep m tx)
    (final_inv h F (ID tx) c s (AssignedNonce tx))"
proof (rule tripleI)
  fix w assume w: "base_inv h w \<and> lane_covered c s w \<and> rows (store w) = F"
  have Qm: "transactionsQ m = Q" using m by (simp add: manager_ok_def)
  have inv: "invar (store w)" and ok: "store_ok h F (atts (store w))" using w by (auto simp: base_inv_def)
  let ?i = "ID tx" and ?nn = "AssignedNonce tx"
  let ?post = "\<lambda>r w. final_inv h F ?i c s ?nn (r :: (go_error, unit) outcome) w"
  have msg: "message_ok (Msg tx)" using ok tx(4) by (auto simp: store_ok_def messages_ok_def)
  have start: "mset as = mset (atts (store w) ?i) \<Longrightarrow> active_inv h F ?i c s ?nn as w" for as
    using w tx by (intro start_active) auto
  have fin: "?post r w" for r using start [OF refl] by (intro hand_final active_hand)
  obtain ras q' where run: "qSelectAttempts Q ?i (store w) = (ras, q')" by fastforce
  have q': "q' = store w" and as: "\<And>as. ras = Ret as \<Longrightarrow> mset as = mset (atts (store w) ?i)"
    using attempts_law [OF inv run] by auto
  show "?post (fst (processTransactionStep m tx w)) (snd (processTransactionStep m tx w))"
  proof (cases "map_of (clients m) (ChainID tx) = None \<or> (\<forall>as. ras \<noteq> Ret as)")
    case True
    then show ?thesis using fin
      by (cases ras) (auto simp: processTransactionStep_def action_defs onQ_def run Qm q')
  next
    case False
    then obtain as cl where ras: "ras = Ret as" and cl: "map_of (clients m) (ChainID tx) = Some cl" by auto
    note act = start [OF as [OF ras]]
    have leg: "recover_legacy m tx as = retA (tx, as)"
      using act tx(1,4) ok as [OF ras] unfolding recover_legacy_def
      by (auto simp: store_ok_def owners_ok_def split: list.splits option.splits)
    have run2: "processTransactionStep m tx w = (if as \<noteq> [] then reconcile_attempts m tx as
        else advance_transaction m (if Sender tx = 0 then tx\<lparr>Sender := mSender m\<rparr> else tx) as False) w"
      by (simp add: cl processTransactionStep_def action_defs onQ_def run Qm q' ras leg)
    show ?thesis
    proof (cases "as = []")
      case True
      have "Tx tx = None"
        using ok tx(1,4) as [OF ras] True unfolding store_ok_def owners_ok_def
        by (metis mset_zero_iff_right)
      then have "local_row ?i c s ?nn [] (if Sender tx = 0 then tx\<lparr>Sender := mSender m\<rparr> else tx)"
        using tx s by (auto simp: local_row_def same_lane_def IsCompleted_def)
      from triple_advance [OF m h s this, of F False] act msg True show ?thesis
        unfolding run2 by (auto simp: triple_def)
    next
      case False
      have "Sender tx = s"
        using active_nn [OF act False] ok tx(3,4) by (auto simp: store_ok_def owners_ok_def)
      then have "local_row ?i c s ?nn as tx" using tx False by (auto simp: local_row_def same_lane_def)
      from triple_reconcile_attempts [OF m h s this msg False, of F] act False show ?thesis
        unfolding run2 by (auto simp: triple_def)
    qed
  qed
qed

section \<open>A batch\<close>

lemma touch_ok:
  assumes ok: "store_ok h R A" and cur: "R i = Some cur" "\<not> IsCompleted cur" "ID cur = i"
    and t: "t = cur\<lparr>Msg := x, NextActionAt := y, UpdatedAt := z, Status := st\<rparr>" "message_ok x" "\<not> IsCompleted t"
  shows "store_ok h (R(i \<mapsto> t)) A \<and> lane_set (R(i \<mapsto> t)) c s \<subseteq> lane_set R c s"
proof -
  have own: "own_active R i (ChainID cur) (Sender cur) (AssignedNonce cur)" using cur by (auto simp: own_active_def)
  have hand: "in_hand h A i (Sender cur) (AssignedNonce cur) (A i)"
    using ok cur unfolding in_hand_def store_ok_def counts_ok_def attempts_ok_def by blast
  have "Tx cur = None \<or> A i \<noteq> []" using ok cur unfolding store_ok_def owners_ok_def by blast
  then have gw: "good_write h R i (ChainID cur) (Sender cur) (AssignedNonce cur) (A i) t"
    using t cur(3) by (auto simp: good_write_def same_lane_def)
  have s: "AssignedNonce cur \<noteq> None \<Longrightarrow> Sender cur \<noteq> 0" using ok cur unfolding store_ok_def owners_ok_def by blast
  show ?thesis
    using store_ok_write [OF ok own s hand gw] lane_set_write [OF own gw] by blast
qed

text \<open>What survives between two steps of a batch: \<open>C\<close> says whether the lane counter is still good.\<close>

definition between :: "host \<Rightarrow> bool \<Rightarrow> u64 \<Rightarrow> address \<Rightarrow> Transaction list \<Rightarrow> 'q world \<Rightarrow> bool" where
  "between h C c s rest w \<longleftrightarrow> base_inv h w \<and> (C \<longrightarrow> lane_covered c s w) \<and> selected c s (rows (store w)) rest"

lemma between_tick: "between h C c s rest w \<Longrightarrow> between h C c s rest (w\<lparr>tick := k\<rparr>)"
  by (simp add: between_def base_inv_def lane_covered_def)

lemma keeps_reschedule:
  assumes Qm: "transactionsQ m = Q" and fresh: "ID tx \<notin> ID ` set rest"
  shows "keeps (between h C c s rest) (rescheduleTransaction m tx e)"
proof -
  let ?i = "ID tx"
  have "between h C c s rest (snd (rescheduleTransaction m tx e w))" if w: "between h C c s rest w" for w
  proof -
    have inv: "invar (store w)" using w by (simp add: between_def base_inv_def)
    obtain rg q1 where run: "qGet Q (withFilter (FilterByIds [?i]) New) (store w) = (rg, q1)" by fastforce
    note law = get_law [OF inv run]
    have q1: "q1 = store w" using law by simp
    show ?thesis
    proof (cases "\<exists>cur. rg = Ret cur \<and> \<not> IsCompleted cur")
      case False
      then show ?thesis using w
        by (cases rg) (auto simp: rescheduleTransaction_def action_defs onQ_def run Qm q1)
    next
      case True
      then obtain cur where cur: "rg = Ret cur" "\<not> IsCompleted cur" by blast
      have row: "ID cur = ?i" "rows (store w) ?i = Some cur"
        using law cur(1) by (auto simp: withFilter_def New_def)
      let ?n1 = "clock (mHost m) (tick w)" and ?n2 = "clock (mHost m) (Suc (tick w))"
      let ?t = "rescheduled m cur e ?n1 ?n2" and ?w = "w\<lparr>tick := Suc (Suc (tick w))\<rparr>"
      obtain r q' where upd: "qUpdateIfActive Q ?t (store w) = (r, q')" by fastforce
      note ul = update_law [OF inv upd]
      have fin: "snd (rescheduleTransaction m tx e w) = ?w\<lparr>store := q'\<rparr>"
        using cur upd by (cases r) (auto simp: rescheduleTransaction_def action_defs onQ_def run Qm q1 time_now_def
            env_def update_if_active_def)
      have act: "\<not> IsCompleted ?t" and id: "ID ?t = ?i" using cur(2) row(1) by (auto simp: rescheduled_def IsCompleted_def)
      have ok: "store_ok h (rows (store w)) (atts (store w))" using w by (simp add: between_def base_inv_def)
      have touch: "store_ok h ((rows (store w))(?i \<mapsto> ?t)) (atts (store w)) \<and>
          lane_set ((rows (store w))(?i \<mapsto> ?t)) c s \<subseteq> lane_set (rows (store w)) c s"
        by (rule touch_ok [OF ok row(2) cur(2) row(1) rescheduled_def]) (auto simp: act)
      have "rows q' = rows (store w) \<or> rows q' = (rows (store w))(?i \<mapsto> ?t)"
        using ul id by (auto simp: committed_def)
      then have "between h C c s rest (w\<lparr>store := q'\<rparr>)"
      proof
        assume "rows q' = rows (store w)"
        then show ?thesis using w ul by (simp add: between_def base_inv_def lane_covered_def)
      next
        assume R': "rows q' = (rows (store w))(?i \<mapsto> ?t)"
        have "selected c s (rows q') rest"
          using w fresh unfolding between_def selected_def R' by (auto simp: image_iff)
        moreover have "C \<longrightarrow> covers (lane w) (lane_set (rows q') c s)"
          using w touch unfolding between_def lane_covered_def R' by (auto intro: covers_mono)
        ultimately show ?thesis
          using w ul touch unfolding between_def base_inv_def lane_covered_def by (simp add: R')
      qed
      then show ?thesis unfolding fin by (simp add: between_def base_inv_def lane_covered_def)
    qed
  qed
  then show ?thesis by (simp add: keeps_def)
qed

lemma final_between:
  assumes fin: "final_inv h F (ID tx) c s nn r w" and sel: "selected c s F (tx # rest)"
  shows "between h (continues r) c s rest w"
proof -
  have "rows (store w) (ID t) = F (ID t)" if "t \<in> set rest" for t
  proof -
    have "ID tx \<notin> ID ` set rest" using sel by (simp add: selected_def)
    with that have "ID t \<noteq> ID tx" by (metis image_eqI)
    then show ?thesis using fin by (simp add: final_inv_def framed_def)
  qed
  then have "selected c s (rows (store w)) rest" using sel by (simp add: selected_def)
  then show ?thesis using fin by (simp add: final_inv_def between_def base_inv_def lane_covered_def)
qed

lemma between_mono: "between h C c s rest w \<Longrightarrow> (D \<Longrightarrow> C) \<Longrightarrow> between h D c s rest w"
  by (auto simp: between_def)

lemma between_env: "keeps (between h C c s rest) (env f)"
  by (simp add: keeps_def env_def between_tick)

lemma triple_lane_loop:
  assumes m: "manager_ok Q m" and h: "h = mHost m" and s: "s = mSender m"
  shows "triple (between h True c s txs) (lane_loop m txs) (\<lambda>_. base_inv h)"
proof (induction txs)
  case Nil
  then show ?case by (auto intro!: triple_ret simp: between_def)
next
  case (Cons tx rest)
  have Qm: "transactionsQ m = Q" using m by (simp add: manager_ok_def)
  have base: "between h C c s xs w \<Longrightarrow> base_inv h w" for C xs w by (simp add: between_def)
  have fail: "triple (between h (errors_is e ErrStaleTransaction \<or> errors_is e ErrTransactionUnprocessable) c s rest)
      (if errors_is e ErrStaleTransaction then lane_loop m rest
       else if errors_is e ErrLaneAwaitingNodeNonce \<or> errors_is e ErrLaneStateChanged then retA ()
       else bindA (ctx_err m) (\<lambda>done. if done \<noteq> None then retA ()
         else bindA (rescheduleTransaction m tx e) (\<lambda>_.
           if errors_is e ErrTransactionUnprocessable then lane_loop m rest else retA ())))
      (\<lambda>_. base_inv h)" if "ID tx \<notin> ID ` set rest" for e
  proof (intro triple_if)
    assume "errors_is e ErrStaleTransaction"
    then show "triple (between h (errors_is e ErrStaleTransaction \<or> errors_is e ErrTransactionUnprocessable) c s rest)
        (lane_loop m rest) (\<lambda>_. base_inv h)" using Cons.IH by simp
  next
    show "triple (between h (errors_is e ErrStaleTransaction \<or> errors_is e ErrTransactionUnprocessable) c s rest)
        (bindA (ctx_err m) (\<lambda>done. if done \<noteq> None then retA ()
         else bindA (rescheduleTransaction m tx e) (\<lambda>_.
           if errors_is e ErrTransactionUnprocessable then lane_loop m rest else retA ()))) (\<lambda>_. base_inv h)"
      by (intro triple_bind_keeps [OF _ returns_True] triple_if keeps_ctx_err between_env keeps_reschedule Qm that)
        (auto intro!: triple_ret triple_pre [OF Cons.IH] base elim: between_mono)
  qed (auto intro!: triple_ret base)
  have step: "triple (between h True c s (tx # rest)) (tryA (processTransactionStep m tx) (\<lambda>r. case r of
         Inr _ \<Rightarrow> lane_loop m rest
       | Inl err \<Rightarrow>
           if errors_is err ErrStaleTransaction then lane_loop m rest
           else if errors_is err ErrLaneAwaitingNodeNonce \<or> errors_is err ErrLaneStateChanged then retA ()
           else bindA (ctx_err m) (\<lambda>done. if done \<noteq> None then retA ()
             else bindA (rescheduleTransaction m tx err) (\<lambda>_.
               if errors_is err ErrTransactionUnprocessable then lane_loop m rest else retA ())))) (\<lambda>_. base_inv h)"
    (is "triple _ (tryA _ ?k) _")
  proof (rule tripleI)
    fix w assume w: "between h True c s (tx # rest) w"
    let ?F = "rows (store w)"
    have sel: "selected c s ?F (tx # rest)" and pre: "base_inv h w \<and> lane_covered c s w \<and> rows (store w) = ?F"
      using w by (auto simp: between_def)
    have fresh: "ID tx \<notin> ID ` set rest" using sel by (auto simp: selected_def)
    obtain r w' where run: "processTransactionStep m tx w = (r, w')" by fastforce
    have "final_inv h ?F (ID tx) c s (AssignedNonce tx) r w'"
      by (rule tripleD [OF triple_step [OF m h s] pre run]) (use sel in \<open>auto simp: selected_def\<close>)
    note bet = final_between [OF this sel]
    show "base_inv h (snd (tryA (processTransactionStep m tx) ?k w))"
    proof (cases r)
      case (Ret u)
      then show ?thesis using bet Cons.IH by (simp add: tryA_def run triple_def continues_def)
    next
      case (Fail e)
      then show ?thesis using bet fail [OF fresh, of e] by (simp add: tryA_def run triple_def continues_def)
    next
      case (Panic p)
      then show ?thesis using bet by (simp add: tryA_def run between_def)
    qed
  qed
  show ?case
    unfolding lane_loop.simps
    by (intro triple_bind_keeps [OF _ returns_True] triple_if keeps_ctx_err between_env step)
      (auto intro!: triple_ret base)
qed

lemma base_env: "keeps (base_inv h) (env f)"
  by (simp add: keeps_def env_def base_inv_def)

lemma base_emit: "(\<And>c raw q. e \<noteq> EvSend c raw q) \<Longrightarrow> keeps (base_inv h) (emit (\<lambda>_. e))"
  by (auto simp: keeps_def emit_def base_inv_def sent_ok_def)

lemma keeps_onQ_same:
  assumes "\<And>q. invar q \<Longrightarrow> invar (snd (f q)) \<and> rows (snd (f q)) = rows q \<and> atts (snd (f q)) = atts q"
  shows "keeps (base_inv h) (onQ f)"
  using assms by (auto simp: keeps_def onQ_def base_inv_def split: prod.splits) (metis snd_conv)+

lemma keeps_reads:
  assumes "transactionsQ m = Q"
  shows "keeps (base_inv h) (onQ (qSelect (transactionsQ m) qy))"
    and "keeps (base_inv h) (onQ (qCountByChain (transactionsQ m) ce sts))"
    and "keeps (base_inv h) (onQ (qTryLockLane (transactionsQ m) ce s c))"
    and "keeps (base_inv h) (onQ (qUnlock (transactionsQ m) lk))"
  unfolding assms
  by (rule keeps_onQ_same; metis prod.collapse select_law count_law lock_law unlock_law)+

lemma select_lane:
  assumes "invar q" and "qSelect Q (lane_query m c now) q = (Ret txs, q')" and "s = mSender m"
  shows "selected c s (rows q) txs"
  using select_law [OF assms(1,2)] assms(3)
  by (auto simp: selected_def lane_query_def withFilter_def New_def OrderBy_def Limit_def active_iff_not_completed)

lemma keeps_locked_batch:
  assumes m: "manager_ok Q m"
  shows "keeps (base_inv (mHost m)) (locked_batch m c)"
proof -
  let ?h = "mHost m" and ?s = "mSender m"
  have Qm: "transactionsQ m = Q" using m by (simp add: manager_ok_def)
  have "base_inv ?h (snd (locked_batch m c w))" if w: "base_inv ?h w" for w
  proof -
    have inv: "invar (store w)" and ok: "store_ok ?h (rows (store w)) (atts (store w))" using w by (auto simp: base_inv_def)
    obtain rm q1 where r1: "qMaxAssignedNonce Q ?s c (store w) = (rm, q1)" by fastforce
    note law1 = max_nonce_law [OF inv r1]
    have q1: "q1 = store w" using law1 by simp
    show ?thesis
    proof (cases rm)
      case (Ret mx)
      let ?now = "clock ?h (tick w)"
      obtain rs q2 where r2: "qSelect Q (lane_query m c ?now) (store w) = (rs, q2)" by fastforce
      have q2: "q2 = store w" using select_law [OF inv r2] by simp
      let ?w = "w\<lparr>lane := lane_of mx, tick := Suc (tick w)\<rparr>"
      have cov: "covers (lane_of mx) (lane_set (rows (store w)) c ?s)"
      proof (rule covers_lane_of)
        fix n assume "mx = Some n"
        with law1 Ret have own: "\<exists>i t. rows (store w) i = Some t \<and> Sender t = ?s \<and> ChainID t = c \<and> AssignedNonce t = Some n"
          and le: "\<And>i t k. rows (store w) i = Some t \<Longrightarrow> Sender t = ?s \<Longrightarrow> ChainID t = c \<Longrightarrow> AssignedNonce t = Some k \<Longrightarrow> k \<le> n"
          by auto
        from own ok have "n \<noteq> -1" unfolding store_ok_def owners_ok_def by blast
        with le show "n \<noteq> -1 \<and> (\<forall>k \<in> lane_set (rows (store w)) c ?s. k \<le> n)"
          by (auto simp: lane_set_def holds_nonce_def)
      next
        assume "mx = None"
        with law1 Ret show "lane_set (rows (store w)) c ?s = {}" by (auto simp: lane_set_def holds_nonce_def)
      qed
      have base: "base_inv ?h ?w" using w by (simp add: base_inv_def)
      show ?thesis
      proof (cases rs)
        case (Ret txs)
        have "between ?h True c ?s txs ?w"
          using base cov select_lane [OF inv r2 [unfolded Ret] refl] by (simp add: between_def lane_covered_def)
        then have "base_inv ?h (snd (lane_loop m txs ?w))"
          using triple_lane_loop [OF m refl refl] by (simp add: triple_def)
        then show ?thesis
          using Ret \<open>rm = Ret mx\<close>
          by (simp add: locked_batch_def action_defs onQ_def Qm r1 q1 setLane_def time_now_def env_def r2 q2)
      next
        case (Fail e)
        then show ?thesis using base \<open>rm = Ret mx\<close>
          by (simp add: locked_batch_def action_defs onQ_def Qm r1 q1 setLane_def time_now_def env_def r2 q2
              logLane_def ctx_err_def base_inv_def)
      next
        case (Panic p)
        then show ?thesis using base \<open>rm = Ret mx\<close>
          by (simp add: locked_batch_def action_defs onQ_def Qm r1 q1 setLane_def time_now_def env_def r2 q2)
      qed
    next
      case (Fail e)
      then show ?thesis using w
        by (simp add: locked_batch_def action_defs onQ_def Qm r1 q1 logLane_def ctx_err_def env_def base_inv_def)
    next
      case (Panic p)
      then show ?thesis using w by (simp add: locked_batch_def action_defs onQ_def Qm r1 q1)
    qed
  qed
  then show ?thesis by (simp add: keeps_def)
qed

lemma keeps_processLaneBatch:
  assumes m: "manager_ok Q m"
  shows "keeps (base_inv (mHost m)) (processLaneBatch m c)"
  unfolding processLaneBatch_def logLane_def
  by (intro hoare_rules keeps_ctx_err base_env keeps_reads keeps_deferA keeps_locked_batch m)
    (use m in \<open>simp_all add: manager_ok_def\<close>)

lemma keeps_processTxs:
  assumes m: "manager_ok Q m"
  shows "keeps (base_inv (mHost m)) (processTxs m)"
proof -
  have "keeps (base_inv (mHost m)) (nextWorkChainIDs m k)" for k
    by (auto simp: keeps_def nextWorkChainIDs_def Let_def base_inv_def)
  then show ?thesis
    unfolding processTxs_def by (intro hoare_rules keeps_for_each keeps_processLaneBatch m)
qed

section \<open>Notifications, metrics and submissions\<close>

lemma store_ok_notify:
  assumes "store_ok h R A" and "R i = Some cur" and "IsCompleted cur"
    and "t = cur\<lparr>NotifiedAt := a, NotificationAttempts := b, NextNotificationAt := d, NotificationError := e, UpdatedAt := f\<rparr>"
  shows "store_ok h (R(i \<mapsto> t)) A"
proof -
  have st: "Status t = Status cur" "IsCompleted t" using assms(3,4) by (simp_all add: IsCompleted_def)
  have hold: "holds_nonce t c s n \<longleftrightarrow> holds_nonce cur c s n" for c s n by (simp add: assms(4) holds_nonce_def)
  have rec: "receipted h as t \<longleftrightarrow> receipted h as cur" for as by (simp add: assms(4) receipted_def)
  have "nonces_unique (R(i \<mapsto> t))"
  proof -
    have "\<exists>u'. R j = Some u' \<and> (\<forall>c s n. holds_nonce u c s n \<longrightarrow> holds_nonce u' c s n)"
      if "(R(i \<mapsto> t)) j = Some u" for j u
      using that assms(2) hold by (cases "j = i") auto
    then show ?thesis using assms(1) unfolding store_ok_def nonces_unique_def by (metis (full_types))
  qed
  moreover have "attempts_ok h (R(i \<mapsto> t)) A"
    using assms(1) st unfolding store_ok_def attempts_ok_def by auto
  moreover have "owners_ok (R(i \<mapsto> t)) A"
  proof -
    have "(AssignedNonce cur \<noteq> None \<longrightarrow> Sender cur \<noteq> 0) \<and> AssignedNonce cur \<noteq> Some (-1)"
      using assms(1,2) unfolding store_ok_def owners_ok_def by blast
    then show ?thesis using assms(1,4) st unfolding store_ok_def owners_ok_def by auto
  qed
  moreover have "results_ok h (R(i \<mapsto> t)) A"
    using assms(1,2) st rec unfolding store_ok_def results_ok_def by auto
  moreover have "messages_ok (R(i \<mapsto> t))"
  proof -
    have "message_ok (Msg t)" using assms(1,2,4) unfolding store_ok_def messages_ok_def by auto
    then show ?thesis using assms(1) unfolding store_ok_def messages_ok_def by auto
  qed
  ultimately show ?thesis using assms(1) by (simp add: store_ok_def)
qed

lemma keeps_update_notification:
  assumes "transactionsQ m = Q"
  shows "keeps (base_inv h) (onQ (qUpdateNotification (transactionsQ m) t))"
proof -
  have "base_inv h (snd (onQ (qUpdateNotification (transactionsQ m) t) w))" if w: "base_inv h w" for w
  proof -
    have inv: "invar (store w)" and ok: "store_ok h (rows (store w)) (atts (store w))" using w by (auto simp: base_inv_def)
    obtain r q' where run: "qUpdateNotification Q t (store w) = (r, q')" by fastforce
    note law = notification_law [OF inv run]
    have "store_ok h (rows q') (atts q')"
      using law ok by (auto intro!: store_ok_notify [OF ok])
    then show ?thesis using w law by (simp add: onQ_def assms run base_inv_def)
  qed
  then show ?thesis by (simp add: keeps_def)
qed

lemma keeps_callback: "keeps (base_inv h) (callStatusCallback m t)"
  unfolding callStatusCallback_def
  by (auto intro!: hoare_rules base_emit base_env split: callback_result.splits)

lemma keeps_notifications:
  assumes "transactionsQ m = Q"
  shows "keeps (base_inv h) (deliverStatusNotifications m)"
proof -
  have one: "keeps (base_inv h) (deliverStatusNotification m t)" for t
    unfolding deliverStatusNotification_def
    by (intro hoare_rules base_env keeps_callback keeps_update_notification assms)
  have "keeps (base_inv h) (notify_loop m ts)" for ts
    by (induction ts) (auto intro!: hoare_rules base_env one)
  then show ?thesis
    unfolding deliverStatusNotifications_def by (intro hoare_rules base_env keeps_reads assms)
qed

lemma keeps_metrics:
  assumes "transactionsQ m = Q"
  shows "keeps (base_inv h) (observeTransactionMetrics m)"
proof -
  have "keeps (base_inv h) (observe_clients cs counts)" for cs counts
    by (induction cs counts rule: observe_clients.induct) (auto intro!: hoare_rules base_emit)
  then show ?thesis
    unfolding observeTransactionMetrics_def
    by (intro hoare_rules base_env keeps_reads keeps_for_each base_emit assms) auto
qed

lemma store_ok_insert:
  assumes "store_ok h R A" and "R i = None" and "AssignedNonce t = None" "Tx t = None" "Msg t = []"
    "Status t = PendingTxStatus"
  shows "store_ok h (R(i \<mapsto> t)) A"
proof -
  have A: "A i = []" using assms(1,2) unfolding store_ok_def owners_ok_def by blast
  have "nonces_unique (R(i \<mapsto> t))"
    using assms(1,3) unfolding store_ok_def nonces_unique_def
    by (auto simp: holds_nonce_def split: if_splits)
  moreover have "attempts_ok h (R(i \<mapsto> t)) A" using assms(1) A unfolding store_ok_def attempts_ok_def by auto
  moreover have "owners_ok (R(i \<mapsto> t)) A" using assms unfolding store_ok_def owners_ok_def by auto
  moreover have "results_ok h (R(i \<mapsto> t)) A" using assms unfolding store_ok_def results_ok_def by auto
  moreover have "messages_ok (R(i \<mapsto> t))" using assms unfolding store_ok_def messages_ok_def by auto
  ultimately show ?thesis using assms(1) by (simp add: store_ok_def)
qed

lemma base_insert:
  assumes Qm: "transactionsQ m = Q" and w: "base_inv h w"
    and t: "rows (store w) (ID t) = None" "AssignedNonce t = None" "Tx t = None" "Msg t = []" "Status t = PendingTxStatus"
  shows "base_inv h (snd (onQ (qInsertOrGet (transactionsQ m) t) w))"
proof -
  have inv: "invar (store w)" and ok: "store_ok h (rows (store w)) (atts (store w))" using w by (auto simp: base_inv_def)
  obtain r q' where run: "qInsertOrGet Q t (store w) = (r, q')" by fastforce
  from insert_law [OF inv run t(1)]
  have "store_ok h (rows q') (atts q')" "invar q'" using ok store_ok_insert [OF ok t] by auto
  then show ?thesis using w by (simp add: onQ_def Qm run base_inv_def)
qed

lemma base_send:
  assumes Qm: "transactionsQ m = Q" and w: "base_inv h w" and fresh: "rows (store w) (uuid (mHost m) (tick w)) = None"
  shows "base_inv h (snd (SendTxAsync m c addr data gas val auths intent keys w))"
proof (cases "map_of (clients m) c")
  case None
  then show ?thesis using w by (simp add: SendTxAsync_def action_defs)
next
  case (Some cl)
  let ?v = "case val of None \<Rightarrow> 0 | Some v \<Rightarrow> v"
  show ?thesis
  proof (cases "transactionPayloadHash (mHost m) c addr data gas ?v auths")
    case (Inl e)
    then show ?thesis using w Some by (simp add: SendTxAsync_def action_defs Let_def)
  next
    case (Inr ph)
    let ?t = "new_row m (uuid (mHost m) (tick w)) c addr data gas ?v auths intent (fold WithOperationKey keys None) ph
        (clock (mHost m) (Suc (tick w)))"
    let ?w = "w\<lparr>tick := Suc (Suc (tick w))\<rparr>"
    have "base_inv h (snd (onQ (qInsertOrGet (transactionsQ m) ?t) ?w))"
      by (rule base_insert [OF Qm]) (use w fresh in \<open>auto simp: base_inv_def new_row_def\<close>)
    moreover have "snd (SendTxAsync m c addr data gas val auths intent keys w) = snd (onQ (qInsertOrGet (transactionsQ m) ?t) ?w)"
      using Some Inr by (simp add: SendTxAsync_def action_defs Let_def env_def time_now_def split: outcome.splits prod.splits)
    ultimately show ?thesis by simp
  qed
qed

end

end
