(* ===== verification/Mem_Queue.thy ===== *)
theory Mem_Queue
  imports Tx_Provider "HOL-Library.AList"
begin

text \<open>
  \<open>evm/txmngr/txmngr_provider/mem\<close>: the in-memory store. A Go map is an association list with
  distinct keys; the order of the list stands for the unspecified order in which Go iterates,
  and the theorems say where the result does not depend on it. Each operation runs under the
  state's mutex, so it is one transition.
\<close>

section \<open>State and operations\<close>

record txsState =
  txs :: "(string \<times> Transaction) list"
  attempts :: "(string \<times> TransactionAttempt list) list"
  hashes :: "(string \<times> string) list"
  laneLocks :: "string list"

definition NewTransactionsQ :: "(string \<times> Transaction) list \<Rightarrow> txsState" where
  "NewTransactionsQ rows = \<lparr>txs = rows, attempts = [], hashes = [], laneLocks = []\<rparr>"

definition Insert :: "Transaction \<Rightarrow> (txsState, unit) act" where
  "Insert tx s = (Ret (), s\<lparr>txs := AList.update (ID tx) tx (txs s)\<rparr>)"

definition InsertOrGet :: "Transaction \<Rightarrow> (txsState, Transaction) act" where
  "InsertOrGet tx s =
     (let store = (Ret tx, s\<lparr>txs := AList.update (ID tx) tx (txs s)\<rparr>)
      in case OperationKey tx of
           None \<Rightarrow> store
         | Some key \<Rightarrow>
             (case find (\<lambda>(_, existing). OperationKey existing = Some key) (txs s) of
                None \<Rightarrow> store
              | Some (_, existing) \<Rightarrow>
                  if PayloadHash existing = None \<or> PayloadHash tx = None \<or>
                     PayloadHash existing \<noteq> PayloadHash tx
                  then (Fail (errors_new (Some ErrIdempotencyConflict)
                     ''transaction operation key already exists with a different payload''), s)
                  else (Ret existing, s)))"

text \<open>Reading a missing key of \<open>attempts\<close> gives the nil slice.\<close>

definition attempts_of :: "txsState \<Rightarrow> string \<Rightarrow> TransactionAttempt list" where
  "attempts_of s i = (case map_of (attempts s) i of None \<Rightarrow> [] | Some as \<Rightarrow> as)"

definition InsertAttempt :: "TransactionAttempt \<Rightarrow> (txsState, unit) act" where
  "InsertAttempt attempt s =
     (let hash = hash_hex (attHash attempt)
      in case map_of (hashes s) hash of
           Some transactionID \<Rightarrow>
             if transactionID \<noteq> attTransactionID attempt
             then (Fail (AttemptHashConflictError hash transactionID), s)
             else (Ret (), s)
         | None \<Rightarrow>
             (Ret (), s\<lparr>hashes := AList.update hash (attTransactionID attempt) (hashes s),
                attempts := AList.update (attTransactionID attempt)
                  (attempts_of s (attTransactionID attempt) @ [attempt]) (attempts s)\<rparr>))"

definition stale_error :: go_error where
  "stale_error = errors_new (Some ErrStaleTransaction) ''transaction state changed before update''"

definition UpdateIfActive :: "Transaction \<Rightarrow> (txsState, unit) act" where
  "UpdateIfActive tx s =
     (case map_of (txs s) (ID tx) of
        None \<Rightarrow> (Fail stale_error, s)
      | Some current \<Rightarrow>
          if IsCompleted current then (Fail stale_error, s)
          else (Ret (), s\<lparr>txs := AList.update (ID tx) tx (txs s)\<rparr>))"

definition UpdateNotification :: "Transaction \<Rightarrow> (txsState, unit) act" where
  "UpdateNotification tx s =
     (case map_of (txs s) (ID tx) of
        None \<Rightarrow> (Fail stale_error, s)
      | Some current \<Rightarrow>
          if \<not> IsCompleted current \<or> NotifiedAt current \<noteq> None then (Fail stale_error, s)
          else (Ret (), s\<lparr>txs := AList.update (ID tx)
            (current\<lparr>NotifiedAt := NotifiedAt tx, NotificationAttempts := NotificationAttempts tx,
               NextNotificationAt := NextNotificationAt tx, NotificationError := NotificationError tx,
               UpdatedAt := UpdatedAt tx\<rparr>) (txs s)\<rparr>))"

subsection \<open>Orders\<close>

definition compareScheduleOrder :: "Transaction \<Rightarrow> Transaction \<Rightarrow> int" where
  "compareScheduleOrder a b = cmp_or [cmp_compare (NextActionAt a) (NextActionAt b),
     cmp_compare (CreatedAt a) (CreatedAt b), cmp_compare (ID a) (ID b)]"

fun compareAssignedNonce :: "u64 option \<Rightarrow> u64 option \<Rightarrow> int" where
  "compareAssignedNonce None None = 0"
| "compareAssignedNonce None (Some _) = 1"
| "compareAssignedNonce (Some _) None = -1"
| "compareAssignedNonce (Some a) (Some b) = cmp_compare a b"

definition compareLaneWork :: "Transaction \<Rightarrow> Transaction \<Rightarrow> int" where
  "compareLaneWork a b = cmp_or [compareAssignedNonce (AssignedNonce a) (AssignedNonce b),
     compareScheduleOrder a b]"

definition compareNextNotification :: "Transaction \<Rightarrow> Transaction \<Rightarrow> int" where
  "compareNextNotification a b = cmp_or [cmp_compare (NextNotificationAt a) (NextNotificationAt b),
     cmp_compare (ID a) (ID b)]"

fun order_rows :: "txOrder \<Rightarrow> Transaction list \<Rightarrow> Transaction list" where
  "order_rows orderNone xs = xs"
| "order_rows orderNextNotification xs = sort_stable_func compareNextNotification xs"
| "order_rows orderNextAction xs = sort_stable_func compareScheduleOrder xs"
| "order_rows orderLaneWork xs = sort_stable_func compareLaneWork xs"

subsection \<open>Reads\<close>

text \<open>\<open>filter\<close> of \<open>mem/util.go\<close>: the conjunction of the query's filters.\<close>

fun filter_all :: "tx_filter list \<Rightarrow> Transaction \<Rightarrow> bool" where
  "filter_all [] v = True"
| "filter_all (f # fs) v = (if \<not> filter_holds f v then False else filter_all fs v)"

definition Select :: "tx_query \<Rightarrow> (txsState, Transaction list) act" where
  "Select q s =
     (let result = order_rows (qOrderBy q) (filter (filter_all (qFilters q)) (map snd (txs s)))
      in (Ret (if qLimit q > 0 \<and> length result > unat (qLimit q)
               then take (unat (qLimit q)) result else result), s))"

definition no_rows_error :: go_error where
  "no_rows_error = errors_new (Some SqlErrNoRows) ''sql: no rows in result set''"

definition Get :: "tx_query \<Rightarrow> (txsState, Transaction) act" where
  "Get q s = (case find (filter_all (qFilters q)) (map snd (txs s)) of
       Some v \<Rightarrow> (Ret v, s) | None \<Rightarrow> (Fail no_rows_error, s))"

definition SelectAttempts :: "string \<Rightarrow> (txsState, TransactionAttempt list) act" where
  "SelectAttempts transactionID s =
     (Ret (sort_stable_func (\<lambda>a b. cmp_compare (attCreatedAt a) (attCreatedAt b))
        (attempts_of s transactionID)), s)"

definition SelectAttemptsByNonce :: "u64 \<Rightarrow> u64 \<Rightarrow> (txsState, TransactionAttempt list) act" where
  "SelectAttemptsByNonce chainID nonce s =
     (let candidates = concat (map (\<lambda>(transactionID, as).
            case map_of (txs s) transactionID of
              None \<Rightarrow> []
            | Some owner \<Rightarrow> if ChainID owner \<noteq> chainID then []
                else filter (\<lambda>a. attNonce a = nonce) as) (attempts s))
      in (Ret (sort_stable_func (\<lambda>a b. cmp_or [cmp_compare (attCreatedAt a) (attCreatedAt b),
            cmp_compare (hash_hex (attHash a)) (hash_hex (attHash b))]) candidates), s))"

text \<open>\<open>counts[chain]++\<close> on a uint64 wraps.\<close>

definition bump_count :: "u64 \<Rightarrow> (u64 \<times> u64) list \<Rightarrow> (u64 \<times> u64) list" where
  "bump_count c m = AList.update c ((case map_of m c of None \<Rightarrow> 0 | Some n \<Rightarrow> n) + 1) m"

definition CountByChain :: "go_error option \<Rightarrow> TxStatus list \<Rightarrow> (txsState, (u64 \<times> u64) list) act" where
  "CountByChain ctxErr statuses s =
     (case ctxErr of
        Some err \<Rightarrow> (Fail (wrapf ''counting transactions by chain'' err), s)
      | None \<Rightarrow> (Ret (fold (\<lambda>(_, tx) counts.
            if Status tx \<in> set statuses then bump_count (ChainID tx) counts else counts) (txs s) []), s))"

text \<open>The loop keeps \<open>maxNonce\<close> and \<open>found\<close>; \<open>found\<close> is the option's constructor.\<close>

fun max_nonce_loop :: "address \<Rightarrow> u64 \<Rightarrow> (string \<times> Transaction) list \<Rightarrow> u64 option \<Rightarrow> u64 option" where
  "max_nonce_loop sender chainID [] acc = acc"
| "max_nonce_loop sender chainID ((_, tx) # rest) acc =
     max_nonce_loop sender chainID rest
       (if Sender tx \<noteq> sender \<or> ChainID tx \<noteq> chainID then acc
        else case AssignedNonce tx of
               None \<Rightarrow> acc
             | Some n \<Rightarrow> (case acc of None \<Rightarrow> Some n | Some m \<Rightarrow> if n > m then Some n else acc))"

definition MaxAssignedNonce :: "address \<Rightarrow> u64 \<Rightarrow> (txsState, u64 option) act" where
  "MaxAssignedNonce sender chainID s = (Ret (max_nonce_loop sender chainID (txs s) None), s)"

subsection \<open>Lane locks\<close>

text \<open>The parameter \<open>addrHex\<close> is go-ethereum's \<open>Address.Hex\<close>.\<close>

definition lane_key :: "(address \<Rightarrow> string) \<Rightarrow> address \<Rightarrow> u64 \<Rightarrow> string" where
  "lane_key addrHex sender chainID = addrHex sender @ '':'' @ dec_nat (unat chainID)"

definition TryLockLane :: "(address \<Rightarrow> string) \<Rightarrow> go_error option \<Rightarrow> address \<Rightarrow> u64 \<Rightarrow>
    (txsState, laneLock option) act" where
  "TryLockLane addrHex ctxErr sender chainID s =
     (case ctxErr of
        Some err \<Rightarrow> (Fail err, s)
      | None \<Rightarrow>
          let key = lane_key addrHex sender chainID
          in if key \<in> set (laneLocks s) then (Ret None, s)
             else (Ret (Some \<lparr>lockKey = key, lockOnce = False\<rparr>),
                   s\<lparr>laneLocks := key # laneLocks s\<rparr>))"

definition Unlock :: "laneLock \<Rightarrow> (txsState, laneLock) act" where
  "Unlock l s =
     (if lockOnce l then (Ret l, s)
      else (Ret (l\<lparr>lockOnce := True\<rparr>), s\<lparr>laneLocks := removeAll (lockKey l) (laneLocks s)\<rparr>))"

definition mem_queue :: "(address \<Rightarrow> string) \<Rightarrow> txsState queue" where
  "mem_queue addrHex = \<lparr>qInsertOrGet = InsertOrGet, qInsertAttempt = InsertAttempt,
     qUpdateIfActive = UpdateIfActive, qUpdateNotification = UpdateNotification,
     qSelect = Select, qGet = Get, qSelectAttempts = SelectAttempts,
     qSelectAttemptsByNonce = SelectAttemptsByNonce, qCountByChain = CountByChain,
     qMaxAssignedNonce = MaxAssignedNonce, qTryLockLane = TryLockLane addrHex, qUnlock = Unlock\<rparr>"

section \<open>Orders are lexicographic\<close>

text \<open>
  Each comparison compares a key of the row, so sorting with it is the library's \<open>sort_key\<close>.
  Rows with an assigned nonce sort before those without, whatever the nonce.
\<close>

definition nonce_key :: "u64 option \<Rightarrow> nat \<times> u64" where
  "nonce_key n = (case n of Some k \<Rightarrow> (0, k) | None \<Rightarrow> (1, 0))"

definition schedule_key :: "Transaction \<Rightarrow> time \<times> time \<times> string" where
  "schedule_key t = (NextActionAt t, CreatedAt t, ID t)"

definition lane_work_key :: "Transaction \<Rightarrow> (nat \<times> u64) \<times> time \<times> time \<times> string" where
  "lane_work_key t = (nonce_key (AssignedNonce t), schedule_key t)"

definition notification_key :: "Transaction \<Rightarrow> time \<times> string" where
  "notification_key t = (NextNotificationAt t, ID t)"

lemma cmp_or_nest: "cmp_or [x, y, z] = cmp_or [x, cmp_or [y, z]]"
  by simp

lemma compareScheduleOrder_key:
  "compareScheduleOrder a b = cmp_compare (schedule_key a) (schedule_key b)"
  unfolding compareScheduleOrder_def schedule_key_def cmp_or_nest cmp_or_lex ..

lemma compareAssignedNonce_key: "compareAssignedNonce a b = cmp_compare (nonce_key a) (nonce_key b)"
  by (cases a; cases b) (auto simp: nonce_key_def cmp_compare_def less_prod_def)

lemma compareLaneWork_key: "compareLaneWork a b = cmp_compare (lane_work_key a) (lane_work_key b)"
  unfolding compareLaneWork_def lane_work_key_def compareAssignedNonce_key compareScheduleOrder_key
    cmp_or_lex ..

lemma compareNextNotification_key:
  "compareNextNotification a b = cmp_compare (notification_key a) (notification_key b)"
  unfolding compareNextNotification_def notification_key_def cmp_or_lex ..

lemmas order_rows_key =
  sort_stable_func_key [of compareScheduleOrder, OF compareScheduleOrder_key]
  sort_stable_func_key [of compareLaneWork, OF compareLaneWork_key]
  sort_stable_func_key [of compareNextNotification, OF compareNextNotification_key]

lemma set_order_rows [simp]: "set (order_rows ord xs) = set xs"
  by (cases ord) (simp_all add: order_rows_key)

lemma mset_order_rows [simp]: "mset (order_rows ord xs) = mset xs"
  by (cases ord) (simp_all add: order_rows_key)

lemma distinct_map_order_rows [simp]: "distinct (map f (order_rows ord xs)) = distinct (map f xs)"
  by (metis mset_eq_imp_distinct_iff mset_map mset_order_rows)

lemma inj_on_ID_key:
  assumes "inj_on ID A"
  shows "inj_on schedule_key A" "inj_on lane_work_key A" "inj_on notification_key A"
  using assms
  by (auto simp: inj_on_def schedule_key_def lane_work_key_def notification_key_def)

lemma order_rows_perm:
  assumes "mset xs = mset ys" and "distinct (map ID xs)" and "ord \<noteq> orderNone"
  shows "order_rows ord xs = order_rows ord ys"
proof -
  have "inj_on ID (set xs)" using assms(2) by (simp add: distinct_map)
  note inj = inj_on_ID_key [OF this]
  show ?thesis
    using assms(3) inj by (cases ord) (simp_all add: order_rows_key sort_key_perm [OF assms(1)])
qed

section \<open>The state invariant\<close>

lemma filter_all_iff: "filter_all fs v \<longleftrightarrow> (\<forall>f \<in> set fs. filter_holds f v)"
  by (induction fs) auto

definition mem_invar :: "txsState \<Rightarrow> bool" where
  "mem_invar s \<longleftrightarrow> distinct (map fst (txs s)) \<and> (\<forall>(i, t) \<in> set (txs s). ID t = i) \<and>
     distinct (map fst (attempts s)) \<and> distinct (map fst (hashes s)) \<and>
     (\<forall>i. \<forall>a \<in> set (attempts_of s i). attTransactionID a = i \<and>
        map_of (hashes s) (hash_hex (attHash a)) = Some i) \<and>
     (\<forall>h i. map_of (hashes s) h = Some i \<longrightarrow> (\<exists>a \<in> set (attempts_of s i). hash_hex (attHash a) = h))"

abbreviation mem_rows :: "txsState \<Rightarrow> string \<rightharpoonup> Transaction" where
  "mem_rows s \<equiv> map_of (txs s)"

lemma mem_invarI:
  assumes "distinct (map fst (txs s))" "\<And>i t. (i, t) \<in> set (txs s) \<Longrightarrow> ID t = i"
    "distinct (map fst (attempts s))" "distinct (map fst (hashes s))"
    "\<And>i a. a \<in> set (attempts_of s i) \<Longrightarrow> attTransactionID a = i"
    "\<And>i a. a \<in> set (attempts_of s i) \<Longrightarrow> map_of (hashes s) (hash_hex (attHash a)) = Some i"
    "\<And>h i. map_of (hashes s) h = Some i \<Longrightarrow> \<exists>a \<in> set (attempts_of s i). hash_hex (attHash a) = h"
  shows "mem_invar s"
  using assms by (auto simp: mem_invar_def)

lemma mem_invarD:
  assumes "mem_invar s"
  shows "distinct (map fst (txs s))" "\<And>i t. (i, t) \<in> set (txs s) \<Longrightarrow> ID t = i"
    "distinct (map fst (attempts s))" "distinct (map fst (hashes s))"
    "\<And>i a. a \<in> set (attempts_of s i) \<Longrightarrow> attTransactionID a = i"
    "\<And>i a. a \<in> set (attempts_of s i) \<Longrightarrow> map_of (hashes s) (hash_hex (attHash a)) = Some i"
    "\<And>h i. map_of (hashes s) h = Some i \<Longrightarrow> \<exists>a \<in> set (attempts_of s i). hash_hex (attHash a) = h"
  using assms by (auto simp: mem_invar_def)

lemma mem_row_id: "mem_invar s \<Longrightarrow> mem_rows s i = Some t \<Longrightarrow> ID t = i"
  using mem_invarD(2) map_of_SomeD by fastforce

lemma mem_rows_member:
  assumes "mem_invar s"
  shows "t \<in> set (map snd (txs s)) \<longleftrightarrow> mem_rows s (ID t) = Some t"
proof
  assume "t \<in> set (map snd (txs s))"
  then obtain i where "(i, t) \<in> set (txs s)" by auto
  then show "mem_rows s (ID t) = Some t"
    using mem_invarD(1,2) [OF assms] by simp
next
  assume "mem_rows s (ID t) = Some t"
  then have "(ID t, t) \<in> set (txs s)" by (rule map_of_SomeD)
  then show "t \<in> set (map snd (txs s))" by force
qed

lemma distinct_row_ids:
  assumes "mem_invar s"
  shows "distinct (map ID (map snd (txs s)))"
proof -
  have "map (ID \<circ> snd) (txs s) = map fst (txs s)"
    using mem_invarD(2) [OF assms] by (intro map_cong) auto
  then show ?thesis using mem_invarD(1) [OF assms] by (simp only: map_map)
qed

lemma mem_invar_set_rows:
  assumes "mem_invar s" and "ID t = i"
  shows "mem_invar (s\<lparr>txs := AList.update i t (txs s)\<rparr>)"
proof (rule mem_invarI)
  note inv = mem_invarD [OF assms(1)]
  show d: "distinct (map fst (txs (s\<lparr>txs := AList.update i t (txs s)\<rparr>)))"
    using inv(1) by (simp add: distinct_update)
  fix j u
  assume "(j, u) \<in> set (txs (s\<lparr>txs := AList.update i t (txs s)\<rparr>))"
  with d have "((map_of (txs s))(i \<mapsto> t)) j = Some u"
    by (metis map_of_is_SomeI select_convs(1) surjective update_conv update_convs(1))
  then show "ID u = j"
    using assms(2) inv(2) by (auto split: if_splits dest: map_of_SomeD)
qed (use mem_invarD [OF assms(1)] in \<open>auto simp: attempts_of_def\<close>)

lemma mem_invar_locks [simp]: "mem_invar (s\<lparr>laneLocks := ls\<rparr>) = mem_invar s"
  by (simp add: mem_invar_def attempts_of_def)

lemma attempts_of_simps [simp]:
  "attempts_of (s\<lparr>txs := x\<rparr>) = attempts_of s" "attempts_of (s\<lparr>laneLocks := l\<rparr>) = attempts_of s"
  "attempts_of (s\<lparr>hashes := h\<rparr>) = attempts_of s"
  by (auto simp: attempts_of_def)

lemma attempts_of_update:
  "attempts_of (s\<lparr>attempts := AList.update i as (attempts s)\<rparr>) = (attempts_of s)(i := as)"
  by (auto simp: attempts_of_def update_conv fun_eq_iff)

section \<open>The provider keeps its promises\<close>

lemma mem_select_law:
  assumes "mem_invar s"
  shows "\<exists>ts. Select q s = (Ret ts, s) \<and> distinct (map ID ts) \<and>
    (\<forall>t \<in> set ts. mem_rows s (ID t) = Some t \<and> (\<forall>f \<in> set (qFilters q). filter_holds f t))"
proof -
  define xs where "xs = order_rows (qOrderBy q) (filter (filter_all (qFilters q)) (map snd (txs s)))"
  have d: "distinct (map ID xs)"
    unfolding xs_def using distinct_row_ids [OF assms] by (simp add: distinct_map_filter del: map_map)
  have m: "mem_rows s (ID t) = Some t \<and> (\<forall>f \<in> set (qFilters q). filter_holds f t)" if "t \<in> set xs" for t
    using that mem_rows_member [OF assms, of t] by (simp add: xs_def filter_all_iff)
  have sub: "set (take n xs) \<subseteq> set xs" for n by (rule set_take_subset)
  have dt: "distinct (map ID (take n xs))" for n
    using d by (simp add: take_map flip: take_map)
  show ?thesis
    using d m sub dt by (auto simp: Select_def Let_def simp flip: xs_def)
qed

lemma mem_get_law:
  assumes "mem_invar s" and "Get q s = (Ret t, s')"
  shows "s' = s \<and> mem_rows s (ID t) = Some t \<and> (\<forall>f \<in> set (qFilters q). filter_holds f t)"
proof -
  from assms(2) have f: "find (filter_all (qFilters q)) (map snd (txs s)) = Some t" and "s' = s"
    by (auto simp: Get_def split: option.splits)
  from f have "t \<in> set (map snd (txs s))" "filter_all (qFilters q) t"
    by (auto simp: find_Some_iff)
  then show ?thesis
    using mem_rows_member [OF assms(1), of t] \<open>s' = s\<close> by (simp add: filter_all_iff)
qed

lemma mem_attempt_new:
  assumes inv: "mem_invar s" and none: "map_of (hashes s) (hash_hex (attHash a)) = None"
  defines "s' \<equiv> s\<lparr>hashes := AList.update (hash_hex (attHash a)) (attTransactionID a) (hashes s),
      attempts := AList.update (attTransactionID a) (attempts_of s (attTransactionID a) @ [a]) (attempts s)\<rparr>"
  shows "mem_invar s'"
    and "attempts_of s' = (attempts_of s)(attTransactionID a := attempts_of s (attTransactionID a) @ [a])"
proof -
  note iD = mem_invarD [OF inv]
  show atts: "attempts_of s' =
      (attempts_of s)(attTransactionID a := attempts_of s (attTransactionID a) @ [a])"
    using attempts_of_update [where s = "s\<lparr>hashes := AList.update (hash_hex (attHash a)) (attTransactionID a) (hashes s)\<rparr>"]
    by (simp add: s'_def)
  have hs: "map_of (hashes s') = (map_of (hashes s))(hash_hex (attHash a) \<mapsto> attTransactionID a)"
    by (simp add: s'_def update_conv')
  show "mem_invar s'"
  proof (rule mem_invarI)
    fix i b assume b: "b \<in> set (attempts_of s' i)"
    then have "b \<in> set (attempts_of s i) \<or> (b = a \<and> i = attTransactionID a)"
      by (auto simp: atts split: if_splits)
    then show "attTransactionID b = i" "map_of (hashes s') (hash_hex (attHash b)) = Some i"
      using iD(5,6) [of b i] none by (auto simp: hs)
  next
    fix h i assume "map_of (hashes s') h = Some i"
    then show "\<exists>b \<in> set (attempts_of s' i). hash_hex (attHash b) = h"
      using iD(7) [of h i] by (auto simp: hs atts split: if_splits)
  qed (use iD in \<open>auto simp: s'_def distinct_update\<close>)
qed

definition lane_nonces :: "address \<Rightarrow> u64 \<Rightarrow> (string \<times> Transaction) list \<Rightarrow> u64 set" where
  "lane_nonces s c xs = {n. \<exists>t \<in> set (map snd xs). Sender t = s \<and> ChainID t = c \<and> AssignedNonce t = Some n}"

lemma lane_nonces_Cons: "lane_nonces s c ((i, t) # xs) =
    (if Sender t = s \<and> ChainID t = c then set_option (AssignedNonce t) else {}) \<union> lane_nonces s c xs"
  by (auto simp: lane_nonces_def)

lemma finite_lane_nonces [simp]: "finite (lane_nonces s c xs)"
  by (rule finite_subset [of _ "UNIV"]) auto

lemma Max_insert_le:
  fixes m n :: "'a::linorder"
  assumes "finite A" "m \<le> n"
  shows "Max (insert m (insert n A)) = Max (insert n A)"
proof -
  have "Max (insert m (insert n A)) = max m (Max (insert n A))"
    by (rule Max_insert) (use assms in auto)
  moreover have "m \<le> Max (insert n A)"
    using assms by (meson Max_ge finite_insert insertI1 order.trans)
  ultimately show ?thesis by (simp add: max_absorb2)
qed

lemma max_nonce_loop_Max:
  "max_nonce_loop s c xs acc =
    (let A = set_option acc \<union> lane_nonces s c xs in if A = {} then None else Some (Max A))"
proof (induction xs arbitrary: acc)
  case Nil
  then show ?case by (cases acc) (simp_all add: lane_nonces_def)
next
  case (Cons x xs)
  obtain i t where x: "x = (i, t)" by fastforce
  show ?case
  proof (cases "Sender t = s \<and> ChainID t = c \<and> AssignedNonce t \<noteq> None \<and> acc \<noteq> None")
    case True
    then obtain n m where nm: "AssignedNonce t = Some n" "acc = Some m" by auto
    show ?thesis
      using True nm Cons.IH Max_insert_le [of "lane_nonces s c xs" m n]
        Max_insert_le [of "lane_nonces s c xs" n m]
      by (auto simp: x lane_nonces_Cons Let_def insert_commute simp del: Max_insert)
  next
    case False
    then show ?thesis
      using Cons.IH by (cases acc; cases "AssignedNonce t")
        (auto simp: x lane_nonces_Cons Let_def simp del: Max_insert)
  qed
qed

lemma mem_invar_New:
  "distinct (map fst rows) \<Longrightarrow> (\<And>i t. (i, t) \<in> set rows \<Longrightarrow> ID t = i) \<Longrightarrow>
    mem_invar (NewTransactionsQ rows)"
  by (auto simp: mem_invar_def NewTransactionsQ_def attempts_of_def)

lemma mem_max_nonce_law:
  assumes "mem_invar s"
  shows "max_nonce_loop a c (txs s) None = None \<longleftrightarrow>
      (\<forall>i t n. mem_rows s i = Some t \<longrightarrow> Sender t = a \<longrightarrow> ChainID t = c \<longrightarrow> AssignedNonce t \<noteq> Some n)"
    and "max_nonce_loop a c (txs s) None = Some m \<Longrightarrow>
      (\<exists>i t. mem_rows s i = Some t \<and> Sender t = a \<and> ChainID t = c \<and> AssignedNonce t = Some m) \<and>
      (\<forall>i t n. mem_rows s i = Some t \<longrightarrow> Sender t = a \<longrightarrow> ChainID t = c \<longrightarrow>
        AssignedNonce t = Some n \<longrightarrow> n \<le> m)"
proof -
  have A: "n \<in> lane_nonces a c (txs s) \<longleftrightarrow>
      (\<exists>i t. mem_rows s i = Some t \<and> Sender t = a \<and> ChainID t = c \<and> AssignedNonce t = Some n)" for n
    unfolding lane_nonces_def mem_Collect_eq Bex_def mem_rows_member [OF assms]
    using mem_row_id [OF assms] by blast
  have "max_nonce_loop a c (txs s) None = None \<longleftrightarrow> lane_nonces a c (txs s) = {}"
    by (auto simp: max_nonce_loop_Max Let_def)
  then show "max_nonce_loop a c (txs s) None = None \<longleftrightarrow>
      (\<forall>i t n. mem_rows s i = Some t \<longrightarrow> Sender t = a \<longrightarrow> ChainID t = c \<longrightarrow> AssignedNonce t \<noteq> Some n)"
    using A by blast
  assume "max_nonce_loop a c (txs s) None = Some m"
  then have "lane_nonces a c (txs s) \<noteq> {}" and m: "m = Max (lane_nonces a c (txs s))"
    by (auto simp: max_nonce_loop_Max Let_def split: if_splits)
  then have "m \<in> lane_nonces a c (txs s)" "\<And>n. n \<in> lane_nonces a c (txs s) \<Longrightarrow> n \<le> m"
    by simp_all
  then show "(\<exists>i t. mem_rows s i = Some t \<and> Sender t = a \<and> ChainID t = c \<and> AssignedNonce t = Some m) \<and>
      (\<forall>i t n. mem_rows s i = Some t \<longrightarrow> Sender t = a \<longrightarrow> ChainID t = c \<longrightarrow>
        AssignedNonce t = Some n \<longrightarrow> n \<le> m)"
    using A by blast
qed

lemma mem_update_law:
  assumes "mem_invar s" and "UpdateIfActive tx s = (r, s')"
  shows "mem_invar s' \<and> attempts_of s' = attempts_of s \<and>
    (if r = Ret () then committed (mem_rows s) (ID tx) tx (mem_rows s')
     else r = Fail stale_error \<and> s' = s)"
  using assms
  by (auto simp: UpdateIfActive_def committed_def mem_invar_set_rows update_conv'
      split: option.splits if_splits)

lemma mem_notification_law:
  assumes "mem_invar s" and "UpdateNotification tx s = (r, s')"
  shows "mem_invar s' \<and> attempts_of s' = attempts_of s \<and>
    (if r = Ret () then (\<exists>cur. mem_rows s (ID tx) = Some cur \<and> IsCompleted cur \<and>
        NotifiedAt cur = None \<and> mem_rows s' = (mem_rows s)(ID tx \<mapsto>
          cur\<lparr>NotifiedAt := NotifiedAt tx, NotificationAttempts := NotificationAttempts tx,
            NextNotificationAt := NextNotificationAt tx, NotificationError := NotificationError tx,
            UpdatedAt := UpdatedAt tx\<rparr>))
     else r = Fail stale_error \<and> s' = s)"
  using assms mem_row_id [OF assms(1)]
  by (auto simp: UpdateNotification_def mem_invar_set_rows update_conv'
      split: option.splits if_splits)

lemma mem_attempt_law:
  assumes inv: "mem_invar s" and run: "InsertAttempt a s = (r, s')"
  shows "mem_invar s' \<and> mem_rows s' = mem_rows s \<and>
    (attempts_of s' = attempts_of s \<or> attempts_of s' =
      (attempts_of s)(attTransactionID a := attempts_of s (attTransactionID a) @ [a])) \<and>
    (r = Ret () \<longrightarrow> (\<exists>a' \<in> set (attempts_of s' (attTransactionID a)). attHash a' = attHash a))"
proof (cases "map_of (hashes s) (hash_hex (attHash a))")
  case None
  with run have r: "r = Ret ()" and s': "s' = s\<lparr>hashes := AList.update (hash_hex (attHash a)) (attTransactionID a) (hashes s),
      attempts := AList.update (attTransactionID a) (attempts_of s (attTransactionID a) @ [a]) (attempts s)\<rparr>"
    by (auto simp: InsertAttempt_def)
  show ?thesis using mem_attempt_new [OF inv None] unfolding s' r by auto
next
  case (Some i)
  from mem_invarD(7) [OF inv Some] obtain b where "b \<in> set (attempts_of s i)" "attHash b = attHash a"
    by auto
  with Some run inv show ?thesis by (auto simp: InsertAttempt_def Let_def split: if_splits)
qed

lemma AttemptHashConflictError_is [simp]:
  "errors_is (AttemptHashConflictError h i) s \<longleftrightarrow> s = ErrAttemptHashConflict"
  by (auto simp: AttemptHashConflictError_def errors_is_def errors_new_def)

lemma stale_error_is [simp]: "errors_is stale_error s \<longleftrightarrow> s = ErrStaleTransaction"
  by (auto simp: stale_error_def)

interpretation mem: transactions_queue "mem_queue addrHex" mem_rows attempts_of mem_invar
  for addrHex
proof (unfold_locales, goal_cases)
  case (1 q i t)
  then show ?case by (rule mem_row_id)
next
  case (2 q a i)
  then show ?case by (rule mem_invarD(5))
next
  case (3 q a i b j)
  then show ?case using mem_invarD(6) [OF 3(1)] by (metis option.inject)
next
  case (4 q tx r q')
  then show ?case using mem_update_law [of q tx r q'] by (auto simp: mem_queue_def split: if_splits)
next
  case (5 q tx e q')
  then show ?case using mem_update_law [of q tx "Fail e" q']
    by (auto simp: mem_queue_def private_error_def)
next
  case (6 q tx r q')
  then show ?case using mem_notification_law [of q tx r q'] by (auto simp: mem_queue_def split: if_splits)
next
  case (7 q a r q')
  then show ?case using mem_attempt_law [of q a r q'] by (simp add: mem_queue_def)
next
  case (8 q a e q')
  then show ?case
    by (auto simp: mem_queue_def InsertAttempt_def private_error_def Let_def split: option.splits if_splits)
next
  case (9 q tx rt q')
  then show ?case
    by (auto simp: mem_queue_def InsertOrGet_def Let_def mem_invar_set_rows update_conv'
        split: option.splits if_splits prod.splits)
next
  case (10 q qy rts q')
  then show ?case using mem_select_law [OF 10(1), of qy] by (auto simp: mem_queue_def)
next
  case (11 q qy rt q')
  then have "q' = q" by (auto simp: mem_queue_def Get_def split: option.splits)
  with 11 show ?case using mem_get_law [OF 11(1), of qy] by (auto simp: mem_queue_def)
next
  case (12 q i ras q')
  then show ?case
    by (auto simp: mem_queue_def SelectAttempts_def sort_stable_func_key [of _ attCreatedAt])
next
  case (13 q c n ras q')
  then show ?case by (auto simp: mem_queue_def SelectAttemptsByNonce_def Let_def)
next
  case (14 q ce sts rc q')
  then show ?case by (auto simp: mem_queue_def CountByChain_def split: option.splits)
next
  case (15 q s c rm q')
  then show ?case using mem_max_nonce_law [OF 15(1), of s c]
    by (auto simp: mem_queue_def MaxAssignedNonce_def)
next
  case (16 q ce s c rl q')
  then show ?case
    by (auto simp: mem_queue_def TryLockLane_def Let_def split: option.splits if_splits)
next
  case (17 q lk ru q')
  then show ?case by (auto simp: mem_queue_def Unlock_def split: if_splits)
qed

section \<open>Properties of the store\<close>

text \<open>
  A query with an order returns the same rows in the same order whatever the iteration
  order of the map: the orders end in the unique ID, so they are total.
\<close>

theorem Select_iteration_order:
  assumes "mem_invar s" and "mset (txs s') = mset (txs s)" and "qOrderBy q \<noteq> orderNone"
  shows "fst (Select q s') = fst (Select q s)"
proof -
  let ?f = "\<lambda>s. filter (filter_all (qFilters q)) (map snd (txs s))"
  have "mset (?f s) = mset (?f s')"
    using assms(2) by (simp add: mset_filter)
  moreover have "distinct (map ID (?f s))"
    using distinct_row_ids [OF assms(1)] by (simp add: distinct_map_filter del: map_map)
  ultimately have "order_rows (qOrderBy q) (?f s) = order_rows (qOrderBy q) (?f s')"
    using assms(3) by (rule order_rows_perm)
  then show ?thesis by (simp add: Select_def Let_def)
qed

text \<open>The priority, read off the rows.\<close>

definition lane_work_before :: "Transaction \<Rightarrow> Transaction \<Rightarrow> bool" where
  "lane_work_before a b \<longleftrightarrow>
     (case (AssignedNonce a, AssignedNonce b) of
        (Some m, Some n) \<Rightarrow> m < n \<or> m = n \<and> schedule_key a \<le> schedule_key b
      | (Some _, None) \<Rightarrow> True
      | (None, Some _) \<Rightarrow> False
      | (None, None) \<Rightarrow> schedule_key a \<le> schedule_key b)"

lemma lane_work_before_key: "lane_work_before a b \<longleftrightarrow> lane_work_key a \<le> lane_work_key b"
  by (auto simp: lane_work_before_def lane_work_key_def nonce_key_def less_eq_prod_def less_prod_def
      split: option.splits)

text \<open>
  Lane work comes in priority order: a row that owns a nonce before every row that owns
  none, owners by increasing nonce, the others first in first out; and a limit cuts the list
  only behind everything that sorts earlier.
\<close>

theorem Select_lane_work_priority:
  assumes "mem_invar s" and "qOrderBy q = orderLaneWork" and "Select q s = (Ret ts, s')"
  shows "sorted_wrt lane_work_before ts \<and>
    (\<forall>t u. t \<in> set ts \<longrightarrow> mem_rows s (ID u) = Some u \<longrightarrow> filter_all (qFilters q) u \<longrightarrow>
      u \<notin> set ts \<longrightarrow> lane_work_before t u)"
proof (intro conjI allI impI)
  define xs where "xs = sort_key lane_work_key (filter (filter_all (qFilters q)) (map snd (txs s)))"
  have "sorted (map lane_work_key xs)" by (simp add: xs_def)
  then have sorted: "sorted_wrt lane_work_before xs"
    by (simp add: sorted_map lane_work_before_key [abs_def])
  define n where "n = (if qLimit q > 0 then unat (qLimit q) else length xs)"
  have ts: "ts = take n xs"
    using assms(2,3) by (auto simp: Select_def Let_def order_rows_key n_def simp flip: xs_def split: if_splits)
  show "sorted_wrt lane_work_before ts"
    unfolding ts using sorted by (rule sorted_wrt_take)
  fix t u
  assume tu: "t \<in> set ts" "mem_rows s (ID u) = Some u" "filter_all (qFilters q) u" "u \<notin> set ts"
  have "u \<in> set xs"
    using tu(2,3) mem_rows_member [OF assms(1), of u] by (simp add: xs_def)
  then have "u \<in> set (drop n xs)"
    using tu(4) unfolding ts by (metis Un_iff append_take_drop_id set_append)
  with tu(1) sorted show "lane_work_before t u"
    unfolding ts by (metis append_take_drop_id sorted_wrt_append)
qed

text \<open>
  Operation keys: the map holds at most one row per key. \<open>InsertOrGet\<close> keeps this whatever it
  is given; \<open>Insert\<close> alone would not.
\<close>

definition unique_operation_keys :: "txsState \<Rightarrow> bool" where
  "unique_operation_keys s \<longleftrightarrow> (\<forall>i j t u. mem_rows s i = Some t \<longrightarrow> mem_rows s j = Some u \<longrightarrow>
     OperationKey t \<noteq> None \<longrightarrow> OperationKey t = OperationKey u \<longrightarrow> i = j)"

definition idempotency_conflict :: go_error where
  "idempotency_conflict = errors_new (Some ErrIdempotencyConflict)
     ''transaction operation key already exists with a different payload''"

lemma find_key_Some:
  assumes "mem_invar s" "unique_operation_keys s" "mem_rows s i = Some t" "OperationKey t = Some k"
  shows "find (\<lambda>(_, existing). OperationKey existing = Some k) (txs s) = Some (i, t)"
proof -
  have "(i, t) \<in> set (txs s)" using assms(3) by (rule map_of_SomeD)
  then have "find (\<lambda>(_, existing). OperationKey existing = Some k) (txs s) \<noteq> None"
    using assms(4) by (auto simp: find_None_iff)
  then obtain j u where f: "find (\<lambda>(_, existing). OperationKey existing = Some k) (txs s) = Some (j, u)"
    by auto
  then have "(j, u) \<in> set (txs s)" and u: "OperationKey u = Some k"
    by (auto simp: find_Some_iff in_set_conv_nth)
  then have ju: "mem_rows s j = Some u" using mem_invarD(1) [OF assms(1)] by simp
  then have "i = j"
    using assms(2) [unfolded unique_operation_keys_def, rule_format, OF assms(3) ju] assms(4) u by simp
  with ju assms(3) f show ?thesis by simp
qed

lemma find_key_None:
  assumes "mem_invar s"
  shows "find (\<lambda>(_, existing). OperationKey existing = Some k) (txs s) = None \<longleftrightarrow>
    (\<forall>i t. mem_rows s i = Some t \<longrightarrow> OperationKey t \<noteq> Some k)"
  using mem_invarD(1) [OF assms] by (auto simp: find_None_iff)

lemma InsertOrGet_keyed:
  assumes "mem_invar s" "unique_operation_keys s" "mem_rows s i = Some t" "OperationKey t = Some k"
    "OperationKey tx = Some k"
  shows "InsertOrGet tx s = (if PayloadHash t \<noteq> None \<and> PayloadHash t = PayloadHash tx
    then (Ret t, s) else (Fail idempotency_conflict, s))"
  using find_key_Some [OF assms(1-4)] assms(5)
  by (auto simp: InsertOrGet_def idempotency_conflict_def)

lemma InsertOrGet_fresh:
  assumes "mem_invar s" "OperationKey tx = Some k"
    "\<forall>i t. mem_rows s i = Some t \<longrightarrow> OperationKey t \<noteq> Some k"
  shows "InsertOrGet tx s = (Ret tx, s\<lparr>txs := AList.update (ID tx) tx (txs s)\<rparr>)"
  using find_key_None [OF assms(1), of k] assms(2,3) by (simp add: InsertOrGet_def)

text \<open>
  C7. \<open>InsertOrGet\<close> makes submission idempotent: once a submission with an operation key has
  returned a row, every later submission with that key gets that very row and changes nothing
  if its payload hash is the same, and otherwise fails with \<open>ErrIdempotencyConflict\<close>, changing
  nothing; and the store keeps one row per operation key.
\<close>

theorem InsertOrGet_idempotent:
  assumes "mem_invar s" and "unique_operation_keys s" and "OperationKey tx = Some k"
    and "InsertOrGet tx s = (Ret stored, s')"
  shows "mem_invar s' \<and> unique_operation_keys s' \<and> mem_rows s' (ID stored) = Some stored \<and>
    (\<forall>retry. OperationKey retry = Some k \<longrightarrow> InsertOrGet retry s' =
      (if PayloadHash retry \<noteq> None \<and> PayloadHash retry = PayloadHash tx
       then (Ret stored, s') else (Fail idempotency_conflict, s')))"
proof (cases "\<exists>i t. mem_rows s i = Some t \<and> OperationKey t = Some k")
  case True
  then obtain i t where t: "mem_rows s i = Some t" "OperationKey t = Some k" by blast
  with InsertOrGet_keyed [OF assms(1,2) t assms(3)] assms(4)
  have "stored = t" "s' = s" "PayloadHash t = PayloadHash tx" by (auto split: if_splits)
  then show ?thesis
    using assms(1,2) t mem_row_id [OF assms(1) t(1)] InsertOrGet_keyed [OF assms(1,2) t]
    by (metis (no_types, lifting))
next
  case False
  then have no: "\<forall>i t. mem_rows s i = Some t \<longrightarrow> OperationKey t \<noteq> Some k" by blast
  from InsertOrGet_fresh [OF assms(1,3) no] assms(4)
  have s': "stored = tx" "s' = s\<lparr>txs := AList.update (ID tx) tx (txs s)\<rparr>" by auto
  have rows: "mem_rows s' = (mem_rows s)(ID tx \<mapsto> tx)" by (simp add: s' update_conv')
  have inv: "mem_invar s'" using assms(1) by (simp add: s' mem_invar_set_rows)
  have uniq: "unique_operation_keys s'"
    unfolding unique_operation_keys_def rows
  proof (intro allI impI)
    fix i j t u
    assume "((mem_rows s)(ID tx \<mapsto> tx)) i = Some t" "((mem_rows s)(ID tx \<mapsto> tx)) j = Some u"
      "OperationKey t \<noteq> None" "OperationKey t = OperationKey u"
    then show "i = j"
      using assms(2,3) no unfolding unique_operation_keys_def fun_upd_apply
      by (metis option.inject)
  qed
  have tx: "mem_rows s' (ID tx) = Some tx" by (simp add: rows)
  show ?thesis
    using InsertOrGet_keyed [OF inv uniq tx assms(3)] inv uniq tx s'(1) by auto
qed

text \<open>The key of a lane names the lane, given that \<open>Address.Hex\<close> has a fixed length.\<close>

lemma lane_key_inj:
  assumes "inj addrHex" and "\<And>a. length (addrHex a) = n"
  shows "lane_key addrHex a c = lane_key addrHex a' c' \<longleftrightarrow> a = a' \<and> c = c'"
  using assms by (auto simp: lane_key_def append_eq_append_conv dec_nat_inj inj_eq)

text \<open>
  Lane locks exclude exactly the lane they name: while a lock is held a second attempt on
  that lane returns no lock, every other lane can be locked as before, and after \<open>Unlock\<close> the
  lane can be locked again. Unlocking twice through the same handle does nothing, so it cannot
  release a lock that another holder has taken since.
\<close>

theorem lane_lock_exclusion:
  assumes "inj addrHex" and "\<forall>a. length (addrHex a) = 42"
    and "TryLockLane addrHex None a c s = (Ret (Some l), s1)"
    and "Unlock l s1 = (Ret l1, s2)"
  shows "(\<forall>a' c'. fst (TryLockLane addrHex None a' c' s1) = Ret None \<longleftrightarrow>
      a' = a \<and> c' = c \<or> fst (TryLockLane addrHex None a' c' s) = Ret None) \<and>
    (\<forall>a' c'. fst (TryLockLane addrHex None a' c' s2) = fst (TryLockLane addrHex None a' c' s)) \<and>
    (\<forall>s3. Unlock l1 s3 = (Ret l1, s3))"
  using assms(3,4) lane_key_inj [OF assms(1), of 42] assms(2)
  by (auto simp: TryLockLane_def Unlock_def Let_def split: if_splits)

end
