(* ===== verification/Tx_Properties.thy ===== *)
theory Tx_Properties
  imports Tx_Batch_Safety Mem_Queue
begin

text \<open>
  The properties of the transaction manager with the in-memory store. A run starts from an
  empty store and is a sequence of calls of any number of managers (replicas) on that store:
  submissions, processing passes, notification passes and metrics, each with whatever the
  nodes, the clocks, the signers and the hooks answer.
\<close>

section \<open>Runs\<close>

inductive reachable :: "('q txManager \<Rightarrow> bool) \<Rightarrow> ('q \<Rightarrow> row_map) \<Rightarrow> 'q world \<Rightarrow> 'q world \<Rightarrow> bool"
  for M R w0 where
  start: "reachable M R w0 w0"
| submit: "reachable M R w0 w \<Longrightarrow> M m \<Longrightarrow> R (store w) (uuid (mHost m) (tick w)) = None \<Longrightarrow>
    reachable M R w0 (snd (SendTxAsync m c addr data gas val auths intent keys w))"
| process: "reachable M R w0 w \<Longrightarrow> M m \<Longrightarrow> reachable M R w0 (snd (processTxs m w))"
| deliver: "reachable M R w0 w \<Longrightarrow> M m \<Longrightarrow> reachable M R w0 (snd (deliverStatusNotifications m w))"
| metrics: "reachable M R w0 w \<Longrightarrow> M m \<Longrightarrow> reachable M R w0 (snd (observeTransactionMetrics m w))"

text \<open>The managers of a deployment: one store, one network, and signers and nodes as documented.\<close>

definition deployment :: "'q queue \<Rightarrow> host \<Rightarrow> ('q txManager \<Rightarrow> bool) \<Rightarrow> bool" where
  "deployment Q h M \<longleftrightarrow> (\<forall>m. M m \<longrightarrow> manager_ok Q m \<and> mHost m = h)"

context transactions_queue
begin

lemma reachable_base:
  assumes "reachable M rows w0 w" and "deployment Q h M" and "base_inv h w0"
  shows "base_inv h w"
  using assms
proof (induction rule: reachable.induct)
  case start
  then show ?case by simp
next
  case (submit w m c addr data gas val auths intent keys)
  then show ?case by (intro base_send) (auto simp: deployment_def manager_ok_def)
next
  case (process w m)
  then show ?case using keepsD [OF keeps_processTxs, of m w] by (auto simp: deployment_def)
next
  case (deliver w m)
  then show ?case using keepsD [OF keeps_notifications, of m h w] by (auto simp: deployment_def manager_ok_def)
next
  case (metrics w m)
  then show ?case using keepsD [OF keeps_metrics, of m h w] by (auto simp: deployment_def manager_ok_def)
qed

end

text \<open>A run from an empty store.\<close>

definition run_of :: "(address \<Rightarrow> string) \<Rightarrow> host \<Rightarrow> (txsState txManager \<Rightarrow> bool) \<Rightarrow> txsState world \<Rightarrow> bool" where
  "run_of addr h M w \<longleftrightarrow> deployment (mem_queue addr) h M \<and>
     (\<exists>w0. store w0 = NewTransactionsQ [] \<and> trace w0 = [] \<and> reachable M mem_rows w0 w)"

lemma run_base:
  assumes "run_of addr h M w"
  shows "mem_invar (store w) \<and> store_ok h (mem_rows (store w)) (attempts_of (store w)) \<and>
    sent_ok h mem_rows attempts_of (trace w)"
proof -
  obtain w0 where w0: "store w0 = NewTransactionsQ []" "trace w0 = []" "reachable M mem_rows w0 w"
    "deployment (mem_queue addr) h M" using assms by (auto simp: run_of_def)
  have "mem_invar (NewTransactionsQ [])" by (rule mem_invar_New) auto
  moreover have "mem_rows (NewTransactionsQ []) = Map.empty" "attempts_of (NewTransactionsQ []) = (\<lambda>_. [])"
    by (auto simp: NewTransactionsQ_def attempts_of_def)
  ultimately have "transactions_queue.base_inv mem_rows attempts_of mem_invar h w0"
    using w0 by (simp add: transactions_queue.base_inv_def [OF mem.transactions_queue_axioms] store_ok_def attempts_ok_def owners_ok_def nonces_unique_def results_ok_def
        messages_ok_def counts_ok_def sent_ok_def)
  from transactions_queue.reachable_base [OF mem.transactions_queue_axioms w0(3,4) this] show ?thesis
    by (simp add: transactions_queue.base_inv_def [OF mem.transactions_queue_axioms])
qed

section \<open>Safety\<close>


text \<open>
  C2. Nothing is broadcast that a crash could forget: whenever a transaction was sent, the store
  at that moment held its hash among the attempts of an active row of that chain, with the
  nonce and the signer of the transaction.
\<close>

theorem sent_is_durable:
  assumes "run_of addr h M w" and "EvSend c raw q \<in> set (trace w)"
  shows "\<exists>i t. mem_rows q i = Some t \<and> \<not> IsCompleted t \<and> ChainID t = c \<and>
    AssignedNonce t = Some (txNonce raw) \<and> txSender h raw = Inr (Sender t) \<and>
    (\<exists>a \<in> set (attempts_of q i). attHash a = txHash h raw)"
  using run_base [OF assms(1)] assms(2) by (auto simp: sent_ok_def durable_send_def)

text \<open>
  C5. A logical transaction never moves to another nonce once it is signed: all attempts of an
  active row carry its nonce and its sender, each hashes to the hash it is recorded under, and
  there are at most five.
\<close>

theorem attempts_agree:
  assumes "run_of addr h M w" and "mem_rows (store w) i = Some t" and "\<not> IsCompleted t"
  shows "length (attempts_of (store w) i) \<le> 5 \<and> (\<forall>a \<in> set (attempts_of (store w) i). \<exists>x.
    attTx a = Some x \<and> txHash h x = attHash a \<and> txNonce x = attNonce a \<and> txSender h x = Inr (Sender t) \<and>
    AssignedNonce t = Some (attNonce a))"
  using run_base [OF assms(1)] assms(2,3)
  unfolding store_ok_def attempts_ok_def attempt_wf_def counts_ok_def maxFeeReplacements_def by blast

text \<open>
  C3. A result is reported only on evidence: a row is succeeded or failed only with a receipt of
  one of its own recorded attempts, whose status is the one reported and whose transaction is
  the one stored.
\<close>

theorem results_have_receipts:
  assumes "run_of addr h M w" and "mem_rows (store w) i = Some t"
    and "Status t = SucceedTxStatus \<or> Status t = FailedTxStatus"
  shows "\<exists>rc x a. Receipt t = Some rc \<and> Tx t = Some x \<and> a \<in> set (attempts_of (store w) i) \<and>
    receiptTxHash rc = attHash a \<and> txHash h x = attHash a \<and>
    receiptStatus rc = (if Status t = FailedTxStatus then ReceiptStatusFailed else ReceiptStatusSuccessful)"
proof -
  have "receipted h (set (attempts_of (store w) i)) t"
    using run_base [OF assms(1)] assms(2,3) unfolding store_ok_def results_ok_def by blast
  then show ?thesis unfolding receipted_def by fastforce
qed

text \<open>
  C11. Every message that reaches the store has at most 512 bytes and is valid UTF-8.
\<close>

theorem stored_messages_bounded:
  assumes "run_of addr h M w" and "mem_rows (store w) i = Some t"
  shows "length (Msg t) \<le> 512 \<and> valid_utf8 (Msg t)"
  using run_base [OF assms(1)] assms(2)
  unfolding store_ok_def messages_ok_def message_ok_def maxTransactionMessageBytes_def by blast

end
