(* ===== verification/Tx_History.thy ===== *)
theory Tx_History
  imports Tx_Properties Tx_Frame
begin

text \<open>
  Properties of two states of a run: what a later state keeps of an earlier one, whatever the
  managers did in between. Each is an invariant of the operations of the in-memory store, and
  the frame lemmas of \<open>store_invariant\<close> and \<open>locked_invariant\<close> carry it through the manager.
\<close>

section \<open>Invariants of the store's operations\<close>

text \<open>The part of a row that reports its result: all fields but those of the notification.\<close>

definition result_of :: "Transaction \<Rightarrow> Transaction" where
  "result_of t = t\<lparr>NotifiedAt := None, NotificationAttempts := 0, NextNotificationAt := 0,
     NotificationError := [], UpdatedAt := 0\<rparr>"

definition settled_as :: "Transaction \<Rightarrow> Transaction \<Rightarrow> bool" where
  "settled_as t u \<longleftrightarrow> IsCompleted u \<and> result_of u = result_of t \<and> (NotifiedAt t \<noteq> None \<longrightarrow> u = t)"

definition frozen :: "string \<Rightarrow> Transaction \<Rightarrow> txsState \<Rightarrow> bool" where
  "frozen i t s \<longleftrightarrow> (\<exists>u. mem_rows s i = Some u \<and> settled_as t u)"

definition extends :: "string \<Rightarrow> TransactionAttempt list \<Rightarrow> txsState \<Rightarrow> bool" where
  "extends i as s \<longleftrightarrow> prefix as (attempts_of s i)"

definition locks_are :: "string list \<Rightarrow> txsState \<Rightarrow> bool" where
  "locks_are L s \<longleftrightarrow> laneLocks s = L"

lemma result_of_notification [simp]:
  "result_of (t\<lparr>NotifiedAt := a, NotificationAttempts := b, NextNotificationAt := c,
     NotificationError := d, UpdatedAt := e\<rparr>) = result_of t"
  by (simp add: result_of_def)

lemma IsCompleted_result_of: "IsCompleted (result_of t) = IsCompleted t"
  by (simp add: IsCompleted_def result_of_def)

lemma settled_as_notification:
  assumes "settled_as t u" and "NotifiedAt u = None"
  shows "settled_as t (u\<lparr>NotifiedAt := a, NotificationAttempts := b, NextNotificationAt := c,
      NotificationError := d, UpdatedAt := e\<rparr>)" (is "settled_as t ?u")
proof -
  have "result_of ?u = result_of t" "NotifiedAt t = None" using assms by (auto simp: settled_as_def)
  moreover have "IsCompleted ?u"
    using assms(1) IsCompleted_result_of [of ?u] IsCompleted_result_of [of u] by (simp add: settled_as_def)
  ultimately show ?thesis by (simp add: settled_as_def)
qed

text \<open>What each operation of the in-memory store does to its state.\<close>

lemma snd_mem_reads [simp]:
  "snd (Select q s) = s" "snd (Get q s) = s" "snd (SelectAttempts i s) = s"
  "snd (SelectAttemptsByNonce c n s) = s" "snd (CountByChain e sts s) = s" "snd (MaxAssignedNonce a c s) = s"
  by (simp_all add: Select_def Get_def SelectAttempts_def SelectAttemptsByNonce_def CountByChain_def
      MaxAssignedNonce_def Let_def split: option.splits)

lemma snd_UpdateIfActive: "snd (UpdateIfActive t s) = s \<or>
    (\<exists>u. mem_rows s (ID t) = Some u \<and> \<not> IsCompleted u \<and> snd (UpdateIfActive t s) = s\<lparr>txs := AList.update (ID t) t (txs s)\<rparr>)"
  by (simp add: UpdateIfActive_def split: option.splits)

lemma snd_UpdateNotification: "snd (UpdateNotification t s) = s \<or>
    (\<exists>u. mem_rows s (ID t) = Some u \<and> NotifiedAt u = None \<and>
      snd (UpdateNotification t s) = s\<lparr>txs := AList.update (ID t) (u\<lparr>NotifiedAt := NotifiedAt t,
        NotificationAttempts := NotificationAttempts t, NextNotificationAt := NextNotificationAt t,
        NotificationError := NotificationError t, UpdatedAt := UpdatedAt t\<rparr>) (txs s)\<rparr>)"
  by (simp add: UpdateNotification_def split: option.splits)

lemma snd_InsertAttempt: "snd (InsertAttempt a s) = s \<or>
    (\<exists>hs. snd (InsertAttempt a s) = s\<lparr>hashes := hs, attempts := AList.update (attTransactionID a)
      (attempts_of s (attTransactionID a) @ [a]) (attempts s)\<rparr>)"
  by (auto simp: InsertAttempt_def Let_def split: option.splits)

lemma snd_locks:
  "\<exists>L. snd (TryLockLane f e a c s) = s\<lparr>laneLocks := L\<rparr>" "\<exists>L. snd (Unlock l s) = s\<lparr>laneLocks := L\<rparr>"
proof -
  have "\<exists>L. s = s\<lparr>laneLocks := L\<rparr>" by (rule exI [of _ "laneLocks s"]) simp
  then show "\<exists>L. snd (TryLockLane f e a c s) = s\<lparr>laneLocks := L\<rparr>" "\<exists>L. snd (Unlock l s) = s\<lparr>laneLocks := L\<rparr>"
    by (auto simp: TryLockLane_def Unlock_def Let_def split: option.splits)
qed

lemma mem_queue_sel [simp]:
  "qUpdateIfActive (mem_queue f) = UpdateIfActive" "qInsertAttempt (mem_queue f) = InsertAttempt"
  "qUpdateNotification (mem_queue f) = UpdateNotification" "qSelect (mem_queue f) = Select"
  "qGet (mem_queue f) = Get" "qSelectAttempts (mem_queue f) = SelectAttempts"
  "qSelectAttemptsByNonce (mem_queue f) = SelectAttemptsByNonce" "qCountByChain (mem_queue f) = CountByChain"
  "qMaxAssignedNonce (mem_queue f) = MaxAssignedNonce" "qTryLockLane (mem_queue f) = TryLockLane f"
  "qUnlock (mem_queue f) = Unlock" "qInsertOrGet (mem_queue f) = InsertOrGet"
  by (simp_all add: mem_queue_def)

lemma frozen_update: "frozen i t s \<Longrightarrow> frozen i t (snd (UpdateIfActive u s))"
  using snd_UpdateIfActive [of u s] by (auto simp: frozen_def settled_as_def update_conv')

lemma frozen_put: "frozen i t s \<Longrightarrow> (i = j \<Longrightarrow> settled_as t u) \<Longrightarrow> frozen i t (s\<lparr>txs := AList.update j u (txs s)\<rparr>)"
  by (auto simp: frozen_def update_conv')

lemma frozen_notify:
  assumes "frozen i t s"
  shows "frozen i t (snd (UpdateNotification u s))"
  using snd_UpdateNotification [of u s]
proof (elim disjE exE conjE)
  fix v
  assume v: "mem_rows s (ID u) = Some v" "NotifiedAt v = None"
    and eq: "snd (UpdateNotification u s) = s\<lparr>txs := AList.update (ID u) (v\<lparr>NotifiedAt := NotifiedAt u,
        NotificationAttempts := NotificationAttempts u, NextNotificationAt := NextNotificationAt u,
        NotificationError := NotificationError u, UpdatedAt := UpdatedAt u\<rparr>) (txs s)\<rparr>"
  show ?thesis
    unfolding eq by (rule frozen_put [OF assms], rule settled_as_notification)
      (use assms v in \<open>auto simp: frozen_def\<close>)
qed (use assms in simp)

lemma extends_record: "extends i as s \<Longrightarrow> extends i as (snd (InsertAttempt a s))"
  using snd_InsertAttempt [of a s] by (auto simp: extends_def attempts_of_def update_conv')

interpretation frozen: locked_invariant "mem_queue addr" "frozen i t" for addr i t
proof unfold_locales
  fix q t' a ce s c lk
  assume f: "frozen i t q"
  show "frozen i t (snd (qInsertAttempt (mem_queue addr) a q))"
    using snd_InsertAttempt [of a q] f by (auto simp: frozen_def)
  show "frozen i t (snd (qTryLockLane (mem_queue addr) ce s c q))"
    using snd_locks(1) [of addr ce s c q] f by (auto simp: frozen_def)
  show "frozen i t (snd (qUnlock (mem_queue addr) lk q))"
    using snd_locks(2) [of lk q] f by (auto simp: frozen_def)
qed (simp_all add: frozen_update frozen_notify)

interpretation extends: locked_invariant "mem_queue addr" "extends i as" for addr i "as"
proof unfold_locales
  fix q t ce s c lk
  assume f: "extends i as q"
  show "extends i as (snd (qUpdateIfActive (mem_queue addr) t q))"
    using snd_UpdateIfActive [of t q] f by (auto simp: extends_def attempts_of_def)
  show "extends i as (snd (qUpdateNotification (mem_queue addr) t q))"
    using snd_UpdateNotification [of t q] f by (auto simp: extends_def attempts_of_def)
  show "extends i as (snd (qTryLockLane (mem_queue addr) ce s c q))"
    using snd_locks(1) [of addr ce s c q] f by (auto simp: extends_def attempts_of_def)
  show "extends i as (snd (qUnlock (mem_queue addr) lk q))"
    using snd_locks(2) [of lk q] f by (auto simp: extends_def attempts_of_def)
qed (simp_all add: extends_record)

interpretation locks: store_invariant "mem_queue addr" "locks_are L" for addr L
proof unfold_locales
  fix q t a
  assume f: "locks_are L q"
  show "locks_are L (snd (qUpdateIfActive (mem_queue addr) t q))"
    using snd_UpdateIfActive [of t q] f by (auto simp: locks_are_def)
  show "locks_are L (snd (qUpdateNotification (mem_queue addr) t q))"
    using snd_UpdateNotification [of t q] f by (auto simp: locks_are_def)
  show "locks_are L (snd (qInsertAttempt (mem_queue addr) a q))"
    using snd_InsertAttempt [of a q] f by (auto simp: locks_are_def)
qed simp_all

section \<open>Along a run\<close>

text \<open>The managers of a run share the in-memory store.\<close>

definition on_mem :: "(address \<Rightarrow> string) \<Rightarrow> (txsState txManager \<Rightarrow> bool) \<Rightarrow> bool" where
  "on_mem addr M \<longleftrightarrow> (\<forall>m. M m \<longrightarrow> transactionsQ m = mem_queue addr)"

lemma snd_InsertOrGet: "snd (InsertOrGet t s) = s \<or> snd (InsertOrGet t s) = s\<lparr>txs := AList.update (ID t) t (txs s)\<rparr>"
  by (auto simp: InsertOrGet_def Let_def split: option.splits)

text \<open>A submission leaves the store alone or adds a row under the fresh identifier.\<close>

lemma store_SendTxAsync:
  assumes "transactionsQ m = mem_queue addr"
  shows "store (snd (SendTxAsync m c a data gas val auths intent keys w)) = store w \<or>
    (\<exists>t. ID t = uuid (mHost m) (tick w) \<and>
      store (snd (SendTxAsync m c a data gas val auths intent keys w)) =
        (store w)\<lparr>txs := AList.update (ID t) t (txs (store w))\<rparr>)"
proof -
  let ?v = "case val of None \<Rightarrow> 0 | Some v \<Rightarrow> v"
  let ?t = "\<lambda>ph. new_row m (uuid (mHost m) (tick w)) c a data gas ?v auths intent
    (fold WithOperationKey keys None) ph (clock (mHost m) (Suc (tick w)))"
  have "store (snd (SendTxAsync m c a data gas val auths intent keys w)) = store w \<or>
      (\<exists>ph. store (snd (SendTxAsync m c a data gas val auths intent keys w)) = snd (InsertOrGet (?t ph) (store w)))"
    using assms by (auto simp: SendTxAsync_def action_defs Let_def env_def time_now_def onQ_def
        split: outcome.splits prod.splits sum.splits) (metis snd_conv)+
  moreover have "ID (?t ph) = uuid (mHost m) (tick w)" for ph by (simp add: new_row_def)
  ultimately show ?thesis using snd_InsertOrGet by metis
qed

text \<open>What the store's operations keep, and a row under a fresh identifier keeps, a run keeps.\<close>

lemma run_keeps:
  assumes "reachable M mem_rows w0 w" and on: "on_mem addr M" and "P (store w0)"
    and inv: "locked_invariant (mem_queue addr) P"
    and fresh: "\<And>s t. P s \<Longrightarrow> mem_rows s (ID t) = None \<Longrightarrow> P (s\<lparr>txs := AList.update (ID t) t (txs s)\<rparr>)"
  shows "P (store w)"
  using assms(1,3)
proof (induction rule: reachable.induct)
  case start
  then show ?case .
next
  case (submit w m c a data gas val auths intent keys)
  then have "transactionsQ m = mem_queue addr" using on by (simp add: on_mem_def)
  from store_SendTxAsync [OF this, of c a data gas val auths intent keys w] submit show ?case
    by (metis fresh)
next
  case (process w m)
  then have "transactionsQ m = mem_queue addr" using on by (simp add: on_mem_def)
  from keepsD [OF locked_invariant.store_processTxs [OF inv this], of w] process show ?case by simp
next
  case (deliver w m)
  then have "transactionsQ m = mem_queue addr" using on by (simp add: on_mem_def)
  from keepsD [OF store_invariant.store_notifications [OF locked_invariant.axioms(1) [OF inv] this], of w] deliver
  show ?case by simp
next
  case (metrics w m)
  then have "transactionsQ m = mem_queue addr" using on by (simp add: on_mem_def)
  from keepsD [OF store_invariant.store_metrics [OF locked_invariant.axioms(1) [OF inv] this], of w] metrics
  show ?case by simp
qed

text \<open>
  C4. A terminal row is final: whatever the managers do afterwards, the row stays terminal with
  the same result (status, receipt, transaction, message, nonce and payload), and once its
  notification is delivered nothing of it changes any more. Only the notification fields of a
  terminal row that is not yet notified can change.
\<close>

theorem terminal_rows_final:
  assumes "reachable M mem_rows w0 w" and "on_mem addr M"
    and "mem_rows (store w0) i = Some t" and "IsCompleted t"
  shows "\<exists>u. mem_rows (store w) i = Some u \<and> IsCompleted u \<and> result_of u = result_of t \<and>
    (NotifiedAt t \<noteq> None \<longrightarrow> u = t)"
proof -
  have "frozen i t (store w)"
    by (rule run_keeps [OF assms(1,2) _ frozen.locked_invariant_axioms])
      (use assms(3,4) in \<open>auto simp: frozen_def settled_as_def update_conv'\<close>)
  then show ?thesis by (simp add: frozen_def settled_as_def)
qed

text \<open>
  C6. The record of signed attempts only grows: the attempts of a row at one moment are a prefix
  of its attempts at every later moment, so no signed transaction is ever forgotten.
\<close>

theorem attempts_append_only:
  assumes "reachable M mem_rows w0 w" and "on_mem addr M"
  shows "prefix (attempts_of (store w0) i) (attempts_of (store w) i)"
proof -
  have "extends i (attempts_of (store w0) i) (store w)"
    by (rule run_keeps [OF assms(1,2) _ extends.locked_invariant_axioms])
      (auto simp: extends_def attempts_of_def)
  then show ?thesis by (simp add: extends_def)
qed

text \<open>
  C8. A batch returns with exactly the lane locks that were held before it, on every path:
  normal end, early return, error and panic, and also when it did not get its lock.
\<close>

theorem batch_releases_lock:
  assumes "transactionsQ m = mem_queue addr"
  shows "laneLocks (store (snd (processLaneBatch m c w))) = laneLocks (store w)"
proof -
  have batch: "locked_batch m c v = (r, v') \<Longrightarrow> laneLocks (store v') = laneLocks (store v)" for v r v'
    using keepsD [OF locks.store_locked_batch [OF assms], of "laneLocks (store v)" v c] by (simp add: locks_are_def)
  show ?thesis
    using assms
    by (auto simp: processLaneBatch_def logLane_def action_defs ctx_err_def env_def onQ_def deferA_def
        TryLockLane_def Unlock_def Let_def split: option.splits prod.splits if_splits dest!: batch)
qed

end
