(* ===== verification/Tx_Example.thy ===== *)
theory Tx_Example
  imports Tx_History
begin

text \<open>
  A concrete run on the in-memory store, evaluated by the simplifier: a transaction is
  submitted, the first processing pass assigns it nonce 7, signs and broadcasts it, the second
  finds its receipt. The witnesses of the properties about runs are taken from it.
\<close>

section \<open>The parameters of the run\<close>

definition ex_host :: host where
  "ex_host = \<lparr>clock = (\<lambda>i. 1000 + int i), ctxErr = (\<lambda>_. None), uuid = (\<lambda>i. ''a''),
     txHash = (\<lambda>t. word_of_int (txGasPrice t)), txSender = (\<lambda>_. Inr 1),
     addrHex = (\<lambda>a. ''0x''), keccak = (\<lambda>s. 0), authJSON = (\<lambda>_. Inr ''[]'')\<rparr>"

definition ex_client :: eth_client where
  "ex_client = \<lparr>PendingNonceAt = (\<lambda>_ _. Inr 7), SendTransaction = (\<lambda>_ _. Inr ()),
     TransactionReceipt = (\<lambda>_ h. Inr (Some \<lparr>receiptTxHash = h, receiptStatus = 1\<rparr>)),
     TransactionByHash = (\<lambda>_ _. Inr None), SuggestGasPrice = (\<lambda>_. Inr (Some 100)),
     HeaderByNumber = (\<lambda>_. Inr (Some (Some 50))), SuggestGasTipCap = (\<lambda>_. Inr (Some 2))\<rparr>"

definition ex_manager :: "txsState txManager" where
  "ex_manager = \<lparr>mHost = ex_host, transactionsQ = mem_queue (addrHex ex_host), clients = [(1, ex_client)],
     mSender = 1, bumpIntervalMap = [], blockTimeMap = [(1, 1)],
     getTransactOpts = Some (\<lambda>_ _. Inr (Some \<lparr>optFrom = 1,
       optSigner = (\<lambda>_ _ raw. Inr (raw\<lparr>txChainId := Some 1, txSignature := (1, 1, 1)\<rparr>))\<rparr>)),
     beforeAttempt = None, onStatusChange = None\<rparr>"

definition ex_w0 :: "txsState world" where
  "ex_w0 = \<lparr>store = NewTransactionsQ [], tick = 0, lane = \<lparr>next_nonce = 0, known = False\<rparr>,
     nextChainIndex = 0, trace = []\<rparr>"

definition ex_w1 :: "txsState world" where
  "ex_w1 = snd (SendTxAsync ex_manager 1 5 None 21000 None [] (Some ''intent'') [''key''] ex_w0)"

definition ex_w2 :: "txsState world" where
  "ex_w2 = snd (processTxs ex_manager ex_w1)"

definition ex_w3 :: "txsState world" where
  "ex_w3 = snd (processTxs ex_manager ex_w2)"

section \<open>The states it reaches\<close>

definition ex_signed :: eth_tx where
  "ex_signed = \<lparr>txType = 0, txChainId = Some 1, txNonce = 7, txGasPrice = 115, txGasTipCap = 115,
     txGasFeeCap = 115, txGas = 21000, txTo = Some 5, txValue = 0, txData = [], txAuthList = [],
     txSignature = (1, 1, 1)\<rparr>"

definition ex_attempt :: TransactionAttempt where
  "ex_attempt = \<lparr>attTransactionID = ''a'', attHash = 115, attNonce = 7, attTx = Some ex_signed,
     attCreatedAt = 1011\<rparr>"

definition ex_row1 :: Transaction where
  "ex_row1 = new_row ex_manager ''a'' 1 5 None 21000 0 [] (Some ''intent'') (Some ''key'') (hash_hex 0) 1001"

definition ex_sending :: Transaction where
  "ex_sending = ex_row1\<lparr>AssignedNonce := Some 7, Tx := Some ex_signed, Status := ConfirmingTxStatus,
     NextActionAt := 1012, BroadcastPending := True, UpdatedAt := 1011\<rparr>"

definition ex_row2 :: Transaction where
  "ex_row2 = ex_sending\<lparr>NextActionAt := 1014, BroadcastPending := False, UpdatedAt := 1013\<rparr>"

definition ex_row3 :: Transaction where
  "ex_row3 = ex_row2\<lparr>Receipt := Some \<lparr>receiptTxHash = 115, receiptStatus = 1\<rparr>, Status := SucceedTxStatus,
     UpdatedAt := 1019, NextActionAt := 1019, NextNotificationAt := 1019\<rparr>"

definition ex_store :: "Transaction \<Rightarrow> string list \<Rightarrow> txsState" where
  "ex_store t locks = \<lparr>txs = [(''a'', t)], attempts = [(''a'', [ex_attempt])],
     hashes = [(hash_hex 115, ''a'')], laneLocks = locks\<rparr>"

definition ex_event :: "txsState event" where
  "ex_event = EvSend 1 ex_signed (ex_store ex_sending [''0x:'' @ dec_nat 1])"

lemmas ex_defs = ex_host_def ex_client_def ex_manager_def ex_w0_def NewTransactionsQ_def
  ex_row1_def new_row_def ex_signed_def ex_attempt_def ex_sending_def ex_row2_def ex_row3_def
  ex_store_def ex_event_def

lemmas run_defs = action_defs env_def rpc_def time_now_def ctx_err_def onQ_def getLane_def setLane_def
  laneObserve_def emit_def deferA_def client_of_def update_if_active_def Let_def

lemmas persist_loop_8 = persist_loop.simps(2) [where remaining = 7, simplified]

lemmas step_defs = processTransactionStep_def mem_queue_def SelectAttempts_def attempts_of_def
  recover_legacy_def sort_stable_func_def advance_transaction_def admit_attempt_def send_or_sign_def
  assign_nonce_def reserve_def UpdateIfActive_def IsCompleted_def observe_def nonce_is_tip_def deref_def
  isTip_def createAndBroadcastAttempt_def persistUniqueAttempt_def maxHashCollisionResigns_def
  persist_loop_8 signAttempt_def sign_with_def previous_fee_def suggestGasPrice_def fee_base_def
  bumpGasPrice_def priorityCoefficient_def LegacyTx_def new_attempt_def InsertAttempt_def
  canonical_row_def broadcastAndSchedule_def scheduleNextCheck_def scheduleNextCheckNotBefore_def
  scheduled_def next_check_at_def nextBumpAt_def blockTime_def bumpInterval_def duration_of_def
  wrap_i64_def exhaustedPollInterval_def maxFeeReplacements_def transactionMessageTail_def
  messageTail_def maxTransactionMessageBytes_def

lemmas pass_defs = processTxs_def nextWorkChainIDs_def chain_ids_def maxChainWorkers_def
  processLaneBatch_def locked_batch_def MaxAssignedNonce_def lane_of_def lane_query_def Select_def
  withFilter_def Limit_def OrderBy_def New_def TryLockLane_def Unlock_def lane_key_def
  maxTransactionsPerLane_def ActiveStatuses_def

lemma ex_w1_eval: "ex_w1 = ex_w0\<lparr>store := NewTransactionsQ [(''a'', ex_row1)], tick := 2\<rparr>"
  by (simp add: ex_w1_def SendTxAsync_def transactionPayloadHash_def payload_json_def
      InsertOrGet_def mem_queue_def WithOperationKey_def run_defs ex_defs)

lemma ex_w2_eval: "ex_w2 = \<lparr>store = ex_store ex_row2 [], tick = 14,
    lane = \<lparr>next_nonce = 8, known = True\<rparr>, nextChainIndex = 0, trace = [ex_event]\<rparr>"
  by (simp add: ex_w2_def ex_w1_eval run_defs ex_defs pass_defs step_defs)

lemmas settle_defs = reconcile_attempts_def validatePersistedAttempts_def findKnownReceipt_def
  adopt_attempts_def finalizeTransaction_def persistTerminal_def terminal_row_def
  ReceiptStatusFailed_def ReceiptStatusSuccessful_def

lemma ex_w3_eval: "ex_w3 = \<lparr>store = ex_store ex_row3 [], tick = 20,
    lane = \<lparr>next_nonce = 8, known = True\<rparr>, nextChainIndex = 0,
    trace = [EvResult 1 (status_text SucceedTxStatus), ex_event]\<rparr>"
  by (simp add: ex_w3_def ex_w2_eval run_defs ex_defs pass_defs step_defs settle_defs)

section \<open>It is a run\<close>

lemma ex_deployment: "deployment (mem_queue (addrHex ex_host)) ex_host (\<lambda>m. m = ex_manager)"
  by (auto simp: deployment_def manager_ok_def signer_law_def nonce_law_def signed_as_def ex_defs split: if_splits)

lemma ex_reachable:
  "reachable (\<lambda>m. m = ex_manager) mem_rows ex_w0 ex_w1"
  "reachable (\<lambda>m. m = ex_manager) mem_rows ex_w0 ex_w2"
  "reachable (\<lambda>m. m = ex_manager) mem_rows ex_w0 ex_w3"
proof -
  let ?R = "reachable (\<lambda>m. m = ex_manager) mem_rows ex_w0"
  show 1: "?R ex_w1"
    unfolding ex_w1_def by (rule reachable.submit [OF reachable.start]) (simp_all add: ex_defs)
  show 2: "?R ex_w2" unfolding ex_w2_def by (rule reachable.process [OF 1]) simp
  show "?R ex_w3" unfolding ex_w3_def by (rule reachable.process [OF 2]) simp
qed

lemma ex_run:
  "run_of (addrHex ex_host) ex_host (\<lambda>m. m = ex_manager) ex_w2"
  "run_of (addrHex ex_host) ex_host (\<lambda>m. m = ex_manager) ex_w3"
  unfolding run_of_def using ex_deployment ex_reachable by (auto intro!: exI [of _ ex_w0] simp: ex_w0_def)

lemma ex_rows:
  "mem_rows (store ex_w2) ''a'' = Some ex_row2" "mem_rows (store ex_w3) ''a'' = Some ex_row3"
  by (simp_all add: ex_w2_eval ex_w3_eval ex_store_def)

section \<open>The properties of runs at the example\<close>


theorem sent_is_durable_witness:
  "ex_event \<in> set (trace ex_w2) \<and> (\<exists>i t. mem_rows (ex_store ex_sending [''0x:'' @ dec_nat 1]) i = Some t \<and>
    \<not> IsCompleted t \<and> AssignedNonce t = Some 7 \<and>
    (\<exists>a \<in> set (attempts_of (ex_store ex_sending [''0x:'' @ dec_nat 1]) i). attHash a = 115))"
  using sent_is_durable [OF ex_run(1), of 1 ex_signed "ex_store ex_sending [''0x:'' @ dec_nat 1]"]
  by (auto simp: ex_w2_eval ex_event_def ex_signed_def ex_host_def)

theorem attempts_agree_witness:
  "mem_rows (store ex_w2) ''a'' = Some ex_row2 \<and> attempts_of (store ex_w2) ''a'' = [ex_attempt] \<and>
    AssignedNonce ex_row2 = Some (attNonce ex_attempt)"
  using attempts_agree [OF ex_run(1) ex_rows(1)] ex_rows(1)
  by (simp add: ex_w2_eval ex_defs attempts_of_def IsCompleted_def)

theorem results_have_receipts_witness:
  "Status ex_row3 = SucceedTxStatus \<and> mem_rows (store ex_w3) ''a'' = Some ex_row3 \<and>
    (\<exists>rc. Receipt ex_row3 = Some rc \<and> receiptStatus rc = ReceiptStatusSuccessful)"
  using results_have_receipts [OF ex_run(2) ex_rows(2)] ex_rows(2) by (auto simp: ex_defs)

theorem stored_messages_bounded_witness:
  "mem_rows (store ex_w2) ''a'' = Some ex_row2 \<and> length (Msg ex_row2) \<le> 512"
  using stored_messages_bounded [OF ex_run(1) ex_rows(1)] ex_rows(1) by simp

lemma ex_on_mem: "on_mem (addrHex ex_host) (\<lambda>m. m = ex_manager)"
  by (simp add: on_mem_def ex_manager_def)

lemma ex_last_pass: "reachable (\<lambda>m. m = ex_manager) mem_rows ex_w2 ex_w3"
  unfolding ex_w3_def by (rule reachable.process [OF reachable.start]) simp

theorem terminal_rows_final_witness:
  "mem_rows (store ex_w3) ''a'' = Some ex_row3 \<and>
    (\<exists>u. mem_rows (store (snd (processTxs ex_manager ex_w3))) ''a'' = Some u \<and> IsCompleted u \<and>
      result_of u = result_of ex_row3)"
proof -
  have "reachable (\<lambda>m. m = ex_manager) mem_rows ex_w3 (snd (processTxs ex_manager ex_w3))"
    by (rule reachable.process [OF reachable.start]) simp
  moreover have "IsCompleted ex_row3" by (simp add: ex_defs IsCompleted_def)
  ultimately show ?thesis
    using terminal_rows_final [OF _ ex_on_mem ex_rows(2)] ex_rows(2) by blast
qed

theorem attempts_append_only_witness:
  "attempts_of (store ex_w2) ''a'' = [ex_attempt] \<and> prefix [ex_attempt] (attempts_of (store ex_w3) ''a'')"
  using attempts_append_only [OF ex_last_pass ex_on_mem, of "''a''"]
  by (simp add: ex_w2_eval ex_store_def attempts_of_def)

theorem batch_releases_lock_witness:
  "transactionsQ ex_manager = mem_queue (addrHex ex_host) \<and>
    laneLocks (store (snd (processLaneBatch ex_manager 1 ex_w1))) = laneLocks (store ex_w1)"
  using batch_releases_lock [of ex_manager "addrHex ex_host"] by (simp add: ex_manager_def)

section \<open>The properties of the store at an example\<close>

definition ex_two :: txsState where
  "ex_two = NewTransactionsQ [(''b'', ex_row1\<lparr>ID := ''b'', OperationKey := Some ''k2''\<rparr>), (''a'', ex_row1\<lparr>AssignedNonce := Some 7\<rparr>)]"

lemma ex_two_invar: "mem_invar ex_two"
  unfolding ex_two_def by (rule mem_invar_New) (auto simp: ex_row1_def new_row_def)

theorem Select_iteration_order_witness:
  "txs (ex_two\<lparr>txs := rev (txs ex_two)\<rparr>) \<noteq> txs ex_two \<and>
    fst (Select (OrderBy orderLaneWork New) (ex_two\<lparr>txs := rev (txs ex_two)\<rparr>)) = fst (Select (OrderBy orderLaneWork New) ex_two)"
  using Select_iteration_order [OF ex_two_invar, of "ex_two\<lparr>txs := rev (txs ex_two)\<rparr>" "OrderBy orderLaneWork New"]
  by (simp add: OrderBy_def New_def) (simp add: ex_two_def NewTransactionsQ_def)

theorem Select_lane_work_priority_witness:
  "\<exists>ts. fst (Select (OrderBy orderLaneWork New) ex_two) = Ret ts \<and> map ID ts = [''a'', ''b''] \<and>
    sorted_wrt lane_work_before ts"
  using Select_lane_work_priority [OF ex_two_invar, of "OrderBy orderLaneWork New"]
  by (simp add: ex_two_def NewTransactionsQ_def Select_def OrderBy_def New_def Let_def
      sort_stable_func_def compareLaneWork_def ex_row1_def new_row_def)

theorem InsertOrGet_idempotent_witness:
  "InsertOrGet ex_row1 (snd (InsertOrGet ex_row1 (NewTransactionsQ []))) =
    (Ret ex_row1, snd (InsertOrGet ex_row1 (NewTransactionsQ [])))"
proof -
  let ?q = "NewTransactionsQ []"
  have e: "InsertOrGet ex_row1 ?q = (Ret ex_row1, NewTransactionsQ [(''a'', ex_row1)])"
    by (simp add: InsertOrGet_def NewTransactionsQ_def ex_row1_def new_row_def)
  have "mem_invar ?q" "unique_operation_keys ?q"
    by (auto simp: unique_operation_keys_def NewTransactionsQ_def mem_invar_def attempts_of_def)
  moreover have "OperationKey ex_row1 = Some ''key''" "PayloadHash ex_row1 \<noteq> None"
    by (simp_all add: ex_row1_def new_row_def)
  ultimately show ?thesis using InsertOrGet_idempotent [OF _ _ _ e, of "''key''"] e by simp
qed

definition ex_hex :: "address \<Rightarrow> string" where
  "ex_hex a = ''0x'' @ hex_nat 40 (unat a)"

theorem lane_lock_exclusion_witness:
  "\<exists>l s1. TryLockLane ex_hex None 1 1 ex_two = (Ret (Some l), s1) \<and>
    fst (TryLockLane ex_hex None 1 1 s1) = Ret None \<and>
    fst (TryLockLane ex_hex None 1 1 (snd (Unlock l s1))) \<noteq> Ret None"
proof -
  have "unat (a :: address) < 16 ^ 40" for a using unsigned_less [of a, where ?'a = nat] by simp
  then have "inj ex_hex" unfolding inj_def ex_hex_def by (metis append_same_eq hex_nat_inj same_append_eq word_unat_eq_iff)
  moreover have "\<forall>a. length (ex_hex a) = 42" by (simp add: ex_hex_def)
  moreover obtain l s1 where l: "TryLockLane ex_hex None 1 1 ex_two = (Ret (Some l), s1)" "lockOnce l = False"
    by (auto simp: TryLockLane_def ex_two_def NewTransactionsQ_def Let_def)
  moreover obtain l1 s2 where u: "Unlock l s1 = (Ret l1, s2)" using l by (auto simp: Unlock_def)
  moreover have "fst (TryLockLane ex_hex None 1 1 ex_two) \<noteq> Ret None" using l by simp
  ultimately show ?thesis using lane_lock_exclusion [of ex_hex 1 1 ex_two l s1 l1 s2] by auto
qed

end
