(* ===== verification/Tx_Lifecycle.thy ===== *)
theory Tx_Lifecycle
  imports Main
begin

text \<open>
  \<open>evm/txmngr/txmngr.go\<close>: \<open>Start\<close>, \<open>Stop\<close> and \<open>runLoop\<close>, as steps of concurrent goroutines. A critical
  section is one step; the steps of a caller of \<open>Start\<close>, of a caller of \<open>Stop\<close> and of each loop
  interleave freely. When a ticker fires, when the parent context ends and how long a tick takes
  are the nondeterminism of the step relation. A second caller of \<open>Start\<close> or \<open>Stop\<close> changes
  nothing, by \<open>sync.Once\<close>.
\<close>

section \<open>State\<close>

datatype loop = TxProcessor | TransactionMetrics | NotificationProcessor

text \<open>
  Where the first caller of \<open>Start\<close> is: before the call, inside it before the critical section,
  behind it with loops still to spawn, or done. The same for the first caller of \<open>Stop\<close>.
\<close>

datatype start_point = NotStarted | Starting | Spawning "loop list"

datatype stop_point = NotStopped | Closing | Waiting

record lifecycle =
  wg :: nat
  stopClosed :: bool
  stopped :: bool
  hasCancel :: bool
  ctxDone :: bool
  startAt :: start_point
  stopAt :: stop_point
  loops :: "loop \<rightharpoonup> bool"
  ticked :: "loop list"

definition NewManager :: lifecycle where
  "NewManager = \<lparr>wg = 0, stopClosed = False, stopped = False, hasCancel = False, ctxDone = False,
     startAt = NotStarted, stopAt = NotStopped, loops = Map.empty, ticked = []\<rparr>"

section \<open>Operations\<close>

definition started_loops :: "bool \<Rightarrow> loop list" where
  "started_loops notify = [TxProcessor, TransactionMetrics] @ (if notify then [NotificationProcessor] else [])"

text \<open>The critical section of \<open>Start\<close>: refused after a stop, else the slots of the wait group.\<close>

definition StartManager :: "bool \<Rightarrow> lifecycle \<Rightarrow> lifecycle" where
  "StartManager notify m =
     (if stopped m then m\<lparr>startAt := Spawning [], ctxDone := True\<rparr>
      else m\<lparr>hasCancel := True, wg := wg m + 2 + (if notify then 1 else 0),
             startAt := Spawning (started_loops notify)\<rparr>)"

definition spawn :: "loop \<Rightarrow> loop list \<Rightarrow> lifecycle \<Rightarrow> lifecycle" where
  "spawn l ls m = m\<lparr>loops := (loops m)(l \<mapsto> False), startAt := Spawning ls\<rparr>"

text \<open>\<open>Stop\<close>: closing the channel, and the critical section after it. Then it waits for \<open>wg\<close>.\<close>

definition close_stop :: "lifecycle \<Rightarrow> lifecycle" where
  "close_stop m = m\<lparr>stopClosed := True, stopAt := Closing\<rparr>"

definition StopManager :: "lifecycle \<Rightarrow> lifecycle" where
  "StopManager m = m\<lparr>stopped := True, ctxDone := ctxDone m \<or> hasCancel m, stopAt := Waiting\<rparr>"

text \<open>A loop of \<open>runLoop\<close>: \<open>Some False\<close> at the select, \<open>Some True\<close> inside the tick.\<close>

definition begin_tick :: "loop \<Rightarrow> lifecycle \<Rightarrow> lifecycle" where
  "begin_tick l m = m\<lparr>loops := (loops m)(l \<mapsto> True), ticked := ticked m @ [l]\<rparr>"

definition end_tick :: "loop \<Rightarrow> lifecycle \<Rightarrow> lifecycle" where
  "end_tick l m = m\<lparr>loops := (loops m)(l \<mapsto> False)\<rparr>"

definition leave_loop :: "loop \<Rightarrow> lifecycle \<Rightarrow> lifecycle" where
  "leave_loop l m = m\<lparr>loops := (loops m)(l := None), wg := wg m - 1\<rparr>"

inductive runs_step :: "bool \<Rightarrow> lifecycle \<Rightarrow> lifecycle \<Rightarrow> bool" for notify where
  StartCall: "startAt m = NotStarted \<Longrightarrow> runs_step notify m (m\<lparr>startAt := Starting\<rparr>)"
| StartSection: "startAt m = Starting \<Longrightarrow> runs_step notify m (StartManager notify m)"
| Spawn: "startAt m = Spawning (l # ls) \<Longrightarrow> runs_step notify m (spawn l ls m)"
| StopCall: "stopAt m = NotStopped \<Longrightarrow> runs_step notify m (close_stop m)"
| StopSection: "stopAt m = Closing \<Longrightarrow> runs_step notify m (StopManager m)"
| ParentDone: "runs_step notify m (m\<lparr>ctxDone := True\<rparr>)"
| Tick: "loops m l = Some False \<Longrightarrow> runs_step notify m (begin_tick l m)"
| Ticked: "loops m l = Some True \<Longrightarrow> runs_step notify m (end_tick l m)"
| Leave: "loops m l = Some False \<Longrightarrow> stopClosed m \<or> ctxDone m \<Longrightarrow> runs_step notify m (leave_loop l m)"

abbreviation runs :: "bool \<Rightarrow> lifecycle \<Rightarrow> lifecycle \<Rightarrow> bool" where
  "runs notify \<equiv> (runs_step notify)\<^sup>*\<^sup>*"

section \<open>The wait group\<close>

text \<open>The loops that the wait group counts but that do not run yet.\<close>

fun to_spawn :: "start_point \<Rightarrow> loop list" where
  "to_spawn (Spawning ls) = ls"
| "to_spawn _ = []"

definition lifecycle_ok :: "bool \<Rightarrow> lifecycle \<Rightarrow> bool" where
  "lifecycle_ok notify m \<longleftrightarrow>
     wg m = card (dom (loops m)) + length (to_spawn (startAt m)) \<and>
     distinct (to_spawn (startAt m)) \<and> dom (loops m) \<inter> set (to_spawn (startAt m)) = {} \<and>
     dom (loops m) \<union> set (to_spawn (startAt m)) \<subseteq> set (started_loops notify) \<and>
     (startAt m = NotStarted \<or> startAt m = Starting \<longrightarrow> dom (loops m) = {} \<and> \<not> hasCancel m) \<and>
     (wg m > 0 \<longrightarrow> hasCancel m) \<and>
     (stopClosed m \<longleftrightarrow> stopAt m \<noteq> NotStopped) \<and> (stopped m \<longleftrightarrow> stopAt m = Waiting) \<and>
     (stopped m \<and> hasCancel m \<longrightarrow> ctxDone m)"

lemma finite_loops [simp]: "finite (dom (loops m))"
proof -
  have "finite (UNIV :: loop set)"
    by (rule finite_subset [of _ "{TxProcessor, TransactionMetrics, NotificationProcessor}"]) (auto intro: loop.exhaust)
  then show ?thesis by (rule rev_finite_subset) simp
qed

lemma lifecycle_ok_NewManager: "lifecycle_ok notify NewManager"
  by (simp add: lifecycle_ok_def NewManager_def)

text \<open>Moving a running loop between the select and its tick keeps the invariant.\<close>

lemma lifecycle_ok_move:
  assumes "loops m l = Some b" and "lifecycle_ok notify m"
  shows "lifecycle_ok notify (m\<lparr>loops := (loops m)(l \<mapsto> c), ticked := t\<rparr>)"
proof -
  have "dom ((loops m)(l \<mapsto> c)) = dom (loops m)" using assms(1) by auto
  with assms(2) show ?thesis unfolding lifecycle_ok_def by (simp del: dom_fun_upd dom_eq_empty_conv)
qed

lemma lifecycle_ok_step:
  assumes "runs_step notify m m'" and "lifecycle_ok notify m"
  shows "lifecycle_ok notify m'"
  using assms
proof (induction rule: runs_step.induct)
  case (StartSection m)
  then show ?case
    by (auto simp: lifecycle_ok_def StartManager_def started_loops_def)
next
  case (Spawn m l ls)
  then show ?case
    by (auto simp: lifecycle_ok_def spawn_def card_insert_if)
next
  case (Leave m l)
  then have "l \<in> dom (loops m)" by auto
  moreover from this have "0 < card (dom (loops m))" by (auto simp: card_gt_0_iff)
  ultimately show ?case using Leave
    by (auto simp: lifecycle_ok_def leave_loop_def card_Diff_singleton)
next
  case (StartCall m)
  then show ?case by (simp add: lifecycle_ok_def)
next
  case (StopCall m)
  then show ?case by (simp add: lifecycle_ok_def close_stop_def)
next
  case (StopSection m)
  then show ?case by (simp add: lifecycle_ok_def StopManager_def)
next
  case (ParentDone m)
  then show ?case by (simp add: lifecycle_ok_def)
next
  case (Tick m l)
  then show ?case unfolding begin_tick_def by (intro lifecycle_ok_move)
next
  case (Ticked m l)
  then show ?case unfolding end_tick_def using lifecycle_ok_move [of m l True notify, where c = False and t = "ticked m"] by simp
qed

lemma lifecycle_ok_runs: "runs notify m m' \<Longrightarrow> lifecycle_ok notify m \<Longrightarrow> lifecycle_ok notify m'"
  by (induction rule: rtranclp_induct) (auto intro: lifecycle_ok_step)

section \<open>Stopping\<close>

text \<open>
  Once the critical section of \<open>Stop\<close> is over, no step raises the wait group, and the loops still
  to come are those it counts.
\<close>

lemma stopped_manager_step:
  assumes "runs_step notify m m'" and "lifecycle_ok notify m" and "stopped m"
  shows "stopped m' \<and> wg m' \<le> wg m \<and> (wg m = 0 \<longrightarrow> ticked m' = ticked m)"
  using assms
proof (induction rule: runs_step.induct)
  case (Tick m l)
  then have "dom (loops m) \<noteq> {}" by auto
  then have "0 < card (dom (loops m))" by (simp add: card_gt_0_iff)
  then have "0 < wg m" using Tick by (simp add: lifecycle_ok_def)
  then show ?case using Tick by (simp add: begin_tick_def)
qed (auto simp: StartManager_def spawn_def close_stop_def StopManager_def end_tick_def leave_loop_def)

lemma stopped_manager_runs:
  assumes "runs notify m m'" and "lifecycle_ok notify m" and "stopped m"
  shows "stopped m' \<and> wg m' \<le> wg m \<and> (wg m = 0 \<longrightarrow> ticked m' = ticked m)"
  using assms
proof (induction rule: rtranclp_induct)
  case (step m' m'')
  then have "lifecycle_ok notify m'" using lifecycle_ok_runs by blast
  with step show ?case using stopped_manager_step [of notify m' m''] by fastforce
qed simp

text \<open>
  C24. When \<open>Stop\<close> has returned, nothing runs any more: in every interleaving of \<open>Start\<close>, \<open>Stop\<close> and
  the loops, once \<open>Stop\<close> is past its critical section and has seen the wait group at zero, no loop
  runs or is about to be started in any later state, whenever \<open>Start\<close> is called, and no tick
  begins. In every state the wait group counts exactly the loops running or about to run.
\<close>

theorem nothing_runs_after_Stop:
  assumes "runs notify NewManager m" and "runs notify m m'"
  shows "wg m = card (dom (loops m)) + length (to_spawn (startAt m)) \<and>
    (stopAt m = Waiting \<and> wg m = 0 \<longrightarrow>
      dom (loops m') = {} \<and> to_spawn (startAt m') = [] \<and> wg m' = 0 \<and> ticked m' = ticked m)"
proof -
  have ok: "lifecycle_ok notify m" "lifecycle_ok notify m'"
    using assms lifecycle_ok_NewManager lifecycle_ok_runs by blast+
  have "dom (loops m') = {} \<and> to_spawn (startAt m') = [] \<and> wg m' = 0 \<and> ticked m' = ticked m"
    if "stopAt m = Waiting" "wg m = 0"
    using stopped_manager_runs [OF assms(2) ok(1)] ok that by (simp add: lifecycle_ok_def)
  with ok(1) show ?thesis by (simp add: lifecycle_ok_def)
qed

text \<open>
  While the wait group is positive and the manager is stopped, a loop can be spawned, can end its
  tick or can leave, and each of these brings the end nearer.
\<close>

definition work_left :: "lifecycle \<Rightarrow> nat" where
  "work_left m = 3 * length (to_spawn (startAt m)) + (\<Sum>l \<in> dom (loops m). if loops m l = Some True then 2 else 1)"

lemma work_left_upd:
  assumes "loops m l = Some b"
  shows "(\<Sum>k \<in> dom (loops m). f k (loops m k)) = f l (Some b) + (\<Sum>k \<in> dom (loops m) - {l}. f k (loops m k))"
  using assms sum.remove [of "dom (loops m)" l "\<lambda>k. f k (loops m k)"] by auto

lemma drain_step:
  assumes "lifecycle_ok notify m" and "stopped m" and "wg m > 0"
  shows "\<exists>m'. runs_step notify m m' \<and> work_left m' < work_left m"
proof (cases "to_spawn (startAt m)")
  case (Cons l ls)
  then have at: "startAt m = Spawning (l # ls)" by (cases "startAt m") auto
  then have "l \<notin> dom (loops m)" using assms(1) by (auto simp: lifecycle_ok_def)
  then have "(\<Sum>k \<in> dom (loops m). if ((loops m)(l \<mapsto> False)) k = Some True then 2 else 1) =
      (\<Sum>k \<in> dom (loops m). if loops m k = Some True then 2 else (1 :: nat))"
    by (intro sum.cong) auto
  then have "work_left (spawn l ls m) < work_left m"
    using \<open>l \<notin> dom (loops m)\<close> by (simp add: work_left_def spawn_def at)
  then show ?thesis using runs_step.Spawn [OF at] by blast
next
  case Nil
  then have "card (dom (loops m)) > 0" using assms by (simp add: lifecycle_ok_def)
  then obtain l b where l: "loops m l = Some b" by (metis card.empty domD equals0I less_irrefl)
  note split = work_left_upd [OF l, of "\<lambda>_ x. if x = Some True then 2 else (1 :: nat)"]
  show ?thesis
  proof (cases b)
    case True
    have "(\<Sum>k \<in> dom (loops m) - {l}. if ((loops m)(l \<mapsto> False)) k = Some True then 2 else (1 :: nat)) =
      (\<Sum>k \<in> dom (loops m) - {l}. if loops m k = Some True then 2 else 1)" by (intro sum.cong) auto
    moreover have "insert l (dom (loops m)) = insert l (dom (loops m) - {l})" by auto
    ultimately have "work_left (end_tick l m) < work_left m"
      using split True by (simp add: work_left_def end_tick_def Nil sum.insert_remove)
    then show ?thesis using runs_step.Ticked [of m l notify] l True by auto
  next
    case False
    have "(\<Sum>k \<in> dom (loops m) - {l}. if ((loops m)(l := None)) k = Some True then 2 else (1 :: nat)) =
      (\<Sum>k \<in> dom (loops m) - {l}. if loops m k = Some True then 2 else 1)" by (intro sum.cong) auto
    then have "work_left (leave_loop l m) < work_left m"
      using split False by (simp add: work_left_def leave_loop_def Nil)
    moreover have "stopClosed m" using assms by (auto simp: lifecycle_ok_def)
    ultimately show ?thesis using runs_step.Leave [of m l notify] l False by auto
  qed
qed

text \<open>
  \<open>Stop\<close> can always return: from every reachable state in which \<open>Stop\<close> waits, whatever the
  loops are doing, there is a run to a wait group of zero; it takes no more ticks, only that each
  tick that is under way ends.
\<close>

theorem Stop_can_return:
  assumes "runs notify NewManager m" and "stopAt m = Waiting"
  shows "\<exists>m'. runs notify m m' \<and> wg m' = 0 \<and> stopAt m' = Waiting"
proof -
  have ok: "lifecycle_ok notify m" using assms(1) lifecycle_ok_NewManager lifecycle_ok_runs by blast
  moreover have "stopped m" using ok assms(2) by (simp add: lifecycle_ok_def)
  ultimately show ?thesis
  proof (induction "work_left m" arbitrary: m rule: less_induct)
    case less
    show ?case
    proof (cases "wg m = 0")
      case True
      then show ?thesis using less.prems by (auto simp: lifecycle_ok_def)
    next
      case False
      then obtain m1 where m1: "runs_step notify m m1" "work_left m1 < work_left m"
        using drain_step [OF less.prems] by auto
      moreover have "lifecycle_ok notify m1" "stopped m1"
        using lifecycle_ok_step [OF m1(1)] stopped_manager_step [OF m1(1)] less.prems by blast+
      ultimately obtain m' where "runs notify m1 m'" "wg m' = 0" "stopAt m' = Waiting"
        using less.hyps by blast
      with m1(1) show ?thesis by (meson converse_rtranclp_into_rtranclp)
    qed
  qed
qed

section \<open>A run\<close>

text \<open>Started with a callback, stopped while the transaction processor is inside a tick.\<close>

definition ex_start :: lifecycle where
  "ex_start = StartManager True (NewManager\<lparr>startAt := Starting\<rparr>)"

definition ex_spawned :: lifecycle where
  "ex_spawned = spawn NotificationProcessor [] (spawn TransactionMetrics [NotificationProcessor]
     (spawn TxProcessor [TransactionMetrics, NotificationProcessor] ex_start))"

definition ex_waiting :: lifecycle where
  "ex_waiting = StopManager (close_stop (begin_tick TxProcessor ex_spawned))"

definition ex_returned :: lifecycle where
  "ex_returned = leave_loop TransactionMetrics (leave_loop NotificationProcessor (leave_loop TxProcessor
     (end_tick TxProcessor ex_waiting)))"

lemmas ex_lifecycle = ex_start_def ex_spawned_def ex_waiting_def ex_returned_def StartManager_def spawn_def StopManager_def
  close_stop_def begin_tick_def end_tick_def leave_loop_def NewManager_def started_loops_def

declare rtranclp.rtrancl_into_rtrancl [trans]

lemma ex_runs: "runs True NewManager ex_waiting" "runs True ex_waiting ex_returned"
proof -
  have "runs True NewManager NewManager" by simp
  also have "runs_step True \<dots> (NewManager\<lparr>startAt := Starting\<rparr>)" by (rule runs_step.StartCall) (simp add: NewManager_def)
  also have "runs_step True \<dots> ex_start" unfolding ex_start_def by (rule runs_step.StartSection) simp
  also have "runs_step True \<dots> (spawn TxProcessor [TransactionMetrics, NotificationProcessor] ex_start)"
    by (rule runs_step.Spawn) (simp add: ex_lifecycle)
  also have "runs_step True \<dots> (spawn TransactionMetrics [NotificationProcessor] (spawn TxProcessor [TransactionMetrics, NotificationProcessor] ex_start))"
    by (rule runs_step.Spawn) (simp add: ex_lifecycle)
  also have "runs_step True \<dots> ex_spawned" unfolding ex_spawned_def by (rule runs_step.Spawn) (simp add: ex_lifecycle)
  also have "runs_step True \<dots> (begin_tick TxProcessor ex_spawned)" by (rule runs_step.Tick) (simp add: ex_lifecycle)
  also have "runs_step True \<dots> (close_stop (begin_tick TxProcessor ex_spawned))"
    by (rule runs_step.StopCall) (simp add: ex_lifecycle)
  also have "runs_step True \<dots> ex_waiting" unfolding ex_waiting_def by (rule runs_step.StopSection) (simp add: close_stop_def)
  finally show "runs True NewManager ex_waiting" .
  have "runs True ex_waiting ex_waiting" by simp
  also have "runs_step True \<dots> (end_tick TxProcessor ex_waiting)" by (rule runs_step.Ticked) (simp add: ex_lifecycle)
  also have "runs_step True \<dots> (leave_loop TxProcessor (end_tick TxProcessor ex_waiting))"
    by (rule runs_step.Leave) (simp_all add: ex_lifecycle)
  also have "runs_step True \<dots> (leave_loop NotificationProcessor (leave_loop TxProcessor (end_tick TxProcessor ex_waiting)))"
    by (rule runs_step.Leave) (simp_all add: ex_lifecycle)
  also have "runs_step True \<dots> ex_returned"
    unfolding ex_returned_def by (rule runs_step.Leave) (simp_all add: ex_lifecycle)
  finally show "runs True ex_waiting ex_returned" .
qed

theorem nothing_runs_after_Stop_witness:
  "stopAt ex_returned = Waiting \<and> wg ex_returned = 0 \<and> dom (loops ex_returned) = {} \<and> ticked ex_returned = [TxProcessor]"
proof -
  have "runs True NewManager ex_returned" using ex_runs by (rule rtranclp_trans)
  moreover have "stopAt ex_returned = Waiting" "wg ex_returned = 0" by (simp_all add: ex_lifecycle)
  moreover have "ticked ex_returned = [TxProcessor]" by (simp add: ex_lifecycle)
  ultimately show ?thesis using nothing_runs_after_Stop [OF _ rtranclp.rtrancl_refl, of True ex_returned] by blast
qed

theorem Stop_can_return_witness:
  "wg ex_waiting = 3 \<and> loops ex_waiting TxProcessor = Some True \<and> (\<exists>m'. runs True ex_waiting m' \<and> wg m' = 0)"
proof -
  have "stopAt ex_waiting = Waiting" "wg ex_waiting = 3" "loops ex_waiting TxProcessor = Some True" by (simp_all add: ex_lifecycle)
  then show ?thesis using Stop_can_return [OF ex_runs(1)] by blast
qed

end
