(* ===== verification/Event_Indexer.thy ===== *)
theory Event_Indexer
  imports Go_Errors "HOL-Library.AList"
begin

text \<open>
  \<open>evm/eventindexer/event_indexer.go\<close>: live log subscriptions, one goroutine per registered
  contract, with reconnection and shutdown. Every operation that runs under the indexer's lock
  is one function on the indexer's state; what the goroutines do is the step relation
  \<open>indexer_step\<close>, so a theorem about reachable states covers every interleaving. A contract is
  identified by its position in the list of all contracts ever made, which stands for the
  pointer; a channel is a number. Nodes, contexts and tickers are the nondeterminism of the
  relation.
\<close>

section \<open>State\<close>

record RawEvent =
  evChainID :: u64
  evAddress :: address
  evRaw :: bytes

text \<open>
  \<open>contractInfo\<close> with what its goroutine holds: \<open>ciSub\<close> says that \<open>sub\<close> is not nil, \<open>ciRetry\<close>
  that the buffer of \<open>retry\<close> is full, \<open>ciAlive\<close> that the goroutine has not ended (\<open>done\<close> is open).
\<close>

record contractInfo =
  ciChainID :: u64
  ciAddress :: address
  ciEvents :: "hash list"
  ciEventChan :: nat
  ciCancelled :: bool
  ciRetry :: bool
  ciSub :: bool
  ciAlive :: bool

text \<open>
  The indexer, and what left it: open subscriptions, closed channels, delivered events and
  reported errors, newest first. \<open>ixPanic\<close> records a send on a closed channel or a second close.
\<close>

record indexer =
  ixContracts :: "(string \<times> nat) list"
  ixInfos :: "contractInfo list"
  ixOutputs :: "(nat \<times> int) list"
  ixInterval :: duration
  ixStarted :: bool
  ixStopped :: bool
  ixCancelled :: bool
  ixWatching :: bool
  ixWg :: int
  ixOpenSubs :: int
  ixClosed :: "nat list"
  ixSent :: "(nat \<times> RawEvent) list"
  ixErrors :: "string list"
  ixPanic :: bool

definition NewIndexer :: "duration \<Rightarrow> indexer" where
  "NewIndexer interval = \<lparr>ixContracts = [], ixInfos = [], ixOutputs = [], ixInterval = interval,
     ixStarted = False, ixStopped = False, ixCancelled = False, ixWatching = False, ixWg = 0,
     ixOpenSubs = 0, ixClosed = [], ixSent = [], ixErrors = [], ixPanic = False\<rparr>"

definition defaultReconnectInterval :: duration where
  "defaultReconnectInterval = 30 * second"

section \<open>Keys\<close>

fun join :: "string \<Rightarrow> string list \<Rightarrow> string" where
  "join sep [] = []"
| "join sep [s] = s"
| "join sep (s # t # ts) = s @ sep @ join sep (t # ts)"

definition getContractKey :: "u64 \<Rightarrow> string \<Rightarrow> hash list \<Rightarrow> string" where
  "getContractKey chainID addr events = dec_nat (unat chainID) @ ''_'' @ addr @ ''_'' @ join '','' (map hash_hex events)"

definition key_of :: "(address \<Rightarrow> string) \<Rightarrow> contractInfo \<Rightarrow> string" where
  "key_of hex c = getContractKey (ciChainID c) (hex (ciAddress c)) (ciEvents c)"

section \<open>Operations under the lock\<close>

text \<open>\<open>Start\<close>: the error text, if any.\<close>

definition Start :: "indexer \<Rightarrow> string option \<times> indexer" where
  "Start i =
     (if ixStopped i then (Some ''event indexer is stopped'', i)
      else if ixStarted i then (None, i)
      else if ixInterval i \<le> 0 then (Some ''reconnect interval must be positive'', i)
      else (None, i\<lparr>ixStarted := True, ixWg := ixWg i + 1, ixWatching := True\<rparr>))"

definition cancel_info :: "nat \<Rightarrow> contractInfo list \<Rightarrow> contractInfo list" where
  "cancel_info k infos = (if k < length infos then infos[k := (infos ! k)\<lparr>ciCancelled := True\<rparr>] else infos)"

text \<open>\<open>shutdown\<close> cancels the context of the indexer first and then takes the lock.\<close>

definition shutdown :: "indexer \<Rightarrow> indexer" where
  "shutdown i0 =
     (let i = i0\<lparr>ixCancelled := True\<rparr>
      in if ixStopped i then i
         else i\<lparr>ixStopped := True, ixInfos := fold cancel_info (map snd (ixContracts i)) (ixInfos i)\<rparr>)"

definition new_contract :: "hash list \<Rightarrow> nat \<Rightarrow> u64 \<times> address \<Rightarrow> contractInfo" where
  "new_contract events eventChan ca = \<lparr>ciChainID = fst ca, ciAddress = snd ca, ciEvents = events,
     ciEventChan = eventChan, ciCancelled = False, ciRetry = False, ciSub = True, ciAlive = True\<rparr>"

definition output_count :: "indexer \<Rightarrow> nat \<Rightarrow> int" where
  "output_count i c = (case map_of (ixOutputs i) c of None \<Rightarrow> 0 | Some n \<Rightarrow> n)"

text \<open>The registration of one subscribed contract, and the start of its goroutine.\<close>

definition register :: "(address \<Rightarrow> string) \<Rightarrow> contractInfo \<Rightarrow> indexer \<Rightarrow> indexer" where
  "register hex c i =
     i\<lparr>ixContracts := AList.update (key_of hex c) (length (ixInfos i)) (ixContracts i),
       ixInfos := ixInfos i @ [c],
       ixOutputs := AList.update (ciEventChan c) (output_count i (ciEventChan c) + 1) (ixOutputs i),
       ixWg := ixWg i + 1, ixOpenSubs := ixOpenSubs i + 1\<rparr>"

fun check_addresses :: "u64 list \<Rightarrow> (address \<Rightarrow> string) \<Rightarrow> (string \<times> nat) list \<Rightarrow> hash list \<Rightarrow> (u64 \<times> address) list \<Rightarrow>
    string option" where
  "check_addresses clients hex contracts events [] = None"
| "check_addresses clients hex contracts events ((chainID, a) # rest) =
     (if chainID \<notin> set clients then Some (''no client found for chain '' @ dec_nat (unat chainID))
      else if map_of contracts (getContractKey chainID (hex a) events) \<noteq> None
      then Some (''contract already being watched on chain '' @ dec_nat (unat chainID))
      else check_addresses clients hex contracts events rest)"

text \<open>
  Subscribing one chain after the other. At the first failure the subscriptions made so far
  are cancelled and unsubscribed, and nothing is registered; \<open>dial\<close> is the node's answer.
\<close>

fun subscribe_all :: "(u64 \<Rightarrow> string option) \<Rightarrow> (u64 \<times> address) list \<Rightarrow> (u64 \<times> address) list \<Rightarrow>
    string + (u64 \<times> address) list" where
  "subscribe_all dial made [] = Inr made"
| "subscribe_all dial made (ca # rest) =
     (case dial (fst ca) of
        Some err \<Rightarrow> Inl (''failed to setup subscription for chain '' @ dec_nat (unat (fst ca)) @ '': '' @ err)
      | None \<Rightarrow> subscribe_all dial (made @ [ca]) rest)"

text \<open>
  \<open>addresses\<close> is a Go map: the two loops over it may see two orders, so there are two lists.
\<close>

definition AddContract :: "u64 list \<Rightarrow> (address \<Rightarrow> string) \<Rightarrow> (u64 \<Rightarrow> string option) \<Rightarrow> (u64 \<times> address) list \<Rightarrow>
    (u64 \<times> address) list \<Rightarrow> hash list \<Rightarrow> nat \<Rightarrow> indexer \<Rightarrow> string option \<times> indexer" where
  "AddContract clients hex dial addresses1 addresses2 events eventChan i =
     (if ixStopped i then (Some ''event indexer is stopped'', i)
      else case check_addresses clients hex (ixContracts i) events addresses1 of
          Some err \<Rightarrow> (Some err, i)
        | None \<Rightarrow>
            (case subscribe_all dial [] addresses2 of
               Inl err \<Rightarrow> (Some err, i)
             | Inr subs \<Rightarrow> (None, fold (register hex) (map (new_contract events eventChan) subs) i)))"

text \<open>\<open>RemoveContract\<close> up to its wait: the contracts it removed are the ones it then waits for.\<close>

definition removal_match :: "(address \<Rightarrow> string) \<Rightarrow> u64 list \<Rightarrow> string \<Rightarrow> contractInfo \<Rightarrow> bool" where
  "removal_match hex chainIDs addr c \<longleftrightarrow>
     hex (ciAddress c) = addr \<and> (chainIDs = [] \<or> ciChainID c \<in> set chainIDs)"

definition RemoveContract :: "(address \<Rightarrow> string) \<Rightarrow> u64 list \<Rightarrow> string \<Rightarrow> indexer \<Rightarrow> nat list \<times> indexer" where
  "RemoveContract hex chainIDs addr i =
     (let removed = filter (\<lambda>(key, k). removal_match hex chainIDs addr (ixInfos i ! k)) (ixContracts i)
      in (map snd removed,
          i\<lparr>ixContracts := filter (\<lambda>(key, k). \<not> removal_match hex chainIDs addr (ixInfos i ! k)) (ixContracts i),
            ixInfos := fold cancel_info (map snd removed) (ixInfos i)\<rparr>))"

text \<open>A tick of \<open>watch\<close>: a send that would block is skipped, so the buffer is full afterwards.\<close>

definition request_retry :: "nat \<Rightarrow> contractInfo list \<Rightarrow> contractInfo list" where
  "request_retry k infos = (if k < length infos then infos[k := (infos ! k)\<lparr>ciRetry := True\<rparr>] else infos)"

definition watch_tick :: "indexer \<Rightarrow> indexer" where
  "watch_tick i = i\<lparr>ixInfos := fold request_retry (map snd (ixContracts i)) (ixInfos i)\<rparr>"

definition watch_exit :: "indexer \<Rightarrow> indexer" where
  "watch_exit i = i\<lparr>ixWatching := False, ixWg := ixWg i - 1\<rparr>"

section \<open>The goroutine of a contract\<close>

definition close_channel :: "nat \<Rightarrow> indexer \<Rightarrow> indexer" where
  "close_channel c i = (if c \<in> set (ixClosed i) then i\<lparr>ixPanic := True\<rparr> else i\<lparr>ixClosed := c # ixClosed i\<rparr>)"

text \<open>The deferred calls of \<open>processLogs\<close>, in the order in which they run.\<close>

definition release_output :: "nat \<Rightarrow> indexer \<Rightarrow> indexer" where
  "release_output c i =
     (let n = output_count i c - 1
      in if n = 0 then (close_channel c i)\<lparr>ixOutputs := AList.delete c (ixOutputs i)\<rparr>
         else i\<lparr>ixOutputs := AList.update c n (ixOutputs i)\<rparr>)"

definition end_worker :: "(address \<Rightarrow> string) \<Rightarrow> nat \<Rightarrow> indexer \<Rightarrow> indexer" where
  "end_worker hex k i =
     (let c = ixInfos i ! k;
          i = i\<lparr>ixOpenSubs := ixOpenSubs i - (if ciSub c then 1 else 0),
                ixInfos := (ixInfos i)[k := c\<lparr>ciCancelled := True, ciSub := False, ciAlive := False\<rparr>]\<rparr>;
          i = (if map_of (ixContracts i) (key_of hex c) = Some k
               then i\<lparr>ixContracts := AList.delete (key_of hex c) (ixContracts i)\<rparr> else i);
          i = release_output (ciEventChan c) i
      in i\<lparr>ixWg := ixWg i - 1\<rparr>)"

text \<open>\<open>reportError\<close>: \<open>handler\<close> says that a callback is configured; a nil error has its own text.\<close>

definition reportError :: "bool \<Rightarrow> (address \<Rightarrow> string) \<Rightarrow> contractInfo \<Rightarrow> string \<Rightarrow> string option \<Rightarrow> indexer \<Rightarrow> indexer" where
  "reportError handler hex c operation err i =
     (if handler \<and> \<not> ciCancelled c
      then i\<lparr>ixErrors := (operation @ '' on chain '' @ dec_nat (unat (ciChainID c)) @ '' for '' @ hex (ciAddress c) @ '': '' @
        (case err of None \<Rightarrow> ''subscription closed'' | Some e \<Rightarrow> e)) # ixErrors i\<rparr>
      else i)"

text \<open>The branch on \<open>retry\<close>; \<open>dial\<close> is the node's answer to the new subscription.\<close>

definition worker_retry :: "bool \<Rightarrow> (address \<Rightarrow> string) \<Rightarrow> string option \<Rightarrow> nat \<Rightarrow> indexer \<Rightarrow> indexer" where
  "worker_retry handler hex dial k i =
     (let c = ixInfos i ! k
      in if ciSub c then i\<lparr>ixInfos := (ixInfos i)[k := c\<lparr>ciRetry := False\<rparr>]\<rparr>
         else case dial of
             None \<Rightarrow> i\<lparr>ixInfos := (ixInfos i)[k := c\<lparr>ciRetry := False, ciSub := True\<rparr>], ixOpenSubs := ixOpenSubs i + 1\<rparr>
           | Some err \<Rightarrow>
               reportError handler hex c ''reconnecting subscription'' (Some err)
                 (i\<lparr>ixInfos := (ixInfos i)[k := c\<lparr>ciRetry := False\<rparr>]\<rparr>))"

text \<open>The branch on the subscription's error channel, which yields nil when it is closed.\<close>

definition worker_failed :: "bool \<Rightarrow> (address \<Rightarrow> string) \<Rightarrow> string option \<Rightarrow> nat \<Rightarrow> indexer \<Rightarrow> indexer" where
  "worker_failed handler hex err k i =
     (let c = ixInfos i ! k
      in reportError handler hex c ''subscription failed'' err
           (i\<lparr>ixInfos := (ixInfos i)[k := c\<lparr>ciSub := False\<rparr>], ixOpenSubs := ixOpenSubs i - 1\<rparr>))"

definition worker_log :: "bytes \<Rightarrow> nat \<Rightarrow> indexer \<Rightarrow> indexer" where
  "worker_log raw k i =
     (let c = ixInfos i ! k
      in if ciEventChan c \<in> set (ixClosed i) then i\<lparr>ixPanic := True\<rparr>
         else i\<lparr>ixSent := (ciEventChan c, \<lparr>evChainID = ciChainID c, evAddress = ciAddress c, evRaw = raw\<rparr>) # ixSent i\<rparr>)"

section \<open>Steps\<close>

definition alive :: "nat \<Rightarrow> indexer \<Rightarrow> bool" where
  "alive k i \<longleftrightarrow> k < length (ixInfos i) \<and> ciAlive (ixInfos i ! k)"

text \<open>
  The documented obligation of the caller is the premise of \<open>Add\<close>: the indexer closes the
  channel when its last registration ends, so a closed channel is not registered again.
\<close>

inductive indexer_step :: "u64 list \<Rightarrow> (address \<Rightarrow> string) \<Rightarrow> bool \<Rightarrow> indexer \<Rightarrow> indexer \<Rightarrow> bool"
  for clients hex handler where
  Start: "indexer_step clients hex handler i (snd (Start i))"
| Cancel: "indexer_step clients hex handler i (i\<lparr>ixCancelled := True\<rparr>)"
| Shutdown: "indexer_step clients hex handler i (shutdown i)"
| Add: "mset addresses1 = mset addresses2 \<Longrightarrow> distinct (map fst addresses1) \<Longrightarrow> eventChan \<notin> set (ixClosed i) \<Longrightarrow>
    indexer_step clients hex handler i (snd (AddContract clients hex dial addresses1 addresses2 events eventChan i))"
| Remove: "indexer_step clients hex handler i (snd (RemoveContract hex chainIDs addr i))"
| ContextEnds: "k < length (ixInfos i) \<Longrightarrow>
    indexer_step clients hex handler i (i\<lparr>ixInfos := cancel_info k (ixInfos i)\<rparr>)"
| Tick: "ixWatching i \<Longrightarrow> indexer_step clients hex handler i (watch_tick i)"
| WatchStopped: "ixWatching i \<Longrightarrow> ixStopped i \<Longrightarrow> indexer_step clients hex handler i (watch_exit i)"
| WatchDone: "ixWatching i \<Longrightarrow> indexer_step clients hex handler i (watch_exit (shutdown i))"
| Retry: "alive k i \<Longrightarrow> ciRetry (ixInfos i ! k) \<Longrightarrow>
    indexer_step clients hex handler i (worker_retry handler hex dial1 k i)"
| SubFailed: "alive k i \<Longrightarrow> ciSub (ixInfos i ! k) \<Longrightarrow>
    indexer_step clients hex handler i (worker_failed handler hex err k i)"
| Log: "alive k i \<Longrightarrow> ciSub (ixInfos i ! k) \<Longrightarrow> indexer_step clients hex handler i (worker_log raw k i)"
| WorkerEnds: "alive k i \<Longrightarrow> ciCancelled (ixInfos i ! k) \<or> ixStopped i \<Longrightarrow>
    indexer_step clients hex handler i (end_worker hex k i)"

inductive indexer_reachable :: "u64 list \<Rightarrow> (address \<Rightarrow> string) \<Rightarrow> bool \<Rightarrow> duration \<Rightarrow> indexer \<Rightarrow> bool"
  for clients hex handler interval where
  init: "indexer_reachable clients hex handler interval (NewIndexer interval)"
| step: "indexer_reachable clients hex handler interval i \<Longrightarrow> indexer_step clients hex handler i i' \<Longrightarrow>
    indexer_reachable clients hex handler interval i'"

section \<open>The invariant\<close>

text \<open>What the bookkeeping depends on of a contract: its key, channel, subscription and goroutine.\<close>

datatype worker = Worker (wKey: string) (wChan: nat) (wSub: bool) (wAlive: bool)

definition worker_of :: "(address \<Rightarrow> string) \<Rightarrow> contractInfo \<Rightarrow> worker" where
  "worker_of hex c = Worker (key_of hex c) (ciEventChan c) (ciSub c) (ciAlive c)"

abbreviation workers :: "(address \<Rightarrow> string) \<Rightarrow> indexer \<Rightarrow> worker list" where
  "workers hex i \<equiv> map (worker_of hex) (ixInfos i)"

definition tally :: "('a \<Rightarrow> bool) \<Rightarrow> 'a list \<Rightarrow> int" where
  "tally P xs = int (length (filter P xs))"

definition users :: "nat \<Rightarrow> worker list \<Rightarrow> int" where
  "users c ws = tally (\<lambda>w. wAlive w \<and> wChan w = c) ws"

definition contracts_ok :: "(string \<times> nat) list \<Rightarrow> worker list \<Rightarrow> bool" where
  "contracts_ok cs ws \<longleftrightarrow> distinct (map fst cs) \<and>
     (\<forall>key k. (key, k) \<in> set cs \<longrightarrow> k < length ws \<and> wAlive (ws ! k) \<and> wKey (ws ! k) = key)"

definition outputs_ok :: "(nat \<times> int) list \<Rightarrow> worker list \<Rightarrow> bool" where
  "outputs_ok os ws \<longleftrightarrow> (\<forall>c. map_of os c = (if users c ws = 0 then None else Some (users c ws)))"

definition counters_ok :: "indexer \<Rightarrow> worker list \<Rightarrow> bool" where
  "counters_ok i ws \<longleftrightarrow> ixWg i = tally wAlive ws + (if ixWatching i then 1 else 0) \<and>
     ixOpenSubs i = tally wSub ws \<and> (\<forall>w \<in> set ws. wSub w \<longrightarrow> wAlive w) \<and> (ixWatching i \<longrightarrow> ixStarted i)"

definition channels_ok :: "indexer \<Rightarrow> worker list \<Rightarrow> bool" where
  "channels_ok i ws \<longleftrightarrow> \<not> ixPanic i \<and> distinct (ixClosed i) \<and>
     (\<forall>c \<in> set (ixClosed i). users c ws = 0)"

definition indexer_ok :: "(address \<Rightarrow> string) \<Rightarrow> indexer \<Rightarrow> bool" where
  "indexer_ok hex i \<longleftrightarrow> contracts_ok (ixContracts i) (workers hex i) \<and> outputs_ok (ixOutputs i) (workers hex i) \<and>
     counters_ok i (workers hex i) \<and> channels_ok i (workers hex i)"

lemmas indexer_ok_defs = indexer_ok_def contracts_ok_def outputs_ok_def counters_ok_def channels_ok_def

lemma tally_Nil [simp]: "tally P [] = 0"
  by (simp add: tally_def)

lemma tally_append [simp]: "tally P (xs @ ys) = tally P xs + tally P ys"
  by (simp add: tally_def)

lemma tally_Cons [simp]: "tally P (x # xs) = (if P x then 1 else 0) + tally P xs"
  by (simp add: tally_def)

lemma tally_nonneg [simp]: "0 \<le> tally P xs"
  by (simp add: tally_def)

lemma tally_0: "tally P xs = 0 \<longleftrightarrow> (\<forall>x \<in> set xs. \<not> P x)"
  by (simp add: tally_def filter_empty_conv)

lemma tally_update:
  "k < length xs \<Longrightarrow> tally P (xs[k := x]) = tally P xs - (if P (xs ! k) then 1 else 0) + (if P x then 1 else 0)"
proof -
  assume k: "k < length xs"
  have "tally P xs = tally P (take k xs) + (if P (xs ! k) then 1 else 0) + tally P (drop (Suc k) xs)"
    using arg_cong [OF id_take_nth_drop [OF k], of "tally P"] by simp
  then show ?thesis using k by (simp add: upd_conv_take_nth_drop)
qed

lemma users_simps [simp]:
  "users c [] = 0" "users c (xs @ ys) = users c xs + users c ys"
  "users c (w # ws) = (if wAlive w \<and> wChan w = c then 1 else 0) + users c ws" "0 \<le> users c ws"
  by (simp_all add: users_def)

lemma users_update:
  "k < length xs \<Longrightarrow> users c (xs[k := x]) = users c xs - (if wAlive (xs ! k) \<and> wChan (xs ! k) = c then 1 else 0) +
     (if wAlive x \<and> wChan x = c then 1 else 0)"
  by (simp add: users_def tally_update)

lemma users_alive: "k < length ws \<Longrightarrow> wAlive (ws ! k) \<Longrightarrow> 0 < users (wChan (ws ! k)) ws"
proof -
  assume "k < length ws" "wAlive (ws ! k)"
  then have "users (wChan (ws ! k)) ws \<noteq> 0" unfolding users_def tally_0 by auto
  then show ?thesis using users_simps(4) [of "wChan (ws ! k)" ws] by linarith
qed

text \<open>Cancelling a context and filling a retry buffer leave the workers as they are.\<close>

lemma worker_of_sel [simp]:
  "worker_of hex (c\<lparr>ciCancelled := b\<rparr>) = worker_of hex c" "worker_of hex (c\<lparr>ciRetry := b\<rparr>) = worker_of hex c"
  "wAlive (worker_of hex c) = ciAlive c" "wChan (worker_of hex c) = ciEventChan c"
  "wSub (worker_of hex c) = ciSub c" "wKey (worker_of hex c) = key_of hex c"
  by (simp_all add: worker_of_def key_of_def)

lemma workers_cancel [simp]: "map (worker_of hex) (cancel_info k xs) = map (worker_of hex) xs"
  by (simp add: cancel_info_def map_update list_update_same_conv)

lemma workers_retry [simp]: "map (worker_of hex) (request_retry k xs) = map (worker_of hex) xs"
  by (simp add: request_retry_def map_update list_update_same_conv)

lemma workers_fold [simp]:
  "map (worker_of hex) (fold cancel_info ks xs) = map (worker_of hex) xs"
  "map (worker_of hex) (fold request_retry ks xs) = map (worker_of hex) xs"
  by (induction ks arbitrary: xs) simp_all

lemma contracts_ok_filter: "contracts_ok cs ws \<Longrightarrow> contracts_ok (filter P cs) ws"
  by (auto simp: contracts_ok_def distinct_map_filter)

lemma contracts_okD:
  assumes "contracts_ok cs ws" and "(key, k) \<in> set cs"
  shows "k < length ws" "wAlive (ws ! k)" "wKey (ws ! k) = key" "map_of cs key = Some k"
  using assms by (auto simp: contracts_ok_def)

lemma contracts_ok_snoc:
  assumes "contracts_ok cs ws" and "wAlive w"
  shows "contracts_ok (AList.update (wKey w) (length ws) cs) (ws @ [w])"
  unfolding contracts_ok_def
proof (intro conjI allI impI)
  show d: "distinct (map fst (AList.update (wKey w) (length ws) cs))"
    using assms(1) by (simp add: contracts_ok_def distinct_update)
  fix key k
  assume "(key, k) \<in> set (AList.update (wKey w) (length ws) cs)"
  with d have "((map_of cs)(wKey w \<mapsto> length ws)) key = Some k" by (metis map_of_is_SomeI update_conv')
  then have "k = length ws \<and> key = wKey w \<or> (key, k) \<in> set cs" by (auto split: if_splits dest: map_of_SomeD)
  then show "k < length (ws @ [w])" "wAlive ((ws @ [w]) ! k)" "wKey ((ws @ [w]) ! k) = key"
    using contracts_okD [OF assms(1), of key k] assms(2) by (auto simp: nth_append)
qed

lemma contracts_ok_update:
  assumes "contracts_ok cs ws" and "wKey w = wKey (ws ! k)" and "wAlive w"
  shows "contracts_ok cs (ws[k := w])"
  unfolding contracts_ok_def
proof (intro conjI allI impI)
  show "distinct (map fst cs)" using assms(1) by (simp add: contracts_ok_def)
  fix key j
  assume "(key, j) \<in> set cs"
  from contracts_okD [OF assms(1) this] assms(2,3)
  show "j < length (ws[k := w])" "wAlive (ws[k := w] ! j)" "wKey (ws[k := w] ! j) = key"
    by (cases "j = k"; simp)+
qed

lemma contracts_ok_end:
  assumes "contracts_ok cs ws"
  shows "contracts_ok (if map_of cs (wKey (ws ! k)) = Some k then AList.delete (wKey (ws ! k)) cs else cs) (ws[k := w])"
    (is "contracts_ok ?cs _")
  unfolding contracts_ok_def
proof (intro conjI allI impI)
  have "distinct (map fst cs)" using assms by (simp add: contracts_ok_def)
  then show "distinct (map fst ?cs)" by (simp add: distinct_delete)
  fix key j
  assume j: "(key, j) \<in> set ?cs"
  then have mem: "(key, j) \<in> set cs" by (auto simp: AList.delete_eq split: if_splits)
  note m = contracts_okD [OF assms mem]
  have "j \<noteq> k" using j m by (auto simp: AList.delete_eq split: if_splits)
  then show "j < length (ws[k := w])" "wAlive (ws[k := w] ! j)" "wKey (ws[k := w] ! j) = key" using m by simp_all
qed

lemma output_count_users: "outputs_ok (ixOutputs i) ws \<Longrightarrow> output_count i c = users c ws"
  by (simp add: outputs_ok_def output_count_def)

lemma indexer_ok_register:
  assumes "indexer_ok hex i" and "map_of (ixContracts i) (key_of hex c) = None"
    and "ciEventChan c \<notin> set (ixClosed i)" and "ciAlive c" and "ciSub c"
  shows "indexer_ok hex (register hex c i)"
proof -
  let ?ws = "workers hex i" and ?w = "worker_of hex c"
  have ok: "contracts_ok (ixContracts i) ?ws" "outputs_ok (ixOutputs i) ?ws" "counters_ok i ?ws" "channels_ok i ?ws"
    using assms(1) by (simp_all add: indexer_ok_def)
  have ws: "workers hex (register hex c i) = ?ws @ [?w]" by (simp add: register_def)
  have "contracts_ok (AList.update (key_of hex c) (length ?ws) (ixContracts i)) (?ws @ [?w])"
    using contracts_ok_snoc [OF ok(1), of ?w] assms(4) by simp
  moreover have "outputs_ok (AList.update (ciEventChan c) (output_count i (ciEventChan c) + 1) (ixOutputs i)) (?ws @ [?w])"
    using ok(2) assms(4) output_count_users [OF ok(2)] users_simps(4) [of "ciEventChan c" ?ws]
    by (auto simp: outputs_ok_def update_conv' simp del: users_simps(4))
  moreover have "counters_ok (register hex c i) (?ws @ [?w])"
    using ok(3) assms(4,5) by (auto simp: counters_ok_def register_def)
  moreover have "channels_ok (register hex c i) (?ws @ [?w])"
    using ok(4) assms(3) by (auto simp: channels_ok_def register_def)
  ultimately show ?thesis unfolding indexer_ok_def ws by (simp add: register_def)
qed

text \<open>Registering the contracts of one call: different chains have different keys.\<close>

lemma register_frame [simp]: "ixClosed (register hex c i) = ixClosed i" "ixStopped (register hex c i) = ixStopped i"
  "map_of (ixContracts (register hex c i)) key = (if key = key_of hex c then Some (length (ixInfos i)) else map_of (ixContracts i) key)"
  by (auto simp: register_def update_conv')

lemma indexer_ok_register_all:
  assumes "indexer_ok hex i" and "distinct (map (key_of hex) cs)"
    and "\<And>c. c \<in> set cs \<Longrightarrow> map_of (ixContracts i) (key_of hex c) = None \<and> ciEventChan c \<notin> set (ixClosed i) \<and> ciAlive c \<and> ciSub c"
  shows "indexer_ok hex (fold (register hex) cs i)"
  using assms
proof (induction cs arbitrary: i)
  case (Cons c cs)
  have "indexer_ok hex (register hex c i)"
    using Cons.prems by (intro indexer_ok_register) auto
  then show ?case using Cons.prems by (auto intro!: Cons.IH simp: image_iff)
qed simp

lemma end_worker_state:
  assumes "alive k i"
  defines "c \<equiv> ixInfos i ! k"
  shows "workers hex (end_worker hex k i) = (workers hex i)[k := Worker (key_of hex c) (ciEventChan c) False False]"
    and "ixContracts (end_worker hex k i) = (if map_of (ixContracts i) (key_of hex c) = Some k
      then AList.delete (key_of hex c) (ixContracts i) else ixContracts i)"
    and "ixWg (end_worker hex k i) = ixWg i - 1"
    and "ixOpenSubs (end_worker hex k i) = ixOpenSubs i - (if ciSub c then 1 else 0)"
    and "ixWatching (end_worker hex k i) = ixWatching i" "ixStarted (end_worker hex k i) = ixStarted i" "ixStopped (end_worker hex k i) = ixStopped i"
    and "ixOutputs (end_worker hex k i) = (if output_count i (ciEventChan c) = 1
      then AList.delete (ciEventChan c) (ixOutputs i)
      else AList.update (ciEventChan c) (output_count i (ciEventChan c) - 1) (ixOutputs i))"
    and "ixPanic (end_worker hex k i) = (ixPanic i \<or> output_count i (ciEventChan c) = 1 \<and> ciEventChan c \<in> set (ixClosed i))"
    and "ixClosed (end_worker hex k i) = (if output_count i (ciEventChan c) = 1 \<and> ciEventChan c \<notin> set (ixClosed i)
      then ciEventChan c # ixClosed i else ixClosed i)"
  unfolding c_def
  by (auto simp: end_worker_def release_output_def close_channel_def output_count_def Let_def map_update
      worker_of_def key_of_def)

lemma indexer_ok_end:
  assumes "indexer_ok hex i" and "alive k i"
  shows "indexer_ok hex (end_worker hex k i)"
proof -
  let ?ws = "workers hex i" and ?c = "ixInfos i ! k"
  let ?ws' = "?ws[k := Worker (key_of hex ?c) (ciEventChan ?c) False False]"
  have ok: "contracts_ok (ixContracts i) ?ws" "outputs_ok (ixOutputs i) ?ws" "counters_ok i ?ws" "channels_ok i ?ws"
    using assms(1) by (simp_all add: indexer_ok_def)
  have k: "k < length ?ws" "k < length (ixInfos i)" "ciAlive ?c" using assms(2) by (simp_all add: alive_def)
  have key: "wKey (?ws ! k) = key_of hex ?c" using k by simp
  note st = end_worker_state [OF assms(2), of hex]
  have n: "output_count i (ciEventChan ?c) = users (ciEventChan ?c) ?ws" by (rule output_count_users [OF ok(2)])
  have pos: "0 < users (ciEventChan ?c) ?ws" using users_alive [OF k(1)] k by simp
  have users: "users d ?ws' = users d ?ws - (if d = ciEventChan ?c then 1 else 0)" for d
    using k by (simp add: users_update)
  have "contracts_ok (ixContracts (end_worker hex k i)) ?ws'"
    using contracts_ok_end [OF ok(1), of k "Worker (key_of hex ?c) (ciEventChan ?c) False False"] unfolding st key .
  moreover have "outputs_ok (ixOutputs (end_worker hex k i)) ?ws'"
    using ok(2) pos by (auto simp: outputs_ok_def st n users delete_conv' update_conv')
  moreover have "counters_ok (end_worker hex k i) ?ws'"
    using ok(3) k by (auto simp: counters_ok_def st tally_update dest!: set_update_subset_insert [THEN subsetD])
  moreover have "channels_ok (end_worker hex k i) ?ws'"
    using ok(4) pos by (auto simp: channels_ok_def st n users)
  ultimately show ?thesis by (simp add: indexer_ok_def st)
qed

text \<open>A step that changes the subscription of one worker.\<close>

lemma indexer_ok_sub:
  assumes "indexer_ok hex i" and "alive k i"
    and ws: "workers hex i' = (workers hex i)[k := Worker (key_of hex c) (ciEventChan c) b True]" and c: "c = ixInfos i ! k"
    and fr: "ixContracts i' = ixContracts i" "ixOutputs i' = ixOutputs i" "ixWg i' = ixWg i" "ixWatching i' = ixWatching i" "ixStarted i' = ixStarted i"
      "ixPanic i' = ixPanic i" "ixClosed i' = ixClosed i"
    and subs: "ixOpenSubs i' = ixOpenSubs i + (if b then 1 else 0) - (if ciSub c then 1 else 0)"
  shows "indexer_ok hex i'"
proof -
  let ?ws = "workers hex i"
  have k: "k < length ?ws" "k < length (ixInfos i)" "ciAlive (ixInfos i ! k)" using assms(2) by (simp_all add: alive_def)
  have users: "users d (workers hex i') = users d ?ws" for d using k c by (simp add: ws users_update)
  have "contracts_ok (ixContracts i) ?ws" using assms(1) by (simp add: indexer_ok_def)
  then have "contracts_ok (ixContracts i') (workers hex i')"
    unfolding fr ws by (rule contracts_ok_update) (use k c in simp_all)
  moreover have "counters_ok i' (workers hex i')"
    using assms(1) k c subs
    by (auto simp: indexer_ok_def counters_ok_def fr ws tally_update dest!: set_update_subset_insert [THEN subsetD])
  moreover have "outputs_ok (ixOutputs i') (workers hex i')"
    using assms(1) by (simp add: indexer_ok_def outputs_ok_def users fr)
  moreover have "channels_ok i' (workers hex i')"
    using assms(1) by (simp add: indexer_ok_def channels_ok_def users fr)
  ultimately show ?thesis by (simp add: indexer_ok_def)
qed

lemma indexer_ok_cong:
  assumes "indexer_ok hex i" and "workers hex i' = workers hex i" and "ixContracts i' = ixContracts i"
    and "ixOutputs i' = ixOutputs i" "ixWg i' = ixWg i" "ixWatching i' = ixWatching i" "ixStarted i' = ixStarted i" "ixPanic i' = ixPanic i"
    "ixClosed i' = ixClosed i" "ixOpenSubs i' = ixOpenSubs i"
  shows "indexer_ok hex i'"
  using assms by (simp add: indexer_ok_def counters_ok_def channels_ok_def)

lemma check_addresses_None:
  "check_addresses clients hex cs events xs = None \<Longrightarrow> (ch, a) \<in> set xs \<Longrightarrow>
    ch \<in> set clients \<and> map_of cs (getContractKey ch (hex a) events) = None"
  by (induction clients hex cs events xs rule: check_addresses.induct) (auto split: if_splits)

lemma subscribe_all_Inr: "subscribe_all dial made xs = Inr subs \<longleftrightarrow> subs = made @ xs \<and> (\<forall>ca \<in> set xs. dial (fst ca) = None)"
  by (induction dial made xs rule: subscribe_all.induct) (auto split: option.splits)

lemma key_of_new [simp]: "key_of hex (new_contract events ch ca) = getContractKey (fst ca) (hex (snd ca)) events"
  by (simp add: key_of_def new_contract_def)

text \<open>The chain identifier can be read off a key.\<close>

lemma dec_nat_no_underscore: "CHR ''_'' \<notin> set (dec_nat n)"
  using dec_nat_digits [of "CHR ''_''" n] by (auto simp: is_digit_def less_eq_char_iff)

lemma split_at_sep:
  assumes "xs @ c # ys = us @ c # vs" and "c \<notin> set xs" and "c \<notin> set us"
  shows "xs = us \<and> ys = vs"
  using assms
proof (induction xs arbitrary: us)
  case Nil
  then show ?case by (cases us) auto
next
  case (Cons x xs)
  then show ?case by (cases us) auto
qed

lemma getContractKey_chain:
  assumes "getContractKey c a es = getContractKey c' a' es'"
  shows "c = c' \<and> a @ ''_'' @ join '','' (map hash_hex es) = a' @ ''_'' @ join '','' (map hash_hex es')"
proof -
  have "dec_nat (unat c) @ CHR ''_'' # (a @ ''_'' @ join '','' (map hash_hex es)) =
      dec_nat (unat c') @ CHR ''_'' # (a' @ ''_'' @ join '','' (map hash_hex es'))"
    using assms by (simp add: getContractKey_def)
  from split_at_sep [OF this dec_nat_no_underscore dec_nat_no_underscore] show ?thesis
    by (auto simp: dec_nat_inj intro: unsigned_word_eqI)
qed

lemma indexer_ok_add:
  assumes "indexer_ok hex i" and "mset addresses1 = mset addresses2" and "distinct (map fst addresses1)"
    and "eventChan \<notin> set (ixClosed i)"
  shows "indexer_ok hex (snd (AddContract clients hex dial addresses1 addresses2 events eventChan i))"
proof (cases "\<not> ixStopped i \<and> check_addresses clients hex (ixContracts i) events addresses1 = None \<and>
    (\<exists>subs. subscribe_all dial [] addresses2 = Inr subs)")
  case True
  then have subs: "subscribe_all dial [] addresses2 = Inr addresses2" by (auto simp: subscribe_all_Inr)
  have set: "set addresses1 = set addresses2" using assms(2) by (metis set_mset_mset)
  have d: "distinct (map fst addresses2)"
    using assms(2,3) by (metis mset_eq_imp_distinct_iff mset_map)
  let ?cs = "map (new_contract events eventChan) addresses2"
  have "distinct (map (key_of hex) ?cs)"
    using d by (induction addresses2) (auto dest: getContractKey_chain)
  moreover have "map_of (ixContracts i) (key_of hex c) = None \<and> ciEventChan c \<notin> set (ixClosed i) \<and> ciAlive c \<and> ciSub c"
    if mem: "c \<in> set ?cs" for c
  proof -
    obtain ca where c: "c = new_contract events eventChan ca" "ca \<in> set addresses1" using mem set by auto
    then have "map_of (ixContracts i) (getContractKey (fst ca) (hex (snd ca)) events) = None"
      using check_addresses_None [of clients hex "ixContracts i" events addresses1 "fst ca" "snd ca"] True by simp
    then show ?thesis using c assms(4) by (simp, simp add: new_contract_def)
  qed
  ultimately have "indexer_ok hex (fold (register hex) ?cs i)"
    using assms(1) by (intro indexer_ok_register_all) auto
  then show ?thesis using True subs by (simp add: AddContract_def)
next
  case False
  then show ?thesis using assms(1) by (auto simp: AddContract_def split: option.splits sum.splits)
qed

lemma reportError_frame [simp]:
  "ixInfos (reportError b hex c op e i) = ixInfos i" "ixContracts (reportError b hex c op e i) = ixContracts i"
  "ixOutputs (reportError b hex c op e i) = ixOutputs i" "ixWg (reportError b hex c op e i) = ixWg i"
  "ixWatching (reportError b hex c op e i) = ixWatching i" "ixPanic (reportError b hex c op e i) = ixPanic i"
  "ixClosed (reportError b hex c op e i) = ixClosed i" "ixOpenSubs (reportError b hex c op e i) = ixOpenSubs i"
  "ixStopped (reportError b hex c op e i) = ixStopped i" "ixStarted (reportError b hex c op e i) = ixStarted i"
  by (simp_all add: reportError_def)

lemma indexer_ok_retry:
  assumes "indexer_ok hex i" and "alive k i"
  shows "indexer_ok hex (worker_retry b hex dial k i)"
proof (rule indexer_ok_sub [OF assms _ refl])
  let ?c = "ixInfos i ! k"
  show "workers hex (worker_retry b hex dial k i) =
      (workers hex i)[k := Worker (key_of hex ?c) (ciEventChan ?c) (ciSub ?c \<or> dial = None) True]"
    using assms(2) by (auto simp: worker_retry_def Let_def map_update worker_of_def key_of_def alive_def split: option.splits)
qed (auto simp: worker_retry_def Let_def split: option.splits)

lemma indexer_ok_failed:
  assumes "indexer_ok hex i" and "alive k i" and "ciSub (ixInfos i ! k)"
  shows "indexer_ok hex (worker_failed b hex err k i)"
proof (rule indexer_ok_sub [OF assms(1,2) _ refl])
  let ?c = "ixInfos i ! k"
  show "workers hex (worker_failed b hex err k i) = (workers hex i)[k := Worker (key_of hex ?c) (ciEventChan ?c) False True]"
    using assms(2) by (simp add: worker_failed_def Let_def map_update worker_of_def key_of_def alive_def)
qed (use assms(3) in \<open>auto simp: worker_failed_def Let_def\<close>)

lemma indexer_ok_log:
  assumes "indexer_ok hex i" and "alive k i"
  shows "indexer_ok hex (worker_log raw k i)"
proof -
  have "0 < users (ciEventChan (ixInfos i ! k)) (workers hex i)"
    using assms(2) users_alive [of k "workers hex i"] by (simp add: alive_def)
  then have "ciEventChan (ixInfos i ! k) \<notin> set (ixClosed i)"
    using assms(1) by (auto simp: indexer_ok_def channels_ok_def)
  then show ?thesis by (auto simp: worker_log_def Let_def intro: indexer_ok_cong [OF assms(1)])
qed

lemma indexer_ok_shutdown: "indexer_ok hex i \<Longrightarrow> indexer_ok hex (shutdown i)"
  by (erule indexer_ok_cong) (auto simp: shutdown_def Let_def)

lemma indexer_ok_step: "indexer_step clients hex handler i i' \<Longrightarrow> indexer_ok hex i \<Longrightarrow> indexer_ok hex i'"
proof (induction rule: indexer_step.induct)
  case (Start i)
  then show ?case by (auto simp: Start_def indexer_ok_def counters_ok_def channels_ok_def)
next
  case (Remove i chainIDs addr)
  then show ?case
    by (simp add: RemoveContract_def Let_def indexer_ok_def counters_ok_def channels_ok_def contracts_ok_filter)
next
  case (Tick i)
  then show ?case by (auto simp: watch_tick_def intro: indexer_ok_cong)
next
  case (WatchStopped i)
  then show ?case by (auto simp: watch_exit_def indexer_ok_def counters_ok_def channels_ok_def)
next
  case (WatchDone i)
  then have "indexer_ok hex (shutdown i)" "ixWatching (shutdown i)"
    by (simp_all add: indexer_ok_shutdown) (simp add: shutdown_def Let_def)
  then show ?case by (auto simp: watch_exit_def indexer_ok_def counters_ok_def channels_ok_def)
next
  case (Cancel i)
  then show ?case by (rule indexer_ok_cong) simp_all
next
  case (ContextEnds k i)
  from ContextEnds(2) show ?case by (rule indexer_ok_cong) simp_all
qed (auto intro: indexer_ok_shutdown indexer_ok_add indexer_ok_retry indexer_ok_failed indexer_ok_log indexer_ok_end)

lemma indexer_ok_reachable: "indexer_reachable clients hex handler interval i \<Longrightarrow> indexer_ok hex i"
proof (induction rule: indexer_reachable.induct)
  case init
  show ?case
    by (simp add: NewIndexer_def indexer_ok_def contracts_ok_def outputs_ok_def counters_ok_def channels_ok_def)
next
  case (step i i')
  then show ?case by (blast intro: indexer_ok_step)
qed

section \<open>Properties\<close>


text \<open>
  The bookkeeping counts what runs: in every reachable state the wait group is the number of
  running goroutines, the open subscriptions are exactly those the running goroutines hold, the
  use count of a channel is the number of running goroutines that send to it, and every
  registered key leads to a running goroutine of a contract with that key.
\<close>

theorem indexer_bookkeeping:
  assumes "indexer_reachable clients hex handler interval i"
  shows "ixWg i = tally ciAlive (ixInfos i) + (if ixWatching i then 1 else 0) \<and>
    ixOpenSubs i = tally (\<lambda>c. ciAlive c \<and> ciSub c) (ixInfos i) \<and>
    (\<forall>ch. output_count i ch = tally (\<lambda>c. ciAlive c \<and> ciEventChan c = ch) (ixInfos i)) \<and>
    (\<forall>key k. map_of (ixContracts i) key = Some k \<longrightarrow> alive k i \<and> key_of hex (ixInfos i ! k) = key)"
proof -
  note ok = indexer_ok_reachable [OF assms, unfolded indexer_ok_def]
  have map: "tally P (workers hex i) = tally (\<lambda>c. P (worker_of hex c)) (ixInfos i)" for P
    by (simp add: tally_def filter_map o_def)
  have sub: "ciSub c \<Longrightarrow> ciAlive c" if "c \<in> set (ixInfos i)" for c
    using ok that by (auto simp: counters_ok_def)
  have "tally ciSub (ixInfos i) = tally (\<lambda>c. ciAlive c \<and> ciSub c) (ixInfos i)"
    unfolding tally_def by (metis (mono_tags, lifting) filter_cong sub)
  moreover have "output_count i ch = tally (\<lambda>c. ciAlive c \<and> ciEventChan c = ch) (ixInfos i)" for ch
    using ok output_count_users [of i "workers hex i" ch] by (simp add: users_def map)
  moreover have "alive k i \<and> key_of hex (ixInfos i ! k) = key" if "map_of (ixContracts i) key = Some k" for key k
    using ok contracts_okD [of "ixContracts i" "workers hex i" key k] map_of_SomeD [OF that] by (simp add: alive_def)
  ultimately show ?thesis using ok by (simp add: counters_ok_def map)
qed

lemma length_hash_hex [simp]: "length (hash_hex h) = 66"
  by (simp add: hash_hex_def)

lemma join_hashes_inj: "join '','' (map hash_hex es) = join '','' (map hash_hex es') \<Longrightarrow> es = es'"
proof (induction es arbitrary: es')
  case Nil
  show ?case
  proof (cases es')
    case (Cons e xs)
    then show ?thesis using arg_cong [OF Nil, of length] by (cases xs) simp_all
  qed simp
next
  case (Cons e es)
  have "es' \<noteq> []" using arg_cong [OF Cons.prems, of length] by (cases es) auto
  then obtain e' xs where es': "es' = e' # xs" by (cases es') auto
  have j: "join '','' (map hash_hex (f # fs)) = hash_hex f @ (if fs = [] then [] else CHR '','' # join '','' (map hash_hex fs))" for f fs
    by (cases fs) simp_all
  have "hash_hex e @ (if es = [] then [] else CHR '','' # join '','' (map hash_hex es)) =
      hash_hex e' @ (if xs = [] then [] else CHR '','' # join '','' (map hash_hex xs))"
    using Cons.prems unfolding es' j .
  then have "hash_hex e = hash_hex e'" and tl: "(if es = [] then [] else CHR '','' # join '','' (map hash_hex es)) =
      (if xs = [] then [] else CHR '','' # join '','' (map hash_hex xs))"
    by (simp_all only: append_eq_append_conv length_hash_hex refl disj_not1 simp_thms)
  moreover have "es = xs" using tl Cons.IH by (auto split: if_splits)
  ultimately show ?case using es' by simp
qed

text \<open>
  Keys identify registrations: two registrations have the same key exactly if they are of the
  same chain, address and list of events, given that \<open>Address.Hex\<close> is injective with a fixed
  length.
\<close>

theorem contract_keys_injective:
  assumes "inj hex" and "\<forall>a. length (hex a) = 42"
  shows "key_of hex c = key_of hex d \<longleftrightarrow>
    ciChainID c = ciChainID d \<and> ciAddress c = ciAddress d \<and> ciEvents c = ciEvents d"
proof
  assume "key_of hex c = key_of hex d"
  then have "ciChainID c = ciChainID d" and
    k: "hex (ciAddress c) @ ''_'' @ join '','' (map hash_hex (ciEvents c)) = hex (ciAddress d) @ ''_'' @ join '','' (map hash_hex (ciEvents d))"
    unfolding key_of_def by (auto dest: getContractKey_chain)
  moreover have "hex (ciAddress c) = hex (ciAddress d)" "join '','' (map hash_hex (ciEvents c)) = join '','' (map hash_hex (ciEvents d))"
    using k assms(2) by (simp_all add: append_eq_append_conv)
  ultimately show "ciChainID c = ciChainID d \<and> ciAddress c = ciAddress d \<and> ciEvents c = ciEvents d"
    using assms(1) join_hashes_inj by (auto dest: injD)
qed (simp add: key_of_def)

lemma stopped_step:
  assumes "indexer_step clients hex handler i i'" and "ixStopped i" and "indexer_ok hex i"
  shows "ixStopped i' \<and> ixWg i' \<le> ixWg i"
  using assms
proof (cases rule: indexer_step.cases)
  case (WorkerEnds k)
  then show ?thesis using assms(2) end_worker_state(3,7) [OF WorkerEnds(2), of hex] by simp
next
  case (Retry k dial1)
  then show ?thesis using assms(2) by (auto simp: worker_retry_def Let_def split: option.splits)
qed (auto simp: Start_def shutdown_def AddContract_def RemoveContract_def watch_tick_def watch_exit_def worker_failed_def
    worker_log_def Let_def)


lemma register_infos: "ixInfos (fold (register hex) cs i) = ixInfos i @ cs"
  by (induction cs arbitrary: i) (simp_all add: register_def)

lemma register_all_lookup:
  assumes "distinct (map (key_of hex) cs)" and "c \<in> set cs"
  shows "\<exists>k. map_of (ixContracts (fold (register hex) cs i)) (key_of hex c) = Some k \<and>
    ixInfos (fold (register hex) cs i) ! k = c"
  using assms
proof (induction cs arbitrary: i)
  case (Cons d cs)
  show ?case
  proof (cases "c = d")
    case True
    have "map_of (ixContracts (fold (register hex) cs j)) key = map_of (ixContracts j) key"
      if "key \<notin> key_of hex ` set cs" for j key
      using that by (induction cs arbitrary: j) auto
    moreover have "ixInfos (register hex d i) = ixInfos i @ [d]" by (simp add: register_def)
    ultimately show ?thesis using Cons.prems True by (simp add: register_infos nth_append)
  next
    case False
    then show ?thesis using Cons by simp
  qed
qed simp

text \<open>
  \<open>AddContract\<close> is all or nothing: with an error the indexer is unchanged, no subscription is
  left open and no goroutine runs; without one, every chain of the call is registered under its
  key, was known and free, and has a running goroutine that sends to the given channel.
\<close>

theorem AddContract_atomic:
  assumes "AddContract clients hex dial addresses1 addresses2 events eventChan i = (err, i')"
    and "mset addresses1 = mset addresses2" and "distinct (map fst addresses1)"
  shows "(err \<noteq> None \<longrightarrow> i' = i) \<and>
    (err = None \<longrightarrow> \<not> ixStopped i \<and> ixOpenSubs i' = ixOpenSubs i + int (length addresses1) \<and>
      (\<forall>(chainID, a) \<in> set addresses1. chainID \<in> set clients \<and> dial chainID = None \<and>
        map_of (ixContracts i) (getContractKey chainID (hex a) events) = None \<and>
        (\<exists>k. map_of (ixContracts i') (getContractKey chainID (hex a) events) = Some k \<and>
          ixInfos i' ! k = new_contract events eventChan (chainID, a))))"
proof (cases err)
  case (Some e)
  then show ?thesis using assms(1) by (auto simp: AddContract_def split: if_splits option.splits sum.splits)
next
  case None
  let ?cs = "map (new_contract events eventChan) addresses2"
  have ok: "\<not> ixStopped i" "check_addresses clients hex (ixContracts i) events addresses1 = None"
    "\<forall>ca \<in> set addresses2. dial (fst ca) = None" "i' = fold (register hex) ?cs i"
    using assms(1) None by (auto simp: AddContract_def subscribe_all_Inr split: if_splits option.splits sum.splits)
  have set: "set addresses1 = set addresses2" "length addresses1 = length addresses2"
    using assms(2) by (metis set_mset_mset, metis size_mset)
  have "distinct (map fst addresses2)" using assms(2,3) by (metis mset_eq_imp_distinct_iff mset_map)
  then have d: "distinct (map (key_of hex) ?cs)"
    by (induction addresses2) (auto dest: getContractKey_chain)
  have "ixOpenSubs (fold (register hex) cs j) = ixOpenSubs j + int (length cs)" for cs j
    by (induction cs arbitrary: j) (simp_all add: register_def)
  moreover have "\<exists>k. map_of (ixContracts i') (getContractKey ch (hex a) events) = Some k \<and>
      ixInfos i' ! k = new_contract events eventChan (ch, a)" if "(ch, a) \<in> set addresses1" for ch a
    using register_all_lookup [OF d, of "new_contract events eventChan (ch, a)" i] that set by (simp add: ok(4))
  ultimately show ?thesis
    using None ok set check_addresses_None [OF ok(2)] by auto
qed

section \<open>An example\<close>

definition ex_hex :: "address \<Rightarrow> string" where
  "ex_hex a = ''0x'' @ hex_nat 40 (unat a)"

definition ex_added :: indexer where
  "ex_added = snd (AddContract [1, 10] ex_hex (\<lambda>_. None) [(1, 5)] [(1, 5)] [] 7 (NewIndexer defaultReconnectInterval))"

definition ex_stopped :: indexer where
  "ex_stopped = shutdown ex_added"

definition ex_ended :: indexer where
  "ex_ended = end_worker ex_hex 0 ex_stopped"

lemmas ex_indexer_defs = ex_added_def ex_stopped_def ex_ended_def AddContract_def NewIndexer_def register_def shutdown_def
  new_contract_def output_count_def end_worker_def release_output_def close_channel_def cancel_info_def key_of_def alive_def

lemma ex_reach:
  "indexer_reachable [1, 10] ex_hex True defaultReconnectInterval ex_added"
  "indexer_reachable [1, 10] ex_hex True defaultReconnectInterval ex_stopped"
  "indexer_reachable [1, 10] ex_hex True defaultReconnectInterval ex_ended"
proof -
  let ?R = "indexer_reachable [1, 10] ex_hex True defaultReconnectInterval"
  show 1: "?R ex_added"
    unfolding ex_added_def
    by (rule indexer_reachable.step [OF indexer_reachable.init], rule indexer_step.Add) (simp_all add: NewIndexer_def)
  show 2: "?R ex_stopped"
    unfolding ex_stopped_def by (rule indexer_reachable.step [OF 1], rule indexer_step.Shutdown)
  show "?R ex_ended"
    unfolding ex_ended_def by (rule indexer_reachable.step [OF 2], rule indexer_step.WorkerEnds)
      (simp_all add: ex_indexer_defs Let_def)
qed


theorem indexer_bookkeeping_witness: "ixWg ex_added = 1 \<and> output_count ex_added 7 = 1"
  using indexer_bookkeeping [OF ex_reach(1)] by (simp add: ex_indexer_defs Let_def)


theorem contract_keys_injective_witness:
  "key_of ex_hex (new_contract [] 7 (1, 5)) \<noteq> key_of ex_hex (new_contract [] 7 (10, 5))"
proof -
  have "unat (a :: address) < 16 ^ 40" for a using unsigned_less [of a] by simp
  then have "inj ex_hex" unfolding inj_def ex_hex_def by (metis hex_nat_inj same_append_eq word_unat_eq_iff)
  then show ?thesis
    using contract_keys_injective [of ex_hex "new_contract [] 7 (1, 5)" "new_contract [] 7 (10, 5)"]
    by (simp add: ex_hex_def) (simp add: new_contract_def)
qed

theorem AddContract_atomic_witness:
  "fst (AddContract [1, 10] ex_hex (\<lambda>_. None) [(1, 5)] [(1, 5)] [] 7 ex_added) \<noteq> None \<and>
   snd (AddContract [1, 10] ex_hex (\<lambda>_. None) [(1, 5)] [(1, 5)] [] 7 ex_added) = ex_added"
proof -
  obtain err i' where e: "AddContract [1, 10] ex_hex (\<lambda>_. None) [(1, 5)] [(1, 5)] [] 7 ex_added = (err, i')"
    by (metis prod.exhaust)
  moreover have "fst (AddContract [1, 10] ex_hex (\<lambda>_. None) [(1, 5)] [(1, 5)] [] 7 ex_added) \<noteq> None"
    by (simp add: ex_indexer_defs)
  ultimately show ?thesis using AddContract_atomic [OF e] by simp
qed

end
