(* ===== verification/Backoff.thy ===== *)
theory Backoff
  imports Go_Errors
begin

text \<open>
  \<open>pkg/backoff/backoff.go\<close>: retries with exponentially growing waits. The action is a parameter
  over a state of its own; it returns an error or none, and whether to retry. The result
  lists the waits, so that what the loop slept is part of what it computes.
\<close>

section \<open>The two loops\<close>

type_synonym 's backoff_action = "'s \<Rightarrow> (go_error option \<times> bool) \<times> 's"

function exponential_loop :: "'s backoff_action \<Rightarrow> u64 \<Rightarrow> u64 \<Rightarrow> duration \<Rightarrow> go_error option \<Rightarrow> 's \<Rightarrow>
    duration list \<Rightarrow> go_error option \<times> duration list \<times> 's" where
  "exponential_loop action i limit wait err s ws =
     (if i < limit then
        (case action s of ((err, retry), s) \<Rightarrow>
           if err = None then (None, ws, s)
           else if \<not> retry then (err, ws, s)
           else if i < limit - 1 then exponential_loop action (i + 1) limit (wrap_i64 (wait * 2)) err s (ws @ [wait])
           else exponential_loop action (i + 1) limit wait err s ws)
      else (err, ws, s))"
  by pat_completeness auto

definition Exponential :: "'s backoff_action \<Rightarrow> u64 \<Rightarrow> duration \<Rightarrow> 's \<Rightarrow> go_error option \<times> duration list \<times> 's" where
  "Exponential action limit wait s = exponential_loop action 0 limit wait None s []"

text \<open>
  The \<open>k\<close>-th wait ends early, with the context's error, when \<open>interrupted k\<close> is one: the
  \<open>select\<close> then took the context's branch.
\<close>

function exponential_ctx_loop :: "(nat \<Rightarrow> go_error option) \<Rightarrow> 's backoff_action \<Rightarrow> u64 \<Rightarrow> u64 \<Rightarrow> duration \<Rightarrow>
    go_error option \<Rightarrow> 's \<Rightarrow> duration list \<Rightarrow> go_error option \<times> duration list \<times> 's" where
  "exponential_ctx_loop interrupted action i limit wait err s ws =
     (if i < limit then
        (case action s of ((err, retry), s) \<Rightarrow>
           if err = None then (None, ws, s)
           else if \<not> retry then (err, ws, s)
           else if i < limit - 1 then
             (case interrupted (length ws) of
                Some ctxErr \<Rightarrow> (Some (wrap2 ctxErr (the err)), ws, s)
              | None \<Rightarrow> exponential_ctx_loop interrupted action (i + 1) limit (wrap_i64 (wait * 2)) err s (ws @ [wait]))
           else exponential_ctx_loop interrupted action (i + 1) limit wait err s ws)
      else (err, ws, s))"
  by pat_completeness auto

text \<open>The counter is a machine integer, and it reaches \<open>limit\<close> without wrapping.\<close>

lemma unat_Suc_below: "i < limit \<Longrightarrow> unat (i + 1) = Suc (unat i)" for i limit :: u64
proof -
  assume "i < limit"
  then have "unat i < unat limit" by (simp add: word_less_nat_alt)
  moreover have "unat limit < 2 ^ 64" using unsigned_less [of limit] by simp
  ultimately have "Suc (unat i) < 2 ^ 64" by linarith
  then show ?thesis by (simp add: unat_plus_if')
qed

lemma unat_pred_above: "i < limit \<Longrightarrow> i < limit - 1 \<longleftrightarrow> Suc (unat i) < unat limit" for i limit :: u64
  by (simp add: word_less_nat_alt unat_sub_if' less_diff_conv)

termination exponential_loop
  by (relation "measure (\<lambda>(_, i, limit, _). unat limit - unat i)")
    (auto simp: unat_Suc_below word_less_nat_alt diff_less_mono2)

termination exponential_ctx_loop
  by (relation "measure (\<lambda>(_, _, i, limit, _). unat limit - unat i)")
    (auto simp: unat_Suc_below word_less_nat_alt diff_less_mono2)

definition ExponentialWithContext :: "(nat \<Rightarrow> go_error option) \<Rightarrow> 's backoff_action \<Rightarrow> u64 \<Rightarrow> duration \<Rightarrow> 's \<Rightarrow>
    go_error option \<times> duration list \<times> 's" where
  "ExponentialWithContext interrupted action limit wait s = exponential_ctx_loop interrupted action 0 limit wait None s []"

declare exponential_loop.simps [simp del] exponential_ctx_loop.simps [simp del]

section \<open>What they do\<close>

text \<open>The results of the calls, and the state after \<open>n\<close> of them.\<close>

definition after_calls :: "'s backoff_action \<Rightarrow> nat \<Rightarrow> 's \<Rightarrow> 's" where
  "after_calls action n s = ((\<lambda>s. snd (action s)) ^^ n) s"

definition call :: "'s backoff_action \<Rightarrow> nat \<Rightarrow> 's \<Rightarrow> go_error option \<times> bool" where
  "call action k s = fst (action (after_calls action k s))"

definition retryable :: "go_error option \<times> bool \<Rightarrow> bool" where
  "retryable r \<longleftrightarrow> fst r \<noteq> None \<and> snd r"

text \<open>The number of calls out of at most \<open>n\<close>: up to the first that succeeded or is not to be retried.\<close>

fun calls_made :: "'s backoff_action \<Rightarrow> nat \<Rightarrow> 's \<Rightarrow> nat" where
  "calls_made action 0 s = 0"
| "calls_made action (Suc n) s = (if retryable (call action 0 s) then Suc (calls_made action n (snd (action s))) else 1)"

lemma after_calls_simps [simp]:
  "after_calls action 0 s = s" "after_calls action (Suc n) s = after_calls action n (snd (action s))"
  by (simp_all add: after_calls_def funpow_Suc_right del: funpow.simps(2))

lemma call_simps [simp]:
  "call action 0 s = fst (action s)" "call action (Suc n) s = call action n (snd (action s))"
  by (simp_all add: call_def)

lemma calls_made_le: "calls_made action n s \<le> n"
  by (induction n arbitrary: s) auto

lemma calls_made_pos: "0 < n \<Longrightarrow> 0 < calls_made action n s"
  by (cases n) auto

lemma wrap_i64_mult: "wrap_i64 (wrap_i64 x * y) = wrap_i64 (x * y)"
proof -
  have "((x + 2 ^ 63) mod 2 ^ 64 - 2 ^ 63) * y mod 2 ^ 64 = x * y mod (2 ^ 64 :: int)"
    by (metis add_diff_cancel_right' mod_diff_left_eq mod_mult_left_eq)
  then show ?thesis unfolding wrap_i64_def by (metis mod_add_left_eq)
qed

lemma waits_Cons: "in_i64 wait \<Longrightarrow> 0 < n \<Longrightarrow>
    wait # map (\<lambda>j. wrap_i64 (wrap_i64 (wait * 2) * 2 ^ j)) [0..<n - 1] = map (\<lambda>j. wrap_i64 (wait * 2 ^ j)) [0..<n]"
  by (cases n) (simp_all add: map_upt_Suc wrap_i64_mult mult.assoc del: upt_Suc)

lemma exponential_loop_eq:
  assumes "in_i64 wait"
  shows "exponential_loop action i limit wait err s ws =
    (let n = calls_made action (unat limit - unat i) s
     in (if n = 0 then err else fst (call action (n - 1) s),
         ws @ map (\<lambda>j. wrap_i64 (wait * 2 ^ j)) [0..<n - 1], after_calls action n s))"
  using assms
proof (induction action i limit wait err s ws rule: exponential_loop.induct)
  case (1 action i limit wait err s ws)
  obtain e retry s1 where a: "action s = ((e, retry), s1)" by (metis prod.exhaust)
  show ?case
  proof (cases "i < limit \<and> e \<noteq> None \<and> retry")
    case False
    then show ?thesis
      using a by (cases "unat limit - unat i")
        (auto simp: exponential_loop.simps [of action i] retryable_def Let_def word_less_nat_alt)
  next
    case True
    then have i: "i < limit" and r: "retryable (e, retry)" by (auto simp: retryable_def)
    then obtain x where e: "e = Some x" "retry" by (auto simp: retryable_def)
    obtain m where m: "unat limit - unat i = Suc m" "unat limit - unat (i + 1) = m"
      using i by (cases "unat limit - unat i") (auto simp: unat_Suc_below word_less_nat_alt)
    show ?thesis
    proof (cases "i < limit - 1")
      case True
      have "0 < m" using True i m unat_pred_above [OF i] by auto
      then have n: "0 < calls_made action m s1" by (rule calls_made_pos)
      have "exponential_loop action i limit wait err s ws =
          exponential_loop action (i + 1) limit (wrap_i64 (wait * 2)) e s1 (ws @ [wait])"
        using a i e True by (simp add: exponential_loop.simps [of action i])
      also have "\<dots> = (let n = calls_made action m s1
          in (if n = 0 then e else fst (call action (n - 1) s1),
            (ws @ [wait]) @ map (\<lambda>j. wrap_i64 (wrap_i64 (wait * 2) * 2 ^ j)) [0..<n - 1], after_calls action n s1))"
        using 1(1) [OF i a [symmetric] refl] True e m by simp
      finally show ?thesis
        using n waits_Cons [OF "1.prems" n] a r m by (simp add: Let_def) (metis Suc_pred call_simps(2) snd_conv)
    next
      case False
      then have "m = 0" using i m unat_pred_above [OF i] by auto
      then show ?thesis
        using a i e m False by (simp add: exponential_loop.simps [of action i] exponential_loop.simps [of action "i + 1"]
            retryable_def Let_def word_less_nat_alt)
    qed
  qed
qed

lemma find_map_Suc: "find P (map Suc xs) = map_option Suc (find (\<lambda>k. P (Suc k)) xs)"
  by (induction xs) auto

lemma find_upt_Suc: "0 < n \<Longrightarrow>
    find P [0..<n] = (if P 0 then Some 0 else map_option Suc (find (\<lambda>k. P (Suc k)) [0..<n - 1]))"
  by (cases n) (simp_all add: upt_conv_Cons find_map_Suc flip: map_Suc_upt del: upt_Suc)

text \<open>The outcome of the loop that would make \<open>n\<close> calls if no wait were interrupted.\<close>

definition ctx_result :: "(nat \<Rightarrow> go_error option) \<Rightarrow> 's backoff_action \<Rightarrow> nat \<Rightarrow> duration \<Rightarrow> go_error option \<Rightarrow> 's \<Rightarrow>
    duration list \<Rightarrow> go_error option \<times> duration list \<times> 's" where
  "ctx_result interrupted action n wait err s ws =
     (case find (\<lambda>k. interrupted (length ws + k) \<noteq> None) [0..<n - 1] of
        None \<Rightarrow> (if n = 0 then err else fst (call action (n - 1) s),
          ws @ map (\<lambda>j. wrap_i64 (wait * 2 ^ j)) [0..<n - 1], after_calls action n s)
      | Some k \<Rightarrow> (Some (wrap2 (the (interrupted (length ws + k))) (the (fst (call action k s)))),
          ws @ map (\<lambda>j. wrap_i64 (wait * 2 ^ j)) [0..<k], after_calls action (Suc k) s))"

lemma call_pred: "0 < n \<Longrightarrow> call action (n - 1) (snd (action s)) = call action n s"
  by (cases n) simp_all

lemma ctx_result_step:
  assumes "0 < n" and "in_i64 wait" and "interrupted (length ws) = None"
  shows "ctx_result interrupted action n (wrap_i64 (wait * 2)) e (snd (action s)) (ws @ [wait]) =
    ctx_result interrupted action (Suc n) wait err s ws"
proof (cases "find (\<lambda>k. interrupted (Suc (length ws + k)) \<noteq> None) [0..<n - 1]")
  case None
  then show ?thesis
    using assms find_upt_Suc [OF assms(1), of "\<lambda>k. interrupted (length ws + k) \<noteq> None"]
      waits_Cons [OF assms(2,1)] call_pred [OF assms(1), of action s]
    by (simp add: ctx_result_def)
next
  case (Some k)
  then show ?thesis
    using assms find_upt_Suc [OF assms(1), of "\<lambda>k. interrupted (length ws + k) \<noteq> None"]
      waits_Cons [OF assms(2), of "Suc k"]
    by (simp add: ctx_result_def)
qed

lemma ctx_result_stop:
  assumes "0 < n" and "interrupted (length ws) = Some c"
  shows "ctx_result interrupted action (Suc n) wait err s ws =
    (Some (wrap2 c (the (fst (fst (action s))))), ws, snd (action s))"
  using assms find_upt_Suc [OF assms(1), of "\<lambda>k. interrupted (length ws + k) \<noteq> None"]
  by (simp add: ctx_result_def)

lemma ctx_result_one: "ctx_result interrupted action 1 wait err s ws = (fst (fst (action s)), ws, snd (action s))"
  "ctx_result interrupted action 0 wait err s ws = (err, ws, s)"
  by (simp_all add: ctx_result_def)

lemma exponential_ctx_loop_eq:
  assumes "in_i64 wait"
  shows "exponential_ctx_loop interrupted action i limit wait err s ws =
    ctx_result interrupted action (calls_made action (unat limit - unat i) s) wait err s ws"
  using assms
proof (induction interrupted action i limit wait err s ws rule: exponential_ctx_loop.induct)
  case (1 interrupted action i limit wait err s ws)
  obtain e retry s1 where a: "action s = ((e, retry), s1)" by (metis prod.exhaust)
  note unfold = exponential_ctx_loop.simps [of interrupted action i]
  show ?case
  proof (cases "i < limit")
    case False
    then show ?thesis by (simp add: unfold ctx_result_one word_less_nat_alt)
  next
    case i: True
    obtain m where m: "unat limit - unat i = Suc m" "unat limit - unat (i + 1) = m"
      using i by (cases "unat limit - unat i") (auto simp: unat_Suc_below word_less_nat_alt)
    show ?thesis
    proof (cases "e \<noteq> None \<and> retry")
      case False
      then show ?thesis using a i m by (auto simp: unfold retryable_def ctx_result_one [unfolded One_nat_def])
    next
      case True
      then obtain x where e: "e = Some x" "retry" by auto
      show ?thesis
      proof (cases "i < limit - 1")
        case True
        then have "0 < m" using i m unat_pred_above [OF i] by auto
        then have n: "0 < calls_made action m s1" by (rule calls_made_pos)
        show ?thesis
        proof (cases "interrupted (length ws)")
          case (Some c)
          then show ?thesis
            using a i e True m ctx_result_stop [where interrupted = interrupted and ws = ws, OF n Some, of action wait err s] by (simp add: unfold retryable_def)
        next
          case None
          have "exponential_ctx_loop interrupted action (i + 1) limit (wrap_i64 (wait * 2)) e s1 (ws @ [wait]) =
              ctx_result interrupted action (calls_made action m s1) (wrap_i64 (wait * 2)) e s1 (ws @ [wait])"
            using 1(1) [OF i a [symmetric] refl] True e None m by simp
          then show ?thesis
            using a i e True m None ctx_result_step [where interrupted = interrupted and ws = ws, OF n "1.prems" None, of action e s err]
            by (simp add: unfold retryable_def)
        qed
      next
        case False
        then have "m = 0" using i m unat_pred_above [OF i] by auto
        then show ?thesis
          using a i e m False by (simp add: unfold exponential_ctx_loop.simps [of interrupted action "i + 1"]
              retryable_def word_less_nat_alt ctx_result_one [unfolded One_nat_def])
      qed
    qed
  qed
qed

text \<open>
  C15. \<open>Exponential\<close> calls the action until it succeeds, reports an error that is not to be
  retried, or has been called \<open>limit\<close> times, and returns the error of the last call (none, if
  that succeeded or the limit is zero). Between two calls it waits, and the waits are the
  first one doubled each time, in the arithmetic of a 64-bit duration.
\<close>

theorem Exponential_calls:
  assumes "in_i64 wait"
  shows "Exponential action limit wait s =
    (let n = calls_made action (unat limit) s
     in (if n = 0 then None else fst (call action (n - 1) s),
         map (\<lambda>j. wrap_i64 (wait * 2 ^ j)) [0..<n - 1], after_calls action n s))"
  using exponential_loop_eq [OF assms, of action 0 limit None s "[]"] by (simp add: Exponential_def)

text \<open>
  \<open>ExponentialWithContext\<close> does the same as \<open>Exponential\<close> as long as no wait is interrupted;
  when the context ends during a wait it returns at once, without another call, an error that
  wraps the context's and the last one of the action.
\<close>

theorem ExponentialWithContext_calls:
  assumes "in_i64 wait"
  shows "ExponentialWithContext interrupted action limit wait s =
    (let n = calls_made action (unat limit) s
     in case find (\<lambda>k. interrupted k \<noteq> None) [0..<n - 1] of
          None \<Rightarrow> Exponential action limit wait s
        | Some k \<Rightarrow> (Some (wrap2 (the (interrupted k)) (the (fst (call action k s)))),
            map (\<lambda>j. wrap_i64 (wait * 2 ^ j)) [0..<k], after_calls action (Suc k) s))"
  using exponential_ctx_loop_eq [OF assms, of interrupted action 0 limit None s "[]"]
    exponential_loop_eq [OF assms, of action 0 limit None s "[]"]
  by (simp add: ExponentialWithContext_def Exponential_def ctx_result_def Let_def split: option.split)

section \<open>An example\<close>

text \<open>An action that answers from a list: two failures, then success.\<close>

definition ex_error :: go_error where
  "ex_error = errors_new None ''unavailable''"

definition ex_action :: "(go_error option \<times> bool) list backoff_action" where
  "ex_action rs = (case rs of [] \<Rightarrow> ((None, False), []) | r # rest \<Rightarrow> (r, rest))"

definition ex_answers :: "(go_error option \<times> bool) list" where
  "ex_answers = [(Some ex_error, True), (Some ex_error, True)]"

lemma ex_calls:
  "calls_made ex_action 5 ex_answers = 3" "call ex_action 2 ex_answers = (None, False)"
  "call ex_action 1 ex_answers = (Some ex_error, True)"
  "after_calls ex_action 3 ex_answers = []" "after_calls ex_action 2 ex_answers = []"
  by (simp_all add: ex_action_def ex_answers_def retryable_def eval_nat_numeral)

theorem Exponential_calls_witness:
  "Exponential ex_action 5 (2 * second) ex_answers = (None, [2 * second, 4 * second], [])"
  using Exponential_calls [of "2 * second" ex_action 5 ex_answers]
  by (simp add: ex_calls in_i64_def second_def upt_rec)

theorem ExponentialWithContext_calls_witness:
  "ExponentialWithContext (\<lambda>k. if k = 1 then Some ex_error else None) ex_action 5 (2 * second) ex_answers =
   (Some (wrap2 ex_error ex_error), [2 * second], [])"
  using ExponentialWithContext_calls [of "2 * second" "\<lambda>k. if k = 1 then Some ex_error else None" ex_action 5 ex_answers]
  by (simp add: ex_calls in_i64_def second_def upt_rec) (simp add: ex_action_def ex_answers_def)

end
