(* ===== verification/Go_Text.thy ===== *)
theory Go_Text
  imports Prelude "HOL-Library.Sublist"
begin

text \<open>
  Functions of Go's packages \<open>strings\<close> and \<open>strconv\<close> that several components use, on byte
  strings.
\<close>

section \<open>Functions\<close>

text \<open>The encodings of the runes that \<open>unicode.IsSpace\<close> accepts.\<close>

definition space_runes :: "string list" where
  "space_runes = map (map char_of) ([[9], [10], [11], [12], [13], [32], [0xC2, 0x85], [0xC2, 0xA0],
     [0xE1, 0x9A, 0x80]] @ map (\<lambda>b. [0xE2, 0x80, b]) [0x80..<0x8B] @
     [[0xE2, 0x80, 0xA8], [0xE2, 0x80, 0xA9], [0xE2, 0x80, 0xAF], [0xE2, 0x81, 0x9F], [0xE3, 0x80, 0x80 :: nat]])"

definition strip_rune :: "string list \<Rightarrow> string \<Rightarrow> string option" where
  "strip_rune runes s = (case find (\<lambda>r. prefix r s) runes of None \<Rightarrow> None | Some r \<Rightarrow> Some (drop (length r) s))"

fun strip_runes :: "nat \<Rightarrow> string list \<Rightarrow> string \<Rightarrow> string" where
  "strip_runes 0 runes s = s"
| "strip_runes (Suc k) runes s = (case strip_rune runes s of None \<Rightarrow> s | Some t \<Rightarrow> strip_runes k runes t)"

text \<open>\<open>strings.TrimSpace\<close>; every rune stripped is at least one byte, so the length is fuel enough.\<close>

definition TrimSpace :: "string \<Rightarrow> string" where
  "TrimSpace s =
     (let left = strip_runes (length s) space_runes s
      in rev (strip_runes (length left) (map rev space_runes) (rev left)))"

text \<open>\<open>strconv.Atoi\<close> on a 64-bit platform.\<close>

definition Atoi :: "string \<Rightarrow> int option" where
  "Atoi s =
     (let (neg, ds) = (case s of CHR ''-'' # t \<Rightarrow> (True, t) | CHR ''+'' # t \<Rightarrow> (False, t) | _ \<Rightarrow> (False, s));
          n = int (digits_val ds);
          v = (if neg then - n else n)
      in if ds = [] \<or> \<not> list_all is_digit ds \<or> \<not> in_i64 v then None else Some v)"

text \<open>\<open>strings.TrimRight\<close> with a one-byte cutset, and \<open>strings.Cut\<close> at a one-byte separator.\<close>

definition TrimRight :: "string \<Rightarrow> char \<Rightarrow> string" where
  "TrimRight s c = rev (dropWhile (\<lambda>d. d = c) (rev s))"

definition Cut :: "string \<Rightarrow> char \<Rightarrow> string \<times> string \<times> bool" where
  "Cut s c = (takeWhile (\<lambda>d. d \<noteq> c) s, tl (dropWhile (\<lambda>d. d \<noteq> c) s), c \<in> set s)"

text \<open>\<open>strings.Split\<close> at a one-byte separator, and \<open>strings.ContainsAny\<close>.\<close>

fun Split :: "string \<Rightarrow> char \<Rightarrow> string list" where
  "Split [] c = [[]]"
| "Split (x # xs) c =
     (if x = c then [] # Split xs c
      else case Split xs c of [] \<Rightarrow> [[x]] | p # ps \<Rightarrow> (x # p) # ps)"

definition ContainsAny :: "string \<Rightarrow> string \<Rightarrow> bool" where
  "ContainsAny s chars = list_ex (\<lambda>c. c \<in> set chars) s"

text \<open>\<open>big.Int.SetString\<close> with base 10: a sign is allowed, underscores are not.\<close>

definition SetString :: "string \<Rightarrow> int option" where
  "SetString s =
     (let neg = (s \<noteq> [] \<and> hd s = CHR ''-'');
          ds = (if s \<noteq> [] \<and> (hd s = CHR ''-'' \<or> hd s = CHR ''+'') then tl s else s)
      in if ds = [] \<or> \<not> list_all is_digit ds then None
         else Some (if neg then - int (digits_val ds) else int (digits_val ds)))"

section \<open>Digits and white space\<close>

text \<open>Printable ASCII characters neither start nor end a white space rune.\<close>

definition graphic :: "char \<Rightarrow> bool" where
  "graphic c \<longleftrightarrow> 33 \<le> (of_char c :: nat) \<and> (of_char c :: nat) \<le> 126"

lemma is_digit_graphic: "is_digit c \<Longrightarrow> graphic c"
  by (simp add: is_digit_def graphic_def less_eq_char_iff)

lemma space_runes_graphic:
  "list_all (\<lambda>r. r \<noteq> [] \<and> \<not> graphic (hd r)) space_runes"
  "list_all (\<lambda>r. r \<noteq> [] \<and> \<not> graphic (hd r)) (map rev space_runes)"
  by code_simp+

lemma strip_graphic:
  assumes "list_all (\<lambda>r. r \<noteq> [] \<and> \<not> graphic (hd r)) runes" and "t \<noteq> []" and "graphic (hd t)"
  shows "strip_runes k runes t = t"
proof -
  have "\<not> prefix r t" if "r \<in> set runes" for r
  proof -
    have "r \<noteq> []" "\<not> graphic (hd r)" using that assms(1) by (simp_all add: list_all_iff)
    with assms(2,3) show ?thesis by (metis hd_append2 prefix_def)
  qed
  then have "strip_rune runes t = None" by (auto simp: strip_rune_def find_None_iff split: option.splits)
  then show ?thesis by (cases k) auto
qed

lemma TrimSpace_graphic:
  assumes "s \<noteq> []" and "graphic (hd s)" and "graphic (last s)"
  shows "TrimSpace s = s"
proof -
  have "strip_runes k space_runes s = s" for k using assms by (intro strip_graphic [OF space_runes_graphic(1)])
  moreover have "strip_runes k (map rev space_runes) (rev s) = rev s" for k
    using assms by (intro strip_graphic [OF space_runes_graphic(2)]) (simp_all add: hd_rev)
  ultimately show ?thesis by (simp add: TrimSpace_def Let_def)
qed

lemma TrimSpace_digits:
  assumes "s \<noteq> []" and "\<And>c. c \<in> set s \<Longrightarrow> is_digit c"
  shows "TrimSpace s = s"
  using assms by (intro TrimSpace_graphic is_digit_graphic) simp_all

lemma TrimSpace_Nil [simp]: "TrimSpace [] = []"
  by (simp add: TrimSpace_def)

lemma Atoi_digits:
  assumes "s \<noteq> []" and "\<And>c. c \<in> set s \<Longrightarrow> is_digit c" and "int (digits_val s) < 2 ^ 63"
  shows "Atoi s = Some (int (digits_val s))"
proof -
  have "hd s \<noteq> CHR ''-''" "hd s \<noteq> CHR ''+''"
    using assms(2) [OF hd_in_set [OF assms(1)]] by (auto simp: is_digit_def less_eq_char_iff)
  then have "(case s of CHR ''-'' # t \<Rightarrow> (True, t) | CHR ''+'' # t \<Rightarrow> (False, t) | _ \<Rightarrow> (False, s)) = (False, s)"
    using assms(1) by (cases s) (auto split: list.splits char.splits bool.splits)
  moreover have "list_all is_digit s" using assms(2) by (simp add: list_all_iff)
  ultimately show ?thesis using assms(1,3) by (simp add: Atoi_def Let_def in_i64_def)
qed

lemma is_digit_no_sign: "is_digit c \<Longrightarrow> c \<noteq> CHR ''-'' \<and> c \<noteq> CHR ''+'' \<and> c \<noteq> CHR ''.''"
  by (auto simp: is_digit_def less_eq_char_iff)

lemma SetString_digits:
  assumes "s \<noteq> []" and "\<forall>c \<in> set s. is_digit c"
  shows "SetString s = Some (int (digits_val s))"
  using assms is_digit_no_sign [of "hd s"] by (simp add: SetString_def list_all_iff)

lemma Split_no_sep: "c \<notin> set s \<Longrightarrow> Split s c = [s]"
  by (induction s) auto

lemma Split_append: "c \<notin> set s \<Longrightarrow> Split (s @ c # t) c = s # Split t c"
  by (induction s) auto

lemma digits_val_append: "digits_val (s @ t) = digits_val s * 10 ^ length t + digits_val t"
proof (induction t rule: rev_induct)
  case (snoc c t)
  then show ?case using digits_val_snoc [of "s @ t" c] by (simp add: algebra_simps)
qed simp

lemma digits_val_zeros [simp]: "digits_val (replicate k (CHR ''0'')) = 0"
proof (induction k)
  case (Suc k)
  then show ?case by (simp add: digits_val_def digit_val_def)
qed simp

lemma digits_val_pad: "digits_val (replicate k (CHR ''0'') @ s) = digits_val s"
  by (simp add: digits_val_append)

lemma digits_val_less: "\<forall>c \<in> set s. is_digit c \<Longrightarrow> digits_val s < 10 ^ length s"
proof (induction s rule: rev_induct)
  case (snoc c s)
  then have "digits_val s + 1 \<le> 10 ^ length s" "digit_val c < 10" by (auto intro: is_digit_val)
  then show ?case by simp
qed simp

lemma zero_is_digit [simp]: "is_digit (CHR ''0'')"
  by (simp add: is_digit_def)

lemma digit_char_val: "is_digit c \<Longrightarrow> digit_char (digit_val c) = c"
proof -
  assume "is_digit c"
  then have b: "48 \<le> (of_char c :: nat)" "(of_char c :: nat) \<le> 57" by (simp_all add: is_digit_def less_eq_char_iff)
  define d where "d = (of_char c :: nat) - 48"
  have d: "(of_char c :: nat) = 48 + d" "d < 10" using b by (simp_all add: d_def)
  then have c: "c = char_of (48 + d)" by (metis char_of_char)
  have "digit_char d = char_of (48 + d)" if "d \<in> set [0..<10]" for d
    using that by (auto simp: upt_rec digit_char_def char_of_def bit_0)
  then have "digit_char d = char_of (48 + d)" using d by simp
  then have "digit_char (digit_val c) = char_of (48 + d)" by (simp only: digit_val_def d_def [symmetric])
  then show ?thesis by (simp only: c [symmetric])
qed

lemma digit_val_zero: "is_digit c \<Longrightarrow> digit_val c = 0 \<longleftrightarrow> c = CHR ''0''"
  using digit_char_val [of c] by (auto simp: digit_val_def digit_char_def)

lemma length_dec_nat: "n < 10 ^ k \<Longrightarrow> 0 < k \<Longrightarrow> length (dec_nat n) \<le> k"
proof (induction k arbitrary: n)
  case (Suc k)
  show ?case
  proof (cases "n < 10")
    case True
    then show ?thesis by (simp add: dec_nat.simps [of n])
  next
    case False
    with Suc.prems have "n div 10 < 10 ^ k" "0 < k" by (cases k; simp add: less_mult_imp_div_less mult.commute)+
    with Suc.IH False show ?thesis by (simp add: dec_nat.simps [of n])
  qed
qed simp

text \<open>Decimal text has no leading zero, and is the only text of digits without one.\<close>

lemma dec_nat_leading: "0 < n \<Longrightarrow> hd (dec_nat n) \<noteq> CHR ''0''"
proof (induction n rule: dec_nat.induct)
  case (1 n)
  show ?case
  proof (cases "n < 10")
    case True
    then show ?thesis using "1.prems" digit_val_zero [of "digit_char n"] by (simp add: dec_nat.simps [of n])
  next
    case False
    then show ?thesis using "1.IH" by (simp add: dec_nat.simps [of n])
  qed
qed

lemma dec_nat_digits_val:
  assumes "s \<noteq> []" and "\<forall>c \<in> set s. is_digit c" and "length s > 1 \<longrightarrow> hd s \<noteq> CHR ''0''"
  shows "dec_nat (digits_val s) = s"
  using assms
proof (induction s rule: rev_induct)
  case (snoc c s)
  have c: "digit_val c < 10" "digit_char (digit_val c) = c" using snoc.prems by (auto intro: is_digit_val digit_char_val)
  show ?case
  proof (cases "s = []")
    case True
    then show ?thesis using c digits_val_snoc [of "[]" c] by (simp add: dec_nat.simps)
  next
    case False
    then have hd: "hd s \<noteq> CHR ''0''" "is_digit (hd s)" using snoc.prems by simp_all
    have "0 < digits_val s" using digits_val_append [of "[hd s]" "tl s"] hd False digit_val_zero [of "hd s"] digits_val_snoc [of "[]" "hd s"]
      by simp
    moreover have "dec_nat (digits_val s) = s" using snoc False hd by simp
    ultimately show ?thesis using c by (simp add: dec_nat.simps [of "10 * digits_val s + digit_val c"])
  qed
qed simp

end
