(* ===== verification/Http_Client.thy ===== *)
theory Http_Client
  imports Backoff Go_Text "HOL-Library.AList"
begin

text \<open>
  \<open>pkg/http_client/http.go\<close> and \<open>json.go\<close>: the client builder, the retrying transport, the body
  with a size limit, and the JSON helpers. The round tripper underneath (\<open>net/http\<close>'s transport
  or a wrapper of it), the rate limiter, the context and the clock are parameters that answer
  call by call. A request body is a reader that every attempt shares: the world keeps what of
  it is still unread, and a round tripper reports how many bytes it read.
\<close>

section \<open>Errors\<close>

datatype http_sentinel = ErrRateLimited | ErrUnauthorized | ErrResponseTooLarge | ErrEOF | ErrContext

record statusError =
  statusCode :: int
  body :: string
  retryAfter :: duration

text \<open>An error: its text, the sentinels in its chain, and the \<open>*statusError\<close> that \<open>errors.As\<close> finds.\<close>

record http_error =
  heText :: string
  heIs :: "http_sentinel list"
  heStatus :: "statusError option"

definition plain_error :: "string \<Rightarrow> http_error" where
  "plain_error msg = \<lparr>heText = msg, heIs = [], heStatus = None\<rparr>"

definition prefixed :: "string \<Rightarrow> http_error \<Rightarrow> http_error" where
  "prefixed op e = e\<lparr>heText := op @ '': '' @ heText e\<rparr>"

definition joined :: "http_error \<Rightarrow> http_error \<Rightarrow> http_error" where
  "joined a b = \<lparr>heText = heText a @ '': '' @ heText b, heIs = heIs a @ heIs b,
     heStatus = first_some (heStatus a) (heStatus b)\<rparr>"

definition errRateLimited :: http_error where
  "errRateLimited = \<lparr>heText = ''request failed, rate limit exceeded'', heIs = [ErrRateLimited], heStatus = None\<rparr>"

definition errUnauthorized :: http_error where
  "errUnauthorized = \<lparr>heText = ''request failed, unauthorized'', heIs = [ErrUnauthorized], heStatus = None\<rparr>"

definition errResponseTooLarge :: http_error where
  "errResponseTooLarge = \<lparr>heText = ''response body exceeds size limit'', heIs = [ErrResponseTooLarge], heStatus = None\<rparr>"

definition statusError_Error :: "statusError \<Rightarrow> string" where
  "statusError_Error e =
     (if body e = [] then ''request failed with status '' @ dec_int (statusCode e) @ '', error: request failed, no response''
      else ''request failed with status '' @ dec_int (statusCode e) @ '', error: '' @ body e)"

definition ResponseStatus :: "http_error \<Rightarrow> int \<times> string \<times> bool" where
  "ResponseStatus err = (case heStatus err of Some e \<Rightarrow> (statusCode e, body e, True) | None \<Rightarrow> (0, [], False))"

definition RetryAfter :: "http_error \<Rightarrow> duration \<times> bool" where
  "RetryAfter err =
     (case heStatus err of
        Some e \<Rightarrow> if retryAfter e > 0 then (retryAfter e, True) else (0, False)
      | None \<Rightarrow> (0, False))"

definition retryAfterOf :: "http_error \<Rightarrow> duration" where
  "retryAfterOf err = fst (RetryAfter err)"

section \<open>Text of the standard library\<close>

text \<open>\<open>Time.Sub\<close> saturates.\<close>

definition time_sub :: "time \<Rightarrow> time \<Rightarrow> duration" where
  "time_sub a b = max (- (2 ^ 63)) (min (2 ^ 63 - 1) (a - b))"

text \<open>\<open>http.ParseTime\<close> is the parameter.\<close>

definition parseRetryAfter :: "(string \<Rightarrow> time option) \<Rightarrow> string \<Rightarrow> time \<Rightarrow> duration" where
  "parseRetryAfter parseTime value0 now =
     (let value = TrimSpace value0
      in if value = [] then 0
         else case Atoi value of
             Some seconds \<Rightarrow> if seconds \<le> 0 then 0 else wrap_i64 (seconds * second)
           | None \<Rightarrow>
               (case parseTime value of
                  Some at \<Rightarrow> let d = time_sub at now in if d > 0 then d else 0
                | None \<Rightarrow> 0))"

text \<open>\<open>http.Header\<close>: values by canonical key. \<open>Set\<close> canonicalizes its key.\<close>

type_synonym header = "(string \<times> string list) list"

definition token_char :: "char \<Rightarrow> bool" where
  "token_char c \<longleftrightarrow> (let n = of_char c :: nat in
     48 \<le> n \<and> n \<le> 57 \<or> 65 \<le> n \<and> n \<le> 90 \<or> 97 \<le> n \<and> n \<le> 122 \<or> c \<in> set ''!#$%&*+-.^_`|~'' \<or> n = 39)"

definition upper_ascii :: "char \<Rightarrow> char" where
  "upper_ascii c = (let n = of_char c :: nat in if 97 \<le> n \<and> n \<le> 122 then char_of (n - 32) else c)"

definition lower_ascii :: "char \<Rightarrow> char" where
  "lower_ascii c = (let n = of_char c :: nat in if 65 \<le> n \<and> n \<le> 90 then char_of (n + 32) else c)"

fun canon_chars :: "bool \<Rightarrow> string \<Rightarrow> string" where
  "canon_chars up [] = []"
| "canon_chars up (c # s) = (if up then upper_ascii c else lower_ascii c) # canon_chars (c = CHR ''-'') s"

definition CanonicalHeaderKey :: "string \<Rightarrow> string" where
  "CanonicalHeaderKey s = (if list_all token_char s then canon_chars True s else s)"

definition Header_Set :: "string \<Rightarrow> string \<Rightarrow> header \<Rightarrow> header" where
  "Header_Set key val h = AList.update (CanonicalHeaderKey key) [val] h"

definition Header_Get :: "string \<Rightarrow> header \<Rightarrow> string" where
  "Header_Get key h = (case map_of h (CanonicalHeaderKey key) of Some (v # _) \<Rightarrow> v | _ \<Rightarrow> [])"

section \<open>Requests and responses\<close>

record http_request =
  reqMethod :: string
  reqURL :: string
  reqHeader :: header
  reqBody :: bytes
  reqDeadline :: "duration option"

text \<open>
  A response body delivers its bytes and then ends, with an error or without; closing it may
  fail as well.
\<close>

record response_body =
  rbBytes :: string
  rbErr :: "http_error option"
  rbCloseErr :: "http_error option"

record http_response =
  respStatus :: int
  respHeader :: header
  respBody :: response_body

definition maxErrorBodyBytes :: nat where
  "maxErrorBodyBytes = 65536"

text \<open>\<open>io.ReadAll(io.LimitReader(r, n))\<close>: the limit ends the input before an error behind it is seen.\<close>

definition read_limited :: "nat \<Rightarrow> response_body \<Rightarrow> string \<times> http_error option" where
  "read_limited n b = (if n \<le> length (rbBytes b) then (take n (rbBytes b), None) else (rbBytes b, rbErr b))"

definition newStatusError :: "(string \<Rightarrow> time option) \<Rightarrow> time \<Rightarrow> http_response \<Rightarrow> http_error" where
  "newStatusError parseTime now resp =
     (let (text, err) = read_limited maxErrorBodyBytes (respBody resp);
          err = (if err = None then rbCloseErr (respBody resp) else err)
      in case err of
           Some e \<Rightarrow> plain_error (''request failed with status '' @ dec_int (respStatus resp) @
             '', error: failed to read response body, error: '' @ heText e)
         | None \<Rightarrow>
             let se = \<lparr>statusCode = respStatus resp, body = text,
                   retryAfter = parseRetryAfter parseTime (Header_Get ''Retry-After'' (respHeader resp)) now\<rparr>
             in \<lparr>heText = statusError_Error se, heIs = [], heStatus = Some se\<rparr>)"

definition getResponseBodyError :: "http_response \<Rightarrow> string" where
  "getResponseBodyError resp =
     (case rbErr (respBody resp) of
        Some e \<Rightarrow> ''failed to read response body, error: '' @ heText e
      | None \<Rightarrow> if length (rbBytes (respBody resp)) = 0 then ''request failed, no response''
                else rbBytes (respBody resp))"

section \<open>The builder\<close>

definition dialContextTimeout :: duration where "dialContextTimeout = 30 * second"
definition dialContextKeepAlive :: duration where "dialContextKeepAlive = 30 * second"
definition tlsHandshakeTimeout :: duration where "tlsHandshakeTimeout = 30 * second"
definition expectedContinueTimeout :: duration where "expectedContinueTimeout = 5 * second"
definition idleConnTimeout :: duration where "idleConnTimeout = 90 * second"
definition maxIdleConns :: int where "maxIdleConns = 100"
definition maxIdleConnsPerHost :: int where "maxIdleConnsPerHost = 10"
definition defaultClientTimeout :: duration where "defaultClientTimeout = 60 * second"
definition maxRetries :: u64 where "maxRetries = 3"
definition retryTimeout :: duration where "retryTimeout = 2 * second"
definition defaultMaxRetryAfter :: duration where "defaultMaxRetryAfter = 30 * second"

text \<open>
  A round tripper: its answer to the request of the \<open>i\<close>-th call, and how much of the body it
  read. A rate limiter: the error its wait before the \<open>i\<close>-th call ends with, or none.
\<close>

type_synonym round_tripper = "nat \<Rightarrow> http_request \<Rightarrow> (http_error + http_response) \<times> nat"
type_synonym rate_limiter = "nat \<Rightarrow> http_error option"

record transport_config =
  cfgDialTimeout :: duration
  cfgKeepAlive :: duration
  cfgTLSHandshakeTimeout :: duration
  cfgExpectContinueTimeout :: duration
  cfgIdleConnTimeout :: duration
  cfgMaxIdleConns :: int
  cfgMaxIdleConnsPerHost :: int

record clientBuilder =
  cbAuthKey :: string
  cbAuthValue :: string
  cbHeaders :: header
  cbTimeout :: "duration option"
  cbAttemptTimeout :: duration
  cbMaxRetries :: "u64 option"
  cbRetryDelay :: "duration option"
  cbMaxRetryAfter :: "duration option"
  cbNoRedirect :: bool
  cbMaxResponseBytes :: int
  cbLimiter :: "rate_limiter option"
  cbWrapTransport :: "(round_tripper \<Rightarrow> round_tripper option) option"

record Transport =
  BaseTransport :: "round_tripper option"
  MaxRetries :: u64
  RetryDelay :: duration
  MaxRetryAfter :: duration
  AttemptTimeout :: duration
  AuthHeaderKey :: string
  AuthHeaderVal :: string
  Headers :: header
  NoRedirect :: bool
  MaxResponseBytes :: int
  RateLimiter :: "rate_limiter option"

record Client =
  clTimeout :: duration
  clTransport :: Transport
  clUseLastResponse :: bool

definition NewClientBuilder :: clientBuilder where
  "NewClientBuilder = \<lparr>cbAuthKey = [], cbAuthValue = [], cbHeaders = [], cbTimeout = None, cbAttemptTimeout = 0,
     cbMaxRetries = None, cbRetryDelay = None, cbMaxRetryAfter = None, cbNoRedirect = False,
     cbMaxResponseBytes = 0, cbLimiter = None, cbWrapTransport = None\<rparr>"

definition SetAuth :: "string \<Rightarrow> string \<Rightarrow> clientBuilder \<Rightarrow> clientBuilder" where
  "SetAuth key val b = b\<lparr>cbAuthKey := key, cbAuthValue := val\<rparr>"

definition SetHeader :: "string \<Rightarrow> string \<Rightarrow> clientBuilder \<Rightarrow> clientBuilder" where
  "SetHeader key val b = b\<lparr>cbHeaders := Header_Set key val (cbHeaders b)\<rparr>"

definition SetUserAgent :: "string \<Rightarrow> clientBuilder \<Rightarrow> clientBuilder" where
  "SetUserAgent userAgent b = SetHeader ''User-Agent'' userAgent b"

definition SetTimeout :: "duration \<Rightarrow> clientBuilder \<Rightarrow> clientBuilder" where
  "SetTimeout timeout b = b\<lparr>cbTimeout := Some timeout\<rparr>"

definition SetAttemptTimeout :: "duration \<Rightarrow> clientBuilder \<Rightarrow> clientBuilder" where
  "SetAttemptTimeout timeout b = b\<lparr>cbAttemptTimeout := timeout\<rparr>"

definition SetRetry :: "u64 \<Rightarrow> duration \<Rightarrow> clientBuilder \<Rightarrow> clientBuilder" where
  "SetRetry retries retryDelay b = b\<lparr>cbMaxRetries := Some retries, cbRetryDelay := Some retryDelay\<rparr>"

definition SetMaxRetryAfter :: "duration \<Rightarrow> clientBuilder \<Rightarrow> clientBuilder" where
  "SetMaxRetryAfter d b = b\<lparr>cbMaxRetryAfter := Some d\<rparr>"

definition SetNoRedirect :: "clientBuilder \<Rightarrow> clientBuilder" where
  "SetNoRedirect b = b\<lparr>cbNoRedirect := True\<rparr>"

definition SetMaxResponseBytes :: "int \<Rightarrow> clientBuilder \<Rightarrow> clientBuilder" where
  "SetMaxResponseBytes n b = b\<lparr>cbMaxResponseBytes := n\<rparr>"

definition SetRateLimiter :: "rate_limiter option \<Rightarrow> clientBuilder \<Rightarrow> clientBuilder" where
  "SetRateLimiter limiter b = b\<lparr>cbLimiter := limiter\<rparr>"

definition SetTransportWrapper :: "(round_tripper \<Rightarrow> round_tripper option) option \<Rightarrow> clientBuilder \<Rightarrow> clientBuilder" where
  "SetTransportWrapper wrapper b = b\<lparr>cbWrapTransport := wrapper\<rparr>"

definition base_config :: transport_config where
  "base_config = \<lparr>cfgDialTimeout = dialContextTimeout, cfgKeepAlive = dialContextKeepAlive,
     cfgTLSHandshakeTimeout = tlsHandshakeTimeout, cfgExpectContinueTimeout = expectedContinueTimeout,
     cfgIdleConnTimeout = idleConnTimeout, cfgMaxIdleConns = maxIdleConns,
     cfgMaxIdleConnsPerHost = maxIdleConnsPerHost\<rparr>"

text \<open>\<open>newTransport\<close> stands for \<open>net/http\<close>'s transport with the given settings.\<close>

definition BuildClient :: "(transport_config \<Rightarrow> round_tripper) \<Rightarrow> clientBuilder \<Rightarrow> Client" where
  "BuildClient newTransport b =
     (let clientRetryDelay = (case cbRetryDelay b of None \<Rightarrow> retryTimeout | Some d \<Rightarrow> d);
          clientMaxRetries = (case cbMaxRetries b of None \<Rightarrow> maxRetries | Some n \<Rightarrow> n + 1);
          clientTimeout = (case cbTimeout b of None \<Rightarrow> defaultClientTimeout | Some d \<Rightarrow> d);
          clientMaxRetryAfter = (case cbMaxRetryAfter b of None \<Rightarrow> defaultMaxRetryAfter | Some d \<Rightarrow> d);
          base = newTransport base_config;
          base = (case cbWrapTransport b of None \<Rightarrow> base
            | Some wrapper \<Rightarrow> (case wrapper base of None \<Rightarrow> base | Some wrapped \<Rightarrow> wrapped))
      in \<lparr>clTimeout = clientTimeout,
          clTransport = \<lparr>BaseTransport = Some base, MaxRetries = clientMaxRetries, RetryDelay = clientRetryDelay,
            MaxRetryAfter = clientMaxRetryAfter, AttemptTimeout = cbAttemptTimeout b,
            AuthHeaderKey = cbAuthKey b, AuthHeaderVal = cbAuthValue b, Headers = cbHeaders b,
            NoRedirect = cbNoRedirect b, MaxResponseBytes = cbMaxResponseBytes b, RateLimiter = cbLimiter b\<rparr>,
          clUseLastResponse = cbNoRedirect b\<rparr>)"

section \<open>The transport\<close>

text \<open>
  What a round trip asks the outside: the context of the request when it is looked at, whether
  the context ends a wait, the clock, and \<open>http.ParseTime\<close>. The world counts the calls and
  keeps the unread rest of the body, the requests sent with their answers, and the waits made.
\<close>

record http_env =
  DefaultTransport :: round_tripper
  reqContextErr :: "nat \<Rightarrow> http_error option"
  waitInterrupted :: "nat \<Rightarrow> http_error option"
  httpNow :: "nat \<Rightarrow> time"
  envParseTime :: "string \<Rightarrow> time option"

record http_world =
  hTick :: nat
  unread :: bytes
  exchanges :: "(http_request \<times> (http_error + http_response)) list"
  waits :: "duration list"

text \<open>The size-limited body that a successful attempt hands out.\<close>

record responseBody =
  remaining :: int
  limited :: bool

datatype attempt_result = Succeeded http_response responseBody | Failed http_error bool duration

definition attempt_request :: "Transport \<Rightarrow> http_request \<Rightarrow> bytes \<Rightarrow> http_request" where
  "attempt_request t req rest =
     (let h = fold (\<lambda>(key, vals). AList.update key vals) (Headers t) (reqHeader req);
          h = (if AuthHeaderKey t \<noteq> [] \<and> AuthHeaderVal t \<noteq> [] then Header_Set (AuthHeaderKey t) (AuthHeaderVal t) h else h)
      in req\<lparr>reqHeader := h, reqBody := rest,
           reqDeadline := (if AttemptTimeout t > 0 then Some (AttemptTimeout t) else reqDeadline req)\<rparr>)"

definition failed_response :: "Transport \<Rightarrow> int \<Rightarrow> http_error \<Rightarrow> attempt_result" where
  "failed_response t code statusErr =
     (if code = 429 then Failed (joined errRateLimited statusErr) True (retryAfterOf statusErr)
      else if code = 401 \<or> code = 403 then Failed (joined errUnauthorized statusErr) False 0
      else if code = 400 then Failed statusErr False 0
      else if NoRedirect t \<and> code < 400 then Failed statusErr False 0
      else Failed statusErr True (retryAfterOf statusErr))"

definition send_attempt :: "http_env \<Rightarrow> Transport \<Rightarrow> http_request \<Rightarrow> http_world \<Rightarrow> attempt_result \<times> http_world" where
  "send_attempt env t req w =
     (let base = (case BaseTransport t of None \<Rightarrow> DefaultTransport env | Some b \<Rightarrow> b);
          retryReq = attempt_request t req (unread w);
          (answer, consumed) = base (hTick w) retryReq;
          w = w\<lparr>hTick := hTick w + 1, unread := drop consumed (unread w), exchanges := exchanges w @ [(retryReq, answer)]\<rparr>
      in case answer of
           Inl rtErr \<Rightarrow>
             (Failed (prefixed ''request failed'' rtErr) (reqContextErr env (hTick w) = None) 0, w\<lparr>hTick := hTick w + 1\<rparr>)
         | Inr resp \<Rightarrow>
             if 200 \<le> respStatus resp \<and> respStatus resp < 300
             then (Succeeded resp \<lparr>remaining = MaxResponseBytes t, limited = MaxResponseBytes t > 0\<rparr>, w)
             else (failed_response t (respStatus resp) (newStatusError (envParseTime env) (httpNow env (hTick w)) resp),
                   w\<lparr>hTick := hTick w + 1\<rparr>))"

definition attempt :: "http_env \<Rightarrow> Transport \<Rightarrow> http_request \<Rightarrow> http_world \<Rightarrow> attempt_result \<times> http_world" where
  "attempt env t req w =
     (case RateLimiter t of
        None \<Rightarrow> send_attempt env t req w
      | Some limiter \<Rightarrow>
          (let w' = w\<lparr>hTick := hTick w + 1\<rparr>
           in case limiter (hTick w) of
                Some err \<Rightarrow> (Failed (prefixed ''waiting for rate limiter'' err) False 0, w')
              | None \<Rightarrow> send_attempt env t req w'))"

text \<open>The delay before the next attempt; none when the server asks for more than is honoured.\<close>

definition retry_delay :: "Transport \<Rightarrow> duration \<Rightarrow> duration \<Rightarrow> duration option" where
  "retry_delay t wait after =
     (if after > 0 \<and> MaxRetryAfter t > 0
      then (if after > MaxRetryAfter t then None else Some (max wait after))
      else Some wait)"

function round_trip_loop :: "http_env \<Rightarrow> Transport \<Rightarrow> http_request \<Rightarrow> u64 \<Rightarrow> u64 \<Rightarrow> duration \<Rightarrow> http_error option \<Rightarrow>
    http_world \<Rightarrow> ((http_response \<times> responseBody) option \<times> http_error option) \<times> http_world" where
  "round_trip_loop env t req i attempts wait lastErr w =
     (if i < attempts then
        (case attempt env t req w of
           (Succeeded resp rb, w) \<Rightarrow> ((Some (resp, rb), None), w)
         | (Failed err retry after, w) \<Rightarrow>
             if \<not> retry \<or> i = attempts - 1 then ((None, Some err), w)
             else case retry_delay t wait after of
                 None \<Rightarrow> ((None, Some err), w)
               | Some delay \<Rightarrow>
                   (case waitInterrupted env (hTick w) of
                      Some ctxErr \<Rightarrow> ((None, Some (joined ctxErr err)), w\<lparr>hTick := hTick w + 1\<rparr>)
                    | None \<Rightarrow> round_trip_loop env t req (i + 1) attempts (wrap_i64 (wait * 2)) (Some err)
                        (w\<lparr>hTick := hTick w + 1, waits := waits w @ [delay]\<rparr>)))
      else ((None, lastErr), w))"
  by pat_completeness auto

termination round_trip_loop
  by (relation "measure (\<lambda>(_, _, _, i, attempts, _). unat attempts - unat i)")
    (auto simp: unat_Suc_below word_less_nat_alt diff_less_mono2)

declare round_trip_loop.simps [simp del]

definition RoundTrip :: "http_env \<Rightarrow> Transport \<Rightarrow> http_request \<Rightarrow> http_world \<Rightarrow>
    ((http_response \<times> responseBody) option \<times> http_error option) \<times> http_world" where
  "RoundTrip env t req w = round_trip_loop env t req 0 (max (MaxRetries t) 1) (RetryDelay t) None w"

section \<open>Reading a limited body\<close>

type_synonym 'r reader = "nat \<Rightarrow> 'r \<Rightarrow> (string \<times> http_error option) \<times> 'r"

definition responseBody_Read :: "'r reader \<Rightarrow> (responseBody \<times> 'r) reader" where
  "responseBody_Read rd len br =
     (case br of (b, r) \<Rightarrow>
        if \<not> limited b then (case rd len r of (x, r') \<Rightarrow> (x, (b, r')))
        else if remaining b \<le> 0 then
          (case rd 1 r of ((bs, err), r') \<Rightarrow>
             if length bs > 0 then (([], Some errResponseTooLarge), (b, r')) else (([], err), (b, r')))
        else
          (case rd (if int len > remaining b then nat (remaining b) else len) r of
             ((bs, err), r') \<Rightarrow> ((bs, err), (b\<lparr>remaining := remaining b - int (length bs)\<rparr>, r'))))"

text \<open>The caller's loop: reads with buffers of the given sizes, until one returns an error.\<close>

fun read_seq :: "'r reader \<Rightarrow> nat list \<Rightarrow> 'r \<Rightarrow> (string \<times> http_error option) \<times> 'r" where
  "read_seq rd [] r = (([], None), r)"
| "read_seq rd (n # ns) r =
     (case rd n r of
        ((bs, Some e), r') \<Rightarrow> ((bs, Some e), r')
      | ((bs, None), r') \<Rightarrow> (case read_seq rd ns r' of ((cs, e), r'') \<Rightarrow> ((bs @ cs, e), r'')))"

text \<open>A body in memory, read in place.\<close>

definition errEOF :: http_error where
  "errEOF = \<lparr>heText = ''EOF'', heIs = [ErrEOF], heStatus = None\<rparr>"

definition plain_read :: "string reader" where
  "plain_read n s = (if s = [] then (([], Some errEOF), s) else ((take n s, None), drop n s))"

section \<open>The helpers around the client\<close>

definition ContentTypeJSON :: string where
  "ContentTypeJSON = ''application/json''"

definition new_request :: "(string \<Rightarrow> string \<Rightarrow> http_error option) \<Rightarrow> string \<Rightarrow> string \<Rightarrow> bytes \<Rightarrow> http_error + http_request" where
  "new_request invalid meth url content =
     (case invalid meth url of
        Some e \<Rightarrow> Inl (prefixed (''creating '' @ meth @ '' request'') e)
      | None \<Rightarrow> Inr \<lparr>reqMethod = meth, reqURL = url, reqHeader = [], reqBody = content, reqDeadline = None\<rparr>)"

definition with_header :: "string \<Rightarrow> string \<Rightarrow> http_request \<Rightarrow> http_request" where
  "with_header key val r = r\<lparr>reqHeader := Header_Set key val (reqHeader r)\<rparr>"

text \<open>
  \<open>invalid\<close> is the error of \<open>http.NewRequestWithContext\<close>, \<open>send\<close> is \<open>http.Client.Do\<close>, \<open>marshal\<close>
  is \<open>json.Marshal\<close> and \<open>decode\<close> the JSON decoder on the body.
\<close>

definition GetWithContext :: "(string \<Rightarrow> string \<Rightarrow> http_error option) \<Rightarrow> (http_request \<Rightarrow> http_error + http_response) \<Rightarrow>
    string \<Rightarrow> http_error + http_response" where
  "GetWithContext invalid send url = (case new_request invalid ''GET'' url [] of Inl e \<Rightarrow> Inl e | Inr r \<Rightarrow> send r)"

definition PostWithContext :: "(string \<Rightarrow> string \<Rightarrow> http_error option) \<Rightarrow> (http_request \<Rightarrow> http_error + http_response) \<Rightarrow>
    string \<Rightarrow> string \<Rightarrow> bytes \<Rightarrow> http_error + http_response" where
  "PostWithContext invalid send url contentType content =
     (case new_request invalid ''POST'' url content of
        Inl e \<Rightarrow> Inl e | Inr r \<Rightarrow> send (with_header ''Content-Type'' contentType r))"

definition PostJSONWithContext :: "(string \<Rightarrow> string \<Rightarrow> http_error option) \<Rightarrow> (http_request \<Rightarrow> http_error + http_response) \<Rightarrow>
    ('p \<Rightarrow> http_error + bytes) \<Rightarrow> string \<Rightarrow> 'p \<Rightarrow> http_error + http_response" where
  "PostJSONWithContext invalid send marshal url payload =
     (case marshal payload of
        Inl e \<Rightarrow> Inl (prefixed ''marshalling JSON request body'' e)
      | Inr content \<Rightarrow> PostWithContext invalid send url ContentTypeJSON content)"

definition DecodeJSON :: "(string \<Rightarrow> time option) \<Rightarrow> time \<Rightarrow> (response_body \<Rightarrow> http_error + 'a) \<Rightarrow> http_response \<Rightarrow> http_error + 'a" where
  "DecodeJSON parseTime now decode resp =
     (if respStatus resp < 200 \<or> respStatus resp \<ge> 300 then Inl (newStatusError parseTime now resp)
      else case decode (respBody resp) of
          Inl e \<Rightarrow> Inl (prefixed ''decoding JSON response'' e)
        | Inr out \<Rightarrow> Inr out)"

definition DoJSON :: "(string \<Rightarrow> time option) \<Rightarrow> time \<Rightarrow> (response_body \<Rightarrow> http_error + 'a) \<Rightarrow>
    (http_request \<Rightarrow> http_error + http_response) \<Rightarrow> http_request \<Rightarrow> http_error + 'a" where
  "DoJSON parseTime now decode send r =
     (case send r of Inl e \<Rightarrow> Inl e | Inr resp \<Rightarrow> DecodeJSON parseTime now decode resp)"

definition GetJSON :: "(string \<Rightarrow> time option) \<Rightarrow> time \<Rightarrow> (response_body \<Rightarrow> http_error + 'a) \<Rightarrow> (string \<Rightarrow> string \<Rightarrow> http_error option) \<Rightarrow>
    (http_request \<Rightarrow> http_error + http_response) \<Rightarrow> string \<Rightarrow> http_error + 'a" where
  "GetJSON parseTime now decode invalid send url =
     (case new_request invalid ''GET'' url [] of
        Inl e \<Rightarrow> Inl e
      | Inr r \<Rightarrow> DoJSON parseTime now decode send (with_header ''Accept'' ContentTypeJSON r))"

definition PostJSON :: "(string \<Rightarrow> time option) \<Rightarrow> time \<Rightarrow> (response_body \<Rightarrow> http_error + 'a) \<Rightarrow> (string \<Rightarrow> string \<Rightarrow> http_error option) \<Rightarrow>
    (http_request \<Rightarrow> http_error + http_response) \<Rightarrow> ('p \<Rightarrow> http_error + bytes) \<Rightarrow> string \<Rightarrow> 'p \<Rightarrow> http_error + 'a" where
  "PostJSON parseTime now decode invalid send marshal url payload =
     (case marshal payload of
        Inl e \<Rightarrow> Inl (prefixed ''marshalling JSON request body'' e)
      | Inr content \<Rightarrow>
          (case new_request invalid ''POST'' url content of
             Inl e \<Rightarrow> Inl e
           | Inr r \<Rightarrow> DoJSON parseTime now decode send
               (with_header ''Accept'' ContentTypeJSON (with_header ''Content-Type'' ContentTypeJSON r))))"

section \<open>Readers\<close>

text \<open>
  The contract of \<open>io.Reader\<close> as far as it is used: what a read returns is the next part of the
  content, at most as much as the buffer holds; the end of the input is reported only when
  nothing is left; and the error of the size limit is not the reader's own.
\<close>

locale io_reader =
  fixes rd :: "'r reader" and content :: "'r \<Rightarrow> string"
  assumes read_next: "rd n r = ((bs, e), r') \<Longrightarrow> content r = bs @ content r' \<and> length bs \<le> n"
    and read_eof: "rd n r = ((bs, Some x), r') \<Longrightarrow> ErrEOF \<in> set (heIs x) \<Longrightarrow> content r' = []"
    and read_own: "rd n r = ((bs, Some x), r') \<Longrightarrow> ErrResponseTooLarge \<notin> set (heIs x)"
begin

lemma read_seq_next: "read_seq rd ns r = ((bs, e), r') \<Longrightarrow> content r = bs @ content r'"
proof (induction ns arbitrary: r bs)
  case (Cons n ns)
  obtain cs o1 r1 where c: "rd n r = ((cs, o1), r1)" by (metis prod.exhaust)
  show ?case
  proof (cases o1)
    case None
    obtain ds o2 r2 where d: "read_seq rd ns r1 = ((ds, o2), r2)" by (metis prod.exhaust)
    then show ?thesis using Cons c None read_next [OF c] by auto
  qed (use Cons.prems c read_next [OF c] in auto)
qed simp

lemma read_seq_eof: "read_seq rd ns r = ((bs, Some e), r') \<Longrightarrow> ErrEOF \<in> set (heIs e) \<Longrightarrow> content r' = []"
proof (induction ns arbitrary: r bs)
  case (Cons n ns)
  obtain cs o1 r1 where c: "rd n r = ((cs, o1), r1)" by (metis prod.exhaust)
  show ?case
  proof (cases o1)
    case None
    obtain ds o2 r2 where "read_seq rd ns r1 = ((ds, o2), r2)" by (metis prod.exhaust)
    then show ?thesis using Cons c None by auto
  next
    case (Some x)
    then show ?thesis using Cons.prems c read_eof by auto
  qed
qed simp

end

interpretation plain: io_reader plain_read id
  by unfold_locales (auto simp: plain_read_def errEOF_def split: if_splits)

text \<open>The content that is left behind a limit.\<close>

definition limited_content :: "('r \<Rightarrow> string) \<Rightarrow> responseBody \<times> 'r \<Rightarrow> string" where
  "limited_content content br =
     (case br of (b, r) \<Rightarrow> if limited b then take (nat (remaining b)) (content r) else content r)"

context io_reader
begin

text \<open>One read of the limited body: what it delivers, and what its errors mean.\<close>

lemma limited_read:
  assumes "responseBody_Read rd n (b, r) = ((bs, e), (b', r'))"
  shows "limited b' = limited b"
    and "limited_content content (b, r) = bs @ limited_content content (b', r')" and "length bs \<le> n"
    and "limited b \<Longrightarrow> 0 \<le> remaining b \<Longrightarrow> remaining b' = remaining b - int (length bs) \<and> 0 \<le> remaining b'"
    and "limited b \<Longrightarrow> e = Some x \<Longrightarrow> ErrEOF \<in> set (heIs x) \<Longrightarrow> content r = bs"
    and "limited b \<Longrightarrow> 0 \<le> remaining b \<Longrightarrow> e = Some x \<Longrightarrow> ErrResponseTooLarge \<in> set (heIs x) \<Longrightarrow>
      int (length (content r)) > remaining b"
    and "e = None \<Longrightarrow> content r = bs @ content r'"
proof -
  consider (free) "\<not> limited b" "rd n r = ((bs, e), r')" "b' = b"
    | (probe) cs err where "limited b" "remaining b \<le> 0" "rd 1 r = ((cs, err), r')" "b' = b" "bs = []"
        "e = (if cs = [] then err else Some errResponseTooLarge)"
    | (part) k where "limited b" "0 < remaining b" "k \<le> n" "int k \<le> remaining b" "rd k r = ((bs, e), r')"
        "b' = b\<lparr>remaining := remaining b - int (length bs)\<rparr>"
  proof (cases "limited b \<and> 0 < remaining b")
    case True
    define k where "k = (if int n > remaining b then nat (remaining b) else n)"
    moreover have "k \<le> n" "int k \<le> remaining b" using True by (auto simp: k_def)
    moreover obtain cs err r1 where "rd k r = ((cs, err), r1)" by (metis prod.exhaust)
    ultimately show ?thesis
      using assms True part [of k] by (auto simp: responseBody_Read_def simp flip: k_def)
  next
    case False
    then show ?thesis
      using assms free probe
      by (cases "rd n r"; cases "rd 1 r") (auto simp: responseBody_Read_def split: if_splits)
  qed
  note cases = this
  show "limited b' = limited b" by (cases rule: cases) auto
  show "limited_content content (b, r) = bs @ limited_content content (b', r')"
    by (cases rule: cases) (use read_next in \<open>fastforce simp: limited_content_def nat_diff_distrib'\<close>)+
  show "length bs \<le> n" by (cases rule: cases) (use read_next in fastforce)+
  show "remaining b' = remaining b - int (length bs) \<and> 0 \<le> remaining b'" if "limited b" "0 \<le> remaining b"
    by (cases rule: cases) (use that read_next in fastforce)+
  show "content r = bs" if "limited b" "e = Some x" "ErrEOF \<in> set (heIs x)"
    by (cases rule: cases) (use that read_next read_eof in \<open>fastforce simp: errResponseTooLarge_def split: if_splits\<close>)+
  show "int (length (content r)) > remaining b"
    if "limited b" "0 \<le> remaining b" "e = Some x" "ErrResponseTooLarge \<in> set (heIs x)"
  proof (cases rule: cases)
    case (probe cs err)
    then have "cs \<noteq> []" using that read_own by auto
    with read_next [OF probe(3)] probe(2) show ?thesis by (cases cs) auto
  next
    case (part k)
    with that read_own [of k r bs x r'] show ?thesis by simp
  qed (use that in simp)
  show "content r = bs @ content r'" if "e = None"
    by (cases rule: cases) (use that read_next in \<open>fastforce split: if_splits\<close>)+
qed

end

context io_reader
begin

lemma limited_seq:
  assumes "read_seq (responseBody_Read rd) ns (b, r) = ((bs, e), (b', r'))" and "limited b" and "0 \<le> remaining b"
  shows "prefix bs (content r) \<and> int (length bs) \<le> remaining b \<and>
    (\<forall>x. e = Some x \<longrightarrow> ErrEOF \<in> set (heIs x) \<longrightarrow> bs = content r) \<and>
    (\<forall>x. e = Some x \<longrightarrow> ErrResponseTooLarge \<in> set (heIs x) \<longrightarrow> int (length (content r)) > remaining b)"
  using assms
proof (induction ns arbitrary: b r bs)
  case (Cons n ns)
  obtain cs o1 b1 r1 where c: "responseBody_Read rd n (b, r) = ((cs, o1), (b1, r1))" by (metis prod.exhaust)
  note one = limited_read [OF c]
  have cs: "prefix cs (content r)" "int (length cs) \<le> remaining b" "limited b1" "0 \<le> remaining b1"
    "remaining b1 = remaining b - int (length cs)"
    using one(1,2) one(4) [OF Cons.prems(2,3)] Cons.prems(2)
    by (auto simp: limited_content_def intro: append_prefixD) (metis append_prefixD prefixI take_is_prefix)
  show ?case
  proof (cases o1)
    case (Some x)
    then show ?thesis using Cons.prems c cs one(5,6) by auto
  next
    case None
    obtain ds o2 s2 where d: "read_seq (responseBody_Read rd) ns (b1, r1) = ((ds, o2), s2)" by (metis prod.exhaust)
    have "bs = cs @ ds" "o2 = e" "s2 = (b', r')" using Cons.prems(1) c d None by auto
    with Cons.IH [of b1 r1 ds] d cs one(7) [OF None] show ?thesis by auto
  qed
qed simp

end

text \<open>
  A size limit is neither exceeded nor silent: from a body with a limit, whatever buffers the
  caller reads with, what is delivered is a prefix of the body of at most \<open>MaxResponseBytes\<close>
  bytes; the end of the body is reported only when all of it was delivered, and
  \<open>ErrResponseTooLarge\<close> only when the body is longer than the limit.
\<close>

theorem limited_body_reads:
  assumes "io_reader rd content" and "0 < limit"
    and "read_seq (responseBody_Read rd) ns (\<lparr>remaining = limit, limited = True\<rparr>, r) = ((bs, e), br)"
  shows "prefix bs (content r) \<and> int (length bs) \<le> limit \<and>
    (\<forall>x. e = Some x \<longrightarrow> ErrEOF \<in> set (heIs x) \<longrightarrow> bs = content r) \<and>
    (\<forall>x. e = Some x \<longrightarrow> ErrResponseTooLarge \<in> set (heIs x) \<longrightarrow> int (length (content r)) > limit)"
  using io_reader.limited_seq [OF assms(1), of ns "\<lparr>remaining = limit, limited = True\<rparr>" r bs e "fst br" "snd br"] assms(2,3)
  by simp

theorem limited_body_reads_witness:
  "read_seq (responseBody_Read plain_read) [2, 2, 2] (\<lparr>remaining = 3, limited = True\<rparr>, ''abcd'') =
     ((''abc'', Some errResponseTooLarge), (\<lparr>remaining = 0, limited = True\<rparr>, [])) \<and> length ''abcd'' > 3"
proof -
  have "read_seq (responseBody_Read plain_read) [2, 2, 2] (\<lparr>remaining = 3, limited = True\<rparr>, ''abcd'') =
     ((''abc'', Some errResponseTooLarge), (\<lparr>remaining = 0, limited = True\<rparr>, []))"
    by (simp add: responseBody_Read_def plain_read_def)
  from limited_body_reads [OF plain.io_reader_axioms _ this] this show ?thesis
    by (auto simp: errResponseTooLarge_def)
qed

section \<open>Round trips\<close>

text \<open>The answers that end the trip with success.\<close>

fun answered_ok :: "http_error + http_response \<Rightarrow> bool" where
  "answered_ok (Inl e) = False"
| "answered_ok (Inr resp) = (200 \<le> respStatus resp \<and> respStatus resp < 300)"

text \<open>The answers after which another attempt makes sense.\<close>

fun retryable_answer :: "Transport \<Rightarrow> http_error + http_response \<Rightarrow> bool" where
  "retryable_answer t (Inl e) = True"
| "retryable_answer t (Inr resp) = (\<not> (200 \<le> respStatus resp \<and> respStatus resp < 300) \<and>
     respStatus resp \<notin> {400, 401, 403} \<and> \<not> (NoRedirect t \<and> respStatus resp < 400))"

lemma send_attempt_cases:
  assumes "send_attempt env t req w = (a, w')"
  obtains ans n where "exchanges w' = exchanges w @ [(attempt_request t req (unread w), ans)]"
    "unread w' = drop n (unread w)" "waits w' = waits w"
    "n = snd ((case BaseTransport t of None \<Rightarrow> DefaultTransport env | Some b \<Rightarrow> b) (hTick w) (attempt_request t req (unread w)))"
    "case a of Succeeded resp rb \<Rightarrow> ans = Inr resp \<and> 200 \<le> respStatus resp \<and> respStatus resp < 300 \<and>
         rb = \<lparr>remaining = MaxResponseBytes t, limited = MaxResponseBytes t > 0\<rparr>
       | Failed err retry after \<Rightarrow> \<not> answered_ok ans \<and> (retry \<longrightarrow> retryable_answer t ans)"
proof -
  let ?base = "case BaseTransport t of None \<Rightarrow> DefaultTransport env | Some b \<Rightarrow> b"
  obtain ans n where b: "?base (hTick w) (attempt_request t req (unread w)) = (ans, n)" by (metis prod.exhaust)
  show thesis
    by (rule that [of ans n])
      (use assms b in \<open>auto simp: send_attempt_def failed_response_def Let_def split: sum.splits if_splits\<close>)
qed

lemma attempt_cases:
  assumes "attempt env t req w = (a, w')"
  obtains (blocked) err where "a = Failed err False 0" "w' = w\<lparr>hTick := hTick w + 1\<rparr>"
  | (sent) ans n k where "exchanges w' = exchanges w @ [(attempt_request t req (unread w), ans)]"
    "unread w' = drop n (unread w)" "waits w' = waits w"
    "n = snd ((case BaseTransport t of None \<Rightarrow> DefaultTransport env | Some b \<Rightarrow> b) k (attempt_request t req (unread w)))"
    "case a of Succeeded resp rb \<Rightarrow> ans = Inr resp \<and> 200 \<le> respStatus resp \<and> respStatus resp < 300 \<and>
         rb = \<lparr>remaining = MaxResponseBytes t, limited = MaxResponseBytes t > 0\<rparr>
       | Failed err retry after \<Rightarrow> \<not> answered_ok ans \<and> (retry \<longrightarrow> retryable_answer t ans)"
proof (cases "RateLimiter t")
  case None
  then have "send_attempt env t req w = (a, w')" using assms by (simp add: attempt_def)
  then show thesis by (rule send_attempt_cases) (rule sent)
next
  case (Some limiter)
  show thesis
  proof (cases "limiter (hTick w)")
    case None
    then have "send_attempt env t req (w\<lparr>hTick := hTick w + 1\<rparr>) = (a, w')"
      using assms Some by (simp add: attempt_def)
    then show thesis by (rule send_attempt_cases) (rule sent [where k = "hTick w + 1"], simp_all)
  next
    case (Some err)
    then show thesis using assms \<open>RateLimiter t = _\<close> blocked by (auto simp: attempt_def Let_def)
  qed
qed

lemma below_pred: "i < n \<Longrightarrow> i \<noteq> n - 1 \<Longrightarrow> i < n - 1" for i n :: u64
  by (auto simp: word_less_nat_alt word_unat_eq_iff unat_sub_if')

text \<open>
  What a trip of at most \<open>n\<close> attempts from the wait \<open>wait\<close> on reports: \<open>xs\<close> are the requests
  with their answers and \<open>ds\<close> the waits.
\<close>

definition trip_ok :: "Transport \<Rightarrow> duration \<Rightarrow> nat \<Rightarrow> (http_response \<times> responseBody) option \<Rightarrow> http_error option \<Rightarrow>
    (http_request \<times> (http_error + http_response)) list \<Rightarrow> duration list \<Rightarrow> bool" where
  "trip_ok t wait n res e xs ds \<longleftrightarrow> length xs \<le> n \<and> length ds \<le> length xs \<and>
     (\<forall>k. Suc k < length xs \<longrightarrow> retryable_answer t (snd (xs ! k))) \<and>
     (case res of
        Some (resp, rb) \<Rightarrow> e = None \<and> xs \<noteq> [] \<and> snd (last xs) = Inr resp \<and> answered_ok (Inr resp) \<and>
          rb = \<lparr>remaining = MaxResponseBytes t, limited = MaxResponseBytes t > 0\<rparr>
      | None \<Rightarrow> e \<noteq> None \<and> (\<forall>x \<in> set xs. \<not> answered_ok (snd x))) \<and>
     (\<forall>k < length ds. wrap_i64 (wait * 2 ^ k) \<le> ds ! k \<and> ds ! k \<le> max (wrap_i64 (wait * 2 ^ k)) (MaxRetryAfter t))"

lemma retryable_not_ok: "retryable_answer t ans \<Longrightarrow> \<not> answered_ok ans"
  by (cases ans) auto

lemma retry_delay_bounds: "retry_delay t wait after = Some d \<Longrightarrow> wait \<le> d \<and> d \<le> max wait (MaxRetryAfter t)"
  by (auto simp: retry_delay_def split: if_splits)

lemma trip_ok_Cons:
  assumes "trip_ok t (wrap_i64 (wait * 2)) n res e ys ds" and x: "retryable_answer t (snd x)"
    and d: "retry_delay t wait after = Some d" and w: "in_i64 wait"
  shows "trip_ok t wait (Suc n) res e (x # ys) (d # ds)"
proof -
  have "wrap_i64 (wait * 2 ^ k) \<le> (d # ds) ! k \<and> (d # ds) ! k \<le> max (wrap_i64 (wait * 2 ^ k)) (MaxRetryAfter t)"
    if "k < Suc (length ds)" for k
    using that assms(1) retry_delay_bounds [OF d] w
    by (cases k) (auto simp: trip_ok_def wrap_i64_mult mult.assoc)
  moreover have "retryable_answer t (snd ((x # ys) ! k))" if "Suc k < Suc (length ys)" for k
    using that x assms(1) by (cases k) (auto simp: trip_ok_def)
  ultimately show ?thesis
    using assms(1) retryable_not_ok [OF x] by (auto simp: trip_ok_def split: option.splits)
qed

lemma trip_ok_blocked: "trip_ok t wait n None (Some err) [] []"
  by (simp add: trip_ok_def)

lemma trip_ok_stop: "\<not> answered_ok (snd x) \<Longrightarrow> trip_ok t wait (Suc n) None (Some err) [x] []"
  by (simp add: trip_ok_def)

lemma trip_ok_done: "answered_ok (Inr resp) \<Longrightarrow> snd x = Inr resp \<Longrightarrow>
    rb = \<lparr>remaining = MaxResponseBytes t, limited = MaxResponseBytes t > 0\<rparr> \<Longrightarrow>
    trip_ok t wait (Suc n) (Some (resp, rb)) None [x] []"
  by (simp add: trip_ok_def)

lemma round_trip_loop_ok:
  assumes "round_trip_loop env t req i attempts wait lastErr w = ((res, e), w')" and "i < attempts" and "in_i64 wait"
  shows "\<exists>xs ds. exchanges w' = exchanges w @ xs \<and> waits w' = waits w @ ds \<and>
    trip_ok t wait (unat attempts - unat i) res e xs ds"
  using assms
proof (induction env t req i attempts wait lastErr w rule: round_trip_loop.induct)
  case (1 env t req i attempts wait lastErr w)
  obtain a w1 where a: "attempt env t req w = (a, w1)" by (metis prod.exhaust)
  have i: "i < attempts" by (rule "1.prems"(2))
  obtain m where m: "unat attempts - unat i = Suc m" "unat attempts - unat (i + 1) = m"
    using i by (cases "unat attempts - unat i") (auto simp: unat_Suc_below word_less_nat_alt)
  note loop = "1.prems"(1) [unfolded round_trip_loop.simps [of env t req i], simplified i a, simplified]
  from a show ?case
  proof (cases rule: attempt_cases)
    case (blocked err)
    then show ?thesis using loop trip_ok_blocked [of t wait _ err] by fastforce
  next
    case (sent ans n k)
    let ?x = "(attempt_request t req (unread w), ans)"
    show ?thesis
    proof (cases a)
      case (Succeeded resp rb)
      then show ?thesis using sent loop m trip_ok_done [of resp ?x rb t wait m] by auto
    next
      case (Failed err retry after)
      then have nok: "\<not> answered_ok (snd ?x)" and ret: "retry \<Longrightarrow> retryable_answer t (snd ?x)"
        using sent by auto
      have stop: ?thesis if "res = None" "e = Some err'" "w' = w1\<lparr>hTick := k'\<rparr>" for err' k'
        using that sent m trip_ok_stop [OF nok, of t wait m err'] by auto
      show ?thesis
      proof (cases "retry \<and> i \<noteq> attempts - 1")
        case False
        then show ?thesis using loop Failed stop [of err "hTick w1"] by (auto split: if_splits)
      next
        case True
        show ?thesis
        proof (cases "retry_delay t wait after")
          case None
          then show ?thesis using True loop Failed stop [of err "hTick w1"] by auto
        next
          case (Some d)
          show ?thesis
          proof (cases "waitInterrupted env (hTick w1)")
            case None
            have "i < attempts - 1" using True i by (intro below_pred) simp_all
            then have "i + 1 < attempts"
              using unat_pred_above [OF i] unat_Suc_below [OF i] by (simp add: word_less_nat_alt)
            moreover have "round_trip_loop env t req (i + 1) attempts (wrap_i64 (wait * 2)) (Some err)
                (w1\<lparr>hTick := hTick w1 + 1, waits := waits w1 @ [d]\<rparr>) = ((res, e), w')"
              using loop Failed True Some None by simp
            ultimately obtain xs ds where "exchanges w' = exchanges w1 @ xs" "waits w' = (waits w1 @ [d]) @ ds"
              "trip_ok t (wrap_i64 (wait * 2)) m res e xs ds"
              using "1.IH" [OF i a [symmetric] Failed _ Some None] True m by fastforce
            moreover have "retryable_answer t (snd ?x)" using ret True by simp
            ultimately show ?thesis
              using sent m trip_ok_Cons [OF _ _ Some "1.prems"(3), of m res e xs ds ?x] by fastforce
          next
            case (Some c)
            then show ?thesis
              using True loop Failed \<open>retry_delay t wait after = Some d\<close> stop [of "joined c err" "hTick w1 + 1"] by auto
          qed
        qed
      qed
    qed
  qed
qed

lemma attempts_pos: "0 < max n (1 :: u64)"
  by (auto simp: word_gt_0 max_def)


section \<open>Bodies of retried requests\<close>

text \<open>A round tripper that reads the body it is given to the end, as a sent request does.\<close>

definition reads_body :: "http_env \<Rightarrow> Transport \<Rightarrow> bool" where
  "reads_body env t \<longleftrightarrow> (\<forall>k r. length (reqBody r) \<le>
     snd ((case BaseTransport t of None \<Rightarrow> DefaultTransport env | Some b \<Rightarrow> b) k r))"

definition bodies_gone :: "bool \<Rightarrow> (http_request \<times> (http_error + http_response)) list \<Rightarrow> bool" where
  "bodies_gone drained xs \<longleftrightarrow> (\<forall>k < length xs. 0 < k \<or> drained \<longrightarrow> reqBody (fst (xs ! k)) = [])"

lemma reqBody_attempt [simp]: "reqBody (attempt_request t req rest) = rest"
  by (simp add: attempt_request_def Let_def)

lemma bodies_gone_Cons: "bodies_gone True xs \<Longrightarrow> (drained \<Longrightarrow> reqBody (fst x) = []) \<Longrightarrow> bodies_gone drained (x # xs)"
  by (auto simp: bodies_gone_def nth_Cons split: nat.splits)

lemma attempt_drains:
  assumes "attempt env t req w = (a, w1)" and "reads_body env t"
  shows "\<exists>xs. exchanges w1 = exchanges w @ xs \<and> bodies_gone (unread w = []) xs \<and>
    (\<forall>err after. a = Failed err True after \<longrightarrow> unread w1 = [] \<and> xs \<noteq> [])"
  using assms(1)
proof (cases rule: attempt_cases)
  case (blocked err)
  then show ?thesis by (auto simp: bodies_gone_def)
next
  case (sent ans n k)
  have "length (unread w) \<le> n"
    using assms(2) [unfolded reads_body_def, rule_format, of "attempt_request t req (unread w)" k] sent(4) by simp
  with sent show ?thesis by (auto simp: bodies_gone_def)
qed

lemma round_trip_loop_drains:
  assumes "round_trip_loop env t req i attempts wait lastErr w = (res, w')" and "reads_body env t"
  shows "\<exists>xs. exchanges w' = exchanges w @ xs \<and> bodies_gone (unread w = []) xs"
  using assms
proof (induction env t req i attempts wait lastErr w rule: round_trip_loop.induct)
  case (1 env t req i attempts wait lastErr w)
  obtain a w1 where a: "attempt env t req w = (a, w1)" by (metis prod.exhaust)
  obtain xs where xs: "exchanges w1 = exchanges w @ xs" "bodies_gone (unread w = []) xs"
    "\<And>err after. a = Failed err True after \<Longrightarrow> unread w1 = [] \<and> xs \<noteq> []"
    using attempt_drains [OF a "1.prems"(2)] by blast
  show ?case
  proof (cases "exchanges w' = exchanges w @ xs \<or> exchanges w' = exchanges w")
    case True
    then show ?thesis using xs by (auto simp: bodies_gone_def)
  next
    case False
    with "1.prems"(1) a xs obtain err after d where f: "i < attempts" "a = Failed err True after" "i \<noteq> attempts - 1"
      "retry_delay t wait after = Some d" "waitInterrupted env (hTick w1) = None"
      "round_trip_loop env t req (i + 1) attempts (wrap_i64 (wait * 2)) (Some err)
        (w1\<lparr>hTick := hTick w1 + 1, waits := waits w1 @ [d]\<rparr>) = (res, w')"
      by (auto simp: round_trip_loop.simps [of env t req i] split: attempt_result.splits if_splits option.splits)
    then obtain ys where "exchanges w' = exchanges w1 @ ys" "bodies_gone True ys"
      using "1.IH" [OF f(1) a [symmetric] f(2) _ f(4,5,6) "1.prems"(2)] xs(3) by auto
    moreover have "bodies_gone (unread w = []) (xs @ ys)"
      using xs f(2) \<open>bodies_gone True ys\<close>
      by (cases xs) (auto simp: bodies_gone_def nth_Cons nth_append split: nat.splits)
    ultimately show ?thesis using xs by auto
  qed
qed


section \<open>Retry-After\<close>

text \<open>A delay in seconds is the wrapped product with a second.\<close>

lemma parseRetryAfter_digits:
  assumes "0 < n" and "int n < 2 ^ 63"
  shows "parseRetryAfter pt (dec_nat n) now = wrap_i64 (int n * second)"
proof -
  have d: "\<And>c. c \<in> set (dec_nat n) \<Longrightarrow> is_digit c" by (rule dec_nat_digits)
  show ?thesis
    using assms TrimSpace_digits [OF dec_nat_nonempty d] Atoi_digits [OF dec_nat_nonempty d]
    by (simp add: parseRetryAfter_def Let_def)
qed

text \<open>
  A \<open>Retry-After\<close> in seconds is read exactly as long as the delay fits a 64-bit duration, which
  is 292 years.
\<close>

theorem parseRetryAfter_seconds:
  assumes "0 < n" and "int n * second < 2 ^ 63"
  shows "parseRetryAfter pt (dec_nat n) now = int n * second"
  using assms parseRetryAfter_digits [of n pt now] by (simp add: second_def in_i64_def)

theorem parseRetryAfter_seconds_witness: "parseRetryAfter (\<lambda>_. None) ''120'' 0 = 120 * second"
proof -
  have "dec_nat 120 = ''120''" by (simp add: dec_nat.simps digit_char_def)
  then show ?thesis using parseRetryAfter_seconds [of 120 "\<lambda>_. None" 0] by (simp add: second_def)
qed

text \<open>
  Beyond that the product wraps: a server that asks for 18446744074 seconds is taken to ask for
  less than a third of a second, although it exceeds every limit on honoured delays.
\<close>

theorem parseRetryAfter_overflow: "parseRetryAfter pt (dec_nat 18446744074) now = 290448384"
  using parseRetryAfter_digits [of 18446744074 pt now] by (simp add: wrap_i64_def second_def)

section \<open>Status errors\<close>

text \<open>A body that \<open>newStatusError\<close> can read.\<close>

definition readable :: "response_body \<Rightarrow> bool" where
  "readable b \<longleftrightarrow> snd (read_limited maxErrorBodyBytes b) = None \<and> rbCloseErr b = None"

lemma newStatusError_status:
  "heStatus (newStatusError pt now resp) = (if readable (respBody resp)
     then Some \<lparr>statusCode = respStatus resp, body = take maxErrorBodyBytes (rbBytes (respBody resp)),
       retryAfter = parseRetryAfter pt (Header_Get ''Retry-After'' (respHeader resp)) now\<rparr> else None)"
  "heIs (newStatusError pt now resp) = []"
  by (auto simp: newStatusError_def readable_def read_limited_def plain_error_def Let_def split: option.splits)

text \<open>
  A response outside 2xx becomes an error that keeps its evidence: status 429 is
  \<open>ErrRateLimited\<close> and may be retried, 401 and 403 are \<open>ErrUnauthorized\<close> and may not, no other
  status is either; and \<open>ResponseStatus\<close> reports the code and the first 64 KiB of the body,
  provided the body could be read. If reading or closing it fails, \<open>ResponseStatus\<close> reports
  nothing, for the rate-limited and unauthorized errors as well.
\<close>

theorem failed_response_evidence:
  assumes "failed_response t (respStatus resp) (newStatusError pt now resp) = Failed err retry after"
  shows "(ErrRateLimited \<in> set (heIs err) \<longleftrightarrow> respStatus resp = 429) \<and>
    (ErrUnauthorized \<in> set (heIs err) \<longleftrightarrow> respStatus resp = 401 \<or> respStatus resp = 403) \<and>
    (respStatus resp = 429 \<longrightarrow> retry) \<and> (respStatus resp = 401 \<or> respStatus resp = 403 \<longrightarrow> \<not> retry) \<and>
    ResponseStatus err = (if readable (respBody resp)
      then (respStatus resp, take maxErrorBodyBytes (rbBytes (respBody resp)), True) else (0, [], False))"
  using assms newStatusError_status [of pt now resp]
  by (auto simp: failed_response_def joined_def errRateLimited_def errUnauthorized_def ResponseStatus_def first_some_def
      split: if_splits option.splits)

section \<open>An example\<close>

text \<open>A server that first answers 503 and then 200, and a transport with the default settings.\<close>

definition ex_response :: "int \<Rightarrow> string \<Rightarrow> http_response" where
  "ex_response code text = \<lparr>respStatus = code, respHeader = [], respBody = \<lparr>rbBytes = text, rbErr = None, rbCloseErr = None\<rparr>\<rparr>"

definition ex_base :: round_tripper where
  "ex_base i r = (Inr (if i = 0 then ex_response 503 ''busy'' else ex_response 200 ''ok''), length (reqBody r))"

definition ex_env :: http_env where
  "ex_env = \<lparr>DefaultTransport = ex_base, reqContextErr = (\<lambda>_. None), waitInterrupted = (\<lambda>_. None),
     httpNow = int, envParseTime = (\<lambda>_. None)\<rparr>"

definition ex_transport :: Transport where
  "ex_transport = clTransport (BuildClient (\<lambda>_. ex_base) NewClientBuilder)"

definition ex_request :: http_request where
  "ex_request = \<lparr>reqMethod = ''POST'', reqURL = ''https://x'', reqHeader = [], reqBody = [1, 2], reqDeadline = None\<rparr>"

definition ex_world :: http_world where
  "ex_world = \<lparr>hTick = 0, unread = [1, 2], exchanges = [], waits = []\<rparr>"

definition ex_busy :: http_error where
  "ex_busy = newStatusError (\<lambda>_. None) 1 (ex_response 503 ''busy'')"

definition ex_world1 :: http_world where
  "ex_world1 = \<lparr>hTick = 3, unread = [], exchanges = [(ex_request, Inr (ex_response 503 ''busy''))], waits = [2 * second]\<rparr>"

definition ex_world2 :: http_world where
  "ex_world2 = \<lparr>hTick = 4, unread = [], exchanges = [(ex_request, Inr (ex_response 503 ''busy'')),
     (ex_request\<lparr>reqBody := []\<rparr>, Inr (ex_response 200 ''ok''))], waits = [2 * second]\<rparr>"

lemmas ex_attempt_defs = attempt_def send_attempt_def attempt_request_def ex_env_def ex_transport_def
  ex_request_def ex_world_def ex_base_def BuildClient_def NewClientBuilder_def failed_response_def

lemma ex_attempt1: "attempt ex_env ex_transport ex_request ex_world =
    (Failed ex_busy True 0, ex_world1\<lparr>hTick := 2, waits := []\<rparr>)"
proof -
  have "retryAfterOf ex_busy = 0"
    by (simp add: retryAfterOf_def RetryAfter_def ex_busy_def newStatusError_status ex_response_def readable_def
        read_limited_def maxErrorBodyBytes_def Header_Get_def parseRetryAfter_def TrimSpace_def)
  moreover have "respStatus (ex_response 503 ''busy'') = 503" by (simp add: ex_response_def)
  ultimately show ?thesis
    by (simp add: ex_attempt_defs ex_world1_def flip: ex_busy_def)
qed

lemma ex_attempt2: "attempt ex_env ex_transport ex_request ex_world1 =
    (Succeeded (ex_response 200 ''ok'') \<lparr>remaining = 0, limited = False\<rparr>, ex_world2)"
proof -
  have "respStatus (ex_response 200 ''ok'') = 200" by (simp add: ex_response_def)
  then show ?thesis by (simp add: ex_attempt_defs ex_world1_def ex_world2_def)
qed

lemma ex_settings: "max (MaxRetries ex_transport) 1 = 3" "RetryDelay ex_transport = 2 * second" "BaseTransport ex_transport = Some ex_base"
  "waitInterrupted ex_env k = None"
  by (simp_all add: ex_transport_def BuildClient_def NewClientBuilder_def maxRetries_def retryTimeout_def ex_env_def)

lemma ex_round_trip: "RoundTrip ex_env ex_transport ex_request ex_world =
    ((Some (ex_response 200 ''ok'', \<lparr>remaining = 0, limited = False\<rparr>), None), ex_world2)"
proof -
  have w: "ex_world1\<lparr>hTick := 3, waits := [2 * second]\<rparr> = ex_world1" by (simp add: ex_world1_def)
  show ?thesis
    by (simp add: RoundTrip_def ex_settings round_trip_loop.simps [of _ _ _ 0] round_trip_loop.simps [of _ _ _ 1]
        ex_attempt1 ex_attempt2 retry_delay_def w)
qed



theorem failed_response_evidence_witness:
  "failed_response ex_transport 429 (newStatusError (\<lambda>_. None) 0 (ex_response 429 ''slow'')) =
     Failed (joined errRateLimited (newStatusError (\<lambda>_. None) 0 (ex_response 429 ''slow''))) True
       (retryAfterOf (newStatusError (\<lambda>_. None) 0 (ex_response 429 ''slow''))) \<and>
   ResponseStatus (joined errRateLimited (newStatusError (\<lambda>_. None) 0 (ex_response 429 ''slow''))) = (429, ''slow'', True)"
  using failed_response_evidence [of ex_transport "ex_response 429 ''slow''" "\<lambda>_. None" 0
      "joined errRateLimited (newStatusError (\<lambda>_. None) 0 (ex_response 429 ''slow''))" True
      "retryAfterOf (newStatusError (\<lambda>_. None) 0 (ex_response 429 ''slow''))"]
  by (simp add: failed_response_def ex_response_def readable_def read_limited_def maxErrorBodyBytes_def)

end
