(* ===== verification/Units.thy ===== *)
theory Units
  imports Go_Text Complex_Main
begin

text \<open>
  \<open>utils/units/units.go\<close>: token amounts as base-unit integers. A \<open>*big.Int\<close> is an integer or
  nil; a \<open>big.Rat\<close> is a rational. What \<open>strconv.FormatFloat\<close> writes for a float, read as a
  rational, is a parameter, with none for NaN and the infinities. \<open>ToFloat\<close>, whose result is a
  float64, is not modelled.
\<close>

section \<open>Operations\<close>

definition BpsBase :: int where
  "BpsBase = 10000"

text \<open>\<open>big.Int.Quo\<close>: division that truncates toward zero.\<close>

definition quo :: "int \<Rightarrow> int \<Rightarrow> int" where
  "quo a b = sgn a * sgn b * (\<bar>a\<bar> div \<bar>b\<bar>)"

definition Pow10 :: "u64 \<Rightarrow> int" where
  "Pow10 decimals = 10 ^ unat decimals"

definition ToRat :: "int option \<Rightarrow> u64 \<Rightarrow> rat" where
  "ToRat amount decimals = (case amount of None \<Rightarrow> 0 | Some a \<Rightarrow> Fract a (Pow10 decimals))"

text \<open>\<open>Quo(r.Num(), r.Denom())\<close>.\<close>

definition truncated :: "rat \<Rightarrow> int" where
  "truncated r = (case quotient_of r of (n, d) \<Rightarrow> quo n d)"

definition FromFloat :: "('f \<Rightarrow> rat option) \<Rightarrow> 'f \<Rightarrow> u64 \<Rightarrow> int option" where
  "FromFloat shortest amount decimals =
     (case shortest amount of
        None \<Rightarrow> None
      | Some r \<Rightarrow> Some (truncated (r * of_int (Pow10 decimals))))"

text \<open>
  \<open>int(decimals)\<close> is negative for decimals from \<open>2 ^ 63\<close> on; the slice expression then panics.
\<close>

definition Format :: "int option \<Rightarrow> u64 \<Rightarrow> (unit, string) outcome" where
  "Format amount decimals =
     (case amount of
        None \<Rightarrow> Ret ''0''
      | Some a \<Rightarrow>
          let s = dec_nat (nat \<bar>a\<bar>);
              sign = (if a < 0 then ''-'' else [])
          in if decimals = 0 then Ret (sign @ s)
             else if sint decimals < 0 then Panic ''slice bounds out of range''
             else
               let d = unat decimals;
                   s = replicate (d + 1 - length s) (CHR ''0'') @ s;
                   whole = take (length s - d) s;
                   fraction = TrimRight (drop (length s - d) s) (CHR ''0'')
               in if fraction = [] then Ret (sign @ whole) else Ret (sign @ whole @ ''.'' @ fraction))"

text \<open>The three errors of \<open>Parse\<close>, with the text they quote.\<close>

datatype parse_error = AmountEmpty string | TooManyDecimals string u64 | InvalidDigit string

definition Parse :: "string \<Rightarrow> u64 \<Rightarrow> (parse_error, int) outcome" where
  "Parse value0 decimals =
     (let value1 = TrimSpace value0;
          signed0 = (value1 \<noteq> [] \<and> (hd value1 = CHR ''-'' \<or> hd value1 = CHR ''+''));
          sign = (if signed0 then take 1 value1 else []);
          value = (if signed0 then drop 1 value1 else value1)
      in case Cut value (CHR ''.'') of (whole, fraction, _) \<Rightarrow>
           if whole = [] \<and> fraction = [] then Fail (AmountEmpty value)
           else if length fraction > unat decimals then Fail (TooManyDecimals value decimals)
           else if sint (decimals - of_nat (length fraction)) < 0 then Panic ''strings: negative Repeat count''
           else
             let digits = whole @ fraction @ replicate (unat (decimals - of_nat (length fraction))) (CHR ''0'')
             in if \<not> list_all is_digit digits then Fail (InvalidDigit value)
                else Ret (if sign = ''-'' then - int (digits_val digits) else int (digits_val digits)))"

definition Rescale :: "int option \<Rightarrow> u64 \<Rightarrow> u64 \<Rightarrow> int" where
  "Rescale amount fromDecimals toDecimals =
     (case amount of
        None \<Rightarrow> 0
      | Some a \<Rightarrow>
          if toDecimals > fromDecimals then a * Pow10 (toDecimals - fromDecimals)
          else if toDecimals < fromDecimals then quo a (Pow10 (fromDecimals - toDecimals))
          else a)"

definition ScaleByPercent :: "('f \<Rightarrow> rat option) \<Rightarrow> int option \<Rightarrow> 'f \<Rightarrow> int" where
  "ScaleByPercent shortest amount percent =
     (case amount of
        None \<Rightarrow> 0
      | Some a \<Rightarrow>
          (case shortest percent of
             None \<Rightarrow> 0
           | Some scale \<Rightarrow> truncated (of_int a * (1 + scale / 100))))"

definition ApplySlippageBps :: "int option \<Rightarrow> int \<Rightarrow> int" where
  "ApplySlippageBps amount slippageBps =
     (case amount of
        None \<Rightarrow> 0
      | Some a \<Rightarrow>
          if a = 0 \<or> slippageBps < 0 \<or> slippageBps > BpsBase then 0
          else quo (a * (BpsBase - slippageBps)) BpsBase)"

definition MulBpsCeil :: "int option \<Rightarrow> u64 \<Rightarrow> int" where
  "MulBpsCeil amount bps =
     (case amount of
        None \<Rightarrow> 0
      | Some a \<Rightarrow>
          if a \<le> 0 \<or> bps = 0 then 0
          else if uint bps > BpsBase then a
          else quo (a * uint bps + (BpsBase - 1)) BpsBase)"

section \<open>Truncation\<close>

lemma quo_pos: "0 \<le> a \<Longrightarrow> 0 < b \<Longrightarrow> quo a b = a div b"
  by (cases "a = 0") (simp_all add: quo_def)

lemma quo_neg: "a < 0 \<Longrightarrow> 0 < b \<Longrightarrow> quo a b = - ((- a) div b)"
  by (simp add: quo_def)

lemma truncated_eq: "truncated r = (if 0 \<le> r then \<lfloor>r\<rfloor> else \<lceil>r\<rceil>)"
proof -
  obtain n d where q: "quotient_of r = (n, d)" by (metis prod.exhaust)
  have d: "0 < d" using quotient_of_denom_pos [OF q] .
  have r: "r = of_int n / of_int d" using quotient_of_div [OF q] .
  have sgn: "0 \<le> r \<longleftrightarrow> 0 \<le> n" using d by (simp add: r zero_le_divide_iff)
  have fl: "\<lfloor>r\<rfloor> = n div d" unfolding r by (rule floor_divide_of_int_eq)
  have "\<lceil>r\<rceil> = - ((- n) div d)"
    unfolding r ceiling_def by (metis floor_divide_of_int_eq minus_divide_left of_int_minus)
  with d fl sgn show ?thesis by (auto simp: truncated_def q quo_pos quo_neg)
qed

section \<open>Decimal text\<close>

lemma TrimRight_pad: "TrimRight s c @ replicate (length s - length (TrimRight s c)) c = s"
proof -
  have "rev s = takeWhile (\<lambda>d. d = c) (rev s) @ dropWhile (\<lambda>d. d = c) (rev s)" by simp
  then have s: "s = TrimRight s c @ rev (takeWhile (\<lambda>d. d = c) (rev s))"
    unfolding TrimRight_def by (metis rev_append rev_rev_ident)
  have "takeWhile (\<lambda>d. d = c) (rev s) = replicate (length (takeWhile (\<lambda>d. d = c) (rev s))) c"
    by (rule replicate_eqI [symmetric, THEN sym]) (auto dest: set_takeWhileD)
  then have "rev (takeWhile (\<lambda>d. d = c) (rev s)) = replicate (length s - length (TrimRight s c)) c"
    using arg_cong [OF s, of length] by (metis add_diff_cancel_left' length_append length_rev rev_replicate)
  with s show ?thesis by simp
qed

lemma TrimRight_subset: "set (TrimRight s c) \<subseteq> set s"
  using set_dropWhileD unfolding TrimRight_def by fastforce

lemma TrimRight_length: "length (TrimRight s c) \<le> length s"
  by (simp add: TrimRight_def) (metis length_dropWhile_le length_rev)

lemma no_dot: "\<forall>c \<in> set s. is_digit c \<Longrightarrow> CHR ''.'' \<notin> set s"
  by (auto simp: is_digit_def less_eq_char_iff)

lemma Cut_dot:
  "CHR ''.'' \<notin> set w \<Longrightarrow> Cut (w @ CHR ''.'' # f) (CHR ''.'') = (w, f, True)"
  "CHR ''.'' \<notin> set w \<Longrightarrow> Cut w (CHR ''.'') = (w, [], False)"
  by (induction w) (auto simp: Cut_def)

lemma sint_nonneg_iff: "0 \<le> sint d \<longleftrightarrow> unat d < 2 ^ 63" for d :: u64
proof -
  have "0 \<le> sint d \<longleftrightarrow> \<not> bit (uint d) 63" by (simp add: sint_uint signed_take_bit_nonnegative_iff)
  also have "\<dots> \<longleftrightarrow> uint d < 2 ^ 63"
  proof
    assume "\<not> bit (uint d) 63"
    moreover have "take_bit 64 (uint d) = uint d" using uint_lt2p [of d] by (intro take_bit_int_eq_self) simp_all
    ultimately have "take_bit 63 (uint d) = uint d" using take_bit_Suc_from_most [of 63 "uint d"] by simp
    then show "uint d < 2 ^ 63" by (metis take_bit_int_less_exp)
  next
    assume "uint d < 2 ^ 63"
    then have "take_bit 63 (uint d) = uint d" by (intro take_bit_int_eq_self) simp_all
    then show "\<not> bit (uint d) 63" by (metis bit_take_bit_iff less_irrefl)
  qed
  also have "\<dots> \<longleftrightarrow> unat d < 2 ^ 63" using of_nat_less_iff [of "unat d" "2 ^ 63", where 'a = int] by simp
  finally show ?thesis .
qed

lemma unat_diff:
  fixes d :: u64
  assumes "n \<le> unat d"
  shows "unat (d - of_nat n) = unat d - n"
proof -
  have "unat d < 2 ^ LENGTH(64)" by (rule unsigned_less)
  then have u: "unat (of_nat n :: u64) = n" using assms by (simp add: unat_of_nat)
  then have "of_nat n \<le> d" using assms by (simp add: word_le_nat_alt)
  then show ?thesis using u by (simp add: unat_sub)
qed

lemma sint_diff: "0 \<le> sint d \<Longrightarrow> n \<le> unat d \<Longrightarrow> 0 \<le> sint (d - of_nat n)" for d :: u64
  by (simp only: sint_nonneg_iff unat_diff)

text \<open>Parsing a sign, digits, and digits behind a point, with no more of those than decimals.\<close>

lemma Parse_digits:
  assumes w: "w \<noteq> []" "\<forall>c \<in> set w. is_digit c" and f: "\<forall>c \<in> set f. is_digit c" "length f \<le> unat d"
    and d: "0 \<le> sint d" and sign: "sign = ''-'' \<or> sign = []"
  shows "Parse (sign @ w @ (if f = [] then [] else CHR ''.'' # f)) d =
    Ret ((if sign = ''-'' then - 1 else 1) * int (digits_val (w @ f @ replicate (unat d - length f) (CHR ''0''))))"
proof -
  let ?v = "w @ (if f = [] then [] else CHR ''.'' # f)"
  have hd: "is_digit (hd w)" using w by simp
  have last: "is_digit (last ?v)" using w f by (auto simp: last_append)
  have "graphic (hd (sign @ ?v))" using sign is_digit_graphic [OF hd] w by (auto simp: graphic_def)
  moreover have "last (sign @ ?v) = last ?v" using w by (simp add: last_append)
  ultimately have trim: "TrimSpace (sign @ ?v) = sign @ ?v"
    using w last by (intro TrimSpace_graphic) (auto intro: is_digit_graphic)
  have nsign: "hd w \<noteq> CHR ''-''" "hd w \<noteq> CHR ''+''" using hd by (auto simp: is_digit_def less_eq_char_iff)
  have cut: "Cut ?v (CHR ''.'') = (w, f, f \<noteq> [])"
    using no_dot [OF w(2)] by (auto simp: Cut_dot)
  have rep: "\<not> sint (d - of_nat (length f)) < 0" using sint_diff [OF d f(2)] by (simp only: not_less)
  have dig: "list_all is_digit (w @ f @ replicate (unat d - length f) (CHR ''0''))"
    using w f by (auto simp: list_all_iff)
  show ?thesis
    using sign
  proof
    assume "sign = ''-''"
    then show ?thesis using trim cut rep dig w f unat_diff [OF f(2)] by (simp add: Parse_def Let_def)
  next
    assume "sign = []"
    then show ?thesis using trim cut rep dig w f nsign unat_diff [OF f(2)] by (simp add: Parse_def Let_def)
  qed
qed

text \<open>
  The text that \<open>Format\<close> returns: the digits of the amount, padded to more digits than decimals,
  with a point before the last decimals and the zeros behind them dropped; no leading zero but
  the one before the point.
\<close>

lemma Format_shape:
  fixes decimals :: u64
  assumes "0 \<le> sint decimals"
  obtains w f where "Format (Some a) decimals = Ret ((if a < 0 then ''-'' else []) @ w @ (if f = [] then [] else CHR ''.'' # f))"
    and "w \<noteq> []" "\<forall>c \<in> set w. is_digit c" "\<forall>c \<in> set f. is_digit c" "length f \<le> unat decimals"
    and "int (digits_val (w @ f @ replicate (unat decimals - length f) (CHR ''0''))) = \<bar>a\<bar>"
    and "length w > 1 \<longrightarrow> hd w \<noteq> CHR ''0''" and "length w \<le> length (dec_nat (nat \<bar>a\<bar>))"
proof -
  let ?d = "unat decimals" and ?s = "dec_nat (nat \<bar>a\<bar>)" and ?sign = "if a < 0 then ''-'' else []"
  let ?p = "replicate (?d + 1 - length ?s) (CHR ''0'') @ ?s"
  let ?w = "take (length ?p - ?d) ?p" and ?r = "drop (length ?p - ?d) ?p"
  let ?f = "TrimRight ?r (CHR ''0'')"
  have len: "?d < length ?p" by simp
  have digs: "\<forall>c \<in> set ?p. is_digit c" using dec_nat_digits by (auto simp: set_replicate_conv_if)
  have w: "?w \<noteq> []" "\<forall>c \<in> set ?w. is_digit c" using len digs by (auto dest: in_set_takeD)
  have r: "length ?r = ?d" using len by (simp only: length_drop diff_diff_cancel less_imp_le)
  have rd: "\<forall>c \<in> set ?r. is_digit c" using digs by (blast dest: in_set_dropD)
  have f: "\<forall>c \<in> set ?f. is_digit c" "length ?f \<le> ?d"
    using r rd TrimRight_subset [of ?r] TrimRight_length [of ?r] by (blast, metis)
  have pad: "?w @ ?f @ replicate (?d - length ?f) (CHR ''0'') = ?p"
    using TrimRight_pad [of ?r "CHR ''0''"] r by (metis append_take_drop_id)
  have val: "int (digits_val ?p) = \<bar>a\<bar>" by (simp add: digits_val_pad)
  have s: "0 < length ?s" by simp
  have lead: "(length ?w > 1 \<longrightarrow> hd ?w \<noteq> CHR ''0'') \<and> length ?w \<le> length ?s"
  proof (cases "length ?s \<le> ?d")
    case True
    then have "length ?w = 1" by simp
    then show ?thesis using s by linarith
  next
    case False
    then have p: "?p = ?s" by simp
    have "hd ?s \<noteq> CHR ''0''" if "length ?s > 1"
      using that dec_nat_leading [of "nat \<bar>a\<bar>"] by (cases "nat \<bar>a\<bar> = 0") (simp_all add: dec_nat.simps [of 0])
    then show ?thesis using False unfolding p by (simp add: hd_take)
  qed
  have "Format (Some a) decimals = Ret (?sign @ ?w @ (if ?f = [] then [] else CHR ''.'' # ?f))"
  proof (cases "decimals = 0")
    case True
    have "1 - length ?s = 0" using s by linarith
    then have "?p = ?s" using True by simp
    moreover from this have "?r = []" "?w = ?s" using True by simp_all
    ultimately show ?thesis using True by (simp add: Format_def TrimRight_def)
  next
    case False
    then show ?thesis using assms by (simp add: Format_def Let_def)
  qed
  from that [OF this w f _ conjunct1 [OF lead] conjunct2 [OF lead]] show thesis unfolding pad by (simp only: val)
qed

text \<open>
  Printing and parsing are inverse: for every amount and every number of decimals (below
  \<open>2 ^ 63\<close>, where \<open>int(decimals)\<close> is not negative) \<open>Format\<close> returns a text, and \<open>Parse\<close> of that
  text with the same decimals returns the amount, so nothing is rounded.
\<close>

theorem Parse_Format:
  assumes "0 \<le> sint decimals"
  shows "\<exists>s. Format (Some a) decimals = Ret s \<and> Parse s decimals = Ret a"
proof -
  obtain w f where fmt: "Format (Some a) decimals = Ret ((if a < 0 then ''-'' else []) @ w @ (if f = [] then [] else CHR ''.'' # f))"
    and w: "w \<noteq> []" "\<forall>c \<in> set w. is_digit c" and f: "\<forall>c \<in> set f. is_digit c" "length f \<le> unat decimals"
    and val: "int (digits_val (w @ f @ replicate (unat decimals - length f) (CHR ''0''))) = \<bar>a\<bar>"
    using assms by (rule Format_shape)
  have "Parse ((if a < 0 then ''-'' else []) @ w @ (if f = [] then [] else CHR ''.'' # f)) decimals = Ret a"
    using Parse_digits [OF w f assms, of "if a < 0 then ''-'' else []"] unfolding val by simp
  with fmt show ?thesis by blast
qed

theorem Parse_Format_witness:
  "Format (Some (-1230)) 3 = Ret ''-1.23'' \<and> Parse ''-1.23'' 3 = Ret (-1230)"
proof -
  have "Format (Some (-1230)) 3 = Ret ''-1.23''"
    by (simp add: Format_def dec_nat.simps digit_char_def TrimRight_def)
  moreover have "0 \<le> sint (3 :: u64)" by simp
  ultimately show ?thesis using Parse_Format [of 3 "-1230"] by auto
qed

section \<open>Basis points\<close>

lemma div_bounds: "10000 * (x div 10000) \<le> x \<and> x < 10000 * (x div 10000) + 10000" for x :: int
  using mult_div_mod_eq [of 10000 x] pos_mod_bound [of 10000 x] pos_mod_sign [of 10000 x] by linarith

lemma ceil_div_BpsBase: "\<lceil>of_int x / (of_int BpsBase :: rat)\<rceil> = (x + 9999) div 10000"
proof -
  have "\<lceil>of_int x / (of_int BpsBase :: rat)\<rceil> = - ((- x) div BpsBase)"
    unfolding ceiling_def by (metis floor_divide_of_int_eq minus_divide_left of_int_minus)
  then show ?thesis
    using div_bounds [of "- x"] div_bounds [of "x + 9999"] unfolding BpsBase_def by linarith
qed

lemma div_split:
  fixes x :: int
  assumes "0 < x" and "x \<le> a * 10000"
  shows "(x + 9999) div 10000 + (a * 10000 - x) div 10000 = a" and "(x + 9999) div 10000 \<le> a"
    and "1 \<le> (x + 9999) div 10000"
  using div_bounds [of "x + 9999"] div_bounds [of "a * 10000 - x"] assms by linarith+

text \<open>
  Rounding is in the protocol's favour and nothing is lost: for a positive amount and at most
  10000 basis points \<open>MulBpsCeil\<close> is the exact product rounded up, lies between one and the
  amount unless the share is zero, and together with the rest that \<open>ApplySlippageBps\<close> leaves it
  adds up to the amount.
\<close>

theorem bps_split:
  assumes "0 < a" and "uint bps \<le> BpsBase"
  shows "MulBpsCeil (Some a) bps = \<lceil>of_int (a * uint bps) / (of_int BpsBase :: rat)\<rceil> \<and>
    MulBpsCeil (Some a) bps \<le> a \<and> (bps \<noteq> 0 \<longrightarrow> 1 \<le> MulBpsCeil (Some a) bps) \<and>
    MulBpsCeil (Some a) bps + ApplySlippageBps (Some a) (uint bps) = a"
proof (cases "bps = 0")
  case True
  then show ?thesis using assms by (simp add: MulBpsCeil_def ApplySlippageBps_def BpsBase_def quo_pos)
next
  case False
  then have b: "0 < uint bps" "0 < bps" by (simp_all add: word_neq_0_conv word_less_def)
  let ?x = "a * uint bps"
  have x: "0 < ?x" "?x \<le> a * 10000" using assms b by (auto simp: BpsBase_def)
  have m: "MulBpsCeil (Some a) bps = (?x + 9999) div 10000"
    using assms False x by (simp add: MulBpsCeil_def quo_pos BpsBase_def)
  have s: "ApplySlippageBps (Some a) (uint bps) = (a * 10000 - ?x) div 10000"
    using assms x b by (simp add: ApplySlippageBps_def quo_pos BpsBase_def algebra_simps)
  show ?thesis using div_split [OF x] False by (simp only: m s ceil_div_BpsBase) simp
qed

theorem bps_split_witness: "MulBpsCeil (Some 33) 50 = 1 \<and> MulBpsCeil (Some 33) 50 + ApplySlippageBps (Some 33) 50 = 33"
  using bps_split [of 33 50] by (simp add: BpsBase_def) (simp add: MulBpsCeil_def quo_def BpsBase_def)

text \<open>For a negative amount \<open>ApplySlippageBps\<close> rounds toward zero, which is up.\<close>

lemma ApplySlippageBps_negative: "ApplySlippageBps (Some (-1)) 5000 = 0"
  by (simp add: ApplySlippageBps_def BpsBase_def quo_def)

section \<open>Rescaling\<close>

lemma Pow10_pos: "0 < Pow10 d"
  by (simp add: Pow10_def)

text \<open>
  Rescaling to more decimals and back is the identity; rescaling to fewer and back keeps the
  amount up to less than one unit of the coarser scale, never away from zero.
\<close>

theorem Rescale_round_trip:
  assumes "f \<le> t"
  shows "Rescale (Some (Rescale (Some a) f t)) t f = a \<and>
    \<bar>a - Rescale (Some (Rescale (Some a) t f)) f t\<bar> < Pow10 (t - f) \<and>
    \<bar>Rescale (Some (Rescale (Some a) t f)) f t\<bar> \<le> \<bar>a\<bar>"
proof (cases "f = t")
  case True
  then show ?thesis by (simp add: Rescale_def Pow10_pos)
next
  case False
  then have less: "f < t" using assms by simp
  let ?p = "Pow10 (t - f)"
  have p: "0 < ?p" by (rule Pow10_pos)
  have up: "quo (a * ?p) ?p = a"
  proof (cases "0 \<le> a")
    case True
    then show ?thesis using p by (simp add: quo_pos)
  next
    case False
    then have "quo (a * ?p) ?p = - ((- a * ?p) div ?p)" using p by (simp add: quo_neg mult_neg_pos)
    also have "\<dots> = a" using nonzero_mult_div_cancel_right [of ?p "- a"] p by simp
    finally show ?thesis .
  qed
  have down: "\<bar>a - quo a ?p * ?p\<bar> < ?p" "\<bar>quo a ?p * ?p\<bar> \<le> \<bar>a\<bar>"
  proof -
    have "\<bar>a\<bar> - \<bar>a\<bar> div ?p * ?p = \<bar>a\<bar> mod ?p" by (simp add: minus_div_mult_eq_mod)
    moreover have "0 \<le> \<bar>a\<bar> mod ?p" "\<bar>a\<bar> mod ?p < ?p" using p by simp_all
    moreover have "quo a ?p * ?p = sgn a * (\<bar>a\<bar> div ?p * ?p)" using p by (simp add: quo_def)
    moreover have "0 \<le> \<bar>a\<bar> div ?p * ?p" using p by (simp add: pos_imp_zdiv_nonneg_iff)
    ultimately show "\<bar>a - quo a ?p * ?p\<bar> < ?p" "\<bar>quo a ?p * ?p\<bar> \<le> \<bar>a\<bar>"
      by (auto simp: sgn_if split: if_splits)
  qed
  have "\<not> t < f" using less by simp
  then show ?thesis using less up down by (simp add: Rescale_def)
qed

theorem Rescale_round_trip_witness:
  "Rescale (Some (Rescale (Some 7) 6 18)) 18 6 = 7 \<and> Rescale (Some (Rescale (Some 1999) 3 0)) 0 3 = 1000"
proof -
  have "(6 :: u64) \<le> 18" by simp
  from Rescale_round_trip [OF this, of 7] show ?thesis
    by (simp add: Rescale_def Pow10_def quo_def)
qed

text \<open>
  Conversions from floats truncate toward zero: \<open>FromFloat\<close> and \<open>ScaleByPercent\<close> return the
  exact rational product, of the decimal value that \<open>strconv\<close> writes for the float, rounded down
  when it is positive and up when it is negative; NaN and infinities give nil and zero.
\<close>

lemma float_conversions_truncate:
  "FromFloat shortest x d = map_option (\<lambda>r. let y = r * 10 ^ unat d in if 0 \<le> y then \<lfloor>y\<rfloor> else \<lceil>y\<rceil>) (shortest x) \<and>
   ScaleByPercent shortest (Some a) x = (case shortest x of None \<Rightarrow> 0
     | Some r \<Rightarrow> let y = of_int a * (1 + r / 100) in if 0 \<le> y then \<lfloor>y\<rfloor> else \<lceil>y\<rceil>)"
  by (simp add: FromFloat_def ScaleByPercent_def truncated_eq Pow10_def Let_def split: option.splits)

end
