(* ===== verification/Polymarket_Order.thy ===== *)
theory Polymarket_Order
  imports Units "HOL-Library.Log_Nat"
begin

text \<open>
  \<open>utils/polymarket/order.go\<close> and \<open>constants.go\<close>: the signed order of Polymarket V2, its
  validation, the derivation of its amounts, and its EIP-712 digest. The ABI encoder and
  Keccak-256 of go-ethereum are parameters. An error is a constructor per message.
\<close>

section \<open>Constants\<close>

definition OrderSignatureTypePoly1271 :: "8 word" where
  "OrderSignatureTypePoly1271 = 3"

definition OrderDomainName :: string where
  "OrderDomainName = ''Polymarket CTF Exchange''"

definition OrderDomainVersion :: string where
  "OrderDomainVersion = ''2''"

definition OrderPriceScaleE6 :: u64 where
  "OrderPriceScaleE6 = 1000000"

definition OrderSizeGridE6 :: u64 where
  "OrderSizeGridE6 = 10000"

definition MaxSafeOrderSalt :: u64 where
  "MaxSafeOrderSalt = 2 ^ 53 - 1"

definition maxUint256DecimalDigits :: nat where
  "maxUint256DecimalDigits = 78"

definition OrderSideBuy :: "8 word" where
  "OrderSideBuy = 0"

definition OrderSideSell :: "8 word" where
  "OrderSideSell = 1"

definition PolygonChainID :: u64 where
  "PolygonChainID = 137"

definition MarketTypeStandard :: string where
  "MarketTypeStandard = ''STANDARD''"

definition MarketTypeNegRisk :: string where
  "MarketTypeNegRisk = ''NEG_RISK''"

definition StandardExchangeAddress :: string where
  "StandardExchangeAddress = ''0xe111180000d2663c0091e4f400237545b87b996b''"

definition NegRiskExchangeAddress :: string where
  "NegRiskExchangeAddress = ''0xe2222d279d744050d28e00520010520000310f59''"

definition standardExchangeContract :: address where
  "standardExchangeContract = 0xe111180000d2663c0091e4f400237545b87b996b"

definition negRiskExchangeContract :: address where
  "negRiskExchangeContract = 0xe2222d279d744050d28e00520010520000310f59"

section \<open>Data\<close>

record Order =
  Salt :: u64
  Maker :: address
  Signer :: address
  TokenID :: string
  MakerAmount :: string
  TakerAmount :: string
  Side :: "8 word"
  SignatureType :: "8 word"
  Timestamp :: u64
  Metadata :: hash
  Builder :: hash

record BuildOrderInput =
  inSalt :: u64
  inMaker :: address
  inSigner :: address
  inTokenID :: "int option"
  inPriceE6 :: u64
  inSizeE6 :: "int option"
  inTickSizeE6 :: u64
  inSide :: "8 word"
  inSignatureType :: "8 word"
  inTimestamp :: u64
  inMetadata :: hash
  inBuilder :: hash

datatype order_error =
    MakerSignerRequired | TokenIDNotUint256 | PriceOutOfRange | SizeNotUint256 | SizeOffGrid
  | PriceOffTick u64 u64 | SideNotBuyOrSell | NotPoly1271 | SaltTooLarge | TimestampInvalid
  | AmountsNotBounded | AmountsExceedUint256 | AmountFieldInvalid | SideInvalid
  | UnsupportedMarket string | EncodingDomain string | EncodingOrder string

datatype decimal_error =
    NotFixedPoint | DecimalMalformed | LeadingZeroes | PrecisionExceedsScale | NonDigits
  | DecimalInvalid | ExceedsUint256 | OutsideUint64

section \<open>Numbers\<close>

text \<open>\<open>big.Int.BitLen\<close>: the length of the absolute value.\<close>

definition BitLen :: "int \<Rightarrow> int" where
  "BitLen x = bitlen \<bar>x\<bar>"

definition SupportedTickSizeE6 :: "u64 \<Rightarrow> bool" where
  "SupportedTickSizeE6 tickSizeE6 \<longleftrightarrow> tickSizeE6 \<in> {100000, 10000, 5000, 2500, 1000, 100}"

definition IsCanonicalUint256 :: "string \<Rightarrow> bool \<Rightarrow> bool" where
  "IsCanonicalUint256 raw allowZero =
     (if raw = [] \<or> length raw > maxUint256DecimalDigits \<or> TrimSpace raw \<noteq> raw \<or>
         length raw > 1 \<and> hd raw = CHR ''0'' then False
      else case SetString raw of
        None \<Rightarrow> False
      | Some v \<Rightarrow> if v < 0 \<or> BitLen v > 256 then False else allowZero \<or> v > 0)"

definition ParseFixedPoint :: "string \<Rightarrow> int \<Rightarrow> decimal_error + int" where
  "ParseFixedPoint raw decimals =
     (if decimals < 0 \<or> decimals > 256 \<or> raw = [] \<or>
         int (length raw) > int maxUint256DecimalDigits + decimals + 1 \<or>
         TrimSpace raw \<noteq> raw \<or> ContainsAny raw ''eE+'' then Inl NotFixedPoint
      else
        let parts = Split raw (CHR ''.'')
        in if length parts > 2 \<or> parts ! 0 = [] then Inl DecimalMalformed
           else if length (parts ! 0) > 1 \<and> hd (parts ! 0) = CHR ''0'' then Inl LeadingZeroes
           else
             let fraction = (if length parts = 2 then parts ! 1 else [])
             in if length parts = 2 \<and> (fraction = [] \<or> int (length fraction) > decimals)
                then Inl PrecisionExceedsScale
                else if \<not> list_all is_digit (parts ! 0 @ fraction) then Inl NonDigits
                else
                  let combined = parts ! 0 @ fraction @ replicate (nat decimals - length fraction) (CHR ''0'')
                  in case SetString combined of
                       None \<Rightarrow> Inl DecimalInvalid
                     | Some v \<Rightarrow> if BitLen v > 256 then Inl ExceedsUint256 else Inr v)"

definition parseUint256 :: "string \<Rightarrow> order_error + int" where
  "parseUint256 raw =
     (case SetString raw of
        None \<Rightarrow> Inl AmountFieldInvalid
      | Some v \<Rightarrow> if v \<le> 0 \<or> BitLen v > 256 then Inl AmountFieldInvalid else Inr v)"

definition DecimalToE6 :: "string \<Rightarrow> decimal_error + u64" where
  "DecimalToE6 raw =
     (case ParseFixedPoint raw 6 of
        Inl _ \<Rightarrow> Inl OutsideUint64
      | Inr v \<Rightarrow> if v < 0 \<or> v \<ge> 2 ^ 64 then Inl OutsideUint64 else Inr (word_of_int v))"

section \<open>Markets\<close>

definition ParseMarketType :: "string \<Rightarrow> order_error + string" where
  "ParseMarketType v =
     (if v = MarketTypeStandard \<or> v = MarketTypeNegRisk then Inr v else Inl (UnsupportedMarket v))"

definition ExchangeAddress :: "string \<Rightarrow> order_error + string" where
  "ExchangeAddress m =
     (if m = MarketTypeStandard then Inr StandardExchangeAddress
      else if m = MarketTypeNegRisk then Inr NegRiskExchangeAddress
      else Inl (UnsupportedMarket m))"

definition Exchange :: "string \<Rightarrow> order_error + address" where
  "Exchange m =
     (if m = MarketTypeStandard then Inr standardExchangeContract
      else if m = MarketTypeNegRisk then Inr negRiskExchangeContract
      else Inl (UnsupportedMarket m))"

definition IsNegRisk :: "string \<Rightarrow> order_error + bool" where
  "IsNegRisk m =
     (if m = MarketTypeStandard then Inr False
      else if m = MarketTypeNegRisk then Inr True
      else Inl (UnsupportedMarket m))"

section \<open>Orders\<close>

definition NormalizeOrderAmounts :: "8 word \<Rightarrow> u64 \<Rightarrow> int option \<Rightarrow> order_error + int \<times> int" where
  "NormalizeOrderAmounts side priceE6 sizeE6 =
     (if side \<noteq> OrderSideBuy \<and> side \<noteq> OrderSideSell then Inl SideNotBuyOrSell
      else case sizeE6 of
        None \<Rightarrow> Inl AmountsNotBounded
      | Some size0 \<Rightarrow>
          if priceE6 = 0 \<or> priceE6 \<ge> OrderPriceScaleE6 \<or> size0 \<le> 0 \<or> BitLen size0 > 256
          then Inl AmountsNotBounded
          else
            let product = uint priceE6 * size0;
                scale = uint OrderPriceScaleE6
            in if side = OrderSideBuy then
                 let maker = (product + (scale - 1)) div scale
                 in if BitLen maker > 256 then Inl AmountsExceedUint256 else Inr (maker, size0)
               else
                 let taker = product div scale
                 in if taker \<le> 0 \<or> BitLen taker > 256 then Inl AmountsExceedUint256
                    else Inr (size0, taker))"

definition Validate :: "Order \<Rightarrow> order_error option" where
  "Validate ord =
     (if Maker ord = 0 \<or> Signer ord = 0 then Some MakerSignerRequired
      else if Salt ord > MaxSafeOrderSalt then Some SaltTooLarge
      else if \<not> IsCanonicalUint256 (TokenID ord) False \<or> \<not> IsCanonicalUint256 (MakerAmount ord) False \<or>
        \<not> IsCanonicalUint256 (TakerAmount ord) False then Some AmountFieldInvalid
      else if Side ord \<noteq> OrderSideBuy \<and> Side ord \<noteq> OrderSideSell then Some SideInvalid
      else if SignatureType ord \<noteq> OrderSignatureTypePoly1271 then Some NotPoly1271
      else if Timestamp ord = 0 \<or> Timestamp ord > 2 ^ 63 - 1 then Some TimestampInvalid
      else None)"

definition BuildOrder :: "BuildOrderInput \<Rightarrow> order_error + Order" where
  "BuildOrder input =
     (if inMaker input = 0 \<or> inSigner input = 0 then Inl MakerSignerRequired
      else case inTokenID input of
        None \<Rightarrow> Inl TokenIDNotUint256
      | Some token \<Rightarrow>
      if token \<le> 0 \<or> BitLen token > 256 then Inl TokenIDNotUint256
      else if inPriceE6 input = 0 \<or> inPriceE6 input \<ge> OrderPriceScaleE6 then Inl PriceOutOfRange
      else case inSizeE6 input of
        None \<Rightarrow> Inl SizeNotUint256
      | Some size0 \<Rightarrow>
      if size0 \<le> 0 \<or> BitLen size0 > 256 then Inl SizeNotUint256
      else if size0 mod uint OrderSizeGridE6 \<noteq> 0 then Inl SizeOffGrid
      else if \<not> SupportedTickSizeE6 (inTickSizeE6 input) \<or> inPriceE6 input mod inTickSizeE6 input \<noteq> 0
      then Inl (PriceOffTick (inPriceE6 input) (inTickSizeE6 input))
      else if inSide input \<noteq> OrderSideBuy \<and> inSide input \<noteq> OrderSideSell then Inl SideNotBuyOrSell
      else if inSignatureType input \<noteq> OrderSignatureTypePoly1271 then Inl NotPoly1271
      else if inSalt input > MaxSafeOrderSalt then Inl SaltTooLarge
      else if inTimestamp input = 0 \<or> inTimestamp input > 2 ^ 63 - 1 then Inl TimestampInvalid
      else case NormalizeOrderAmounts (inSide input) (inPriceE6 input) (inSizeE6 input) of
        Inl e \<Rightarrow> Inl e
      | Inr (makerAmount, takerAmount) \<Rightarrow>
      let ord = \<lparr>Salt = inSalt input, Maker = inMaker input, Signer = inSigner input,
            TokenID = dec_int token, MakerAmount = dec_int makerAmount, TakerAmount = dec_int takerAmount,
            Side = inSide input, SignatureType = inSignatureType input, Timestamp = inTimestamp input,
            Metadata = inMetadata input, Builder = inBuilder input\<rparr>
      in case Validate ord of Some e \<Rightarrow> Inl e | None \<Rightarrow> Inr ord)"

section \<open>The digest\<close>

text \<open>An argument of \<open>abi.Arguments.Pack\<close>, with the name of its ABI type.\<close>

datatype abi_value = ABytes32 hash | AUint256 int | AAddress address | AUint8 "8 word"

type_synonym packer = "(string \<times> abi_value) list \<Rightarrow> string + bytes"

definition string_bytes :: "string \<Rightarrow> bytes" where
  "string_bytes s = map of_char s"

definition hash_bytes :: "hash \<Rightarrow> bytes" where
  "hash_bytes h = map (\<lambda>i. ucast (drop_bit (8 * (31 - i)) h)) [0..<32]"

definition orderTypeHash :: "(bytes \<Rightarrow> hash) \<Rightarrow> hash" where
  "orderTypeHash keccak = keccak (string_bytes
     (''Order(uint256 salt,address maker,address signer,uint256 tokenId,uint256 makerAmount,'' @
      ''uint256 takerAmount,uint8 side,uint8 signatureType,uint256 timestamp,bytes32 metadata,bytes32 builder)''))"

definition domainTypeHash :: "(bytes \<Rightarrow> hash) \<Rightarrow> hash" where
  "domainTypeHash keccak = keccak (string_bytes
     ''EIP712Domain(string name,string version,uint256 chainId,address verifyingContract)'')"

definition domain_args :: "(bytes \<Rightarrow> hash) \<Rightarrow> address \<Rightarrow> (string \<times> abi_value) list" where
  "domain_args keccak exchange =
     [(''bytes32'', ABytes32 (domainTypeHash keccak)),
      (''bytes32'', ABytes32 (keccak (string_bytes OrderDomainName))),
      (''bytes32'', ABytes32 (keccak (string_bytes OrderDomainVersion))),
      (''uint256'', AUint256 (uint PolygonChainID)),
      (''address'', AAddress exchange)]"

definition order_args :: "(bytes \<Rightarrow> hash) \<Rightarrow> Order \<Rightarrow> int \<Rightarrow> int \<Rightarrow> int \<Rightarrow> (string \<times> abi_value) list" where
  "order_args keccak ord tokenID makerAmount takerAmount =
     [(''bytes32'', ABytes32 (orderTypeHash keccak)),
      (''uint256'', AUint256 (uint (Salt ord))),
      (''address'', AAddress (Maker ord)),
      (''address'', AAddress (Signer ord)),
      (''uint256'', AUint256 tokenID),
      (''uint256'', AUint256 makerAmount),
      (''uint256'', AUint256 takerAmount),
      (''uint8'', AUint8 (Side ord)),
      (''uint8'', AUint8 (SignatureType ord)),
      (''uint256'', AUint256 (uint (Timestamp ord))),
      (''bytes32'', ABytes32 (Metadata ord)),
      (''bytes32'', ABytes32 (Builder ord))]"

definition Hash :: "(bytes \<Rightarrow> hash) \<Rightarrow> packer \<Rightarrow> Order \<Rightarrow> string \<Rightarrow> order_error + hash" where
  "Hash keccak pack ord marketType =
     (case Validate ord of
        Some e \<Rightarrow> Inl e
      | None \<Rightarrow>
     (case Exchange marketType of
        Inl e \<Rightarrow> Inl e
      | Inr exchange \<Rightarrow>
     (case pack (domain_args keccak exchange) of
        Inl e \<Rightarrow> Inl (EncodingDomain e)
      | Inr domainEncoded \<Rightarrow>
     (case parseUint256 (TokenID ord) of
        Inl e \<Rightarrow> Inl e
      | Inr tokenID \<Rightarrow>
     (case parseUint256 (MakerAmount ord) of
        Inl e \<Rightarrow> Inl e
      | Inr makerAmount \<Rightarrow>
     (case parseUint256 (TakerAmount ord) of
        Inl e \<Rightarrow> Inl e
      | Inr takerAmount \<Rightarrow>
     (case pack (order_args keccak ord tokenID makerAmount takerAmount) of
        Inl e \<Rightarrow> Inl (EncodingOrder e)
      | Inr orderEncoded \<Rightarrow>
          Inr (keccak ([0x19, 0x01] @ hash_bytes (keccak domainEncoded) @ hash_bytes (keccak orderEncoded))))))))))"

section \<open>Canonical numbers\<close>

lemma BitLen_le: "\<not> BitLen x > 256 \<longleftrightarrow> \<bar>x\<bar> < 2 ^ 256"
  unfolding BitLen_def using bitlen_le_iff_power [of "\<bar>x\<bar>" 256] by (simp add: not_less)

lemma uint256_digits: "n < 2 ^ 256 \<Longrightarrow> length (dec_nat n) \<le> maxUint256DecimalDigits"
  unfolding maxUint256DecimalDigits_def by (rule length_dec_nat) simp_all

lemma IsCanonicalUint256_dec:
  assumes "n < 2 ^ 256" and "0 < n \<or> allowZero"
  shows "IsCanonicalUint256 (dec_nat n) allowZero"
proof -
  have "\<not> (length (dec_nat n) > 1 \<and> hd (dec_nat n) = CHR ''0'')"
    by (cases "n = 0") (simp_all add: dec_nat_leading dec_nat.simps [of 0])
  moreover have "SetString (dec_nat n) = Some (int n)"
    using SetString_digits [of "dec_nat n"] dec_nat_digits by simp
  moreover have "TrimSpace (dec_nat n) = dec_nat n" by (rule TrimSpace_digits) (simp_all add: dec_nat_digits)
  moreover have "\<not> BitLen (int n) > 256" using assms(1) unfolding BitLen_le by simp
  ultimately show ?thesis using assms uint256_digits [OF assms(1)] by (auto simp: IsCanonicalUint256_def)
qed

lemma IsCanonicalUint256_value:
  assumes "IsCanonicalUint256 raw allowZero"
  shows "\<exists>v. SetString raw = Some v \<and> 0 \<le> v \<and> v < 2 ^ 256 \<and> (0 < v \<or> allowZero)"
  using assms BitLen_le by (fastforce simp: IsCanonicalUint256_def split: if_splits option.splits)

lemma parseUint256_canonical:
  "IsCanonicalUint256 raw False \<Longrightarrow> \<exists>v. SetString raw = Some v \<and> parseUint256 raw = Inr v"
  using BitLen_le by (fastforce simp: parseUint256_def IsCanonicalUint256_def split: if_splits option.splits)

lemma IsCanonicalUint256_plus:
  assumes "\<forall>c \<in> set ds. is_digit c" and "length ds \<le> 77" and "0 < digits_val ds"
  shows "IsCanonicalUint256 (CHR ''+'' # ds) False"
proof -
  have ne: "ds \<noteq> []" using assms(3) by auto
  have "graphic (CHR ''+'')" by (simp add: graphic_def)
  moreover have "graphic (last ds)" using assms(1) ne by (intro is_digit_graphic) simp
  ultimately have "TrimSpace (CHR ''+'' # ds) = CHR ''+'' # ds" using ne by (intro TrimSpace_graphic) simp_all
  moreover have "SetString (CHR ''+'' # ds) = Some (int (digits_val ds))"
    using assms(1) ne by (simp add: SetString_def list_all_iff)
  moreover have "digits_val ds < 2 ^ 256"
  proof -
    have "digits_val ds < 10 ^ length ds" using assms(1) by (rule digits_val_less)
    also have "\<dots> \<le> 10 ^ 77" using assms(2) by (intro power_increasing) simp_all
    also have "\<dots> < (2 :: nat) ^ 256" by simp
    finally show ?thesis .
  qed
  then have "\<not> BitLen (int (digits_val ds)) > 256" unfolding BitLen_le by simp
  ultimately show ?thesis using assms by (simp add: IsCanonicalUint256_def maxUint256DecimalDigits_def)
qed

text \<open>
  What \<open>IsCanonicalUint256\<close> accepts as a positive number, exactly: the decimal text of a
  number below \<open>2 ^ 256\<close>, and also a plus sign in front of at most 77 digits that may start with
  zeros, so a value has more than one accepted text.
\<close>

theorem IsCanonicalUint256_exact:
  "IsCanonicalUint256 raw False \<longleftrightarrow> (\<exists>n. 0 < n \<and> n < 2 ^ 256 \<and> raw = dec_nat n) \<or>
    (\<exists>ds. raw = CHR ''+'' # ds \<and> list_all is_digit ds \<and> length ds \<le> 77 \<and> 0 < digits_val ds)"
    (is "_ \<longleftrightarrow> ?plain \<or> ?signed")
proof
  assume can: "IsCanonicalUint256 raw False"
  then have raw: "raw \<noteq> []" "length raw \<le> 78" "length raw > 1 \<longrightarrow> hd raw \<noteq> CHR ''0''"
    by (auto simp: IsCanonicalUint256_def maxUint256DecimalDigits_def split: if_splits)
  obtain v where v: "SetString raw = Some v" "0 < v" "v < 2 ^ 256" using IsCanonicalUint256_value [OF can] by auto
  show "?plain \<or> ?signed"
  proof (cases "hd raw = CHR ''+'' \<or> hd raw = CHR ''-''")
    case True
    then obtain ds where ds: "raw = hd raw # ds" using raw by (cases raw) auto
    with True v raw have "list_all is_digit ds" "v = (if hd raw = CHR ''-'' then - int (digits_val ds) else int (digits_val ds))"
      by (cases raw; auto simp: SetString_def Let_def split: if_splits)+
    with v ds True raw(2) show ?thesis by (cases raw) (auto split: if_splits)
  next
    case False
    with v raw have "\<forall>c \<in> set raw. is_digit c" "v = int (digits_val raw)"
      by (auto simp: SetString_def Let_def list_all_iff split: if_splits)
    with dec_nat_digits_val [OF raw(1) _ raw(3)] v have "0 < digits_val raw \<and> digits_val raw < 2 ^ 256 \<and> raw = dec_nat (digits_val raw)"
      by (metis of_nat_0_less_iff of_nat_less_iff of_nat_numeral of_nat_power)
    then show ?thesis by blast
  qed
next
  assume "?plain \<or> ?signed"
  then show "IsCanonicalUint256 raw False"
  proof
    assume ?plain
    then show ?thesis using IsCanonicalUint256_dec by blast
  next
    assume ?signed
    then show ?thesis using IsCanonicalUint256_plus by (auto simp: list_all_iff)
  qed
qed

section \<open>Building orders\<close>

lemma dec_int_nonneg: "0 \<le> x \<Longrightarrow> dec_int x = dec_nat (nat x)"
  by (simp add: dec_int_def)

lemma canonical_dec_int: "0 < x \<Longrightarrow> x < 2 ^ 256 \<Longrightarrow> IsCanonicalUint256 (dec_int x) False"
  by (simp add: dec_int_nonneg, rule IsCanonicalUint256_dec) (simp_all add: nat_less_iff)

text \<open>The amounts of a price below one and a size on their grids: positive, and at most the size.\<close>

lemma div_million: "1000000 * (x div 1000000) \<le> x \<and> x < 1000000 * (x div 1000000) + 1000000" for x :: int
  using mult_div_mod_eq [of 1000000 x] pos_mod_bound [of 1000000 x] pos_mod_sign [of 1000000 x] by linarith

lemma grid_product:
  fixes p s :: int
  assumes "100 \<le> p" and "p < 1000000" and "10000 \<le> s"
  shows "1 \<le> p * s div 1000000" and "p * s div 1000000 \<le> s"
    and "1 \<le> (p * s + 999999) div 1000000" and "(p * s + 999999) div 1000000 \<le> s"
proof -
  have "100 * 10000 \<le> p * s" using assms by (intro mult_mono) simp_all
  moreover have "p * s \<le> 1000000 * s" using assms by (intro mult_right_mono) simp_all
  ultimately show "1 \<le> p * s div 1000000" "p * s div 1000000 \<le> s"
    "1 \<le> (p * s + 999999) div 1000000" "(p * s + 999999) div 1000000 \<le> s"
    using div_million [of "p * s"] div_million [of "p * s + 999999"] by linarith+
qed

lemma grid_price:
  assumes "SupportedTickSizeE6 tick" and "price mod tick = 0" and "price \<noteq> 0"
  shows "100 \<le> uint price"
proof -
  have t: "100 \<le> uint tick" using assms(1) by (auto simp: SupportedTickSizeE6_def)
  have "uint price mod uint tick = 0" using assms(2) by (metis uint_0_iff uint_mod)
  moreover have "0 < uint price" using assms(3) by (simp add: uint_0_iff order.strict_iff_order)
  ultimately have "uint tick \<le> uint price" by (intro zdvd_imp_le mod_0_imp_dvd)
  with t show ?thesis by simp
qed

text \<open>Past the checks of \<open>BuildOrder\<close> the amounts are these, and the order is valid.\<close>

definition exact_amounts :: "8 word \<Rightarrow> u64 \<Rightarrow> int \<Rightarrow> int \<times> int" where
  "exact_amounts side price sz =
     (if side = OrderSideBuy then (\<lceil>of_int (uint price * sz) / (1000000 :: rat)\<rceil>, sz)
      else (sz, \<lfloor>of_int (uint price * sz) / (1000000 :: rat)\<rfloor>))"

lemma exact_amounts_div:
  "exact_amounts side price sz = (if side = OrderSideBuy then ((uint price * sz + 999999) div 1000000, sz)
     else (sz, uint price * sz div 1000000))"
proof -
  have fl: "\<lfloor>of_int x / (1000000 :: rat)\<rfloor> = x div 1000000" for x
    using floor_divide_of_int_eq [of x 1000000, where 'a = rat] by simp
  have "\<lceil>of_int x / (1000000 :: rat)\<rceil> = (x + 999999) div 1000000" for x
    using fl [of "- x"] div_million [of "- x"] div_million [of "x + 999999"] unfolding ceiling_def by simp
  with fl show ?thesis by (simp only: exact_amounts_def)
qed

lemma NormalizeOrderAmounts_grid:
  assumes "side = OrderSideBuy \<or> side = OrderSideSell" and "100 \<le> uint price" and "price < OrderPriceScaleE6"
    and "10000 \<le> sz" and "sz < 2 ^ 256"
  shows "NormalizeOrderAmounts side price (Some sz) = Inr (exact_amounts side price sz) \<and>
    (case exact_amounts side price sz of (m, t) \<Rightarrow> 0 < m \<and> m < 2 ^ 256 \<and> 0 < t \<and> t < 2 ^ 256)"
proof -
  have p: "uint price < 1000000" using assms(3) by (simp add: OrderPriceScaleE6_def word_less_def)
  note g = grid_product [OF assms(2) p assms(4)]
  have nz: "price \<noteq> 0" using assms(2) by auto
  have b: "\<not> BitLen x > 256" if "1 \<le> x" "x \<le> sz" for x
    unfolding BitLen_le using that assms(5) by simp
  have sc: "uint OrderPriceScaleE6 = 1000000" by (simp add: OrderPriceScaleE6_def)
  have d: "OrderSideSell \<noteq> OrderSideBuy" by (simp add: OrderSideBuy_def OrderSideSell_def)
  have "\<not> BitLen sz > 256" using b [of sz] assms(4) by simp
  with g b [OF g(1,2)] b [OF g(3,4)] nz assms show ?thesis
    unfolding NormalizeOrderAmounts_def exact_amounts_div sc Let_def by (auto simp: not_le d)
qed

text \<open>What \<open>BuildOrder\<close> asks of its input, and the order it then returns.\<close>

definition acceptable :: "BuildOrderInput \<Rightarrow> int \<Rightarrow> int \<Rightarrow> bool" where
  "acceptable input token sz \<longleftrightarrow>
     inMaker input \<noteq> 0 \<and> inSigner input \<noteq> 0 \<and>
     inTokenID input = Some token \<and> 0 < token \<and> token < 2 ^ 256 \<and>
     0 < inPriceE6 input \<and> inPriceE6 input < 1000000 \<and>
     inSizeE6 input = Some sz \<and> 0 < sz \<and> sz < 2 ^ 256 \<and> sz mod 10000 = 0 \<and>
     inTickSizeE6 input \<in> {100000, 10000, 5000, 2500, 1000, 100} \<and> inPriceE6 input mod inTickSizeE6 input = 0 \<and>
     (inSide input = OrderSideBuy \<or> inSide input = OrderSideSell) \<and>
     inSignatureType input = OrderSignatureTypePoly1271 \<and> inSalt input \<le> MaxSafeOrderSalt \<and>
     0 < inTimestamp input \<and> inTimestamp input \<le> 2 ^ 63 - 1"

definition signed_order :: "BuildOrderInput \<Rightarrow> int \<Rightarrow> int \<Rightarrow> Order" where
  "signed_order input token sz = (case exact_amounts (inSide input) (inPriceE6 input) sz of
     (m, t) \<Rightarrow> \<lparr>Salt = inSalt input, Maker = inMaker input, Signer = inSigner input,
        TokenID = dec_int token, MakerAmount = dec_int m, TakerAmount = dec_int t,
        Side = inSide input, SignatureType = inSignatureType input, Timestamp = inTimestamp input,
        Metadata = inMetadata input, Builder = inBuilder input\<rparr>)"

lemma BuildOrder_checks:
  assumes "BuildOrder input = Inr ord"
  shows "\<exists>token sz. acceptable input token sz"
proof -
  obtain token where t: "inTokenID input = Some token" using assms by (fastforce simp: BuildOrder_def split: option.splits if_splits)
  obtain sz where z: "inSizeE6 input = Some sz" using assms t by (fastforce simp: BuildOrder_def split: option.splits if_splits)
  have "\<not> (inMaker input = 0 \<or> inSigner input = 0)" "\<not> (token \<le> 0 \<or> BitLen token > 256)"
    "\<not> (inPriceE6 input = 0 \<or> inPriceE6 input \<ge> OrderPriceScaleE6)" "\<not> (sz \<le> 0 \<or> BitLen sz > 256)"
    "sz mod uint OrderSizeGridE6 = 0"
    "SupportedTickSizeE6 (inTickSizeE6 input) \<and> inPriceE6 input mod inTickSizeE6 input = 0"
    "inSide input = OrderSideBuy \<or> inSide input = OrderSideSell"
    "inSignatureType input = OrderSignatureTypePoly1271"
    "\<not> inSalt input > MaxSafeOrderSalt" "\<not> (inTimestamp input = 0 \<or> inTimestamp input > 2 ^ 63 - 1)"
    using assms unfolding BuildOrder_def t z option.case by (metis Inl_Inr_False)+
  moreover from this have "\<bar>token\<bar> < 2 ^ 256" "\<bar>sz\<bar> < 2 ^ 256" unfolding BitLen_le [symmetric] by blast+
  ultimately have "acceptable input token sz"
    unfolding acceptable_def t z by (simp add: OrderPriceScaleE6_def OrderSizeGridE6_def SupportedTickSizeE6_def not_le not_less word_neq_0_conv)
  then show ?thesis by blast
qed

lemma BuildOrder_acceptable:
  assumes "acceptable input token sz"
  shows "BuildOrder input = Inr (signed_order input token sz) \<and> Validate (signed_order input token sz) = None"
proof -
  note a = assms [unfolded acceptable_def]
  have tick: "SupportedTickSizeE6 (inTickSizeE6 input)" using a by (simp add: SupportedTickSizeE6_def)
  then have price: "100 \<le> uint (inPriceE6 input)" using a by (intro grid_price) auto
  have sz: "10000 \<le> sz" using a by (intro zdvd_imp_le mod_0_imp_dvd) auto
  have le: "inPriceE6 input < OrderPriceScaleE6" using a by (simp add: OrderPriceScaleE6_def)
  obtain m t where mt: "exact_amounts (inSide input) (inPriceE6 input) sz = (m, t)" by fastforce
  have n: "NormalizeOrderAmounts (inSide input) (inPriceE6 input) (Some sz) = Inr (m, t)"
    "0 < m" "m < 2 ^ 256" "0 < t" "t < 2 ^ 256"
    using NormalizeOrderAmounts_grid [OF _ price le sz, of "inSide input"] a mt by auto
  have ts: "inTimestamp input \<noteq> 0" "\<not> inTimestamp input > 2 ^ 63 - 1" using a by (auto simp: not_less)
  have valid: "Validate (signed_order input token sz) = None"
    using a n ts by (simp add: Validate_def signed_order_def mt canonical_dec_int not_less)
  have "\<not> BitLen token > 256" "\<not> BitLen sz > 256" using a unfolding BitLen_le by simp_all
  then have g: "(inMaker input = 0 \<or> inSigner input = 0) = False" "inTokenID input = Some token"
    "(token \<le> 0 \<or> BitLen token > 256) = False" "inSizeE6 input = Some sz"
    "(inPriceE6 input = 0 \<or> inPriceE6 input \<ge> OrderPriceScaleE6) = False" "(sz \<le> 0 \<or> BitLen sz > 256) = False"
    "(sz mod uint OrderSizeGridE6 \<noteq> 0) = False"
    "(\<not> SupportedTickSizeE6 (inTickSizeE6 input) \<or> inPriceE6 input mod inTickSizeE6 input \<noteq> 0) = False"
    "(inSide input \<noteq> OrderSideBuy \<and> inSide input \<noteq> OrderSideSell) = False"
    "(inSignatureType input \<noteq> OrderSignatureTypePoly1271) = False" "(inSalt input > MaxSafeOrderSalt) = False"
    "(inTimestamp input = 0 \<or> inTimestamp input > 2 ^ 63 - 1) = False"
    using a tick le ts by (auto simp: OrderSizeGridE6_def)
  have "BuildOrder input = (case Validate (signed_order input token sz) of Some e \<Rightarrow> Inl e | None \<Rightarrow> Inr (signed_order input token sz))"
    by (simp only: BuildOrder_def g n(1) mt signed_order_def if_False option.case sum.case prod.case Let_def)
  with valid show ?thesis by simp
qed

text \<open>
  C18. What \<open>BuildOrder\<close> accepts, exactly: it returns an order if and only if the input passes the
  stated checks, so its later errors on the derived amounts never occur; the order then has the
  input's signed fields, a buyer pays the product of price and size rounded up, a seller receives
  it rounded down, and the order passes \<open>Validate\<close>.
\<close>

theorem BuildOrder_exact:
  "BuildOrder input = Inr ord \<longleftrightarrow>
    (\<exists>token sz. acceptable input token sz \<and> ord = signed_order input token sz \<and> Validate ord = None)"
  using BuildOrder_checks BuildOrder_acceptable by (metis Inr_inject)

section \<open>Fixed-point text\<close>

text \<open>
  \<open>ParseFixedPoint\<close> reads what \<open>units.Format\<close> writes: for every amount below \<open>2 ^ 256\<close> and at most
  256 decimals the formatted text is accepted and gives the amount back.
\<close>

theorem ParseFixedPoint_Format:
  assumes "0 \<le> v" and "v < 2 ^ 256" and "unat d \<le> 256"
  shows "\<exists>s. Format (Some v) d = Ret s \<and> ParseFixedPoint s (int (unat d)) = Inr v"
proof -
  have "0 \<le> sint d" using assms(3) unfolding sint_nonneg_iff by simp
  then obtain w f where fmt: "Format (Some v) d = Ret ((if v < 0 then ''-'' else []) @ w @ (if f = [] then [] else CHR ''.'' # f))"
    and w: "w \<noteq> []" "\<forall>c \<in> set w. is_digit c" and f: "\<forall>c \<in> set f. is_digit c" "length f \<le> unat d"
    and val: "int (digits_val (w @ f @ replicate (unat d - length f) (CHR ''0''))) = \<bar>v\<bar>"
    and lead: "length w > 1 \<longrightarrow> hd w \<noteq> CHR ''0''" "length w \<le> length (dec_nat (nat \<bar>v\<bar>))"
    by (rule Format_shape)
  let ?s = "w @ (if f = [] then [] else CHR ''.'' # f)"
  have "length w \<le> 78"
    using lead(2) uint256_digits [of "nat \<bar>v\<bar>"] assms by (simp add: maxUint256DecimalDigits_def nat_less_iff)
  then have len: "\<not> int (length ?s) > int maxUint256DecimalDigits + int (unat d) + 1"
    using f(2) by (simp add: maxUint256DecimalDigits_def del: of_nat_unat unsigned_of_nat)
  have "\<forall>c \<in> set ?s. is_digit c \<or> c = CHR ''.''" using w f by auto
  moreover have "\<not> is_digit (CHR ''e'')" "\<not> is_digit (CHR ''E'')" "\<not> is_digit (CHR ''+'')"
    by (simp_all add: is_digit_def less_eq_char_iff)
  ultimately have "\<not> ContainsAny ?s ''eE+''" by (auto simp: ContainsAny_def list_ex_iff)
  moreover have "is_digit (hd ?s)" "is_digit (last ?s)" using w f by (auto simp: last_append)
  then have "TrimSpace ?s = ?s" using w by (intro TrimSpace_graphic is_digit_graphic) simp_all
  moreover have "Split ?s (CHR ''.'') = (if f = [] then [w] else [w, f])"
    using no_dot [OF w(2)] no_dot [OF f(1)] by (simp add: Split_no_sep Split_append)
  moreover have "SetString (w @ f @ replicate (unat d - length f) (CHR ''0'')) = Some v"
    using w f val assms(1) by (subst SetString_digits) auto
  moreover have "\<not> BitLen v > 256" using assms unfolding BitLen_le by simp
  moreover have "list_all is_digit (w @ f)" using w f by (auto simp: list_all_iff)
  ultimately have "ParseFixedPoint ?s (int (unat d)) = Inr v"
    using w f lead(1) assms(3) len by (cases "f = []") (auto simp: ParseFixedPoint_def Let_def simp del: of_nat_unat)
  with fmt assms(1) show ?thesis by auto
qed

theorem ParseFixedPoint_Format_witness:
  "Format (Some 1500000) 6 = Ret ''1.5'' \<and> ParseFixedPoint ''1.5'' 6 = Inr 1500000"
proof -
  have "Format (Some 1500000) 6 = Ret ''1.5''"
    by (simp add: Format_def dec_nat.simps digit_char_def TrimRight_def)
  then show ?thesis using ParseFixedPoint_Format [of 1500000 6] by auto
qed

section \<open>What the digest binds\<close>

text \<open>
  The messages that \<open>Hash\<close> gives to Keccak-256 for an order and a market: the two encodings and
  the digest's own input.
\<close>

definition hashed :: "(bytes \<Rightarrow> hash) \<Rightarrow> packer \<Rightarrow> Order \<Rightarrow> string \<Rightarrow> bytes set" where
  "hashed keccak pack ord marketType =
     {x. \<exists>exchange tokenID makerAmount takerAmount d s.
        Exchange marketType = Inr exchange \<and> pack (domain_args keccak exchange) = Inr d \<and>
        SetString (TokenID ord) = Some tokenID \<and> SetString (MakerAmount ord) = Some makerAmount \<and>
        SetString (TakerAmount ord) = Some takerAmount \<and>
        pack (order_args keccak ord tokenID makerAmount takerAmount) = Inr s \<and>
        x \<in> {d, s, [0x19, 0x01] @ hash_bytes (keccak d) @ hash_bytes (keccak s)}}"

text \<open>
  Arguments whose value fits the type, and what the ABI encoding of the static types documents: it
  is injective on such argument lists of the same types.
\<close>

fun abi_fits :: "string \<times> abi_value \<Rightarrow> bool" where
  "abi_fits (t, ABytes32 _) \<longleftrightarrow> t = ''bytes32''"
| "abi_fits (t, AUint256 n) \<longleftrightarrow> t = ''uint256'' \<and> 0 \<le> n \<and> n < 2 ^ 256"
| "abi_fits (t, AAddress _) \<longleftrightarrow> t = ''address''"
| "abi_fits (t, AUint8 _) \<longleftrightarrow> t = ''uint8''"

definition pack_injective :: "packer \<Rightarrow> bool" where
  "pack_injective pack \<longleftrightarrow>
     (\<forall>xs ys b. pack xs = Inr b \<longrightarrow> pack ys = Inr b \<longrightarrow> map fst xs = map fst ys \<longrightarrow>
        list_all abi_fits xs \<longrightarrow> list_all abi_fits ys \<longrightarrow> xs = ys)"

lemma length_hash_bytes [simp]: "length (hash_bytes h) = 32"
  by (simp add: hash_bytes_def)

lemma hash_bytes_inj: "hash_bytes a = hash_bytes b \<longleftrightarrow> a = b"
proof (rule iffI, rule bit_word_eqI)
  fix n assume eq: "hash_bytes a = hash_bytes b" and n: "n < LENGTH(256)"
  have "bit h n = bit (hash_bytes h ! (31 - n div 8)) (n mod 8)" for h
  proof -
    have "n div 8 \<le> 31" using n by simp
    then have "hash_bytes h ! (31 - n div 8) = ucast (drop_bit (8 * (n div 8)) h)"
      using nth_upt [of 0 "31 - n div 8" 32] by (simp add: hash_bytes_def del: upt_Suc)
    then show ?thesis by (simp add: bit_ucast_iff bit_drop_bit_eq)
  qed
  then show "bit a n = bit b n" using eq by simp
qed simp

lemma Exchange_inj: "Exchange m1 = Inr e \<Longrightarrow> Exchange m2 = Inr e \<Longrightarrow> m1 = m2"
proof -
  have "standardExchangeContract \<noteq> negRiskExchangeContract"
    by (simp add: standardExchangeContract_def negRiskExchangeContract_def)
  then show "Exchange m1 = Inr e \<Longrightarrow> Exchange m2 = Inr e \<Longrightarrow> m1 = m2"
    by (auto simp: Exchange_def split: if_splits)
qed

lemma Hash_parts:
  assumes "Hash keccak pack ord m = Inr h"
  obtains exchange tokenID makerAmount takerAmount d s where "Validate ord = None" "Exchange m = Inr exchange"
    "pack (domain_args keccak exchange) = Inr d" "SetString (TokenID ord) = Some tokenID"
    "SetString (MakerAmount ord) = Some makerAmount" "SetString (TakerAmount ord) = Some takerAmount"
    "pack (order_args keccak ord tokenID makerAmount takerAmount) = Inr s"
    "h = keccak ([0x19, 0x01] @ hash_bytes (keccak d) @ hash_bytes (keccak s))"
    "list_all abi_fits (domain_args keccak exchange)" "list_all abi_fits (order_args keccak ord tokenID makerAmount takerAmount)"
proof -
  have p: "SetString raw = Some v \<and> 0 \<le> v \<and> v < 2 ^ 256" if "parseUint256 raw = Inr v" for raw v
    using that BitLen_le [of v] by (auto simp: parseUint256_def split: option.splits if_splits)
  have u: "uint x < 2 ^ 256" for x :: u64 using uint_lt2p [of x] by simp
  obtain exchange tokenID makerAmount takerAmount d s where h: "Validate ord = None" "Exchange m = Inr exchange"
    "pack (domain_args keccak exchange) = Inr d" "parseUint256 (TokenID ord) = Inr tokenID"
    "parseUint256 (MakerAmount ord) = Inr makerAmount" "parseUint256 (TakerAmount ord) = Inr takerAmount"
    "pack (order_args keccak ord tokenID makerAmount takerAmount) = Inr s"
    "h = keccak ([0x19, 0x01] @ hash_bytes (keccak d) @ hash_bytes (keccak s))"
    using assms unfolding Hash_def by (auto split: option.splits sum.splits)
  note v = p [OF h(4)] p [OF h(5)] p [OF h(6)]
  have "list_all abi_fits (domain_args keccak exchange)" using u by (simp add: domain_args_def)
  moreover have "list_all abi_fits (order_args keccak ord tokenID makerAmount takerAmount)"
    using u v by (simp add: order_args_def)
  ultimately show thesis using h v that by blast
qed

text \<open>
  C19. A signature binds the order: when two orders have the same digest, the ABI encoding is
  injective and Keccak-256 has no collision among the messages hashed for the two, then the market
  family, the salt, the maker, the signer, the side, the signature type, the timestamp, the
  metadata, the builder and the values of the token id and of both amounts are the same.
\<close>

theorem Hash_binds:
  assumes "Hash keccak pack o1 m1 = Inr h" and "Hash keccak pack o2 m2 = Inr h"
    and "pack_injective pack" and "inj_on keccak (hashed keccak pack o1 m1 \<union> hashed keccak pack o2 m2)"
  shows "m1 = m2 \<and> Salt o1 = Salt o2 \<and> Maker o1 = Maker o2 \<and> Signer o1 = Signer o2 \<and> Side o1 = Side o2 \<and>
    SignatureType o1 = SignatureType o2 \<and> Timestamp o1 = Timestamp o2 \<and> Metadata o1 = Metadata o2 \<and>
    Builder o1 = Builder o2 \<and> SetString (TokenID o1) = SetString (TokenID o2) \<and>
    SetString (MakerAmount o1) = SetString (MakerAmount o2) \<and> SetString (TakerAmount o1) = SetString (TakerAmount o2)"
proof -
  obtain e1 k1 a1 b1 d1 s1 where 1: "Validate o1 = None" "Exchange m1 = Inr e1" "pack (domain_args keccak e1) = Inr d1"
    "SetString (TokenID o1) = Some k1" "SetString (MakerAmount o1) = Some a1" "SetString (TakerAmount o1) = Some b1"
    "pack (order_args keccak o1 k1 a1 b1) = Inr s1"
    "h = keccak ([0x19, 0x01] @ hash_bytes (keccak d1) @ hash_bytes (keccak s1))"
    "list_all abi_fits (domain_args keccak e1)" "list_all abi_fits (order_args keccak o1 k1 a1 b1)"
    using assms(1) by (rule Hash_parts)
  obtain e2 k2 a2 b2 d2 s2 where 2: "Validate o2 = None" "Exchange m2 = Inr e2" "pack (domain_args keccak e2) = Inr d2"
    "SetString (TokenID o2) = Some k2" "SetString (MakerAmount o2) = Some a2" "SetString (TakerAmount o2) = Some b2"
    "pack (order_args keccak o2 k2 a2 b2) = Inr s2"
    "h = keccak ([0x19, 0x01] @ hash_bytes (keccak d2) @ hash_bytes (keccak s2))"
    "list_all abi_fits (domain_args keccak e2)" "list_all abi_fits (order_args keccak o2 k2 a2 b2)"
    using assms(2) by (rule Hash_parts)
  let ?H = "hashed keccak pack o1 m1 \<union> hashed keccak pack o2 m2"
  have mem: "d1 \<in> ?H" "s1 \<in> ?H" "[0x19, 0x01] @ hash_bytes (keccak d1) @ hash_bytes (keccak s1) \<in> ?H"
    "d2 \<in> ?H" "s2 \<in> ?H" "[0x19, 0x01] @ hash_bytes (keccak d2) @ hash_bytes (keccak s2) \<in> ?H"
    unfolding hashed_def using 1 2 by blast+
  have "[0x19, 0x01] @ hash_bytes (keccak d1) @ hash_bytes (keccak s1) = [0x19, 0x01] @ hash_bytes (keccak d2) @ hash_bytes (keccak s2)"
    using inj_onD [OF assms(4) _ mem(3,6)] 1(8) 2(8) by simp
  then have "keccak d1 = keccak d2" "keccak s1 = keccak s2" by (simp_all add: hash_bytes_inj)
  then have eq: "d1 = d2" "s1 = s2" using inj_onD [OF assms(4) _ mem(1,4)] inj_onD [OF assms(4) _ mem(2,5)] by simp_all
  have "map fst (domain_args keccak e1) = map fst (domain_args keccak e2)"
    "map fst (order_args keccak o1 k1 a1 b1) = map fst (order_args keccak o2 k2 a2 b2)"
    by (simp_all add: domain_args_def order_args_def)
  then have dom: "domain_args keccak e1 = domain_args keccak e2" and ord: "order_args keccak o1 k1 a1 b1 = order_args keccak o2 k2 a2 b2"
    using assms(3) 1(3,7,9,10) 2(3,7,9,10) unfolding pack_injective_def eq by blast+
  have "e1 = e2" using dom by (simp only: domain_args_def list.inject prod.inject abi_value.inject)
  then have "m1 = m2" using 1(2) 2(2) Exchange_inj by blast
  moreover have "Salt o1 = Salt o2 \<and> Maker o1 = Maker o2 \<and> Signer o1 = Signer o2 \<and> Side o1 = Side o2 \<and>
    SignatureType o1 = SignatureType o2 \<and> Timestamp o1 = Timestamp o2 \<and> Metadata o1 = Metadata o2 \<and>
    Builder o1 = Builder o2 \<and> k1 = k2 \<and> a1 = a2 \<and> b1 = b2"
    using ord by (simp only: order_args_def list.inject prod.inject abi_value.inject word_uint_eq_iff)
  ultimately show ?thesis using 1(4-6) 2(4-6) by simp
qed

subsection \<open>An instance\<close>

text \<open>
  The head encoding of the ABI for static types, a block of 32 bytes per argument, and as the
  hash a function of the length, which tells the three messages apart. The two orders differ
  only in the text of the token id.
\<close>

fun abi_word :: "string \<times> abi_value \<Rightarrow> bytes" where
  "abi_word (_, ABytes32 h) = hash_bytes h"
| "abi_word (_, AUint256 n) = hash_bytes (word_of_int n)"
| "abi_word (_, AAddress a) = hash_bytes (ucast a)"
| "abi_word (_, AUint8 b) = hash_bytes (ucast b)"

definition head_pack :: packer where
  "head_pack xs = Inr (concat (map abi_word xs))"

definition length_hash :: "bytes \<Rightarrow> hash" where
  "length_hash b = of_nat (length b)"

definition sample_order :: "string \<Rightarrow> Order" where
  "sample_order token = \<lparr>Salt = 1, Maker = 2, Signer = 3, TokenID = token, MakerAmount = ''7'', TakerAmount = ''8'',
     Side = OrderSideBuy, SignatureType = OrderSignatureTypePoly1271, Timestamp = 9, Metadata = 0, Builder = 0\<rparr>"

lemma length_abi_word [simp]: "length (abi_word a) = 32"
  by (cases a rule: abi_word.cases) simp_all

lemma abi_word_inj:
  assumes "abi_fits a" and "abi_fits b" and "fst a = fst b" and "abi_word a = abi_word b"
  shows "a = b"
proof -
  have u: "word_of_int m = (word_of_int n :: hash) \<longleftrightarrow> m = n" if "0 \<le> m" "m < 2 ^ 256" "0 \<le> n" "n < 2 ^ 256" for m n :: int
    using that by (simp add: word_of_int_eq_iff take_bit_int_eq_self)
  have c: "(ucast x :: hash) = ucast y \<longleftrightarrow> x = y" for x y :: address
  proof -
    have "uint (ucast z :: hash) = uint z" for z :: address
      using uint_lt2p [of z] by (simp add: unsigned_ucast_eq take_bit_int_eq_self)
    then show ?thesis by (metis word_uint_eq_iff)
  qed
  have d: "(ucast x :: hash) = ucast y \<longleftrightarrow> x = y" for x y :: "8 word"
  proof -
    have "uint (ucast z :: hash) = uint z" for z :: "8 word"
      using uint_lt2p [of z] by (simp add: unsigned_ucast_eq take_bit_int_eq_self)
    then show ?thesis by (metis word_uint_eq_iff)
  qed
  show ?thesis
    using assms by (cases a rule: abi_word.cases; cases b rule: abi_word.cases) (simp_all add: hash_bytes_inj u c d)
qed

lemma head_pack_injective: "pack_injective head_pack"
  unfolding pack_injective_def
proof (intro allI impI)
  fix xs ys b
  assume p: "head_pack xs = Inr b" "head_pack ys = Inr b" "map fst xs = map fst ys" "list_all abi_fits xs" "list_all abi_fits ys"
  have len: "length xs = length ys" using p(3) by (metis length_map)
  have "concat (map abi_word xs) = concat (map abi_word ys)" using p by (simp add: head_pack_def)
  then have words: "map abi_word xs = map abi_word ys"
    using len concat_eq_concat_iff [of "map abi_word xs" "map abi_word ys"] by (force simp: set_zip)
  show "xs = ys"
  proof (rule nth_equalityI [OF len])
    fix i assume i: "i < length xs"
    then have "fst (xs ! i) = fst (ys ! i)" "abi_word (xs ! i) = abi_word (ys ! i)"
      using p(3) words len by (metis nth_map)+
    then show "xs ! i = ys ! i" using i len p(4,5) by (intro abi_word_inj) (simp_all add: list_all_length)
  qed
qed

lemma sample_order_Hash:
  assumes "SetString token = Some 5" and "IsCanonicalUint256 token False"
  shows "Hash length_hash head_pack (sample_order token) MarketTypeStandard = Inr 66"
proof -
  have i: "IsCanonicalUint256 ''7'' False" "IsCanonicalUint256 ''8'' False"
    using IsCanonicalUint256_dec [of 7 False] IsCanonicalUint256_dec [of 8 False] by (simp_all add: dec_nat.simps digit_char_def)
  have "Validate (sample_order token) = None"
    using assms i by (simp add: Validate_def sample_order_def MaxSafeOrderSalt_def)
  moreover have "parseUint256 token = Inr 5" "parseUint256 ''7'' = Inr 7" "parseUint256 ''8'' = Inr 8"
    using parseUint256_canonical [OF assms(2)] parseUint256_canonical [OF i(1)] parseUint256_canonical [OF i(2)] assms(1)
    by (auto simp: SetString_def is_digit_def less_eq_char_iff digits_val_def digit_val_def)
  ultimately show ?thesis
    by (simp add: Hash_def Exchange_def head_pack_def sample_order_def length_hash_def)
qed

theorem Hash_binds_witness:
  "Hash length_hash head_pack (sample_order ''5'') MarketTypeStandard = Hash length_hash head_pack (sample_order ''+5'') MarketTypeStandard \<and>
   SetString (TokenID (sample_order ''5'')) = SetString (TokenID (sample_order ''+5''))"
proof -
  have t: "SetString ''5'' = Some 5" "SetString ''+5'' = Some 5"
    by (simp_all add: SetString_def is_digit_def less_eq_char_iff digits_val_def digit_val_def)
  have "IsCanonicalUint256 ''5'' False" using IsCanonicalUint256_dec [of 5 False] by (simp add: dec_nat.simps digit_char_def)
  moreover have "TrimSpace ''+5'' = ''+5''" by (rule TrimSpace_graphic) (simp_all add: graphic_def)
  then have "IsCanonicalUint256 ''+5'' False"
    using BitLen_le [of 5] t by (simp add: IsCanonicalUint256_def maxUint256DecimalDigits_def)
  ultimately have h: "Hash length_hash head_pack (sample_order ''5'') MarketTypeStandard = Inr 66"
    "Hash length_hash head_pack (sample_order ''+5'') MarketTypeStandard = Inr 66"
    using t by (simp_all only: sample_order_Hash)
  have "inj_on length_hash (hashed length_hash head_pack (sample_order ''5'') MarketTypeStandard \<union>
      hashed length_hash head_pack (sample_order ''+5'') MarketTypeStandard)"
    by (rule inj_onI) (auto simp: hashed_def t sample_order_def head_pack_def length_hash_def domain_args_def order_args_def)
  from Hash_binds [OF h head_pack_injective this] h show ?thesis by simp
qed

end
