(* ===== verification/Slices.thy ===== *)
theory Slices
  imports Units
begin

text \<open>
  \<open>utils/filter/filter.go\<close>, the generic slice helpers, and \<open>utils/pointer.go\<close>. A slice that may be nil is an
  optional list where the code distinguishes nil; a map is the list of its entries in the order
  of one iteration, which Go leaves unspecified. Element types are those whose \<open>==\<close> is an
  equality. \<open>Deref\<close>, whose zero value has no counterpart at a type variable, is left out.
\<close>

section \<open>Operations\<close>

fun Filter :: "'a list \<Rightarrow> ('a \<Rightarrow> bool) \<Rightarrow> 'a list" where
  "Filter [] test = []"
| "Filter (s # ss) test = (if test s then s # Filter ss test else Filter ss test)"

fun Contains :: "'a list \<Rightarrow> 'a \<Rightarrow> bool" where
  "Contains [] s = False"
| "Contains (v # ss) s = (if v = s then True else Contains ss s)"

text \<open>The loop of \<open>IsEqual\<close>, which compares position by position.\<close>

fun equal_from :: "nat \<Rightarrow> 'a list \<Rightarrow> 'a list \<Rightarrow> bool" where
  "equal_from i [] b = True"
| "equal_from i (v # a) b = (if v \<noteq> b ! i then False else equal_from (Suc i) a b)"

definition IsEqual :: "'a list option \<Rightarrow> 'a list option \<Rightarrow> bool" where
  "IsEqual a b =
     (case (a, b) of
        (None, None) \<Rightarrow> True
      | (Some xs, Some ys) \<Rightarrow> if length xs \<noteq> length ys then False else equal_from 0 xs ys
      | _ \<Rightarrow> False)"

fun Unique_loop :: "'a set \<Rightarrow> 'a list \<Rightarrow> 'a list \<Rightarrow> 'a list" where
  "Unique_loop seen ret [] = ret"
| "Unique_loop seen ret (s # ss) =
     (if s \<in> seen then Unique_loop seen ret ss else Unique_loop (insert s seen) (ret @ [s]) ss)"

definition Unique :: "'a list \<Rightarrow> 'a list" where
  "Unique ss = Unique_loop {} [] ss"

fun exactly_one_loop :: "bool \<Rightarrow> bool \<Rightarrow> bool list \<Rightarrow> bool \<times> bool" where
  "exactly_one_loop areAny areTwo [] = (areAny, areTwo)"
| "exactly_one_loop areAny areTwo (b # bs) =
     (if areTwo then (areAny, areTwo) else exactly_one_loop (areAny \<or> b) (areAny \<and> b) bs)"

definition IsExactlyOneBooleanTrue :: "bool list \<Rightarrow> bool" where
  "IsExactlyOneBooleanTrue boolAry =
     (case exactly_one_loop False False boolAry of
        (areAny, areTwo) \<Rightarrow> if areAny then \<not> areTwo else True)"

text \<open>
  The loop of \<open>Chunk\<close> over the start of the next chunk; the size is positive.
\<close>

function Chunk_loop :: "'a list \<Rightarrow> nat \<Rightarrow> nat \<Rightarrow> 'a list list \<Rightarrow> 'a list list" where
  "Chunk_loop ss sz i out =
     (if i < length ss \<and> 0 < sz
      then Chunk_loop ss sz (i + sz) (out @ [drop i (take (min (i + sz) (length ss)) ss)])
      else out)"
  by pat_completeness auto

termination Chunk_loop
  by (relation "measure (\<lambda>(ss, sz, i, out). length ss - i)") auto

declare Chunk_loop.simps [simp del]

text \<open>The capacity is computed in 64-bit integers; \<open>make\<close> panics when it is negative.\<close>

definition Chunk :: "'a list \<Rightarrow> int \<Rightarrow> (unit, 'a list list) outcome" where
  "Chunk ss size0 =
     (if ss = [] then Ret []
      else
        let sz = (if size0 \<le> 0 then int (length ss) else size0);
            capacity = quo (wrap_i64 (int (length ss) + sz - 1)) sz
        in if capacity < 0 then Panic ''makeslice: cap out of range''
           else Ret (Chunk_loop ss (nat sz) 0 []))"

definition Keys :: "('k \<times> 'v) list \<Rightarrow> 'k list" where
  "Keys m = map fst m"

definition SortedKeys :: "('k::linorder \<times> 'v) list \<Rightarrow> 'k list" where
  "SortedKeys m = sort (Keys m)"

definition Ptr :: "'a \<Rightarrow> 'a option" where
  "Ptr v = Some v"

definition ValueOr :: "'a option \<Rightarrow> 'a \<Rightarrow> 'a" where
  "ValueOr p fallback = (case p of None \<Rightarrow> fallback | Some v \<Rightarrow> v)"

section \<open>What they compute\<close>

lemma Filter_filter: "Filter ss test = filter test ss"
  by (induction ss) auto

lemma Contains_set: "Contains ss s \<longleftrightarrow> s \<in> set ss"
  by (induction ss) auto

lemma equal_from_drop: "length a + i = length b \<Longrightarrow> equal_from i a b \<longleftrightarrow> a = drop i b"
proof (induction i a b rule: equal_from.induct)
  case (2 i v a b)
  then have "drop i b = b ! i # drop (Suc i) b" by (simp add: Cons_nth_drop_Suc)
  with 2 show ?case by auto
qed simp

lemma IsEqual_eq: "IsEqual a b \<longleftrightarrow> a = b"
  by (auto simp: IsEqual_def equal_from_drop split: option.splits)

lemma Unique_loop_eq:
  "seen = set ret \<Longrightarrow> Unique_loop seen ret ss = ret @ rev (remdups (rev (filter (\<lambda>x. x \<notin> set ret) ss)))"
proof (induction seen ret ss rule: Unique_loop.induct)
  case (2 seen ret s ss)
  show ?case
  proof (cases "s \<in> set ret")
    case False
    have "filter (\<lambda>x. x \<notin> set (ret @ [s])) ss = filter (\<lambda>x. x \<noteq> s) (filter (\<lambda>x. x \<notin> set ret) ss)"
      by (simp add: conj_commute)
    moreover have "rev (remdups (rev (s # xs))) = s # rev (remdups (rev (filter (\<lambda>x. x \<noteq> s) xs)))" for xs :: "'a list"
    proof -
      have "remdups (ys @ [s]) = remdups (filter (\<lambda>x. x \<noteq> s) ys) @ [s]" for ys :: "'a list"
        by (induction ys) auto
      then show ?thesis by (simp add: rev_filter)
    qed
    ultimately show ?thesis using 2 False by simp
  qed (use 2 in simp)
qed simp

text \<open>\<open>Unique\<close> keeps the first occurrence of every element, in order.\<close>

lemma Unique_eq: "Unique ss = rev (remdups (rev ss))"
  by (simp add: Unique_def Unique_loop_eq)

lemma exactly_one_loop_eq:
  "\<not> areTwo \<Longrightarrow> exactly_one_loop areAny areTwo bs =
    (let n = count_list bs True + (if areAny then 1 else 0) in (0 < n, 1 < n))"
proof (induction areAny areTwo bs rule: exactly_one_loop.induct)
  case (2 areAny areTwo b bs)
  show ?case
  proof (cases "areAny \<and> b")
    case True
    then have "exactly_one_loop True True bs = (True, True)" by (cases bs) auto
    with True 2 show ?thesis by (simp add: Let_def)
  qed (use 2 in \<open>auto simp: Let_def\<close>)
qed auto

lemma IsExactlyOneBooleanTrue_eq: "IsExactlyOneBooleanTrue bs \<longleftrightarrow> count_list bs True \<le> 1"
  by (auto simp: IsExactlyOneBooleanTrue_def exactly_one_loop_eq Let_def)

text \<open>A division of a list into full pieces and one last piece that is not empty.\<close>

fun pieces :: "nat \<Rightarrow> 'a list \<Rightarrow> 'a list list \<Rightarrow> bool" where
  "pieces sz xs [] \<longleftrightarrow> xs = []"
| "pieces sz xs (c # cs) \<longleftrightarrow> xs \<noteq> [] \<and> c = take sz xs \<and> pieces sz (drop sz xs) cs"

lemma Chunk_loop_pieces:
  "0 < sz \<Longrightarrow> \<exists>cs. Chunk_loop ss sz i out = out @ cs \<and> pieces sz (drop i ss) cs"
proof (induction ss sz i out rule: Chunk_loop.induct)
  case (1 ss sz i out)
  show ?case
  proof (cases "i < length ss")
    case True
    let ?c = "drop i (take (min (i + sz) (length ss)) ss)"
    obtain cs where cs: "Chunk_loop ss sz (i + sz) (out @ [?c]) = (out @ [?c]) @ cs" "pieces sz (drop (i + sz) ss) cs"
      using "1.IH" "1.prems" True by blast
    have "?c = take sz (drop i ss)" using True by (auto simp: min_def drop_take)
    moreover from this have "pieces sz (drop i ss) (?c # cs)" using cs True by (simp add: add.commute)
    ultimately show ?thesis using cs True "1.prems" by (subst Chunk_loop.simps) force
  next
    case False
    then show ?thesis by (subst Chunk_loop.simps) auto
  qed
qed

lemma pieces_concat: "pieces sz xs cs \<Longrightarrow> concat cs = xs"
  by (induction cs arbitrary: xs) auto

lemma pieces_length:
  "pieces sz xs cs \<Longrightarrow> 0 < sz \<Longrightarrow> k < length cs \<Longrightarrow>
    0 < length (cs ! k) \<and> length (cs ! k) \<le> sz \<and> (Suc k < length cs \<longrightarrow> length (cs ! k) = sz)"
proof (induction cs arbitrary: xs k)
  case (Cons c cs)
  show ?case
  proof (cases k)
    case 0
    have "cs \<noteq> [] \<Longrightarrow> sz < length xs" using Cons.prems by (cases cs) auto
    then show ?thesis using 0 Cons.prems by (cases cs) auto
  next
    case (Suc k')
    then show ?thesis using Cons by auto
  qed
qed simp

text \<open>
  \<open>Chunk\<close> splits a slice without losing, repeating or reordering anything: the chunks
  concatenate to the slice, none is empty, every one but the last has exactly the size, and the
  last at most the size. A size that is not positive gives one chunk. This needs that length plus
  size, less one, fits an int; for a slice of two elements and the largest int it does not, and
  \<open>Chunk\<close> panics.
\<close>

theorem Chunk_partition:
  assumes "in_i64 (int (length ss) + size0 - 1)" and "in_i64 (2 * int (length ss))"
  shows "(\<exists>cs. Chunk ss size0 = Ret cs \<and> concat cs = ss \<and>
      (\<forall>k < length cs. 0 < length (cs ! k) \<and>
        (0 < size0 \<longrightarrow> int (length (cs ! k)) \<le> size0 \<and> (Suc k < length cs \<longrightarrow> int (length (cs ! k)) = size0))) \<and>
      (size0 \<le> 0 \<longrightarrow> cs = (if ss = [] then [] else [ss]))) \<and>
    (\<exists>msg. Chunk [x, y] (2 ^ 63 - 1) = Panic msg)"
proof (intro conjI)
  show "\<exists>msg. Chunk [x, y] (2 ^ 63 - 1) = Panic msg" by (simp add: Chunk_def wrap_i64_def quo_def)
next
  let ?sz = "if size0 \<le> 0 then int (length ss) else size0"
  show "\<exists>cs. Chunk ss size0 = Ret cs \<and> concat cs = ss \<and>
      (\<forall>k < length cs. 0 < length (cs ! k) \<and>
        (0 < size0 \<longrightarrow> int (length (cs ! k)) \<le> size0 \<and> (Suc k < length cs \<longrightarrow> int (length (cs ! k)) = size0))) \<and>
      (size0 \<le> 0 \<longrightarrow> cs = (if ss = [] then [] else [ss]))"
  proof (cases "ss = []")
    case True
    then show ?thesis by (simp add: Chunk_def)
  next
    case False
    then have pos: "0 < ?sz" "0 < nat ?sz" by auto
    have "in_i64 (int (length ss) + ?sz - 1)" using assms False by (auto simp: in_i64_def)
    then have "\<not> quo (wrap_i64 (int (length ss) + ?sz - 1)) ?sz < 0"
      using pos by (simp add: quo_pos pos_imp_zdiv_nonneg_iff not_less split del: if_split)
    moreover obtain cs where cs: "Chunk_loop ss (nat ?sz) 0 [] = cs" "pieces (nat ?sz) ss cs"
      using Chunk_loop_pieces [OF pos(2), of ss 0 "[]"] by auto
    ultimately have "Chunk ss size0 = Ret cs" using False by (simp add: Chunk_def Let_def)
    moreover have "size0 \<le> 0 \<Longrightarrow> cs = [ss]" using cs(2) False by (cases cs; cases "tl cs") auto
    moreover have "0 < length (cs ! k) \<and>
        (0 < size0 \<longrightarrow> int (length (cs ! k)) \<le> size0 \<and> (Suc k < length cs \<longrightarrow> int (length (cs ! k)) = size0))"
      if "k < length cs" for k
      using pieces_length [OF cs(2) pos(2) that] by (auto simp: le_nat_iff split: if_splits)
    ultimately show ?thesis using pieces_concat [OF cs(2)] False by metis
  qed
qed

theorem Chunk_partition_witness:
  "Chunk [1, 2, 3, 4, 5 :: nat] 2 = Ret [[1, 2], [3, 4], [5]] \<and>
   (\<exists>cs. Chunk [1, 2, 3, 4, 5 :: nat] 2 = Ret cs \<and> concat cs = [1, 2, 3, 4, 5])"
  using Chunk_partition [of "[1, 2, 3, 4, 5 :: nat]" 2 0 0]
  by (simp add: in_i64_def) (simp add: Chunk_def Chunk_loop.simps wrap_i64_def quo_def)

end
