(* ===== verification/Addresses.thy ===== *)
theory Addresses
  imports Broadcast_Errors Slices
begin

text \<open>
  \<open>utils/address/address.go\<close> and \<open>utils/constants/token.go\<close>: addresses as text and the two
  addresses that stand for the native token. \<open>common.IsHexAddress\<close>, \<open>common.HexToAddress\<close> and
  \<open>common.BytesToAddress\<close> of go-ethereum are parameters.
\<close>

section \<open>Operations\<close>

definition Normalize :: "(string \<Rightarrow> bool) \<Rightarrow> string \<Rightarrow> string" where
  "Normalize is_hex raw =
     (let lowered = go_lower (TrimSpace raw);
          addr = (if length lowered = 40 \<and> \<not> prefix ''0x'' lowered then ''0x'' @ lowered else lowered)
      in if \<not> is_hex addr then [] else addr)"

fun NormalizeAll_loop :: "(string \<Rightarrow> bool) \<Rightarrow> string list \<Rightarrow> string set \<Rightarrow> string list \<Rightarrow> string list" where
  "NormalizeAll_loop is_hex out seen [] = out"
| "NormalizeAll_loop is_hex out seen (r # raw) =
     (let addr = Normalize is_hex r
      in if addr = [] then NormalizeAll_loop is_hex out seen raw
         else if addr \<in> seen then NormalizeAll_loop is_hex out seen raw
         else NormalizeAll_loop is_hex (out @ [addr]) (insert addr seen) raw)"

definition NormalizeAll :: "(string \<Rightarrow> bool) \<Rightarrow> string list \<Rightarrow> string list" where
  "NormalizeAll is_hex raw = NormalizeAll_loop is_hex [] {} raw"

definition Equal :: "(string \<Rightarrow> bool) \<Rightarrow> string \<Rightarrow> string \<Rightarrow> bool" where
  "Equal is_hex a b = (let na = Normalize is_hex a in na \<noteq> [] \<and> na = Normalize is_hex b)"

definition nullAddress :: address where
  "nullAddress = 0"

definition nativeToken :: address where
  "nativeToken = 0xeeeeeeeeeeeeeeeeeeeeeeeeeeeeeeeeeeeeeeee"

text \<open>The type parameter of \<open>IsNativeToken\<close> and \<open>IsNullAddress\<close>.\<close>

datatype token = TokenAddress address | TokenString string | TokenBytes bytes

definition parseHexAddress :: "(string \<Rightarrow> bool) \<Rightarrow> (string \<Rightarrow> address) \<Rightarrow> string \<Rightarrow> address option" where
  "parseHexAddress is_hex hex_to s = (let t = TrimSpace s in if \<not> is_hex t then None else Some (hex_to t))"

definition IsNativeToken ::
  "(string \<Rightarrow> bool) \<Rightarrow> (string \<Rightarrow> address) \<Rightarrow> (bytes \<Rightarrow> address) \<Rightarrow> token \<Rightarrow> bool" where
  "IsNativeToken is_hex hex_to bytes_to token =
     (case token of
        TokenAddress v \<Rightarrow> v = nativeToken \<or> v = nullAddress
      | TokenString v \<Rightarrow> (case parseHexAddress is_hex hex_to v of
            None \<Rightarrow> False | Some addr \<Rightarrow> addr = nativeToken \<or> addr = nullAddress)
      | TokenBytes v \<Rightarrow> bytes_to v = nativeToken \<or> bytes_to v = nullAddress)"

definition IsNullAddress ::
  "(string \<Rightarrow> bool) \<Rightarrow> (string \<Rightarrow> address) \<Rightarrow> (bytes \<Rightarrow> address) \<Rightarrow> token \<Rightarrow> bool" where
  "IsNullAddress is_hex hex_to bytes_to token =
     (case token of
        TokenAddress v \<Rightarrow> v = nullAddress
      | TokenString v \<Rightarrow> (case parseHexAddress is_hex hex_to v of None \<Rightarrow> False | Some addr \<Rightarrow> addr = nullAddress)
      | TokenBytes v \<Rightarrow> bytes_to v = nullAddress)"

section \<open>Canonical addresses\<close>

definition lower_hex :: "char \<Rightarrow> bool" where
  "lower_hex c \<longleftrightarrow> in_range 48 57 c \<or> in_range 97 102 c"

definition canonical_address :: "string \<Rightarrow> bool" where
  "canonical_address a \<longleftrightarrow> take 2 a = ''0x'' \<and> length a = 42 \<and> list_all lower_hex (drop 2 a)"

text \<open>What go-ethereum documents of \<open>IsHexAddress\<close>: 40 hexadecimal digits behind an optional prefix.\<close>

definition documented_IsHexAddress :: "(string \<Rightarrow> bool) \<Rightarrow> bool" where
  "documented_IsHexAddress is_hex \<longleftrightarrow>
     (\<forall>s. is_hex s \<longleftrightarrow>
        (let d = (if take 2 s = ''0x'' \<or> take 2 s = ''0X'' then drop 2 s else s)
         in length d = 40 \<and> list_all (\<lambda>c. lower_hex c \<or> in_range 65 70 c) d))"

lemma ascii_lower_not_upper: "\<not> in_range 65 90 (ascii_lower c)"
  by (auto simp: ascii_lower_def in_range_def byte_def)

lemma go_lower_not_upper: "c \<in> set (go_lower s) \<Longrightarrow> \<not> in_range 65 90 c"
proof (induction s rule: go_lower.induct)
  case (2 d s)
  then show ?case using ascii_lower_not_upper
    by (auto simp: in_range_def byte_def split: if_splits)
qed simp

lemma go_lower_id:
  assumes "\<forall>c \<in> set s. \<not> in_range 65 90 c \<and> byte c < 128"
  shows "go_lower s = s"
  using assms by (induction s) (auto simp: ascii_lower_def)

lemma lower_hex_graphic: "lower_hex c \<Longrightarrow> graphic c \<and> \<not> in_range 65 90 c \<and> byte c < 128"
  by (auto simp: lower_hex_def in_range_def byte_def graphic_def)

lemma canonical_shape:
  assumes "canonical_address a"
  obtains d where "a = ''0x'' @ d" "length d = 40" "list_all lower_hex d"
proof (rule that [of "drop 2 a"])
  show "a = ''0x'' @ drop 2 a" using assms append_take_drop_id [of 2 a] by (simp add: canonical_address_def)
qed (use assms in \<open>simp_all add: canonical_address_def\<close>)

lemma Normalize_canonical:
  assumes "documented_IsHexAddress is_hex" and "canonical_address a"
  shows "Normalize is_hex a = a"
proof -
  obtain d where d: "a = ''0x'' @ d" "length d = 40" "list_all lower_hex d" using assms(2) by (rule canonical_shape)
  have dl: "\<forall>c \<in> set d. lower_hex c" using d(3) by (simp add: list_all_iff)
  have "d \<noteq> []" using d(2) by auto
  then have "lower_hex (last a)" using d(1) dl by simp
  then have "TrimSpace a = a"
    using d(1) by (intro TrimSpace_graphic) (auto simp: graphic_def dest: lower_hex_graphic)
  moreover have "go_lower a = a"
    using d(1) dl lower_hex_graphic by (intro go_lower_id) (auto simp: in_range_def byte_def)
  moreover have "is_hex a" using assms(1) d by (simp add: documented_IsHexAddress_def list_all_iff)
  ultimately show ?thesis using d(1,2) by (simp add: Normalize_def)
qed

lemma canonical_Normalize:
  assumes "documented_IsHexAddress is_hex" and "Normalize is_hex raw \<noteq> []"
  shows "canonical_address (Normalize is_hex raw)"
proof -
  let ?l = "go_lower (TrimSpace raw)"
  define a where "a = (if length ?l = 40 \<and> \<not> prefix ''0x'' ?l then ''0x'' @ ?l else ?l)"
  have hex: "is_hex a" and eq: "Normalize is_hex raw = a"
    using assms(2) by (auto simp: Normalize_def a_def Let_def split: if_splits)
  have up: "\<not> in_range 65 90 c" if "c \<in> set a" for c
    using that go_lower_not_upper [of c "TrimSpace raw"] by (auto simp: a_def in_range_def byte_def split: if_splits)
  have "take 2 a \<noteq> ''0X''"
  proof
    assume "take 2 a = ''0X''"
    then have "CHR ''X'' \<in> set (take 2 a)" by simp
    then have "CHR ''X'' \<in> set a" by (rule in_set_takeD)
    then show False using up [of "CHR ''X''"] by (simp add: in_range_def byte_def)
  qed
  then have d: "if take 2 a = ''0x'' then length (drop 2 a) = 40 \<and> list_all (\<lambda>c. lower_hex c \<or> in_range 65 70 c) (drop 2 a)
      else length a = 40 \<and> list_all (\<lambda>c. lower_hex c \<or> in_range 65 70 c) a"
    using hex assms(1) by (simp add: documented_IsHexAddress_def Let_def split: if_splits)
  have "prefix ''0x'' s \<longleftrightarrow> take 2 s = ''0x''" for s :: string by (auto simp: prefix_def take_Cons' split: if_splits) (metis append_take_drop_id append_Cons append_Nil)
  then have pre: "take 2 a = ''0x''" using d by (auto simp: a_def split: if_splits)
  have "list_all lower_hex (drop 2 a)"
    unfolding list_all_iff
  proof
    fix c assume c: "c \<in> set (drop 2 a)"
    then have "lower_hex c \<or> in_range 65 70 c" using d pre by (simp add: list_all_iff)
    moreover have "\<not> in_range 65 90 c" using up in_set_dropD [OF c] by blast
    ultimately show "lower_hex c" by (auto simp: in_range_def)
  qed
  moreover have "length a - 2 = 40" using pre d by simp
  then have "length a = 42" by arith
  ultimately show ?thesis using pre by (simp add: eq canonical_address_def)
qed

lemma NormalizeAll_loop_eq:
  "NormalizeAll_loop is_hex out seen raw =
    Unique_loop seen out (Filter (map (Normalize is_hex) raw) (\<lambda>a. a \<noteq> []))"
  by (induction is_hex out seen raw rule: NormalizeAll_loop.induct) (simp_all add: Let_def)

text \<open>
  Addresses become keys: given what go-ethereum documents of \<open>IsHexAddress\<close>, \<open>NormalizeAll\<close> is the
  composition of \<open>Normalize\<close> with the generic \<open>Filter\<close> and \<open>Unique\<close>, every entry it returns is \<open>0x\<close> and 40
  lower-case digits and occurs once, a second pass changes nothing, and \<open>Equal\<close> holds of two texts
  exactly if both normalize to one such address.
\<close>

theorem NormalizeAll_canonical:
  assumes "documented_IsHexAddress is_hex"
  shows "NormalizeAll is_hex raw = Unique (Filter (map (Normalize is_hex) raw) (\<lambda>a. a \<noteq> [])) \<and>
    list_all canonical_address (NormalizeAll is_hex raw) \<and> distinct (NormalizeAll is_hex raw) \<and>
    NormalizeAll is_hex (NormalizeAll is_hex raw) = NormalizeAll is_hex raw \<and>
    (Equal is_hex a b \<longleftrightarrow> (\<exists>c. canonical_address c \<and> Normalize is_hex a = c \<and> Normalize is_hex b = c))"
proof -
  have eq: "NormalizeAll is_hex xs = rev (remdups (rev (filter (\<lambda>a. a \<noteq> []) (map (Normalize is_hex) xs))))" for xs
    by (simp add: NormalizeAll_def NormalizeAll_loop_eq Unique_eq Filter_filter flip: Unique_def)
  have can: "\<forall>c \<in> set (NormalizeAll is_hex raw). canonical_address c"
    using canonical_Normalize [OF assms] by (auto simp: eq)
  have dist: "distinct (NormalizeAll is_hex raw)" by (simp add: eq)
  have ne: "c \<noteq> []" if "canonical_address c" for c using that by (auto simp: canonical_address_def)
  have "map (Normalize is_hex) (NormalizeAll is_hex raw) = NormalizeAll is_hex raw"
    using can Normalize_canonical [OF assms] by (simp add: map_idI)
  then have "NormalizeAll is_hex (NormalizeAll is_hex raw) = NormalizeAll is_hex raw"
    using can ne dist by (simp add: eq [of "NormalizeAll is_hex raw"] filter_id_conv distinct_remdups_id)
  moreover have "Equal is_hex a b \<longleftrightarrow> (\<exists>c. canonical_address c \<and> Normalize is_hex a = c \<and> Normalize is_hex b = c)"
    using canonical_Normalize [OF assms] ne by (auto simp: Equal_def Let_def)
  ultimately show ?thesis using can dist
    by (simp add: NormalizeAll_def NormalizeAll_loop_eq list_all_iff flip: Unique_def)
qed

text \<open>The documented test itself, as an instance.\<close>

definition plain_is_hex :: "string \<Rightarrow> bool" where
  "plain_is_hex s = (let d = (if take 2 s = ''0x'' \<or> take 2 s = ''0X'' then drop 2 s else s)
     in length d = 40 \<and> list_all (\<lambda>c. lower_hex c \<or> in_range 65 70 c) d)"

lemma plain_is_hex_documented: "documented_IsHexAddress plain_is_hex"
  by (simp add: documented_IsHexAddress_def plain_is_hex_def)

theorem NormalizeAll_canonical_witness:
  "NormalizeAll plain_is_hex [''0x'' @ replicate 40 (CHR ''a''), ''0x12'', ''0x'' @ replicate 40 (CHR ''a'')] =
     [''0x'' @ replicate 40 (CHR ''a'')] \<and>
   list_all canonical_address (NormalizeAll plain_is_hex [''0x'' @ replicate 40 (CHR ''a''), ''0x12'', ''0x'' @ replicate 40 (CHR ''a'')])"
proof -
  have "canonical_address (''0x'' @ replicate 40 (CHR ''a''))"
    by (simp add: canonical_address_def list_all_iff lower_hex_def in_range_def byte_def)
  then have n: "Normalize plain_is_hex (''0x'' @ replicate 40 (CHR ''a'')) = ''0x'' @ replicate 40 (CHR ''a'')"
    by (rule Normalize_canonical [OF plain_is_hex_documented])
  have "TrimSpace ''0x12'' = ''0x12''" by (rule TrimSpace_graphic) (simp_all add: graphic_def)
  then have "Normalize plain_is_hex ''0x12'' = []"
    by (simp add: Normalize_def plain_is_hex_def ascii_lower_def in_range_def byte_def Let_def)
  with n have "NormalizeAll plain_is_hex [''0x'' @ replicate 40 (CHR ''a''), ''0x12'', ''0x'' @ replicate 40 (CHR ''a'')] =
     [''0x'' @ replicate 40 (CHR ''a'')]"
    unfolding NormalizeAll_def NormalizeAll_loop.simps Let_def by simp
  then show ?thesis using NormalizeAll_canonical [OF plain_is_hex_documented] by blast
qed

lemma null_is_native: "IsNullAddress is_hex hex_to bytes_to t \<Longrightarrow> IsNativeToken is_hex hex_to bytes_to t"
  by (auto simp: IsNullAddress_def IsNativeToken_def split: token.splits option.splits)

end
