(* ===== verification/Hypercore.thy ===== *)
theory Hypercore
  imports Units
begin

text \<open>
  \<open>providers/hyperliquid/hypercore\<close>: conversions between EVM amounts and HyperCore wei (\<open>scaling.go\<close>), CoreWriter
  units and system addresses (\<open>corewriter.go\<close>), and the decoding of CoreWriter actions from logs and
  receipts (\<open>corewriter_evidence.go\<close>). Packing and unpacking of go-ethereum's \<open>abi\<close> package are
  parameters. An int8 is an integer.
\<close>

section \<open>Scaling\<close>

datatype scaling_error =
    NotNonNegative | NotExact int | CoreWeiExceedsUint64 int | CoreNotExact u64
  | UsdNotPositive | UsdNotExact | NtlExceedsUint64 int

definition maxCoreWei :: int where
  "maxCoreWei = 2 ^ 64 - 1"

text \<open>\<open>units.Pow10(uint(n))\<close> of a non-negative number of decimals.\<close>

definition pow10_uint :: "int \<Rightarrow> int" where
  "pow10_uint n = Pow10 (word_of_int n)"

text \<open>\<open>QuoRem\<close> of a non-negative dividend and a positive divisor.\<close>

definition evmToCoreWei :: "int option \<Rightarrow> int \<Rightarrow> scaling_error + u64 \<times> int" where
  "evmToCoreWei evmAmount extra =
     (case evmAmount of
        None \<Rightarrow> Inl NotNonNegative
      | Some a \<Rightarrow>
          if a < 0 then Inl NotNonNegative
          else
            let (core, remainder) =
                  (if extra \<ge> 0 then (a div pow10_uint extra, a mod pow10_uint extra)
                   else (a * pow10_uint (- extra), 0))
            in if core > maxCoreWei then Inl (CoreWeiExceedsUint64 core)
               else Inr (word_of_int core, remainder))"

definition EvmToCoreWei :: "int option \<Rightarrow> int \<Rightarrow> scaling_error + u64" where
  "EvmToCoreWei evmAmount extra =
     (case evmToCoreWei evmAmount extra of
        Inl e \<Rightarrow> Inl e
      | Inr (coreWei, remainder) \<Rightarrow> if remainder \<noteq> 0 then Inl (NotExact remainder) else Inr coreWei)"

definition EvmToCoreWeiFloor :: "int option \<Rightarrow> int \<Rightarrow> scaling_error + u64 \<times> int" where
  "EvmToCoreWeiFloor evmAmount extra =
     (case evmToCoreWei evmAmount extra of Inl e \<Rightarrow> Inl e | Inr (coreWei, remainder) \<Rightarrow> Inr (coreWei, remainder))"

definition coreWeiToEvm :: "u64 \<Rightarrow> int \<Rightarrow> int \<times> u64" where
  "coreWeiToEvm coreWei extra =
     (if extra \<ge> 0 then (uint coreWei * pow10_uint extra, 0)
      else (uint coreWei div pow10_uint (- extra), word_of_int (uint coreWei mod pow10_uint (- extra))))"

definition CoreWeiToEvm :: "u64 \<Rightarrow> int \<Rightarrow> scaling_error + int" where
  "CoreWeiToEvm coreWei extra =
     (case coreWeiToEvm coreWei extra of
        (evm, remainder) \<Rightarrow> if remainder \<noteq> 0 then Inl (CoreNotExact remainder) else Inr evm)"

definition CoreWeiToEvmFloor :: "u64 \<Rightarrow> int \<Rightarrow> int \<times> u64" where
  "CoreWeiToEvmFloor coreWei extra = coreWeiToEvm coreWei extra"

section \<open>CoreWriter\<close>

definition CoreWriterEncodingVersion :: "8 word" where
  "CoreWriterEncodingVersion = 1"

definition ActionUsdClassTransfer :: u32 where
  "ActionUsdClassTransfer = 7"

definition ActionAddApiWallet :: u32 where
  "ActionAddApiWallet = 9"

definition ActionApproveBuilderFee :: u32 where
  "ActionApproveBuilderFee = 12"

definition ActionSendAsset :: u32 where
  "ActionSendAsset = 13"

definition CoreWriterAddress :: address where
  "CoreWriterAddress = 0x3333333333333333333333333333333333333333"

definition HypeTokenIndex :: u64 where
  "HypeTokenIndex = 150"

definition HypeSystemAddress :: address where
  "HypeSystemAddress = 0x2222222222222222222222222222222222222222"

text \<open>\<open>BigToAddress\<close> keeps the low 20 bytes.\<close>

definition TokenSystemAddress :: "u64 \<Rightarrow> address" where
  "TokenSystemAddress tokenIndex =
     (if tokenIndex = HypeTokenIndex then HypeSystemAddress
      else word_of_int (push_bit 152 0x20 + uint tokenIndex))"

definition NtlDecimals :: nat where
  "NtlDecimals = 6"

definition ntlScale :: int where
  "ntlScale = Pow10 (of_nat NtlDecimals)"

definition UsdToNtl :: "rat option \<Rightarrow> scaling_error + u64" where
  "UsdToNtl usd =
     (case usd of
        None \<Rightarrow> Inl UsdNotPositive
      | Some u \<Rightarrow>
          if u \<le> 0 then Inl UsdNotPositive
          else
            let scaled = u * of_int ntlScale
            in case quotient_of scaled of
                 (num, den) \<Rightarrow>
                   if den \<noteq> 1 then Inl UsdNotExact
                   else if num < 0 \<or> num \<ge> 2 ^ 64 then Inl (NtlExceedsUint64 num)
                   else Inr (word_of_int num))"

definition NtlToUsd :: "u64 \<Rightarrow> rat" where
  "NtlToUsd ntl = Fract (uint ntl) ntlScale"

definition UsdFromScaled :: "int \<Rightarrow> rat" where
  "UsdFromScaled scaled = Fract scaled ntlScale"

definition CoreWeiToAmount :: "u64 \<Rightarrow> 8 word \<Rightarrow> rat" where
  "CoreWeiToAmount coreWei weiDecimals = Fract (uint coreWei) (Pow10 (ucast weiDecimals))"

section \<open>Scaling keeps amounts\<close>

lemma pow10_uint_pos [simp]: "0 < pow10_uint n"
  by (simp add: pow10_uint_def Pow10_pos)

lemma uint_word_u64: "0 \<le> x \<Longrightarrow> x \<le> maxCoreWei \<Longrightarrow> uint (word_of_int x :: u64) = x"
  by (simp add: maxCoreWei_def uint_word_of_int)

lemma uint_mod_u64: "0 < p \<Longrightarrow> (word_of_int (uint c mod p) :: u64) = 0 \<longleftrightarrow> uint c mod p = 0" for c :: u64
proof -
  assume p: "0 < p"
  have "uint c mod p \<le> uint c" using p by (simp add: zmod_le_nonneg_dividend)
  moreover have "uint c < 2 ^ 64" using uint_lt2p [of c] by simp
  ultimately have "uint (word_of_int (uint c mod p) :: u64) = uint c mod p"
    using p by (intro uint_word_u64) (simp_all add: maxCoreWei_def)
  then show ?thesis by (metis uint_0_iff)
qed

lemma pow10_uint_power: "0 \<le> n \<Longrightarrow> n < 2 ^ 64 \<Longrightarrow> pow10_uint n = 10 ^ nat n"
  by (simp add: pow10_uint_def Pow10_def unat_eq_nat_uint uint_word_of_int)

lemma EvmToCoreWei_iff:
  "EvmToCoreWei (Some a) extra = Inr c \<longleftrightarrow>
    (if extra \<ge> 0 then a = uint c * pow10_uint extra else uint c = a * pow10_uint (- extra))"
proof (cases "extra \<ge> 0")
  case True
  have c: "uint c \<le> maxCoreWei" using uint_lt2p [of c] by (simp add: maxCoreWei_def)
  let ?p = "pow10_uint extra"
  have p: "0 < ?p" by simp
  show ?thesis
  proof
    assume "EvmToCoreWei (Some a) extra = Inr c"
    then have "0 \<le> a" "a mod ?p = 0" "a div ?p \<le> maxCoreWei" "c = word_of_int (a div ?p)"
      using True by (auto simp: EvmToCoreWei_def evmToCoreWei_def split: if_splits)
    moreover from this have "uint c = a div ?p" by (simp add: uint_word_u64 pos_imp_zdiv_nonneg_iff)
    ultimately show "if extra \<ge> 0 then a = uint c * ?p else uint c = a * pow10_uint (- extra)"
      using True by (metis add.right_neutral div_mult_mod_eq)
  next
    assume "if extra \<ge> 0 then a = uint c * ?p else uint c = a * pow10_uint (- extra)"
    then have a: "a = uint c * ?p" using True by simp
    have "0 \<le> uint c * ?p" using p by (intro mult_nonneg_nonneg uint_ge_0 less_imp_le)
    then have "\<not> a < 0" using a by simp
    moreover have "?p \<noteq> 0" using p by (rule less_imp_neq [symmetric])
    then have "a div ?p = uint c" "a mod ?p = 0" using a by simp_all
    ultimately show "EvmToCoreWei (Some a) extra = Inr c"
      using True c by (simp add: EvmToCoreWei_def evmToCoreWei_def)
  qed
next
  case False
  have c: "uint c \<le> maxCoreWei" using uint_lt2p [of c] by (simp add: maxCoreWei_def)
  let ?p = "pow10_uint (- extra)"
  have p: "0 < ?p" by simp
  have "EvmToCoreWei (Some a) extra = Inr c \<longleftrightarrow> 0 \<le> a \<and> a * ?p \<le> maxCoreWei \<and> c = word_of_int (a * ?p)"
    using False by (auto simp: EvmToCoreWei_def evmToCoreWei_def)
  also have "\<dots> \<longleftrightarrow> uint c = a * ?p"
  proof
    assume "0 \<le> a \<and> a * ?p \<le> maxCoreWei \<and> c = word_of_int (a * ?p)"
    then show "uint c = a * ?p" using uint_word_u64 [of "a * ?p"] mult_nonneg_nonneg [OF _ less_imp_le [OF p], of a]
      by (simp del: of_int_mult)
  next
    assume u: "uint c = a * ?p"
    then have "0 \<le> a * ?p" by (metis uint_ge_0)
    then have "0 \<le> a" using p by (simp add: zero_le_mult_iff)
    moreover have "c = word_of_int (a * ?p)" using u by (metis word_of_int_uint)
    ultimately show "0 \<le> a \<and> a * ?p \<le> maxCoreWei \<and> c = word_of_int (a * ?p)" using u c by simp
  qed
  finally show ?thesis using False by simp
qed

lemma CoreWeiToEvm_iff:
  "CoreWeiToEvm c extra = Inr a \<longleftrightarrow>
    (if extra \<ge> 0 then a = uint c * pow10_uint extra else uint c = a * pow10_uint (- extra))"
proof (cases "extra \<ge> 0")
  case True
  then show ?thesis by (auto simp: CoreWeiToEvm_def coreWeiToEvm_def)
next
  case False
  let ?p = "pow10_uint (- extra)"
  have "CoreWeiToEvm c extra = Inr a \<longleftrightarrow> uint c mod ?p = 0 \<and> uint c div ?p = a"
    using False by (auto simp: CoreWeiToEvm_def coreWeiToEvm_def uint_mod_u64)
  also have "\<dots> \<longleftrightarrow> uint c = a * ?p"
  proof
    assume "uint c mod ?p = 0 \<and> uint c div ?p = a"
    then show "uint c = a * ?p" by (metis add.right_neutral div_mult_mod_eq)
  next
    assume "uint c = a * ?p"
    moreover have "?p \<noteq> 0" using pow10_uint_pos [of "- extra"] by (rule less_imp_neq [symmetric])
    ultimately show "uint c mod ?p = 0 \<and> uint c div ?p = a" by simp
  qed
  finally show ?thesis using False by simp
qed

text \<open>
  The exact conversions are inverse and the flooring one keeps its remainder: an EVM amount
  converts to a HyperCore amount exactly if that one converts back to it, for every number of
  extra decimals; and flooring splits a non-negative amount into whole HyperCore wei and a
  remainder below one wei, or reports that the result exceeds a uint64.
\<close>

theorem scaling_round_trip:
  assumes "- 128 \<le> extra" and "extra < 128" and "0 \<le> a"
  shows "(EvmToCoreWei (Some a) extra = Inr c \<longleftrightarrow> CoreWeiToEvm c extra = Inr a) \<and>
    (case EvmToCoreWeiFloor (Some a) extra of
       Inl e \<Rightarrow> a * 10 ^ nat (- extra) \<ge> 2 ^ 64 * 10 ^ nat extra
     | Inr (w, r) \<Rightarrow> a * 10 ^ nat (- extra) = uint w * 10 ^ nat extra + r \<and> 0 \<le> r \<and> r < 10 ^ nat extra)"
proof
  show "EvmToCoreWei (Some a) extra = Inr c \<longleftrightarrow> CoreWeiToEvm c extra = Inr a"
    by (simp only: EvmToCoreWei_iff CoreWeiToEvm_iff)
  show "case EvmToCoreWeiFloor (Some a) extra of
       Inl e \<Rightarrow> a * 10 ^ nat (- extra) \<ge> 2 ^ 64 * 10 ^ nat extra
     | Inr (w, r) \<Rightarrow> a * 10 ^ nat (- extra) = uint w * 10 ^ nat extra + r \<and> 0 \<le> r \<and> r < 10 ^ nat extra"
  proof (cases "extra \<ge> 0")
    case True
    let ?p = "10 ^ nat extra :: int"
    have p: "pow10_uint extra = ?p" "0 < ?p" using True assms by (simp_all add: pow10_uint_power)
    have "a div ?p > maxCoreWei \<Longrightarrow> 2 ^ 64 * ?p \<le> a"
    proof -
      assume "a div ?p > maxCoreWei"
      then have "2 ^ 64 * ?p \<le> a div ?p * ?p" using p(2) by (intro mult_right_mono) (simp_all add: maxCoreWei_def)
      also have "\<dots> \<le> a" using p(2) by (simp add: mult.commute minus_mod_eq_mult_div [symmetric])
      finally show ?thesis .
    qed
    moreover have "a = a div ?p * ?p + a mod ?p" by (rule div_mult_mod_eq [symmetric])
    moreover have "0 \<le> a mod ?p" "a mod ?p < ?p" "0 \<le> a div ?p" using p(2) assms by (simp_all add: pos_imp_zdiv_nonneg_iff)
    ultimately show ?thesis
      using True assms p by (auto simp: EvmToCoreWeiFloor_def evmToCoreWei_def uint_word_u64)
  next
    case False
    then have "pow10_uint (- extra) = 10 ^ nat (- extra)" "nat extra = 0" using assms by (simp_all add: pow10_uint_power)
    then show ?thesis
      using False assms uint_word_u64 [of "a * 10 ^ nat (- extra)"]
      by (auto simp: EvmToCoreWeiFloor_def evmToCoreWei_def maxCoreWei_def simp del: of_int_mult of_int_power)
  qed
qed

theorem scaling_round_trip_witness:
  "EvmToCoreWei (Some 5000) 3 = Inr 5 \<and> CoreWeiToEvm 5 3 = Inr 5000 \<and> EvmToCoreWeiFloor (Some 5999) 3 = Inr (5, 999)"
proof -
  have "EvmToCoreWei (Some 5000) 3 = Inr 5" by (simp add: EvmToCoreWei_def evmToCoreWei_def pow10_uint_def Pow10_def maxCoreWei_def)
  moreover have "EvmToCoreWeiFloor (Some 5999) 3 = Inr (5, 999)"
    by (simp add: EvmToCoreWeiFloor_def evmToCoreWei_def pow10_uint_def Pow10_def maxCoreWei_def)
  ultimately show ?thesis using scaling_round_trip [of 3 5000 5] by simp
qed

text \<open>The addresses of different tokens differ, that of HYPE included.\<close>

lemma TokenSystemAddress_inj: "TokenSystemAddress a = TokenSystemAddress b \<longleftrightarrow> a = b"
proof -
  have u: "uint (word_of_int (push_bit 152 0x20 + uint x) :: address) = 32 * 2 ^ 152 + uint x" for x :: u64
  proof -
    have "uint x < 2 ^ 64" using uint_lt2p [of x] by simp
    then show ?thesis unfolding uint_word_of_int push_bit_eq_mult by simp
  qed
  have h: "uint HypeSystemAddress \<noteq> 32 * 2 ^ 152 + uint x" for x :: u64
  proof -
    have "uint x < 2 ^ 64" using uint_lt2p [of x] by simp
    then show ?thesis by (simp add: HypeSystemAddress_def)
  qed
  have "uint (TokenSystemAddress x) = (if x = HypeTokenIndex then uint HypeSystemAddress else 32 * 2 ^ 152 + uint x)" for x
    unfolding TokenSystemAddress_def using u by presburger
  with h show ?thesis by (metis add_left_cancel word_uint_eq_iff)
qed

lemma NtlToUsd_round_trip: "0 < ntl \<Longrightarrow> UsdToNtl (Some (NtlToUsd ntl)) = Inr ntl"
proof -
  assume n: "0 < ntl"
  have s: "ntlScale = 1000000" by (simp add: ntlScale_def NtlDecimals_def Pow10_def)
  have "NtlToUsd ntl = of_int (uint ntl) / 1000000" by (simp add: NtlToUsd_def s Fract_of_int_quotient)
  then have e: "NtlToUsd ntl * of_int ntlScale = of_int (uint ntl)" by (simp add: s)
  have "0 < uint ntl" using n by (simp add: word_less_def)
  then have "\<not> NtlToUsd ntl \<le> 0" unfolding NtlToUsd_def s not_le by (subst zero_less_Fract_iff) simp_all
  moreover have "uint ntl < 2 ^ 64" using uint_lt2p [of ntl] by simp
  moreover have "quotient_of (of_int (uint ntl)) = (uint ntl, 1)"
    using quotient_of_int [of "uint ntl"] by (simp only: Rat.of_int_def)
  ultimately show ?thesis unfolding UsdToNtl_def option.case Let_def e by simp
qed

end
