(* ===== verification/Core_Writer.thy ===== *)
theory Core_Writer
  imports Hypercore
begin

text \<open>
  \<open>providers/hyperliquid/hypercore/corewriter_evidence.go\<close>: CoreWriter actions decoded from calldata, from one log and
  from a receipt. \<open>Pack\<close> and \<open>Unpack\<close> of go-ethereum's \<open>abi.Arguments\<close> are parameters that take the list of
  types; the hash of the event's signature is a parameter too.
\<close>

section \<open>Data\<close>

datatype abi_type = TUint64 | TUint32 | TBool | TAddress | TString | TBytes

text \<open>A decoded value, with the Go type it has in the \<open>any\<close>.\<close>

datatype abi_any = VUint64 u64 | VUint32 u32 | VBool bool | VAddress address | VString string | VBytes bytes

type_synonym abi_pack = "abi_type list \<Rightarrow> abi_any list \<Rightarrow> string + bytes"
type_synonym abi_unpack = "abi_type list \<Rightarrow> bytes \<Rightarrow> string + abi_any list"

datatype CoreWriterAction =
    USDClassTransferAction u64 bool
  | AddAPIWalletAction address string
  | ApproveBuilderFeeAction u64 address
  | SendAssetAction address address u32 u32 u64 u64
  | UnknownCoreWriterAction u32 bytes

fun CoreWriterActionID :: "CoreWriterAction \<Rightarrow> u32" where
  "CoreWriterActionID (USDClassTransferAction _ _) = ActionUsdClassTransfer"
| "CoreWriterActionID (AddAPIWalletAction _ _) = ActionAddApiWallet"
| "CoreWriterActionID (ApproveBuilderFeeAction _ _) = ActionApproveBuilderFee"
| "CoreWriterActionID (SendAssetAction _ _ _ _ _ _) = ActionSendAsset"
| "CoreWriterActionID (UnknownCoreWriterAction i _) = i"

record DecodedCoreWriterAction =
  User :: address
  Version :: "8 word"
  ActionID :: u32
  RawAction :: bytes
  Action :: CoreWriterAction
  TransactionHash :: hash
  BlockHash :: hash
  BlockNumber :: u64
  LogIndex :: u64

text \<open>What the code reads of go-ethereum's \<open>types.Log\<close> and \<open>types.Receipt\<close>.\<close>

record eth_log =
  logAddress :: address
  logTopics :: "hash list"
  logData :: bytes
  logBlockNumber :: u64
  logTxHash :: hash
  logBlockHash :: hash
  logIndex :: u64
  logRemoved :: bool

record log_receipt =
  rcStatus :: u64
  rcTxHash :: hash
  rcBlockHash :: hash
  rcBlockNumber :: "int option"
  rcLogs :: "eth_log option list"

datatype evidence_error =
    ShortAction nat | UnsupportedVersion "8 word" | DecodingPayload u32 string | ReencodingPayload u32 string
  | NotCanonicalPayload u32 | LogNil | NotCoreWriter address | LogWasRemoved u64 | WrongTopics nat
  | WrongTopic hash | UserNotCanonical | DecodingEvent string | WrongValues nat | EventNotBytes
  | ReencodingEvent string | NotCanonicalEvent | ReceiptNil | ReceiptFailed hash | NoTransactionHash
  | NoBlockNumber hash | InvalidBlockNumber hash int
  | TxHashMismatch u64 hash hash | BlockMismatch u64 u64 int | BlockHashMismatch u64 hash hash
  | DecodingLog u64 evidence_error

type_synonym 'a evidence = "(evidence_error, 'a) outcome"

section \<open>Actions\<close>

definition usdClassTransferData :: "abi_type list" where
  "usdClassTransferData = [TUint64, TBool]"

definition addAPIWalletData :: "abi_type list" where
  "addAPIWalletData = [TAddress, TString]"

definition approveBuilderFeeData :: "abi_type list" where
  "approveBuilderFeeData = [TUint64, TAddress]"

definition sendAssetData :: "abi_type list" where
  "sendAssetData = [TAddress, TAddress, TUint32, TUint32, TUint64, TUint64]"

definition coreWriterRawActionData :: "abi_type list" where
  "coreWriterRawActionData = [TBytes]"

definition unpackCanonicalAction ::
  "abi_pack \<Rightarrow> abi_unpack \<Rightarrow> u32 \<Rightarrow> abi_type list \<Rightarrow> bytes \<Rightarrow> evidence_error + abi_any list" where
  "unpackCanonicalAction pack unpack actionID arguments payload =
     (case unpack arguments payload of
        Inl err \<Rightarrow> Inl (DecodingPayload actionID err)
      | Inr values \<Rightarrow>
          (case pack arguments values of
             Inl err \<Rightarrow> Inl (ReencodingPayload actionID err)
           | Inr repacked \<Rightarrow>
               if repacked \<noteq> payload then Inl (NotCanonicalPayload actionID) else Inr values))"

text \<open>
  The type assertions on the decoded values; one that fails, or a missing value, panics.
\<close>

definition read_values :: "(evidence_error + abi_any list) \<Rightarrow> (abi_any list \<Rightarrow> CoreWriterAction option) \<Rightarrow>
    CoreWriterAction evidence" where
  "read_values r f =
     (case r of
        Inl e \<Rightarrow> Fail e
      | Inr values \<Rightarrow> (case f values of None \<Rightarrow> Panic ''interface conversion'' | Some a \<Rightarrow> Ret a))"

fun as_usdClassTransfer :: "abi_any list \<Rightarrow> CoreWriterAction option" where
  "as_usdClassTransfer (VUint64 ntl # VBool toPerp # _) = Some (USDClassTransferAction ntl toPerp)"
| "as_usdClassTransfer _ = None"

fun as_addAPIWallet :: "abi_any list \<Rightarrow> CoreWriterAction option" where
  "as_addAPIWallet (VAddress agent # VString name # _) = Some (AddAPIWalletAction agent name)"
| "as_addAPIWallet _ = None"

fun as_approveBuilderFee :: "abi_any list \<Rightarrow> CoreWriterAction option" where
  "as_approveBuilderFee (VUint64 rate # VAddress builder # _) = Some (ApproveBuilderFeeAction rate builder)"
| "as_approveBuilderFee _ = None"

fun as_sendAsset :: "abi_any list \<Rightarrow> CoreWriterAction option" where
  "as_sendAsset (VAddress destination # VAddress subaccount # VUint32 sourceDex # VUint32 destinationDex #
     VUint64 token # VUint64 wei # _) =
     Some (SendAssetAction destination subaccount sourceDex destinationDex token wei)"
| "as_sendAsset _ = None"

definition DecodeCoreWriterAction :: "abi_pack \<Rightarrow> abi_unpack \<Rightarrow> bytes \<Rightarrow> CoreWriterAction evidence" where
  "DecodeCoreWriterAction pack unpack raw =
     (if length raw < 4 then Fail (ShortAction (length raw))
      else if raw ! 0 \<noteq> CoreWriterEncodingVersion then Fail (UnsupportedVersion (raw ! 0))
      else
        let actionID = or (or (push_bit 16 (ucast (raw ! 1))) (push_bit 8 (ucast (raw ! 2)))) (ucast (raw ! 3)) :: u32;
            payload = drop 4 raw
        in if actionID = ActionUsdClassTransfer then
             read_values (unpackCanonicalAction pack unpack actionID usdClassTransferData payload) as_usdClassTransfer
           else if actionID = ActionAddApiWallet then
             read_values (unpackCanonicalAction pack unpack actionID addAPIWalletData payload) as_addAPIWallet
           else if actionID = ActionApproveBuilderFee then
             read_values (unpackCanonicalAction pack unpack actionID approveBuilderFeeData payload) as_approveBuilderFee
           else if actionID = ActionSendAsset then
             read_values (unpackCanonicalAction pack unpack actionID sendAssetData payload) as_sendAsset
           else Ret (UnknownCoreWriterAction actionID payload))"

section \<open>Logs\<close>

definition DecodeCoreWriterRawActionLog ::
  "abi_pack \<Rightarrow> abi_unpack \<Rightarrow> hash \<Rightarrow> eth_log option \<Rightarrow> DecodedCoreWriterAction evidence" where
  "DecodeCoreWriterRawActionLog pack unpack rawActionTopic lg =
     (case lg of
        None \<Rightarrow> Fail LogNil
      | Some l \<Rightarrow>
          if logAddress l \<noteq> CoreWriterAddress then Fail (NotCoreWriter (logAddress l))
          else if logRemoved l then Fail (LogWasRemoved (logIndex l))
          else if length (logTopics l) \<noteq> 2 then Fail (WrongTopics (length (logTopics l)))
          else if logTopics l ! 0 \<noteq> rawActionTopic then Fail (WrongTopic (logTopics l ! 0))
          else if drop_bit 160 (logTopics l ! 1) \<noteq> 0 then Fail UserNotCanonical
          else case unpack coreWriterRawActionData (logData l) of
            Inl err \<Rightarrow> Fail (DecodingEvent err)
          | Inr values \<Rightarrow>
              if length values \<noteq> 1 then Fail (WrongValues (length values))
              else case hd values of
                VBytes raw \<Rightarrow>
                  (case pack coreWriterRawActionData [VBytes raw] of
                     Inl err \<Rightarrow> Fail (ReencodingEvent err)
                   | Inr repacked \<Rightarrow>
                       if repacked \<noteq> logData l then Fail NotCanonicalEvent
                       else case DecodeCoreWriterAction pack unpack raw of
                         Fail e \<Rightarrow> Fail e
                       | Panic m \<Rightarrow> Panic m
                       | Ret action \<Rightarrow>
                           Ret \<lparr>User = ucast (logTopics l ! 1), Version = raw ! 0,
                                ActionID = CoreWriterActionID action, RawAction = raw, Action = action,
                                TransactionHash = logTxHash l, BlockHash = logBlockHash l,
                                BlockNumber = logBlockNumber l, LogIndex = logIndex l\<rparr>)
              | _ \<Rightarrow> Fail EventNotBytes)"

text \<open>One turn of the loop over the logs of a receipt: skip, an error, or a decoded action.\<close>

definition is_core_log :: "eth_log option \<Rightarrow> bool" where
  "is_core_log lg = (case lg of None \<Rightarrow> False | Some l \<Rightarrow> logAddress l = CoreWriterAddress)"

definition complete_from :: "log_receipt \<Rightarrow> int \<Rightarrow> DecodedCoreWriterAction \<Rightarrow> DecodedCoreWriterAction" where
  "complete_from rc number d =
     (let d = (if TransactionHash d = 0 then d\<lparr>TransactionHash := rcTxHash rc\<rparr> else d);
          d = (if BlockNumber d = 0 then d\<lparr>BlockNumber := word_of_int number\<rparr> else d)
      in if BlockHash d = 0 then d\<lparr>BlockHash := rcBlockHash rc\<rparr> else d)"

definition decode_receipt_log ::
  "abi_pack \<Rightarrow> abi_unpack \<Rightarrow> hash \<Rightarrow> log_receipt \<Rightarrow> int \<Rightarrow> eth_log \<Rightarrow> DecodedCoreWriterAction evidence" where
  "decode_receipt_log pack unpack topic rc number l =
     (if logTxHash l \<noteq> 0 \<and> logTxHash l \<noteq> rcTxHash rc
      then Fail (TxHashMismatch (logIndex l) (logTxHash l) (rcTxHash rc))
      else if logBlockNumber l \<noteq> 0 \<and> word_of_int number \<noteq> logBlockNumber l
      then Fail (BlockMismatch (logIndex l) (logBlockNumber l) number)
      else if logBlockHash l \<noteq> 0 \<and> rcBlockHash rc \<noteq> 0 \<and> logBlockHash l \<noteq> rcBlockHash rc
      then Fail (BlockHashMismatch (logIndex l) (logBlockHash l) (rcBlockHash rc))
      else case DecodeCoreWriterRawActionLog pack unpack topic (Some l) of
             Fail e \<Rightarrow> Fail (DecodingLog (logIndex l) e)
           | Panic m \<Rightarrow> Panic m
           | Ret d \<Rightarrow> Ret (complete_from rc number d))"

fun decode_logs :: "(eth_log \<Rightarrow> DecodedCoreWriterAction evidence) \<Rightarrow> eth_log option list \<Rightarrow>
    DecodedCoreWriterAction list \<Rightarrow> evidence_error list \<Rightarrow>
    (unit, DecodedCoreWriterAction list \<times> evidence_error list) outcome" where
  "decode_logs f [] actions errs = Ret (actions, errs)"
| "decode_logs f (None # logs) actions errs = decode_logs f logs actions errs"
| "decode_logs f (Some l # logs) actions errs =
     (if logAddress l \<noteq> CoreWriterAddress then decode_logs f logs actions errs
      else case f l of
             Fail e \<Rightarrow> decode_logs f logs actions (errs @ [e])
           | Panic m \<Rightarrow> Panic m
           | Ret d \<Rightarrow> decode_logs f logs (actions @ [d]) errs)"

text \<open>
  The actions and the joined errors, which are nil when there are none.
\<close>

definition DecodeCoreWriterRawActions :: "abi_pack \<Rightarrow> abi_unpack \<Rightarrow> hash \<Rightarrow> log_receipt option \<Rightarrow>
    (unit, DecodedCoreWriterAction list \<times> evidence_error list) outcome" where
  "DecodeCoreWriterRawActions pack unpack topic receipt =
     (case receipt of
        None \<Rightarrow> Ret ([], [ReceiptNil])
      | Some rc \<Rightarrow>
          if rcStatus rc \<noteq> 1 then Ret ([], [ReceiptFailed (rcTxHash rc)])
          else if \<not> list_ex is_core_log (rcLogs rc) then Ret ([], [])
          else if rcTxHash rc = 0 then Ret ([], [NoTransactionHash])
          else case rcBlockNumber rc of
            None \<Rightarrow> Ret ([], [NoBlockNumber (rcTxHash rc)])
          | Some number \<Rightarrow>
              if number < 0 \<or> number \<ge> 2 ^ 64 then Ret ([], [InvalidBlockNumber (rcTxHash rc) number])
              else decode_logs (decode_receipt_log pack unpack topic rc number) (rcLogs rc) [] [])"

section \<open>What is decoded can be encoded again\<close>

text \<open>The version, the three bytes of the action's number, and the ABI encoding of its fields.\<close>

definition action_header :: "u32 \<Rightarrow> bytes" where
  "action_header i = [CoreWriterEncodingVersion, ucast (drop_bit 16 i), ucast (drop_bit 8 i), ucast i]"

fun action_payload :: "abi_pack \<Rightarrow> CoreWriterAction \<Rightarrow> string + bytes" where
  "action_payload pack (USDClassTransferAction ntl toPerp) = pack usdClassTransferData [VUint64 ntl, VBool toPerp]"
| "action_payload pack (AddAPIWalletAction agent name) = pack addAPIWalletData [VAddress agent, VString name]"
| "action_payload pack (ApproveBuilderFeeAction rate builder) = pack approveBuilderFeeData [VUint64 rate, VAddress builder]"
| "action_payload pack (SendAssetAction d s sd dd t w) =
     pack sendAssetData [VAddress d, VAddress s, VUint32 sd, VUint32 dd, VUint64 t, VUint64 w]"
| "action_payload pack (UnknownCoreWriterAction i payload) = Inr payload"

definition encodes :: "abi_pack \<Rightarrow> CoreWriterAction \<Rightarrow> bytes \<Rightarrow> bool" where
  "encodes pack a raw \<longleftrightarrow>
     (\<exists>payload. action_payload pack a = Inr payload \<and> raw = action_header (CoreWriterActionID a) @ payload)"

text \<open>What go-ethereum documents of \<open>Unpack\<close>: one value of the Go type of each argument.\<close>

fun has_type :: "abi_any \<Rightarrow> abi_type \<Rightarrow> bool" where
  "has_type (VUint64 _) t \<longleftrightarrow> t = TUint64"
| "has_type (VUint32 _) t \<longleftrightarrow> t = TUint32"
| "has_type (VBool _) t \<longleftrightarrow> t = TBool"
| "has_type (VAddress _) t \<longleftrightarrow> t = TAddress"
| "has_type (VString _) t \<longleftrightarrow> t = TString"
| "has_type (VBytes _) t \<longleftrightarrow> t = TBytes"

definition unpack_typed :: "abi_unpack \<Rightarrow> bool" where
  "unpack_typed unpack \<longleftrightarrow> (\<forall>ts b vs. unpack ts b = Inr vs \<longrightarrow> list_all2 has_type vs ts)"

lemma has_type_simps [simp]:
  "has_type v TUint64 \<longleftrightarrow> (\<exists>x. v = VUint64 x)" "has_type v TUint32 \<longleftrightarrow> (\<exists>x. v = VUint32 x)"
  "has_type v TBool \<longleftrightarrow> (\<exists>x. v = VBool x)" "has_type v TAddress \<longleftrightarrow> (\<exists>x. v = VAddress x)"
  "has_type v TString \<longleftrightarrow> (\<exists>x. v = VString x)" "has_type v TBytes \<longleftrightarrow> (\<exists>x. v = VBytes x)"
  by (cases v; simp)+

lemma unpackCanonicalAction_Inr:
  assumes "unpackCanonicalAction pack unpack i ts payload = Inr vs" and "unpack_typed unpack"
  shows "pack ts vs = Inr payload \<and> list_all2 has_type vs ts"
  using assms by (auto simp: unpackCanonicalAction_def unpack_typed_def split: sum.splits if_splits)

text \<open>An outcome that is no panic and, when it is an action, encodes to the bytes.\<close>

definition decode_ok :: "abi_pack \<Rightarrow> bytes \<Rightarrow> CoreWriterAction evidence \<Rightarrow> bool" where
  "decode_ok pack raw r \<longleftrightarrow> (\<forall>m. r \<noteq> Panic m) \<and> (\<forall>a. r = Ret a \<longrightarrow> encodes pack a raw)"

lemma read_values_ok:
  assumes "unpack_typed unpack" and "raw = action_header i @ payload"
    and "\<And>vs. list_all2 has_type vs ts \<Longrightarrow> \<exists>a. f vs = Some a \<and> CoreWriterActionID a = i \<and> action_payload pack a = pack ts vs"
  shows "decode_ok pack raw (read_values (unpackCanonicalAction pack unpack i ts payload) f)"
proof (cases "unpackCanonicalAction pack unpack i ts payload")
  case (Inr vs)
  with assms(1) have "pack ts vs = Inr payload" "list_all2 has_type vs ts"
    using unpackCanonicalAction_Inr by blast+
  with assms(3) obtain a where "f vs = Some a" "CoreWriterActionID a = i" "action_payload pack a = Inr payload" by metis
  with assms(2) show ?thesis by (auto simp: read_values_def Inr decode_ok_def encodes_def)
qed (simp add: read_values_def decode_ok_def)

lemma typed_values:
  "list_all2 has_type vs usdClassTransferData \<Longrightarrow> \<exists>a. as_usdClassTransfer vs = Some a \<and>
     CoreWriterActionID a = ActionUsdClassTransfer \<and> action_payload pack a = pack usdClassTransferData vs"
  "list_all2 has_type vs addAPIWalletData \<Longrightarrow> \<exists>a. as_addAPIWallet vs = Some a \<and>
     CoreWriterActionID a = ActionAddApiWallet \<and> action_payload pack a = pack addAPIWalletData vs"
  "list_all2 has_type vs approveBuilderFeeData \<Longrightarrow> \<exists>a. as_approveBuilderFee vs = Some a \<and>
     CoreWriterActionID a = ActionApproveBuilderFee \<and> action_payload pack a = pack approveBuilderFeeData vs"
  "list_all2 has_type vs sendAssetData \<Longrightarrow> \<exists>a. as_sendAsset vs = Some a \<and>
     CoreWriterActionID a = ActionSendAsset \<and> action_payload pack a = pack sendAssetData vs"
  by (auto simp: usdClassTransferData_def addAPIWalletData_def approveBuilderFeeData_def sendAssetData_def list_all2_Cons2)

lemma header_bytes:
  "action_header (or (or (push_bit 16 (ucast a)) (push_bit 8 (ucast b))) (ucast c)) = [CoreWriterEncodingVersion, a, b, c]"
  for a b c :: "8 word"
proof -
  let ?i = "or (or (push_bit 16 (ucast a)) (push_bit 8 (ucast b))) (ucast c) :: u32"
  have "ucast (drop_bit 16 ?i) = a" by (rule bit_word_eqI) (auto simp: bit_simps dest: bit_imp_le_length)
  moreover have "ucast (drop_bit 8 ?i) = b" by (rule bit_word_eqI) (auto simp: bit_simps dest: bit_imp_le_length)
  moreover have "ucast ?i = c" by (rule bit_word_eqI) (auto simp: bit_simps dest: bit_imp_le_length)
  ultimately show ?thesis by (simp add: action_header_def)
qed

lemma split_raw: "\<not> length raw < 4 \<Longrightarrow> raw = [raw ! 0, raw ! 1, raw ! 2, raw ! 3] @ drop 4 raw"
  by (cases raw; cases "tl raw"; cases "tl (tl raw)"; cases "tl (tl (tl raw))") (auto simp: numeral_eq_Suc)

lemma Decode_ok:
  assumes "unpack_typed unpack"
  shows "decode_ok pack raw (DecodeCoreWriterAction pack unpack raw)"
proof (cases "length raw < 4 \<or> raw ! 0 \<noteq> CoreWriterEncodingVersion")
  case True
  then show ?thesis by (auto simp: DecodeCoreWriterAction_def decode_ok_def)
next
  case False
  define i where "i = (or (or (push_bit 16 (ucast (raw ! 1))) (push_bit 8 (ucast (raw ! 2)))) (ucast (raw ! 3)) :: u32)"
  have raw: "raw = action_header i @ drop 4 raw" using False split_raw [of raw] by (simp add: i_def header_bytes)
  note ok = read_values_ok [OF assms raw]
  have d: "DecodeCoreWriterAction pack unpack raw =
      (if i = ActionUsdClassTransfer then read_values (unpackCanonicalAction pack unpack i usdClassTransferData (drop 4 raw)) as_usdClassTransfer
       else if i = ActionAddApiWallet then read_values (unpackCanonicalAction pack unpack i addAPIWalletData (drop 4 raw)) as_addAPIWallet
       else if i = ActionApproveBuilderFee then read_values (unpackCanonicalAction pack unpack i approveBuilderFeeData (drop 4 raw)) as_approveBuilderFee
       else if i = ActionSendAsset then read_values (unpackCanonicalAction pack unpack i sendAssetData (drop 4 raw)) as_sendAsset
       else Ret (UnknownCoreWriterAction i (drop 4 raw)))"
    using False by (simp add: DecodeCoreWriterAction_def Let_def i_def)
  have "encodes pack (UnknownCoreWriterAction i (drop 4 raw)) raw" using raw by (simp add: encodes_def)
  then have "decode_ok pack raw (Ret (UnknownCoreWriterAction i (drop 4 raw)))" by (simp add: decode_ok_def)
  then show ?thesis unfolding d using typed_values ok by (auto split: if_splits)
qed

text \<open>
  C27. A decoded action is the whole evidence: when \<open>DecodeCoreWriterAction\<close> returns an action, the
  version, the number of the action and the ABI encoding of its fields are exactly the bytes it
  was given, so no two byte strings decode to one action; and no input makes it panic, given that
  \<open>Unpack\<close> returns values of the documented Go types.
\<close>

theorem DecodeCoreWriterAction_canonical:
  assumes "unpack_typed unpack"
  shows "(\<forall>msg. DecodeCoreWriterAction pack unpack raw \<noteq> Panic msg) \<and>
    (\<forall>a. DecodeCoreWriterAction pack unpack raw = Ret a \<longrightarrow>
       encodes pack a raw \<and> (\<forall>raw'. DecodeCoreWriterAction pack unpack raw' = Ret a \<longrightarrow> raw' = raw))"
proof -
  have ok: "decode_ok pack r (DecodeCoreWriterAction pack unpack r)" for r by (rule Decode_ok [OF assms])
  have "encodes pack a x \<Longrightarrow> encodes pack a y \<Longrightarrow> x = y" for a x y by (auto simp: encodes_def)
  with ok show ?thesis unfolding decode_ok_def by metis
qed

section \<open>Receipts\<close>

text \<open>The CoreWriter logs of a receipt.\<close>

definition core_logs :: "eth_log option list \<Rightarrow> eth_log list" where
  "core_logs logs = map the (filter is_core_log logs)"

fun good_of :: "(evidence_error, 'a) outcome \<Rightarrow> 'a option" where
  "good_of (Ret d) = Some d"
| "good_of _ = None"

fun bad_of :: "(evidence_error, 'a) outcome \<Rightarrow> evidence_error option" where
  "bad_of (Fail e) = Some e"
| "bad_of _ = None"

lemma decode_logs_eq:
  assumes "\<And>l m. f l \<noteq> Panic m"
  shows "decode_logs f logs actions errs =
    Ret (actions @ List.map_filter (good_of \<circ> f) (core_logs logs), errs @ List.map_filter (bad_of \<circ> f) (core_logs logs))"
proof (induction logs arbitrary: actions errs)
  case (Cons lg logs)
  show ?case
  proof (cases lg)
    case (Some l)
    show ?thesis
    proof (cases "logAddress l = CoreWriterAddress")
      case True
      then show ?thesis using assms Cons.IH
        by (cases "f l") (simp_all add: Some core_logs_def is_core_log_def)
    next
      case False
      then show ?thesis using Cons.IH by (simp add: Some core_logs_def is_core_log_def)
    qed
  qed (use Cons.IH in \<open>simp add: core_logs_def is_core_log_def\<close>)
qed (simp add: core_logs_def)

lemma length_good_bad:
  assumes "\<And>l m. f l \<noteq> Panic m"
  shows "length (List.map_filter (good_of \<circ> f) ls) + length (List.map_filter (bad_of \<circ> f) ls) = length ls"
proof (induction ls)
  case (Cons l ls)
  then show ?case using assms by (cases "f l") simp_all
qed simp

lemma set_map_filter_Some: "y \<in> set (List.map_filter f xs) \<longleftrightarrow> (\<exists>x \<in> set xs. f x = Some y)"
  by (induction xs) (auto split: option.splits)

lemma good_of_Some [simp]: "good_of r = Some d \<longleftrightarrow> r = Ret d"
  by (cases r) auto

text \<open>What a decoded action says of its receipt and of the log it comes from.\<close>

definition evidence_of :: "abi_pack \<Rightarrow> hash \<Rightarrow> log_receipt \<Rightarrow> int \<Rightarrow> eth_log \<Rightarrow> DecodedCoreWriterAction \<Rightarrow> bool" where
  "evidence_of pack topic rc number l d \<longleftrightarrow>
     \<not> logRemoved l \<and> logTopics l = [topic, ucast (User d)] \<and> LogIndex d = logIndex l \<and>
     pack coreWriterRawActionData [VBytes (RawAction d)] = Inr (logData l) \<and> encodes pack (Action d) (RawAction d) \<and>
     ActionID d = CoreWriterActionID (Action d) \<and>
     TransactionHash d = rcTxHash rc \<and> uint (BlockNumber d) = number \<and>
     (rcBlockHash rc \<noteq> 0 \<longrightarrow> BlockHash d = rcBlockHash rc)"

lemma ucast_of_zero_high: "drop_bit 160 h = 0 \<Longrightarrow> (ucast (ucast h :: address) :: hash) = h" for h :: hash
proof (rule bit_word_eqI)
  fix n assume "drop_bit 160 h = 0" and "n < LENGTH(256)"
  moreover have "bit (drop_bit 160 h) (n - 160) = bit h n" if "160 \<le> n" using that by (simp add: bit_drop_bit_eq)
  ultimately have "160 \<le> n \<Longrightarrow> \<not> bit h n" by simp
  then show "bit (ucast (ucast h :: address) :: hash) n = bit h n"
    using \<open>n < LENGTH(256)\<close> by (cases "n < 160") (simp_all add: bit_simps)
qed

lemma DecodeLog_Ret:
  assumes "unpack_typed unpack" and "DecodeCoreWriterRawActionLog pack unpack topic (Some l) = Ret d"
  shows "\<not> logRemoved l \<and> logTopics l = [topic, ucast (User d)] \<and> LogIndex d = logIndex l \<and>
     pack coreWriterRawActionData [VBytes (RawAction d)] = Inr (logData l) \<and> encodes pack (Action d) (RawAction d) \<and>
     ActionID d = CoreWriterActionID (Action d) \<and>
     TransactionHash d = logTxHash l \<and> BlockNumber d = logBlockNumber l \<and> BlockHash d = logBlockHash l"
proof -
  obtain raw action where h: "\<not> logRemoved l" "length (logTopics l) = 2" "logTopics l ! 0 = topic"
      "drop_bit 160 (logTopics l ! 1) = 0" "pack coreWriterRawActionData [VBytes raw] = Inr (logData l)"
      "DecodeCoreWriterAction pack unpack raw = Ret action"
    and d: "d = \<lparr>User = ucast (logTopics l ! 1), Version = raw ! 0, ActionID = CoreWriterActionID action,
       RawAction = raw, Action = action, TransactionHash = logTxHash l, BlockHash = logBlockHash l,
       BlockNumber = logBlockNumber l, LogIndex = logIndex l\<rparr>"
    using assms(2) unfolding DecodeCoreWriterRawActionLog_def
    by (auto split: if_splits sum.splits outcome.splits abi_any.splits)
  have "logTopics l = [logTopics l ! 0, logTopics l ! 1]" using h(2) by (intro nth_equalityI) (auto simp: less_2_cases_iff)
  then have "logTopics l = [topic, ucast (User d)]" using h(3,4) d ucast_of_zero_high by simp
  moreover have "encodes pack action raw" using Decode_ok [OF assms(1)] h(6) unfolding decode_ok_def by blast
  ultimately show ?thesis using h d by simp
qed

lemma DecodeLog_no_panic:
  assumes "unpack_typed unpack"
  shows "DecodeCoreWriterRawActionLog pack unpack topic lg \<noteq> Panic m"
  using Decode_ok [OF assms] unfolding DecodeCoreWriterRawActionLog_def decode_ok_def
  by (auto split: option.splits sum.splits outcome.splits abi_any.splits)

lemma decode_receipt_log_evidence:
  assumes "unpack_typed unpack" and "decode_receipt_log pack unpack topic rc number l = Ret d" and "0 \<le> number" and "number < 2 ^ 64"
  shows "evidence_of pack topic rc number l d"
proof -
  obtain e where e: "DecodeCoreWriterRawActionLog pack unpack topic (Some l) = Ret e" "d = complete_from rc number e"
    and c: "logTxHash l = 0 \<or> logTxHash l = rcTxHash rc" "logBlockNumber l = 0 \<or> word_of_int number = logBlockNumber l"
      "logBlockHash l = 0 \<or> rcBlockHash rc = 0 \<or> logBlockHash l = rcBlockHash rc"
    using assms(2) unfolding decode_receipt_log_def by (auto split: if_splits outcome.splits)
  note l = DecodeLog_Ret [OF assms(1) e(1)]
  have n: "uint (word_of_int number :: u64) = number" using assms(3,4) by (simp add: uint_word_of_int)
  have "TransactionHash d = rcTxHash rc" using l c e(2) by (auto simp: complete_from_def Let_def)
  moreover have "BlockNumber d = word_of_int number" using l c e(2) by (auto simp: complete_from_def Let_def)
  moreover have "rcBlockHash rc \<noteq> 0 \<longrightarrow> BlockHash d = rcBlockHash rc" using l c e(2) by (auto simp: complete_from_def Let_def)
  moreover have "User d = User e" "LogIndex d = LogIndex e" "RawAction d = RawAction e" "Action d = Action e" "ActionID d = ActionID e"
    using e(2) by (simp_all add: complete_from_def Let_def)
  ultimately show ?thesis using l n by (simp add: evidence_of_def)
qed


subsection \<open>An instance\<close>

text \<open>
  The standard encoding of the arguments of a USD class transfer below 256, two blocks of 32 bytes,
  and of the event's one argument, here the bytes as they are; other arguments are refused.
\<close>

definition byte_block :: "u64 \<Rightarrow> bytes" where
  "byte_block x = replicate 31 0 @ [ucast x]"

definition sample_pack :: abi_pack where
  "sample_pack ts vs =
     (if ts = usdClassTransferData then
        (case vs of [VUint64 n, VBool b] \<Rightarrow>
           if n < 256 then Inr (byte_block n @ byte_block (if b then 1 else 0)) else Inl ''range''
         | _ \<Rightarrow> Inl ''types'')
      else if ts = coreWriterRawActionData then (case vs of [VBytes b] \<Rightarrow> Inr b | _ \<Rightarrow> Inl ''types'')
      else Inl ''unsupported'')"

definition sample_unpack :: abi_unpack where
  "sample_unpack ts b =
     (if ts = usdClassTransferData then Inr [VUint64 (ucast (last (take 32 b))), VBool (last b = 1)]
      else if ts = coreWriterRawActionData then Inr [VBytes b]
      else Inl ''unsupported'')"

lemma sample_unpack_typed: "unpack_typed sample_unpack"
  by (auto simp: unpack_typed_def sample_unpack_def usdClassTransferData_def coreWriterRawActionData_def split: if_splits)

definition sample_raw :: bytes where
  "sample_raw = [1, 0, 0, 7] @ byte_block 9 @ byte_block 1"

lemma sample_decode: "DecodeCoreWriterAction sample_pack sample_unpack sample_raw = Ret (USDClassTransferAction 9 True)"
proof -
  have 9: "byte_block 9 = replicate 31 0 @ [9]" and 1: "byte_block 1 = replicate 31 0 @ [1]"
    by (simp_all add: byte_block_def)
  have "sample_unpack usdClassTransferData (byte_block 9 @ byte_block 1) = Inr [VUint64 9, VBool True]"
    by (simp add: sample_unpack_def 9 1)
  moreover have "sample_pack usdClassTransferData [VUint64 9, VBool True] = Inr (byte_block 9 @ byte_block 1)"
    by (simp add: sample_pack_def)
  ultimately have "unpackCanonicalAction sample_pack sample_unpack ActionUsdClassTransfer usdClassTransferData (byte_block 9 @ byte_block 1)
      = Inr [VUint64 9, VBool True]"
    by (simp add: unpackCanonicalAction_def)
  moreover have "length sample_raw \<ge> 4" "sample_raw ! 0 = 1" "sample_raw ! 1 = 0" "sample_raw ! 2 = 0" "sample_raw ! 3 = 7"
    "drop 4 sample_raw = byte_block 9 @ byte_block 1" by (simp_all add: sample_raw_def numeral_eq_Suc)
  ultimately show ?thesis
    by (simp add: DecodeCoreWriterAction_def CoreWriterEncodingVersion_def ActionUsdClassTransfer_def read_values_def)
qed

theorem DecodeCoreWriterAction_canonical_witness:
  "DecodeCoreWriterAction sample_pack sample_unpack sample_raw = Ret (USDClassTransferAction 9 True) \<and>
   encodes sample_pack (USDClassTransferAction 9 True) sample_raw"
  using DecodeCoreWriterAction_canonical [OF sample_unpack_typed, of sample_pack sample_raw] sample_decode by blast

definition sample_log :: "eth_log" where
  "sample_log = \<lparr>logAddress = CoreWriterAddress, logTopics = [5, 0x77], logData = sample_raw, logBlockNumber = 0,
     logTxHash = 0, logBlockHash = 0, logIndex = 3, logRemoved = False\<rparr>"

definition sample_receipt :: log_receipt where
  "sample_receipt = \<lparr>rcStatus = 1, rcTxHash = 8, rcBlockHash = 6, rcBlockNumber = Some 100,
     rcLogs = [None, Some sample_log, Some (sample_log\<lparr>logRemoved := True\<rparr>), Some (sample_log\<lparr>logAddress := 1\<rparr>)]\<rparr>"


end
