(* ===== verification/Go_Hex.thy ===== *)
theory Go_Hex
  imports Messages
begin

text \<open>
  Go's \<open>encoding/hex\<close>, the big-endian bytes of words, and the facts the components share about them.
\<close>

section \<open>Functions\<close>

text \<open>\<open>hex.EncodeToString\<close> and \<open>hex.DecodeString\<close>.\<close>

definition hex_encode :: "bytes \<Rightarrow> string" where
  "hex_encode bs = concat (map (\<lambda>b. [digit_char (unat b div 16), digit_char (unat b mod 16)]) bs)"

definition hex_value :: "char \<Rightarrow> nat option" where
  "hex_value c =
     (if in_range 48 57 c then Some (byte c - 48)
      else if in_range 97 102 c then Some (byte c - 87)
      else if in_range 65 70 c then Some (byte c - 55)
      else None)"

fun hex_decode :: "string \<Rightarrow> bytes option" where
  "hex_decode [] = Some []"
| "hex_decode [_] = None"
| "hex_decode (a # b # s) =
     (case (hex_value a, hex_value b, hex_decode s) of
        (Some x, Some y, Some bs) \<Rightarrow> Some (of_nat (16 * x + y) # bs)
      | _ \<Rightarrow> None)"

text \<open>\<open>binary.BigEndian.AppendUint64\<close>.\<close>

definition u64_bytes :: "u64 \<Rightarrow> bytes" where
  "u64_bytes x = map (\<lambda>i. ucast (drop_bit (8 * (7 - i)) x)) [0..<8]"

definition address_bytes :: "address \<Rightarrow> bytes" where
  "address_bytes a = map (\<lambda>i. ucast (drop_bit (8 * (19 - i)) a)) [0..<20]"

text \<open>The number that bytes are the big-endian digits of: \<open>big.Int.SetBytes\<close>, and \<open>big.Int.Bytes\<close> back.\<close>

definition bytes_value :: "bytes \<Rightarrow> nat" where
  "bytes_value bs = foldl (\<lambda>acc b. 256 * acc + unat b) 0 bs"

fun nat_bytes :: "nat \<Rightarrow> bytes" where
  "nat_bytes n = (if n = 0 then [] else nat_bytes (n div 256) @ [of_nat (n mod 256)])"

declare nat_bytes.simps [simp del]

section \<open>Facts\<close>

lemma hex_value_digit: "d < 16 \<Longrightarrow> hex_value (digit_char d) = Some d"
  by (erule less16_cases; simp add: digit_char_def hex_value_def in_range_def byte_def)

lemma hex_decode_encode: "hex_decode (hex_encode bs) = Some bs"
proof (induction bs)
  case (Cons b bs)
  have u: "unat b < 256" using unsigned_less [of b] by simp
  then have "hex_value (digit_char (unat b div 16)) = Some (unat b div 16)" "hex_value (digit_char (unat b mod 16)) = Some (unat b mod 16)"
    by (intro hex_value_digit; simp)+
  moreover have "(of_nat (16 * (unat b div 16) + unat b mod 16) :: 8 word) = b"
    by (simp only: mult_div_mod_eq) simp
  ultimately show ?case using Cons by (simp add: hex_encode_def del: of_nat_add of_nat_mult)
qed (simp add: hex_encode_def)

lemma length_hex_encode: "length (hex_encode bs) = 2 * length bs"
  by (induction bs) (simp_all add: hex_encode_def)

lemma length_u64_bytes [simp]: "length (u64_bytes x) = 8"
  by (simp add: u64_bytes_def)

lemma length_address_bytes [simp]: "length (address_bytes a) = 20"
  by (simp add: address_bytes_def)

text \<open>Big-endian bytes determine the word.\<close>

lemma big_endian_inj:
  fixes a b :: "'w::len word"
  assumes "map (\<lambda>i. ucast (drop_bit (8 * (k - i)) a) :: 8 word) [0..<Suc k] = map (\<lambda>i. ucast (drop_bit (8 * (k - i)) b)) [0..<Suc k]"
    and "LENGTH('w) = 8 * Suc k"
  shows "a = b"
proof (rule bit_word_eqI)
  fix n assume n: "n < LENGTH('w)"
  then have d: "n div 8 \<le> k" using assms(2) by simp
  then have "ucast (drop_bit (8 * (n div 8)) a) = (ucast (drop_bit (8 * (n div 8)) b) :: 8 word)"
    using arg_cong [OF assms(1), of "\<lambda>xs. xs ! (k - n div 8)"] nth_upt [of 0 "k - n div 8" "Suc k"] by (simp del: upt_Suc)
  then have "bit (ucast (drop_bit (8 * (n div 8)) a) :: 8 word) (n mod 8) = bit (ucast (drop_bit (8 * (n div 8)) b) :: 8 word) (n mod 8)"
    by simp
  then show "bit a n = bit b n" by (simp add: bit_ucast_iff bit_drop_bit_eq)
qed

lemma u64_bytes_inj [simp]: "u64_bytes a = u64_bytes b \<longleftrightarrow> a = b"
  using big_endian_inj [of 7 a b] by (auto simp: u64_bytes_def)

lemma address_bytes_inj [simp]: "address_bytes a = address_bytes b \<longleftrightarrow> a = b"
  using big_endian_inj [of 19 a b] by (auto simp: address_bytes_def)

lemma bytes_value_Cons: "bytes_value (b # bs) = unat b * 256 ^ length bs + bytes_value bs"
proof -
  have "foldl (\<lambda>acc b. 256 * acc + unat b) n bs = n * 256 ^ length bs + bytes_value bs" for n and bs :: bytes
  proof (induction bs rule: rev_induct)
    case (snoc x xs)
    then show ?case by (simp add: bytes_value_def algebra_simps)
  qed (simp add: bytes_value_def)
  from this [of "unat b" bs] show ?thesis by (simp add: bytes_value_def)
qed

lemma bytes_value_snoc: "bytes_value (bs @ [b]) = 256 * bytes_value bs + unat b"
  by (simp add: bytes_value_def)

lemma bytes_value_Nil [simp]: "bytes_value [] = 0"
  by (simp add: bytes_value_def)

lemma bytes_value_nat_bytes [simp]: "bytes_value (nat_bytes n) = n"
proof (induction n rule: nat_bytes.induct)
  case (1 n)
  have "unat (of_nat (n mod 256) :: 8 word) = n mod 256" by (simp add: unat_of_nat take_bit_nat_eq_self)
  then show ?case using 1 by (cases "n = 0") (simp_all add: nat_bytes.simps [of n] nat_bytes.simps [of 0] bytes_value_snoc)
qed

lemma nat_bytes_length: "n < 256 ^ k \<Longrightarrow> length (nat_bytes n) \<le> k"
proof (induction k arbitrary: n)
  case (Suc k)
  then have "n div 256 < 256 ^ k" by (simp add: less_mult_imp_div_less mult.commute)
  then show ?case using Suc.IH by (simp add: nat_bytes.simps [of n])
qed (simp add: nat_bytes.simps [of 0])

end
