(* ===== verification/Hyperliquid_Action.thy ===== *)
theory Hyperliquid_Action
  imports Addresses Polymarket_Order Go_Hex
begin

text \<open>
  \<open>providers/hyperliquid/action.go\<close> and \<open>exchange.go\<close>: the digest of a signed action, the recovery of its signer, and
  signed envelopes with their wire form. The msgpack encoder, Keccak-256, the recovery of a public key
  and \<open>HexToAddress\<close> are parameters; so is the strict JSON decoder, whose result \<open>DecodeEnvelope\<close> checks.
  An int64 is an integer in its range.
\<close>

section \<open>Data\<close>

datatype action_error =
    ErrMalformedSignature | ErrActionTooLarge | ErrMalformedEnvelope | ErrInvalidAddress
  | EncodingAction string | NegativeNonce | ExpiryNotPositive | UnsupportedSource string
  | SignatureRejected string | ActionRequired

definition SigningSourceMainnet :: string where
  "SigningSourceMainnet = ''a''"

definition SigningSourceTestnet :: string where
  "SigningSourceTestnet = ''b''"

definition SignatureLength :: nat where
  "SignatureLength = 65"

record LimitOrderType =
  lo_Tif :: string

record TriggerOrderType =
  to_IsMarket :: bool
  to_TriggerPrice :: string
  to_TPSL :: string

record OrderType =
  ot_Limit :: "LimitOrderType option"
  ot_Trigger :: "TriggerOrderType option"

record OrderWire =
  ow_Asset :: u32
  ow_IsBuy :: bool
  ow_LimitPrice :: string
  ow_Size :: string
  ow_ReduceOnly :: bool
  ow_OrderType :: OrderType
  ow_Cloid :: string

record OrderAction =
  oa_Type :: string
  oa_Orders :: "OrderWire list"
  oa_Grouping :: string

record CancelByCloidWire =
  cw_Asset :: u32
  cw_Cloid :: string

record CancelByCloidAction =
  ca_Type :: string
  ca_Cancels :: "CancelByCloidWire list"

definition NewOrderAction :: "OrderWire \<Rightarrow> OrderAction" where
  "NewOrderAction order = \<lparr>oa_Type = ''order'', oa_Orders = [order], oa_Grouping = ''na''\<rparr>"

definition NewCancelByCloidAction :: "CancelByCloidWire \<Rightarrow> CancelByCloidAction" where
  "NewCancelByCloidAction cancel = \<lparr>ca_Type = ''cancelByCloid'', ca_Cancels = [cancel]\<rparr>"

record SignedEnvelope =
  envAction :: bytes
  envNonce :: int
  envSignature :: bytes
  envVaultAddress :: string
  envExpiresAfter :: "int option"

record ExchangeSignature =
  R :: string
  S :: string
  V :: u64

record ExchangeRequest =
  reqAction :: bytes
  reqNonce :: int
  reqSignature :: ExchangeSignature
  reqVaultAddress :: "string option"
  reqExpiresAfter :: "int option"

section \<open>Actions\<close>

definition addressPattern :: "string \<Rightarrow> bool" where
  "addressPattern s \<longleftrightarrow> take 2 s = ''0x'' \<and> length s = 42 \<and> list_all (\<lambda>c. lower_hex c \<or> in_range 65 70 c) (drop 2 s)"

definition NormalizeAddress :: "string \<Rightarrow> action_error + string" where
  "NormalizeAddress addr =
     (let trimmed = TrimSpace addr
      in if \<not> addressPattern trimmed then Inl ErrInvalidAddress else Inr (go_lower trimmed))"

text \<open>An option is the limit given to \<open>WithActionEncodingLimit\<close>, or nil.\<close>

definition action_limit :: "int option list \<Rightarrow> int" where
  "action_limit opts = fold (\<lambda>opt cfg. case opt of None \<Rightarrow> cfg | Some n \<Rightarrow> if n > 0 then n else cfg) opts 0"

definition EncodeAction :: "('a \<Rightarrow> string + bytes) \<Rightarrow> 'a \<Rightarrow> int option list \<Rightarrow> action_error + bytes" where
  "EncodeAction msgpack action opts =
     (case msgpack action of
        Inl err \<Rightarrow> Inl (EncodingAction err)
      | Inr encoded \<Rightarrow>
          if action_limit opts > 0 \<and> int (length encoded) > action_limit opts then Inl ErrActionTooLarge
          else Inr encoded)"

text \<open>What \<open>ConnectionID\<close> hashes.\<close>

definition connection_preimage :: "('a \<Rightarrow> string + bytes) \<Rightarrow> (string \<Rightarrow> address) \<Rightarrow> 'a \<Rightarrow> int \<Rightarrow> string \<Rightarrow>
    int option \<Rightarrow> int option list \<Rightarrow> action_error + bytes" where
  "connection_preimage msgpack hex_to action nonce vaultAddress expiresAfter opts =
     (case EncodeAction msgpack action opts of
        Inl e \<Rightarrow> Inl e
      | Inr encoded \<Rightarrow>
          if nonce < 0 then Inl NegativeNonce
          else
            let preimage = encoded @ u64_bytes (word_of_int nonce);
                vault = TrimSpace vaultAddress
            in if vault \<noteq> [] \<and> isl (NormalizeAddress vault) then Inl ErrInvalidAddress
               else
                 let preimage = preimage @ (if vault = [] then [0] else 1 # address_bytes (hex_to vault))
                 in case expiresAfter of
                      None \<Rightarrow> Inr preimage
                    | Some expiry \<Rightarrow>
                        if expiry \<le> 0 then Inl ExpiryNotPositive
                        else Inr (preimage @ 0 # u64_bytes (word_of_int expiry)))"

definition ConnectionID :: "(bytes \<Rightarrow> hash) \<Rightarrow> ('a \<Rightarrow> string + bytes) \<Rightarrow> (string \<Rightarrow> address) \<Rightarrow> 'a \<Rightarrow> int \<Rightarrow>
    string \<Rightarrow> int option \<Rightarrow> int option list \<Rightarrow> action_error + hash" where
  "ConnectionID keccak msgpack hex_to action nonce vaultAddress expiresAfter opts =
     (case connection_preimage msgpack hex_to action nonce vaultAddress expiresAfter opts of
        Inl e \<Rightarrow> Inl e | Inr preimage \<Rightarrow> Inr (keccak preimage))"

definition agent_domain :: "(bytes \<Rightarrow> hash) \<Rightarrow> bytes" where
  "agent_domain keccak =
     hash_bytes (keccak (string_bytes ''EIP712Domain(string name,string version,uint256 chainId,address verifyingContract)'')) @
     hash_bytes (keccak (string_bytes ''Exchange'')) @ hash_bytes (keccak (string_bytes ''1'')) @
     hash_bytes 1337 @ hash_bytes 0"

definition agent_struct :: "(bytes \<Rightarrow> hash) \<Rightarrow> hash \<Rightarrow> string \<Rightarrow> bytes" where
  "agent_struct keccak connectionID source =
     hash_bytes (keccak (string_bytes ''Agent(string source,bytes32 connectionId)'')) @
     hash_bytes (keccak (string_bytes source)) @ hash_bytes connectionID"

definition agent_message :: "(bytes \<Rightarrow> hash) \<Rightarrow> hash \<Rightarrow> string \<Rightarrow> bytes" where
  "agent_message keccak connectionID source =
     [0x19, 0x01] @ hash_bytes (keccak (agent_domain keccak)) @ hash_bytes (keccak (agent_struct keccak connectionID source))"

definition AgentDigest :: "(bytes \<Rightarrow> hash) \<Rightarrow> hash \<Rightarrow> string \<Rightarrow> action_error + hash" where
  "AgentDigest keccak connectionID source =
     (if source \<noteq> SigningSourceMainnet \<and> source \<noteq> SigningSourceTestnet then Inl (UnsupportedSource source)
      else Inr (keccak (agent_message keccak connectionID source)))"

text \<open>The signer's text is \<open>strings.ToLower(PubkeyToAddress(key).Hex())\<close>, with the address as a parameter.\<close>

definition RecoverActionSigner :: "(hash \<Rightarrow> bytes \<Rightarrow> string + address) \<Rightarrow> (address \<Rightarrow> string) \<Rightarrow> hash \<Rightarrow> bytes \<Rightarrow>
    action_error + string" where
  "RecoverActionSigner sig_to_address addr_hex digest signature =
     (if length signature \<noteq> SignatureLength then Inl ErrMalformedSignature
      else
        let v = signature ! 64
        in if v \<noteq> 27 \<and> v \<noteq> 28 \<and> v \<noteq> 0 \<and> v \<noteq> 1 then Inl ErrMalformedSignature
           else
             let normalized = (if v = 27 \<or> v = 28 then signature[64 := v - 27] else signature)
             in case sig_to_address digest normalized of
                  Inl err \<Rightarrow> Inl (SignatureRejected err)
                | Inr signer \<Rightarrow> Inr (go_lower (addr_hex signer)))"

definition VerifyActionSignature :: "(bytes \<Rightarrow> hash) \<Rightarrow> ('a \<Rightarrow> string + bytes) \<Rightarrow> (string \<Rightarrow> address) \<Rightarrow>
    (hash \<Rightarrow> bytes \<Rightarrow> string + address) \<Rightarrow> (address \<Rightarrow> string) \<Rightarrow> 'a \<Rightarrow> int \<Rightarrow> string \<Rightarrow> int option \<Rightarrow> string \<Rightarrow>
    bytes \<Rightarrow> int option list \<Rightarrow> action_error + string" where
  "VerifyActionSignature keccak msgpack hex_to sig_to_address addr_hex action nonce vaultAddress expiresAfter source signature opts =
     (case ConnectionID keccak msgpack hex_to action nonce vaultAddress expiresAfter opts of
        Inl e \<Rightarrow> Inl e
      | Inr connectionID \<Rightarrow>
          (case AgentDigest keccak connectionID source of
             Inl e \<Rightarrow> Inl e
           | Inr digest \<Rightarrow> RecoverActionSigner sig_to_address addr_hex digest signature))"

section \<open>Envelopes\<close>

definition DecodeSignatureScalar :: "string \<Rightarrow> action_error + bytes" where
  "DecodeSignatureScalar raw =
     (if \<not> prefix ''0x'' raw \<or> length raw < 3 \<or> length raw > 66 then Inl ErrMalformedSignature
      else case hex_decode (replicate (66 - length raw) (CHR ''0'') @ drop 2 raw) of
             None \<Rightarrow> Inl ErrMalformedSignature | Some out \<Rightarrow> Inr out)"

definition DecodeEnvelope :: "(bytes \<Rightarrow> ExchangeRequest option) \<Rightarrow> bytes \<Rightarrow> action_error + SignedEnvelope" where
  "DecodeEnvelope strict_json raw =
     (case strict_json raw of
        None \<Rightarrow> Inl ErrMalformedEnvelope
      | Some request \<Rightarrow>
          if reqNonce request < 0 \<or> reqAction request = [] \<or>
             (case reqExpiresAfter request of None \<Rightarrow> False | Some e \<Rightarrow> e \<le> 0) then Inl ErrMalformedEnvelope
          else case DecodeSignatureScalar (R (reqSignature request)) of
            Inl _ \<Rightarrow> Inl ErrMalformedEnvelope
          | Inr r \<Rightarrow>
          (case DecodeSignatureScalar (S (reqSignature request)) of
            Inl _ \<Rightarrow> Inl ErrMalformedEnvelope
          | Inr s \<Rightarrow>
              let v = V (reqSignature request)
              in if v \<noteq> 0 \<and> v \<noteq> 1 \<and> v \<noteq> 27 \<and> v \<noteq> 28 then Inl ErrMalformedEnvelope
                 else Inr \<lparr>envAction = reqAction request, envNonce = reqNonce request,
                   envSignature = r @ s @ [ucast v],
                   envVaultAddress = (case reqVaultAddress request of None \<Rightarrow> [] | Some a \<Rightarrow> a),
                   envExpiresAfter = reqExpiresAfter request\<rparr>))"

definition NewExchangeRequest :: "SignedEnvelope \<Rightarrow> action_error + ExchangeRequest" where
  "NewExchangeRequest envelope =
     (if length (envSignature envelope) \<noteq> SignatureLength then Inl ErrMalformedSignature
      else if envAction envelope = [] then Inl ActionRequired
      else
        let recovery = ucast (envSignature envelope ! 64) :: u64
        in if recovery \<noteq> 0 \<and> recovery \<noteq> 1 \<and> recovery \<noteq> 27 \<and> recovery \<noteq> 28 then Inl ErrMalformedSignature
           else
             let recovery = (if recovery = 0 \<or> recovery = 1 then recovery + 27 else recovery);
                 request = \<lparr>reqAction = envAction envelope, reqNonce = envNonce envelope,
                   reqSignature = \<lparr>R = ''0x'' @ hex_encode (take 32 (envSignature envelope)),
                     S = ''0x'' @ hex_encode (take 32 (drop 32 (envSignature envelope))), V = recovery\<rparr>,
                   reqVaultAddress = None, reqExpiresAfter = envExpiresAfter envelope\<rparr>;
                 vault = TrimSpace (envVaultAddress envelope)
             in if vault = [] then Inr request
                else case NormalizeAddress vault of
                       Inl _ \<Rightarrow> Inl ErrInvalidAddress
                     | Inr normalized \<Rightarrow> Inr (request\<lparr>reqVaultAddress := Some normalized\<rparr>))"

section \<open>Envelopes round trip\<close>

lemma DecodeSignatureScalar_encode: "length bs = 32 \<Longrightarrow> DecodeSignatureScalar (''0x'' @ hex_encode bs) = Inr bs"
  by (simp add: DecodeSignatureScalar_def hex_decode_encode length_hex_encode)

lemma ucast_recovery:
  fixes v :: "8 word"
  shows "(ucast v :: u64) = 0 \<longleftrightarrow> v = 0" "(ucast v :: u64) = 1 \<longleftrightarrow> v = 1"
    "(ucast v :: u64) = 27 \<longleftrightarrow> v = 27" "(ucast v :: u64) = 28 \<longleftrightarrow> v = 28"
proof -
  have "uint (ucast w :: u64) = uint w" for w :: "8 word"
    using uint_lt2p [of w] by (simp add: unsigned_ucast_eq take_bit_int_eq_self)
  then have "(ucast v :: u64) = ucast w \<longleftrightarrow> v = w" for w :: "8 word" by (metis word_uint_eq_iff)
  from this [of 0] this [of 1] this [of 27] this [of 28]
  show "(ucast v :: u64) = 0 \<longleftrightarrow> v = 0" "(ucast v :: u64) = 1 \<longleftrightarrow> v = 1"
    "(ucast v :: u64) = 27 \<longleftrightarrow> v = 27" "(ucast v :: u64) = 28 \<longleftrightarrow> v = 28" by simp_all
qed

lemma signature_update:
  assumes "length sig = 65"
  shows "take 32 sig @ take 32 (drop 32 sig) @ [x] = sig[64 := x]"
proof -
  have "take 32 sig @ take 32 (drop 32 sig) = take 64 sig"
    using take_add [of 32 32 sig] by simp
  then have "take 32 sig @ take 32 (drop 32 sig) @ [x] = take 64 sig @ [x]" by (metis append_assoc)
  also have "\<dots> = sig[64 := x]" using assms by (simp add: upd_conv_take_nth_drop)
  finally show ?thesis .
qed

text \<open>The two forms of a recovery byte give the same signer.\<close>

lemma RecoverActionSigner_canonical:
  assumes "length sig = 65" and "sig ! 64 = 0 \<or> sig ! 64 = 1 \<or> sig ! 64 = 27 \<or> sig ! 64 = 28"
  shows "RecoverActionSigner recover hex digest (sig[64 := if sig ! 64 = 0 \<or> sig ! 64 = 1 then sig ! 64 + 27 else sig ! 64]) =
    RecoverActionSigner recover hex digest sig"
proof -
  define v where "v = sig ! 64"
  define v' where "v' = (if v = 0 \<or> v = 1 then v + 27 else v)"
  have "(sig[64 := v']) ! 64 = v'" using assms(1) by simp
  moreover have "v = 0 \<or> v = 1 \<Longrightarrow> (sig[64 := v'])[64 := v' - 27] = sig" by (simp add: v'_def v_def)
  moreover have "v = 27 \<or> v = 28 \<Longrightarrow> sig[64 := v'] = sig" by (auto simp: v'_def v_def)
  ultimately have "RecoverActionSigner recover hex digest (sig[64 := v']) = RecoverActionSigner recover hex digest sig"
    using assms by (auto simp: RecoverActionSigner_def Let_def v'_def v_def [symmetric] split: if_splits)
  then show ?thesis by (simp only: v_def v'_def)
qed



section \<open>What a digest binds\<close>

lemma string_bytes_inj [simp]: "string_bytes s = string_bytes t \<longleftrightarrow> s = t"
proof -
  have n: "unat (of_char c :: 8 word) = of_char c" for c :: char
  proof -
    have "(of_char c :: nat) < 256" by simp
    then have "unat (of_nat (of_char c) :: 8 word) = of_char c" by (simp add: unat_of_nat take_bit_nat_eq_self)
    then show ?thesis by (simp only: of_nat_of_char)
  qed
  have "inj (of_char :: char \<Rightarrow> 8 word)"
    by (rule injI) (metis n of_char_eq_iff)
  then show ?thesis by (simp add: string_bytes_def inj_map_eq_map)
qed

lemma word_of_i64_inj: "0 \<le> m \<Longrightarrow> 0 \<le> n \<Longrightarrow> in_i64 m \<Longrightarrow> in_i64 n \<Longrightarrow> (word_of_int m :: u64) = word_of_int n \<longleftrightarrow> m = n"
  by (simp add: word_of_int_eq_iff take_bit_int_eq_self in_i64_def)

text \<open>The parts of a preimage, and that they can be read off.\<close>

lemma preimage_parts:
  assumes "connection_preimage msgpack hex_to a n v e opts = Inr p"
  obtains x where "msgpack a = Inr x" "0 \<le> n" "e = None \<or> (\<exists>t. e = Some t \<and> 0 < t)"
    "p = x @ u64_bytes (word_of_int n) @ (if TrimSpace v = [] then [0] else 1 # address_bytes (hex_to (TrimSpace v))) @
      (case e of None \<Rightarrow> [] | Some t \<Rightarrow> 0 # u64_bytes (word_of_int t))"
  using assms that
  by (auto simp: connection_preimage_def EncodeAction_def Let_def split: sum.splits option.splits if_splits)

lemma preimage_inj:
  fixes x y :: bytes
  assumes "x @ u64_bytes m @ (if u = [] then [0] else 1 # address_bytes (h u)) @ (case e of None \<Rightarrow> [] | Some t \<Rightarrow> 0 # u64_bytes (word_of_int t)) =
      y @ u64_bytes n @ (if w = [] then [0] else 1 # address_bytes (h w)) @ (case f of None \<Rightarrow> [] | Some t \<Rightarrow> 0 # u64_bytes (word_of_int t))"
    and "prefix x y \<Longrightarrow> x = y" and "prefix y x \<Longrightarrow> y = x"
  shows "x = y \<and> m = n \<and> (u = [] \<longleftrightarrow> w = []) \<and> (u \<noteq> [] \<longrightarrow> h u = h w) \<and>
    map_option (\<lambda>t. word_of_int t :: u64) e = map_option word_of_int f"
proof -
  let ?l = "x @ u64_bytes m @ (if u = [] then [0] else 1 # address_bytes (h u)) @ (case e of None \<Rightarrow> [] | Some t \<Rightarrow> 0 # u64_bytes (word_of_int t))"
  have "prefix x ?l" by simp
  moreover have "prefix y ?l" unfolding assms(1) by simp
  ultimately have "prefix x y \<or> prefix y x" by (rule prefix_same_cases)
  then have "x = y" using assms(2,3) by blast
  with assms(1) show ?thesis by (auto split: if_splits option.splits)
qed

text \<open>What is hashed for one signature besides constants, and that msgpack values delimit themselves.\<close>

definition signed_messages :: "(bytes \<Rightarrow> hash) \<Rightarrow> bytes \<Rightarrow> string \<Rightarrow> bytes set" where
  "signed_messages keccak preimage source =
     {preimage, string_bytes source, agent_struct keccak (keccak preimage) source, agent_message keccak (keccak preimage) source}"

definition prefix_free :: "('a \<Rightarrow> string + bytes) \<Rightarrow> bool" where
  "prefix_free msgpack \<longleftrightarrow> (\<forall>a b x y. msgpack a = Inr x \<longrightarrow> msgpack b = Inr y \<longrightarrow> prefix x y \<longrightarrow> x = y)"

lemma AgentDigest_binds:
  assumes "AgentDigest keccak (keccak p1) s1 = Inr h" and "AgentDigest keccak (keccak p2) s2 = Inr h"
    and "inj_on keccak (signed_messages keccak p1 s1 \<union> signed_messages keccak p2 s2)"
  shows "s1 = s2 \<and> p1 = p2"
proof -
  note inj = inj_onD [OF assms(3)]
  have "keccak (agent_message keccak (keccak p1) s1) = keccak (agent_message keccak (keccak p2) s2)"
    using assms(1,2) by (auto simp: AgentDigest_def split: if_splits)
  then have "agent_message keccak (keccak p1) s1 = agent_message keccak (keccak p2) s2" by (rule inj) (simp_all add: signed_messages_def)
  then have "keccak (agent_struct keccak (keccak p1) s1) = keccak (agent_struct keccak (keccak p2) s2)"
    by (simp add: agent_message_def hash_bytes_inj)
  then have "agent_struct keccak (keccak p1) s1 = agent_struct keccak (keccak p2) s2" by (rule inj) (simp_all add: signed_messages_def)
  then have "keccak (string_bytes s1) = keccak (string_bytes s2)" "keccak p1 = keccak p2"
    by (simp_all add: agent_struct_def hash_bytes_inj)
  have "string_bytes s1 = string_bytes s2" by (rule inj [OF \<open>keccak (string_bytes s1) = keccak (string_bytes s2)\<close>]) (simp_all add: signed_messages_def)
  moreover have "p1 = p2" by (rule inj [OF \<open>keccak p1 = keccak p2\<close>]) (simp_all add: signed_messages_def)
  ultimately show ?thesis by simp
qed

text \<open>
  C25. An action signature binds everything it covers: when two signed actions have the same digest,
  msgpack values delimit themselves and Keccak-256 has no collision among the messages hashed for the
  two, then the source, the encoded action, the nonce, the vault and the expiry are the same; in
  particular an action without expiry never shares a digest with one that has an expiry.
\<close>

theorem action_digest_binds:
  assumes "connection_preimage msgpack hex_to a1 n1 v1 e1 o1 = Inr p1" and "connection_preimage msgpack hex_to a2 n2 v2 e2 o2 = Inr p2"
    and "ConnectionID keccak msgpack hex_to a1 n1 v1 e1 o1 = Inr c1" and "ConnectionID keccak msgpack hex_to a2 n2 v2 e2 o2 = Inr c2"
    and "AgentDigest keccak c1 s1 = Inr h" and "AgentDigest keccak c2 s2 = Inr h"
    and "prefix_free msgpack" and "inj_on keccak (signed_messages keccak p1 s1 \<union> signed_messages keccak p2 s2)"
    and "in_i64 n1" and "in_i64 n2" and "pred_option in_i64 e1" and "pred_option in_i64 e2"
  shows "s1 = s2 \<and> msgpack a1 = msgpack a2 \<and> n1 = n2 \<and> e1 = e2 \<and> (TrimSpace v1 = [] \<longleftrightarrow> TrimSpace v2 = []) \<and>
    (TrimSpace v1 \<noteq> [] \<longrightarrow> hex_to (TrimSpace v1) = hex_to (TrimSpace v2))"
proof -
  have "c1 = keccak p1" "c2 = keccak p2" using assms(1-4) by (simp_all add: ConnectionID_def)
  then have eq: "s1 = s2" "p1 = p2" using AgentDigest_binds [of keccak p1 s1 h p2 s2] assms(5,6,8) by auto
  obtain x1 where 1: "msgpack a1 = Inr x1" "0 \<le> n1" "e1 = None \<or> (\<exists>t. e1 = Some t \<and> 0 < t)"
    "p1 = x1 @ u64_bytes (word_of_int n1) @ (if TrimSpace v1 = [] then [0] else 1 # address_bytes (hex_to (TrimSpace v1))) @
      (case e1 of None \<Rightarrow> [] | Some t \<Rightarrow> 0 # u64_bytes (word_of_int t))"
    using assms(1) by (rule preimage_parts)
  obtain x2 where 2: "msgpack a2 = Inr x2" "0 \<le> n2" "e2 = None \<or> (\<exists>t. e2 = Some t \<and> 0 < t)"
    "p2 = x2 @ u64_bytes (word_of_int n2) @ (if TrimSpace v2 = [] then [0] else 1 # address_bytes (hex_to (TrimSpace v2))) @
      (case e2 of None \<Rightarrow> [] | Some t \<Rightarrow> 0 # u64_bytes (word_of_int t))"
    using assms(2) by (rule preimage_parts)
  have "prefix x1 x2 \<Longrightarrow> x1 = x2" "prefix x2 x1 \<Longrightarrow> x2 = x1" using assms(7) 1(1) 2(1) unfolding prefix_free_def by blast+
  note parts = preimage_inj [OF _ this, of "word_of_int n1" "TrimSpace v1" hex_to e1 "word_of_int n2" "TrimSpace v2" e2]
  have p: "x1 = x2 \<and> (word_of_int n1 :: u64) = word_of_int n2 \<and> (TrimSpace v1 = [] \<longleftrightarrow> TrimSpace v2 = []) \<and>
      (TrimSpace v1 \<noteq> [] \<longrightarrow> hex_to (TrimSpace v1) = hex_to (TrimSpace v2)) \<and>
      map_option (\<lambda>t. word_of_int t :: u64) e1 = map_option word_of_int e2"
    using 1(4) 2(4) eq(2) by (intro parts) simp
  have "n1 = n2" using p word_of_i64_inj [OF 1(2) 2(2) assms(9,10)] by simp
  moreover have "e1 = e2"
    using p 1(3) 2(3) assms(11,12) word_of_i64_inj by (cases e1; cases e2) auto
  ultimately show ?thesis using eq(1) p 1(1) 2(1) by simp
qed

subsection \<open>An instance\<close>

text \<open>
  Actions as single bytes, which delimit themselves, and as the hash a function of
  the length, which tells the four messages apart. The two calls differ in white space around the
  vault.
\<close>

definition byte_msgpack :: "8 word \<Rightarrow> string + bytes" where
  "byte_msgpack b = Inr [b]"

definition length_keccak :: "bytes \<Rightarrow> hash" where
  "length_keccak b = of_nat (length b)"

theorem action_digest_binds_witness:
  "\<exists>c h. ConnectionID length_keccak byte_msgpack (\<lambda>_. 7) 4 10 [] (Some 20) [] = Inr c \<and>
     ConnectionID length_keccak byte_msgpack (\<lambda>_. 7) 4 10 '' '' (Some 20) [Some 8] = Inr c \<and>
     AgentDigest length_keccak c SigningSourceMainnet = Inr h \<and> (TrimSpace [] = [] \<longleftrightarrow> TrimSpace '' '' = [])"
proof -
  let ?p = "[4] @ u64_bytes (word_of_int 10) @ [0] @ 0 # u64_bytes (word_of_int 20)"
  have "TrimSpace '' '' = []" by code_simp
  then have p: "connection_preimage byte_msgpack (\<lambda>_. 7) 4 10 [] (Some 20) [] = Inr ?p"
    "connection_preimage byte_msgpack (\<lambda>_. 7) 4 10 '' '' (Some 20) [Some 8] = Inr ?p"
    by (simp_all add: connection_preimage_def EncodeAction_def byte_msgpack_def action_limit_def)
  then have c: "ConnectionID length_keccak byte_msgpack (\<lambda>_. 7) 4 10 [] (Some 20) [] = Inr (length_keccak ?p)"
    "ConnectionID length_keccak byte_msgpack (\<lambda>_. 7) 4 10 '' '' (Some 20) [Some 8] = Inr (length_keccak ?p)"
    by (simp_all add: ConnectionID_def)
  obtain h where h: "AgentDigest length_keccak (length_keccak ?p) SigningSourceMainnet = Inr h" by (simp add: AgentDigest_def)
  have "prefix_free byte_msgpack" by (auto simp: prefix_free_def byte_msgpack_def)
  moreover have "inj_on length_keccak (signed_messages length_keccak ?p SigningSourceMainnet \<union> signed_messages length_keccak ?p SigningSourceMainnet)"
    by (rule inj_onI)
      (auto simp: signed_messages_def length_keccak_def agent_struct_def agent_message_def string_bytes_def SigningSourceMainnet_def)
  moreover have "in_i64 10" "pred_option in_i64 (Some 20)" by (simp_all add: in_i64_def)
  ultimately have "TrimSpace [] = [] \<longleftrightarrow> TrimSpace '' '' = []"
    using action_digest_binds [OF p c h h] by blast
  with c h show ?thesis by blast
qed

end
