(* ===== verification/Go_Time.thy ===== *)
theory Go_Time
  imports Go_Text
begin

text \<open>
  The calendar of Go's package \<open>time\<close>, as far as the providers use it: \<open>Time.Year\<close>, \<open>Month\<close> and
  \<open>Day\<close> in UTC, \<open>time.Date\<close>, \<open>AddDate\<close>, and the layouts \<open>2006-01-02\<close> (\<open>time.DateOnly\<close>) and
  \<open>2006-01\<close>. A time is a number of nanoseconds since Go's zero time, 0001-01-01 00:00 UTC, so a
  day number counts days from there in the proleptic Gregorian calendar.
\<close>

section \<open>Years, months and days\<close>

definition day_ns :: duration where
  "day_ns = 86400 * second"

definition isLeap :: "int \<Rightarrow> bool" where
  "isLeap y \<longleftrightarrow> y mod 4 = 0 \<and> (y mod 100 \<noteq> 0 \<or> y mod 400 = 0)"

definition daysBeforeYear :: "int \<Rightarrow> int" where
  "daysBeforeYear y = 365 * (y - 1) + (y - 1) div 4 - (y - 1) div 100 + (y - 1) div 400"

definition month_lengths :: "bool \<Rightarrow> int list" where
  "month_lengths leap = [31, if leap then 29 else 28, 31, 30, 31, 30, 31, 31, 30, 31, 30, 31]"

definition daysIn :: "int \<Rightarrow> int \<Rightarrow> int" where
  "daysIn m y = month_lengths (isLeap y) ! nat (m - 1)"

definition days_before_month :: "bool \<Rightarrow> int \<Rightarrow> int" where
  "days_before_month leap m = sum_list (take (nat (m - 1)) (month_lengths leap))"

text \<open>
  The year of a day number: the guess by the mean length of a year, 146097 days in 400 years, is
  off by at most one.
\<close>

definition year_of_day :: "int \<Rightarrow> int" where
  "year_of_day n =
     (let m = 400 * n div 146097
      in if daysBeforeYear (m + 2) \<le> n then m + 2 else if daysBeforeYear (m + 1) \<le> n then m + 1 else m)"

fun month_day :: "int \<Rightarrow> int list \<Rightarrow> int \<Rightarrow> int \<times> int" where
  "month_day m [] n = (m, n + 1)"
| "month_day m (l # ls) n = (if n < l then (m, n + 1) else month_day (m + 1) ls (n - l))"

text \<open>\<open>Time.Date()\<close>: year, month and day of the UTC date.\<close>

definition civil :: "time \<Rightarrow> int \<times> int \<times> int" where
  "civil t =
     (let n = t div day_ns;
          y = year_of_day n;
          (m, d) = month_day 1 (month_lengths (isLeap y)) (n - daysBeforeYear y)
      in (y, m, d))"

definition Year :: "time \<Rightarrow> int" where "Year t = fst (civil t)"
definition Month :: "time \<Rightarrow> int" where "Month t = fst (snd (civil t))"
definition Day :: "time \<Rightarrow> int" where "Day t = snd (snd (civil t))"

text \<open>\<open>time.Date(y, m, d, 0, 0, 0, 0, time.UTC)\<close>, which normalizes months and days out of range.\<close>

definition Date :: "int \<Rightarrow> int \<Rightarrow> int \<Rightarrow> time" where
  "Date y m d =
     (let y' = y + (m - 1) div 12; m' = (m - 1) mod 12 + 1
      in (daysBeforeYear y' + days_before_month (isLeap y') m' + d - 1) * day_ns)"

text \<open>\<open>Time.AddDate\<close> of a time at midnight.\<close>

definition AddDate :: "time \<Rightarrow> int \<Rightarrow> int \<Rightarrow> int \<Rightarrow> time" where
  "AddDate t years months days = Date (Year t + years) (Month t + months) (Day t + days)"

section \<open>Layouts\<close>

text \<open>\<open>appendInt(x, width)\<close>: zero-padded digits behind a possible sign.\<close>

definition append_int :: "int \<Rightarrow> nat \<Rightarrow> string" where
  "append_int x width =
     (let ds = dec_nat (nat \<bar>x\<bar>)
      in (if x < 0 then ''-'' else []) @ replicate (width - length ds) (CHR ''0'') @ ds)"

definition FormatMonth :: "time \<Rightarrow> string" where
  "FormatMonth t = append_int (Year t) 4 @ ''-'' @ append_int (Month t) 2"

definition FormatDate :: "time \<Rightarrow> string" where
  "FormatDate t = append_int (Year t) 4 @ ''-'' @ append_int (Month t) 2 @ ''-'' @ append_int (Day t) 2"

text \<open>\<open>time.Parse(time.DateOnly, s)\<close>: four, two and two digits, and a date that exists.\<close>

definition ParseDate :: "string \<Rightarrow> time option" where
  "ParseDate s =
     (let ys = take 4 s; ms = take 2 (drop 5 s); ds = take 2 (drop 8 s);
          y = int (digits_val ys); m = int (digits_val ms); d = int (digits_val ds)
      in if length s = 10 \<and> s ! 4 = CHR ''-'' \<and> s ! 7 = CHR ''-'' \<and> list_all is_digit (ys @ ms @ ds) \<and>
            1 \<le> m \<and> m \<le> 12 \<and> 1 \<le> d \<and> d \<le> daysIn m y
         then Some (Date y m d) else None)"

text \<open>Midnight of the UTC date, as the providers compute it.\<close>

definition midnight :: "time \<Rightarrow> bool" where
  "midnight t \<longleftrightarrow> t mod day_ns = 0"

section \<open>The calendar is a bijection\<close>

lemma day_ns_pos [simp]: "0 < day_ns" "day_ns \<noteq> 0"
  by (simp_all add: day_ns_def second_def)

lemma div_pred:
  assumes "0 < (k::int)"
  shows "y div k - (y - 1) div k = of_bool (y mod k = 0)"
proof -
  define q r where "q = (y - 1) div k" and "r = (y - 1) mod k"
  have y: "y = q * k + (r + 1)" and r: "0 \<le> r" "r < k"
    using assms div_mult_mod_eq [of "y - 1" k] by (simp_all add: q_def r_def)
  show ?thesis
  proof (cases "r + 1 = k")
    case True
    then have "y = (q + 1) * k" using y by (simp add: algebra_simps)
    then have "y div k = q + 1" "y mod k = 0" using assms by simp_all
    then show ?thesis by (simp add: q_def)
  next
    case False
    then have "(r + 1) div k = 0" "(r + 1) mod k = r + 1" using r by simp_all
    then have "y div k = q" "y mod k = r + 1" using assms by (simp_all add: y)
    then show ?thesis using r by (simp add: q_def)
  qed
qed

lemma daysBeforeYear_Suc: "daysBeforeYear (y + 1) = daysBeforeYear y + (if isLeap y then 366 else 365)"
proof -
  define a b c where abc: "a \<longleftrightarrow> y mod 4 = 0" "b \<longleftrightarrow> y mod 100 = 0" "c \<longleftrightarrow> y mod 400 = 0"
  have imp: "b \<Longrightarrow> a" "c \<Longrightarrow> b"
    using dvd_trans [of 4 100 y] dvd_trans [of 100 400 y] by (simp_all add: abc mod_eq_0_iff_dvd)
  have step: "daysBeforeYear (y + 1) = daysBeforeYear y + 365 + (y div 4 - (y - 1) div 4) -
      (y div 100 - (y - 1) div 100) + (y div 400 - (y - 1) div 400)"
    by (simp add: daysBeforeYear_def)
  have "y div 4 - (y - 1) div 4 = of_bool a" "y div 100 - (y - 1) div 100 = of_bool b"
      "y div 400 - (y - 1) div 400 = of_bool c"
    unfolding abc by (rule div_pred, simp)+
  then have "daysBeforeYear (y + 1) = daysBeforeYear y + 365 + of_bool a - of_bool b + of_bool c"
    by (simp only: step)
  moreover have "isLeap y \<longleftrightarrow> a \<and> (\<not> b \<or> c)" by (simp only: isLeap_def abc)
  ultimately show ?thesis using imp by (cases a; cases b; cases c) simp_all
qed

lemma daysBeforeYear_bounds:
  "400 * daysBeforeYear (m + 1) \<le> 146097 * m + 396" "146097 * m - 699 \<le> 400 * daysBeforeYear (m + 1)"
proof -
  have b: "k * (m div k) \<le> m \<and> m < k * (m div k) + k" if "0 < k" for k :: int
    using that mult_div_mod_eq [of k m] pos_mod_sign [of k m] pos_mod_bound [of k m] by linarith
  show "400 * daysBeforeYear (m + 1) \<le> 146097 * m + 396" "146097 * m - 699 \<le> 400 * daysBeforeYear (m + 1)"
    using b [of 4] b [of 100] b [of 400] by (simp_all add: daysBeforeYear_def)
qed

lemma year_of_day: "daysBeforeYear (year_of_day n) \<le> n" "n < daysBeforeYear (year_of_day n + 1)"
proof -
  define m where "m = 400 * n div 146097"
  have m: "146097 * m \<le> 400 * n" "400 * n < 146097 * m + 146097"
    using div_mult_mod_eq [of "400 * n" 146097] pos_mod_sign [of 146097 "400 * n"]
      pos_mod_bound [of 146097 "400 * n"] by (simp_all add: m_def)
  have "daysBeforeYear m \<le> n" "n < daysBeforeYear (m + 3)"
    using m daysBeforeYear_bounds(1) [of "m - 1"] daysBeforeYear_bounds(2) [of "m + 2"]
    by (simp_all add: add.commute)
  then show "daysBeforeYear (year_of_day n) \<le> n" "n < daysBeforeYear (year_of_day n + 1)"
    by (auto simp: year_of_day_def Let_def m_def [symmetric] add.commute)
qed

lemma daysBeforeYear_mono: "y \<le> z \<Longrightarrow> daysBeforeYear y \<le> daysBeforeYear z"
proof (induction z rule: int_ge_induct)
  case (step z)
  then show ?case by (simp add: daysBeforeYear_Suc)
qed simp

lemma year_of_day_unique:
  assumes "daysBeforeYear y \<le> n" and "n < daysBeforeYear (y + 1)"
  shows "year_of_day n = y"
proof (rule ccontr)
  assume "year_of_day n \<noteq> y"
  then consider "year_of_day n + 1 \<le> y" | "y + 1 \<le> year_of_day n" by linarith
  then show False
    using daysBeforeYear_mono [of "year_of_day n + 1" y] daysBeforeYear_mono [of "y + 1" "year_of_day n"]
      year_of_day [of n] assms by cases simp_all
qed

lemma month_day_take:
  assumes "k < length ls" and "1 \<le> d" and "d \<le> ls ! k" and "\<forall>l \<in> set ls. 0 < l"
  shows "month_day m ls (sum_list (take k ls) + d - 1) = (m + int k, d)"
  using assms
proof (induction k arbitrary: m ls)
  case 0
  then show ?case by (cases ls) auto
next
  case (Suc k)
  then obtain l ls' where ls: "ls = l # ls'" by (cases ls) auto
  have "0 \<le> sum_list (take k ls')"
    using Suc.prems by (intro sum_list_nonneg) (auto simp: ls dest!: in_set_takeD)
  moreover have "month_day (m + 1) ls' (sum_list (take k ls') + d - 1) = (m + 1 + int k, d)"
    using Suc.prems by (intro Suc.IH) (simp_all add: ls)
  ultimately show ?case using Suc.prems by (simp add: ls algebra_simps)
qed

lemma month_day_covers:
  fixes ls :: "int list"
  assumes "0 \<le> n" and "n < sum_list ls" and "\<forall>l \<in> set ls. 0 < l"
  shows "\<exists>k < length ls. \<exists>d. 1 \<le> d \<and> d \<le> ls ! k \<and> n = sum_list (take k ls) + d - 1"
  using assms
proof (induction ls arbitrary: n)
  case (Cons l ls)
  show ?case
  proof (cases "n < l")
    case True
    then have "1 \<le> n + 1 \<and> n + 1 \<le> (l # ls) ! 0 \<and> n = sum_list (take 0 (l # ls)) + (n + 1) - 1"
      using Cons.prems by simp
    then show ?thesis by blast
  next
    case False
    with Cons.prems have "0 \<le> n - l" "n - l < sum_list ls" "\<forall>x \<in> set ls. 0 < x" by simp_all
    from Cons.IH [OF this] obtain k d where
      "k < length ls" "1 \<le> d" "d \<le> ls ! k" "n - l = sum_list (take k ls) + d - 1" by blast
    then show ?thesis by (intro exI [of _ "Suc k"]) auto
  qed
qed simp

lemma month_lengths_facts [simp]:
  "length (month_lengths b) = 12" "\<forall>l \<in> set (month_lengths b). 0 < l"
  "sum_list (month_lengths b) = (if b then 366 else 365)"
  by (simp_all add: month_lengths_def)

definition valid_date :: "int \<Rightarrow> int \<Rightarrow> int \<Rightarrow> bool" where
  "valid_date y m d \<longleftrightarrow> 1 \<le> m \<and> m \<le> 12 \<and> 1 \<le> d \<and> d \<le> daysIn m y"

lemma Date_valid:
  assumes "valid_date y m d"
  shows "Date y m d = (daysBeforeYear y + sum_list (take (nat (m - 1)) (month_lengths (isLeap y))) + d - 1) * day_ns"
proof -
  have "(m - 1) div 12 = 0" "(m - 1) mod 12 = m - 1" using assms by (simp_all add: valid_date_def)
  then show ?thesis by (simp add: Date_def days_before_month_def)
qed

lemma sum_take_le:
  assumes "\<forall>l \<in> set ls. 0 < (l::int)" and "k < length ls"
  shows "0 \<le> sum_list (take k ls)" "sum_list (take k ls) + ls ! k \<le> sum_list ls"
proof -
  have nn: "0 \<le> sum_list xs" if "set xs \<subseteq> set ls" for xs
    using that assms(1) by (intro sum_list_nonneg) force
  then show "0 \<le> sum_list (take k ls)" by (simp add: set_take_subset)
  have "ls = take k ls @ ls ! k # drop (Suc k) ls" using assms(2) by (rule id_take_nth_drop)
  then have "sum_list ls = sum_list (take k ls) + ls ! k + sum_list (drop (Suc k) ls)"
    by (metis sum_list.append sum_list.Cons add.assoc)
  then show "sum_list (take k ls) + ls ! k \<le> sum_list ls" using nn [OF set_drop_subset] by simp
qed

lemma civil_Date:
  assumes "valid_date y m d"
  shows "civil (Date y m d) = (y, m, d)"
proof -
  define k where "k = nat (m - 1)"
  define ls where "ls = month_lengths (isLeap y)"
  define n where "n = daysBeforeYear y + sum_list (take k ls) + d - 1"
  have k: "k < length ls" "1 \<le> d" "d \<le> ls ! k" "m = 1 + int k"
    using assms by (simp_all add: valid_date_def daysIn_def k_def ls_def nat_less_iff)
  have pos: "\<forall>l \<in> set ls. 0 < l" by (simp add: ls_def)
  have "0 \<le> sum_list (take k ls)" "sum_list (take k ls) + ls ! k \<le> sum_list ls"
    using sum_take_le [OF pos k(1)] by simp_all
  then have "year_of_day n = y"
    using k by (intro year_of_day_unique) (simp_all add: n_def daysBeforeYear_Suc ls_def)
  moreover have "month_day 1 ls (n - daysBeforeYear y) = (m, d)"
    using month_day_take [OF k(1-3) pos, of 1] by (simp add: n_def k(4) algebra_simps)
  moreover have "Date y m d div day_ns = n"
    using Date_valid [OF assms] by (simp add: n_def k_def ls_def)
  ultimately show ?thesis by (simp add: civil_def Let_def ls_def)
qed

text \<open>Every time lies in the day of the date that \<open>civil\<close> reports.\<close>

lemma civil_day: "\<exists>y m d. civil t = (y, m, d) \<and> valid_date y m d \<and> Date y m d = t - t mod day_ns"
proof -
  define n where "n = t div day_ns"
  define y where "y = year_of_day n"
  define ls where "ls = month_lengths (isLeap y)"
  have "0 \<le> n - daysBeforeYear y" "n - daysBeforeYear y < sum_list ls"
    using year_of_day [of n] by (simp_all add: y_def [symmetric] ls_def daysBeforeYear_Suc)
  then obtain k d where k: "k < length ls" "1 \<le> d" "d \<le> ls ! k" "n - daysBeforeYear y = sum_list (take k ls) + d - 1"
    using month_day_covers [of "n - daysBeforeYear y" ls] by (auto simp: ls_def)
  define m where "m = 1 + int k"
  have v: "valid_date y m d" using k(1-3) by (simp add: valid_date_def m_def daysIn_def ls_def)
  have "month_day 1 ls (n - daysBeforeYear y) = (m, d)"
    using month_day_take [OF k(1-3), of 1] k(4) by (simp add: m_def ls_def)
  then have "civil t = (y, m, d)" by (simp add: civil_def Let_def n_def [symmetric] y_def [symmetric] ls_def)
  moreover have "daysBeforeYear y + sum_list (take k ls) + d - 1 = n" using k(4) by simp
  then have "Date y m d = n * day_ns"
    using Date_valid [OF v] by (simp add: m_def ls_def)
  then have "Date y m d = t - t mod day_ns" by (simp add: n_def minus_mod_eq_div_mult)
  ultimately show ?thesis using v by blast
qed

lemma Date_civil: "Date (Year t) (Month t) (Day t) = t - t mod day_ns"
  using civil_day [of t] by (auto simp: Year_def Month_def Day_def)

lemma valid_civil: "valid_date (Year t) (Month t) (Day t)"
  using civil_day [of t] by (auto simp: Year_def Month_def Day_def)

lemma midnight_Date [simp]: "midnight (Date y m d)"
  by (simp add: midnight_def Date_def Let_def)

section \<open>Texts of dates\<close>

lemma append_int_pos:
  assumes "0 \<le> x" and "x < 10 ^ w" and "0 < w"
  shows "length (append_int x w) = w" "\<forall>c \<in> set (append_int x w). is_digit c"
    "digits_val (append_int x w) = nat x"
proof -
  have "nat x < 10 ^ w" using assms by (simp add: nat_less_iff)
  then have "length (dec_nat (nat x)) \<le> w" using assms(3) by (rule length_dec_nat)
  then show "length (append_int x w) = w" using assms(1) by (simp add: append_int_def Let_def)
  show "\<forall>c \<in> set (append_int x w). is_digit c"
    using assms(1) by (auto simp: append_int_def Let_def dec_nat_digits)
  show "digits_val (append_int x w) = nat x"
    using assms(1) by (simp add: append_int_def Let_def digits_val_pad)
qed

lemma append_int_chars: "c \<in> set (append_int x w) \<Longrightarrow> is_digit c \<or> c = CHR ''-''"
  by (auto simp: append_int_def Let_def dec_nat_digits split: if_splits)

lemma append_int_inj: "append_int x w = append_int y w \<Longrightarrow> x = y"
proof -
  assume eq: "append_int x w = append_int y w"
  have pos: "hd (append_int z w) \<noteq> CHR ''-''" "digits_val (append_int z w) = nat z" if "0 \<le> z" for z
  proof -
    have "\<forall>c \<in> set (append_int z w). is_digit c" "append_int z w \<noteq> []"
      using that by (auto simp: append_int_def Let_def dec_nat_digits)
    then show "hd (append_int z w) \<noteq> CHR ''-''" by (metis hd_in_set is_digit_no_sign)
    show "digits_val (append_int z w) = nat z"
      using that by (simp add: append_int_def Let_def digits_val_pad)
  qed
  have neg: "hd (append_int z w) = CHR ''-''" "digits_val (tl (append_int z w)) = nat (- z)" if "z < 0" for z
    using that by (simp_all add: append_int_def Let_def digits_val_pad)
  show ?thesis
    using pos [of x] pos [of y] neg [of x] neg [of y] eq by (cases "x < 0"; cases "y < 0") auto
qed

lemma valid_date_bounds: "valid_date y m d \<Longrightarrow> 0 \<le> m \<and> m < 100 \<and> 0 \<le> d \<and> d < 100"
proof -
  assume v: "valid_date y m d"
  have "month_lengths (isLeap y) ! k \<le> 31" if "k < 12" for k
    using that by (auto simp: month_lengths_def nth_Cons split: nat.splits)
  moreover have "nat (m - 1) < 12" using v by (simp add: valid_date_def nat_less_iff)
  ultimately have "daysIn m y \<le> 31" by (simp add: daysIn_def)
  with v show ?thesis by (simp add: valid_date_def)
qed

lemma FormatDate_inj: "FormatDate s = FormatDate t \<Longrightarrow> s - s mod day_ns = t - t mod day_ns"
proof -
  assume eq: "FormatDate s = FormatDate t"
  have len: "length (append_int (Month u) 2) = 2" "length (append_int (Day u) 2) = 2" for u
    using valid_date_bounds [OF valid_civil, of u] by (simp_all add: append_int_pos)
  have "append_int (Year s) 4 = append_int (Year t) 4" "append_int (Month s) 2 = append_int (Month t) 2"
      "append_int (Day s) 2 = append_int (Day t) 2"
    using eq by (simp_all add: FormatDate_def append_eq_append_conv len)
  then have "Year s = Year t" "Month s = Month t" "Day s = Day t" using append_int_inj by blast+
  then show ?thesis using Date_civil [of s] Date_civil [of t] by simp
qed

lemma FormatDate_chars: "c \<in> set (FormatDate t) \<Longrightarrow> is_digit c \<or> c = CHR ''-''"
  using append_int_chars by (auto simp: FormatDate_def)

lemma ParseDate_midnight: "ParseDate s = Some t \<Longrightarrow> midnight t"
  by (auto simp: ParseDate_def Let_def split: if_splits)

text \<open>Parsing what was formatted gives midnight of the day, for the years that have four digits.\<close>

lemma ParseDate_FormatDate:
  assumes "0 \<le> Year t" and "Year t < 10000"
  shows "ParseDate (FormatDate t) = Some (t - t mod day_ns)"
proof -
  define ys ms ds where s: "ys = append_int (Year t) 4" "ms = append_int (Month t) 2" "ds = append_int (Day t) 2"
  have y: "length ys = 4" "\<forall>c \<in> set ys. is_digit c" "digits_val ys = nat (Year t)"
    using append_int_pos [of "Year t" 4] assms by (simp_all add: s)
  have b: "0 \<le> Month t" "Month t < 10 ^ 2" "0 \<le> Day t" "Day t < 10 ^ 2"
    using valid_date_bounds [OF valid_civil, of t] by simp_all
  have m: "length ms = 2" "\<forall>c \<in> set ms. is_digit c" "digits_val ms = nat (Month t)"
    and d: "length ds = 2" "\<forall>c \<in> set ds. is_digit c" "digits_val ds = nat (Day t)"
    using append_int_pos [OF b(1,2)] append_int_pos [OF b(3,4)] by (simp_all add: s)
  have f: "FormatDate t = ys @ CHR ''-'' # ms @ CHR ''-'' # ds" by (simp add: FormatDate_def s)
  have parts: "take 4 (FormatDate t) = ys" "take 2 (drop 5 (FormatDate t)) = ms" "take 2 (drop 8 (FormatDate t)) = ds"
      "FormatDate t ! 4 = CHR ''-''" "FormatDate t ! 7 = CHR ''-''" "length (FormatDate t) = 10"
    using y(1) m(1) d(1) by (simp_all add: f nth_append)
  show ?thesis
    using y m d assms b valid_civil [of t] Date_civil [of t]
    by (auto simp: ParseDate_def parts Let_def list_all_iff valid_date_def)
qed

end
