(* ===== verification/Frankfurter.thy ===== *)
theory Frankfurter
  imports Go_Time Http_Client Slices "HOL-Library.AList"
begin

text \<open>
  \<open>providers/frankfurter/frankfurter.go\<close>: the exchange-rate client, with its cache of daily rates, the
  cache of failed months, the fallback to an earlier rate and the decoding of a month's rows.

  A Go map is an association list with distinct keys. Where the code ranges over a map, the order
  of the visit is an argument \<open>ord\<close>, which reorders the list of keys. A float64 is the word of its
  IEEE 754 bits. \<open>encoding/json\<close>, the HTTP exchange, the rate limiter, the clock, the caller's
  context and \<open>unicode.ToUpper\<close> beyond ASCII are the fields of the environment \<open>fx_env\<close>; the calls
  that ask it are numbered by a tick.
\<close>

section \<open>Data\<close>

type_synonym f64 = "64 word"

definition f64_exponent :: "f64 \<Rightarrow> nat" where
  "f64_exponent v = unat v div 2 ^ 52 mod 2 ^ 11"

definition f64_fraction :: "f64 \<Rightarrow> nat" where
  "f64_fraction v = unat v mod 2 ^ 52"

definition f64_negative :: "f64 \<Rightarrow> bool" where
  "f64_negative v \<longleftrightarrow> 2 ^ 63 \<le> unat v"

definition f64_zero :: "f64 \<Rightarrow> bool" where
  "f64_zero v \<longleftrightarrow> f64_exponent v = 0 \<and> f64_fraction v = 0"

definition IsNaN :: "f64 \<Rightarrow> bool" where
  "IsNaN v \<longleftrightarrow> f64_exponent v = 2047 \<and> f64_fraction v \<noteq> 0"

definition IsInf :: "f64 \<Rightarrow> bool" where
  "IsInf v \<longleftrightarrow> f64_exponent v = 2047 \<and> f64_fraction v = 0"

text \<open>The comparisons with zero; both are false of a NaN.\<close>

definition f64_gt_0 :: "f64 \<Rightarrow> bool" where
  "f64_gt_0 v \<longleftrightarrow> \<not> IsNaN v \<and> \<not> f64_zero v \<and> \<not> f64_negative v"

definition f64_le_0 :: "f64 \<Rightarrow> bool" where
  "f64_le_0 v \<longleftrightarrow> \<not> IsNaN v \<and> (f64_zero v \<or> f64_negative v)"

definition f64_one :: f64 where
  "f64_one = 0x3FF0000000000000"

definition positiveFinite :: "f64 \<Rightarrow> bool" where
  "positiveFinite v \<longleftrightarrow> f64_gt_0 v \<and> \<not> IsNaN v \<and> \<not> IsInf v"

record RateRequest =
  rrBase :: string
  rrQuote :: string
  rrEffectiveAt :: time

record Rate =
  rDate :: time
  rBase :: string
  rQuote :: string
  rValue :: f64
  rStale :: bool

record rateRow =
  rowDate :: string
  rowBase :: string
  rowQuote :: string
  rowRate :: f64

text \<open>
  The errors: \<open>ErrRateUnavailable\<close> with a message, or with a message and a wrapped cause, the type
  \<open>HTTPError\<close>, an error of the HTTP layer behind a prefix, a message, and the context's error.
\<close>

datatype fx_error =
    Unavailable string
  | UnavailableBecause string fx_error
  | HTTPError int string
  | Wrapped string http_error
  | Plain string
  | CtxErr http_error

definition HTTPError_Error :: "int \<Rightarrow> string \<Rightarrow> string" where
  "HTTPError_Error code text =
     (if text = [] then ''frankfurter status '' @ dec_int code
      else ''frankfurter status '' @ dec_int code @ '': '' @ text)"

record cachedFailure =
  cfErr :: fx_error
  cfRetryAfter :: time

type_synonym daily_rates = "(string \<times> Rate) list"
type_synonym rates_by_date = "(string \<times> daily_rates) list"

datatype fx_http_client = Injected nat | Built Client

record client =
  baseURL :: string
  userAgent :: string
  quotes :: "string list"
  httpClient :: "fx_http_client option"
  limiter :: "f64 option"
  transportWrapper :: "(round_tripper \<Rightarrow> round_tripper option) option"
  timeout :: "duration option"
  fxMaxRetries :: "u64 option"
  fxRetryDelay :: "duration option"
  fxNow :: "(nat \<Rightarrow> time) option"
  maxStaleness :: duration
  failureTTL :: duration
  maxCacheDays :: int
  ratesByDate :: rates_by_date
  cacheStoredAt :: "(string \<times> u64) list"
  cacheSequence :: u64
  failuresByMonth :: "(string \<times> cachedFailure) list"

text \<open>
  The environment. \<open>fxGate\<close> is the outcome of the \<open>select\<close> on the fetch gate: the context's error
  when the context was done first. \<open>fxSend\<close> is the client's \<open>Do\<close>.
\<close>

record 'raw fx_env =
  fxUpper :: "string \<Rightarrow> string"
  fxGate :: "nat \<Rightarrow> http_error option"
  fxCtxErr :: "nat \<Rightarrow> http_error option"
  fxLimiterWait :: "nat \<Rightarrow> http_error option"
  fxInvalid :: "string \<Rightarrow> string \<Rightarrow> http_error option"
  fxSend :: "nat \<Rightarrow> http_request \<Rightarrow> http_error + http_response"
  fxRows :: "string \<Rightarrow> http_error + 'raw list"
  fxRow :: "'raw \<Rightarrow> rateRow option"
  fxOrder :: "nat \<Rightarrow> string list \<Rightarrow> string list"
  fxEncode :: "(string \<times> string) list \<Rightarrow> string"

record fx_world =
  fxClient :: client
  fxTick :: nat

section \<open>Currencies, dates and keys\<close>

text \<open>\<open>strings.ToUpper\<close>: ASCII text byte by byte, other text by the Unicode tables.\<close>

definition ToUpper :: "(string \<Rightarrow> string) \<Rightarrow> string \<Rightarrow> string" where
  "ToUpper up s = (if list_all (\<lambda>c. (of_char c :: nat) < 128) s then map upper_ascii s else up s)"

definition normalizeCurrency :: "(string \<Rightarrow> string) \<Rightarrow> string \<Rightarrow> string" where
  "normalizeCurrency up value = ToUpper up (TrimSpace value)"

definition dateUTC :: "time \<Rightarrow> time" where
  "dateUTC value = Date (Year value) (Month value) (Day value)"

definition cacheDateKey :: "string \<Rightarrow> time \<Rightarrow> string" where
  "cacheDateKey base date = base @ ''|'' @ FormatDate date"

definition cacheMonthKey :: "string \<Rightarrow> time \<Rightarrow> string" where
  "cacheMonthKey base date = base @ ''|'' @ FormatMonth date"

definition parseCacheDateKey :: "string \<Rightarrow> string \<times> time \<times> bool" where
  "parseCacheDateKey key =
     (case Cut key (CHR ''|'') of
        (base, dateValue, found) \<Rightarrow>
          if \<not> found then ([], 0, False)
          else case ParseDate dateValue of None \<Rightarrow> ([], 0, False) | Some date \<Rightarrow> (base, date, True))"

definition effective_date :: "time \<Rightarrow> time \<Rightarrow> time" where
  "effective_date now effectiveAt =
     (let today = dateUTC now
      in if effectiveAt = 0 then today
         else let effectiveDate = dateUTC effectiveAt
              in if today < effectiveDate then today else effectiveDate)"

section \<open>Options\<close>

definition WithBaseURL :: "string \<Rightarrow> client \<Rightarrow> client" where
  "WithBaseURL u c =
     (let u = TrimRight (TrimSpace u) (CHR ''/'') in if u \<noteq> [] then c\<lparr>baseURL := u\<rparr> else c)"

definition WithHTTPClient :: "nat option \<Rightarrow> client \<Rightarrow> client" where
  "WithHTTPClient h c = (case h of None \<Rightarrow> c | Some i \<Rightarrow> c\<lparr>httpClient := Some (Injected i)\<rparr>)"

definition WithRateLimit :: "f64 \<Rightarrow> client \<Rightarrow> client" where
  "WithRateLimit qps c = (if f64_le_0 qps then c\<lparr>limiter := None\<rparr> else c\<lparr>limiter := Some qps\<rparr>)"

definition WithTimeout :: "duration \<Rightarrow> client \<Rightarrow> client" where
  "WithTimeout d c = c\<lparr>timeout := Some d\<rparr>"

definition WithRetry :: "u64 \<Rightarrow> duration \<Rightarrow> client \<Rightarrow> client" where
  "WithRetry n d c = c\<lparr>fxMaxRetries := Some n, fxRetryDelay := Some d\<rparr>"

definition WithTransportWrapper :: "(round_tripper \<Rightarrow> round_tripper option) option \<Rightarrow> client \<Rightarrow> client" where
  "WithTransportWrapper wrapper c = c\<lparr>transportWrapper := wrapper\<rparr>"

definition WithUserAgent :: "string \<Rightarrow> client \<Rightarrow> client" where
  "WithUserAgent ua c = (let ua = TrimSpace ua in if ua \<noteq> [] then c\<lparr>userAgent := ua\<rparr> else c)"

definition WithQuotes :: "(string \<Rightarrow> string) \<Rightarrow> string list \<Rightarrow> client \<Rightarrow> client" where
  "WithQuotes up qs c = c\<lparr>quotes := Unique (filter (\<lambda>q. q \<noteq> []) (map (normalizeCurrency up) qs))\<rparr>"

definition WithMaxStaleness :: "duration \<Rightarrow> client \<Rightarrow> client" where
  "WithMaxStaleness d c = c\<lparr>maxStaleness := d\<rparr>"

definition WithFailureTTL :: "duration \<Rightarrow> client \<Rightarrow> client" where
  "WithFailureTTL d c = c\<lparr>failureTTL := d\<rparr>"

definition withClock :: "(nat \<Rightarrow> time) option \<Rightarrow> client \<Rightarrow> client" where
  "withClock clock c = c\<lparr>fxNow := clock\<rparr>"

definition defaultMaxStaleness :: duration where "defaultMaxStaleness = 72 * 3600 * second"
definition defaultFailureTTL :: duration where "defaultFailureTTL = 5 * 60 * second"
definition defaultMaxCachedDays :: int where "defaultMaxCachedDays = 450"

text \<open>\<open>time.Now\<close> and the construction of a transport are parameters; a nil option is skipped.\<close>

definition NewClient :: "(nat \<Rightarrow> time) \<Rightarrow> (transport_config \<Rightarrow> round_tripper) \<Rightarrow> (client \<Rightarrow> client) option list \<Rightarrow> client" where
  "NewClient time_now newTransport opts =
     (let c = \<lparr>baseURL = ''https://api.frankfurter.dev'', userAgent = ''superform-go-utils/frankfurter'',
            quotes = [], httpClient = None, limiter = Some f64_one, transportWrapper = None, timeout = None,
            fxMaxRetries = None, fxRetryDelay = None, fxNow = Some time_now, maxStaleness = defaultMaxStaleness,
            failureTTL = defaultFailureTTL, maxCacheDays = defaultMaxCachedDays, ratesByDate = [],
            cacheStoredAt = [], cacheSequence = 0, failuresByMonth = []\<rparr>;
          c = fold (\<lambda>opt c. case opt of None \<Rightarrow> c | Some f \<Rightarrow> f c) opts c;
          c = (if fxNow c = None then c\<lparr>fxNow := Some time_now\<rparr> else c);
          c = (if maxStaleness c < 0 then c\<lparr>maxStaleness := 0\<rparr> else c);
          c = (if failureTTL c < 0 then c\<lparr>failureTTL := 0\<rparr> else c)
      in if httpClient c = None then
           let builder = SetRetry (case fxMaxRetries c of None \<Rightarrow> 2 | Some n \<Rightarrow> n)
                  (case fxRetryDelay c of None \<Rightarrow> 500 * 1000000 | Some d \<Rightarrow> d)
                  (SetTimeout (case timeout c of None \<Rightarrow> 15 * second | Some d \<Rightarrow> d) NewClientBuilder);
               builder = (if transportWrapper c \<noteq> None then SetTransportWrapper (transportWrapper c) builder else builder)
           in c\<lparr>httpClient := Some (Built (BuildClient newTransport builder))\<rparr>
         else c)"

section \<open>The cache\<close>

text \<open>The entries of a map in the order of a visit.\<close>

definition reorder :: "(string list \<Rightarrow> string list) \<Rightarrow> (string \<times> 'v) list \<Rightarrow> (string \<times> 'v) list" where
  "reorder ord m = map (\<lambda>k. (k, the (map_of m k))) (ord (map fst m))"

definition daily :: "rates_by_date \<Rightarrow> string \<Rightarrow> daily_rates" where
  "daily m key = (case map_of m key of None \<Rightarrow> [] | Some d \<Rightarrow> d)"

definition cachedRate :: "client \<Rightarrow> string \<Rightarrow> time \<Rightarrow> string \<Rightarrow> Rate option" where
  "cachedRate c base effectiveDate quote = map_of (daily (ratesByDate c) (cacheDateKey base effectiveDate)) quote"

definition zero_rate :: Rate where
  "zero_rate = \<lparr>rDate = 0, rBase = [], rQuote = [], rValue = 0, rStale = False\<rparr>"

fun stale_loop :: "client \<Rightarrow> string \<Rightarrow> time \<Rightarrow> string \<Rightarrow> rates_by_date \<Rightarrow> Rate \<Rightarrow> Rate" where
  "stale_loop c base effectiveDate quote [] selected = selected"
| "stale_loop c base effectiveDate quote ((key, dailyRates) # es) selected =
     stale_loop c base effectiveDate quote es
       (case parseCacheDateKey key of
          (keyBase, _, ok) \<Rightarrow>
            if \<not> ok \<or> keyBase \<noteq> base then selected
            else case map_of dailyRates quote of
                None \<Rightarrow> selected
              | Some candidate \<Rightarrow>
                  if \<not> rDate candidate < effectiveDate \<or> time_sub effectiveDate (rDate candidate) > maxStaleness c
                  then selected
                  else if rDate selected = 0 \<or> rDate selected < rDate candidate then candidate
                  else selected)"

definition cachedStaleRate :: "(string list \<Rightarrow> string list) \<Rightarrow> client \<Rightarrow> string \<Rightarrow> time \<Rightarrow> string \<Rightarrow> Rate option" where
  "cachedStaleRate ord c base effectiveDate quote =
     (if maxStaleness c \<le> 0 then None
      else let selected = stale_loop c base effectiveDate quote (reorder ord (ratesByDate c)) zero_rate
           in if rDate selected = 0 then None else Some (selected\<lparr>rStale := True\<rparr>))"

definition cached_failure :: "time \<Rightarrow> string \<Rightarrow> time \<Rightarrow> client \<Rightarrow> fx_error option \<times> client" where
  "cached_failure now base effectiveDate c =
     (if failureTTL c \<le> 0 then (None, c)
      else let key = cacheMonthKey base effectiveDate
           in case map_of (failuresByMonth c) key of
                None \<Rightarrow> (None, c)
              | Some failure \<Rightarrow>
                  if \<not> now < cfRetryAfter failure
                  then (None, c\<lparr>failuresByMonth := AList.delete key (failuresByMonth c)\<rparr>)
                  else (Some (cfErr failure), c))"

text \<open>Deleting an entry while ranging over a map is safe in Go, so the expired entries go in any order.\<close>

definition storeFailure :: "time \<Rightarrow> string \<Rightarrow> time \<Rightarrow> fx_error \<Rightarrow> client \<Rightarrow> client" where
  "storeFailure now base effectiveDate err c =
     (if failureTTL c \<le> 0 then c
      else let live = filter (\<lambda>(k, f). now < cfRetryAfter f) (failuresByMonth c)
           in c\<lparr>failuresByMonth := AList.update (cacheMonthKey base effectiveDate)
                  \<lparr>cfErr = err, cfRetryAfter = now + failureTTL c\<rparr> live\<rparr>)"

definition clearFailure :: "string \<Rightarrow> time \<Rightarrow> client \<Rightarrow> client" where
  "clearFailure base effectiveDate c =
     c\<lparr>failuresByMonth := AList.delete (cacheMonthKey base effectiveDate) (failuresByMonth c)\<rparr>"

definition store_day :: "string \<times> daily_rates \<Rightarrow> client \<Rightarrow> client" where
  "store_day e c =
     (case e of (dateKey, dailyRates) \<Rightarrow>
        let cachedRates = fold (\<lambda>(quote, rate). AList.update quote rate) dailyRates (daily (ratesByDate c) dateKey);
            sequence = cacheSequence c + 1
        in c\<lparr>ratesByDate := AList.update dateKey cachedRates (ratesByDate c),
             cacheSequence := sequence,
             cacheStoredAt := AList.update dateKey sequence (cacheStoredAt c)\<rparr>)"

fun oldest_loop :: "(string \<times> u64) list \<Rightarrow> string \<Rightarrow> u64 \<Rightarrow> string" where
  "oldest_loop [] oldestKey oldestSequence = oldestKey"
| "oldest_loop ((dateKey, sequence) # es) oldestKey oldestSequence =
     (if oldestKey = [] \<or> sequence < oldestSequence then oldest_loop es dateKey sequence
      else oldest_loop es oldestKey oldestSequence)"

definition evict_one :: "(string list \<Rightarrow> string list) \<Rightarrow> client \<Rightarrow> client" where
  "evict_one ord c =
     (let oldestKey = oldest_loop (reorder ord (cacheStoredAt c)) [] 0
      in c\<lparr>ratesByDate := AList.delete oldestKey (ratesByDate c),
           cacheStoredAt := AList.delete oldestKey (cacheStoredAt c)\<rparr>)"

text \<open>The loop that evicts; it does not return (\<open>None\<close>) if no day can be deleted.\<close>

partial_function (option) evict :: "(string list \<Rightarrow> string list) \<Rightarrow> client \<Rightarrow> client option" where
  "evict ord c = (if maxCacheDays c < int (length (ratesByDate c)) then evict ord (evict_one ord c) else Some c)"

text \<open>The argument lists the rates in the order of the visit.\<close>

definition storeRates :: "(string list \<Rightarrow> string list) \<Rightarrow> rates_by_date \<Rightarrow> client \<Rightarrow> client option" where
  "storeRates ord rates c = evict ord (fold store_day rates c)"

definition storeFallback :: "(string list \<Rightarrow> string list) \<Rightarrow> string \<Rightarrow> time \<Rightarrow> Rate \<Rightarrow> client \<Rightarrow> client option" where
  "storeFallback ord base effectiveDate rate c =
     (let rate = rate\<lparr>rStale := True\<rparr>
      in storeRates ord [(cacheDateKey base effectiveDate, [(rQuote rate, rate)])] c)"

section \<open>Decoding a month\<close>

text \<open>One pass of the loop, over the rates by date and the set of pairs seen.\<close>

definition decode_row :: "(string \<Rightarrow> string) \<Rightarrow> string \<Rightarrow> time \<Rightarrow> time \<Rightarrow> rateRow option \<Rightarrow>
    rates_by_date \<times> string list \<Rightarrow> rates_by_date \<times> string list" where
  "decode_row up expectedBase from to row st =
     (case row of None \<Rightarrow> st
      | Some row \<Rightarrow>
          (case ParseDate (TrimSpace (rowDate row)) of None \<Rightarrow> st
           | Some date \<Rightarrow>
               if date < from \<or> to < date then st
               else let base = normalizeCurrency up (rowBase row); quote = normalizeCurrency up (rowQuote row)
                    in if base \<noteq> expectedBase then st
                       else if quote = [] then st
                       else let dateKey = cacheDateKey base date; pairKey = dateKey @ ''|'' @ quote;
                                (rates, seen) = st
                            in if pairKey \<in> set seen then
                                 (case map_of rates dateKey of None \<Rightarrow> st
                                  | Some dailyRates \<Rightarrow> (AList.update dateKey (AList.delete quote dailyRates) rates, seen))
                               else if \<not> positiveFinite (rowRate row) then (rates, pairKey # seen)
                               else (AList.update dateKey (AList.update quote
                                       \<lparr>rDate = date, rBase = base, rQuote = quote, rValue = rowRate row, rStale = False\<rparr>
                                       (daily rates dateKey)) rates, pairKey # seen)))"

definition decodeRates :: "'raw fx_env \<Rightarrow> string \<Rightarrow> string \<Rightarrow> time \<Rightarrow> time \<Rightarrow> fx_error + rates_by_date" where
  "decodeRates env text expectedBase from to =
     (case fxRows env text of
        Inl e \<Rightarrow> Inl (Wrapped ''decode response'' e)
      | Inr rows \<Rightarrow>
          if rows = [] then Inl (Plain ''response contains no rates'')
          else Inr (fst (fold (\<lambda>raw. decode_row (fxUpper env) expectedBase from to (fxRow env raw)) rows ([], []))))"

section \<open>Requests\<close>

text \<open>The clock and the other calls of the environment take the tick they are made at.\<close>

definition now_at :: "client \<Rightarrow> nat \<Rightarrow> time" where
  "now_at c i = (case fxNow c of None \<Rightarrow> 0 | Some clock \<Rightarrow> clock i)"

definition tick :: "fx_world \<Rightarrow> fx_world" where
  "tick w = w\<lparr>fxTick := fxTick w + 1\<rparr>"

definition maxResponseBody :: nat where "maxResponseBody = 4194304"
definition maxErrorResponse :: nat where "maxErrorResponse = 1024"

definition getBody :: "'raw fx_env \<Rightarrow> string \<Rightarrow> fx_world \<Rightarrow> (fx_error + string) \<times> fx_world" where
  "getBody env endpoint w =
     (let c = fxClient w
      in case (if limiter c = None then None else fxLimiterWait env (fxTick w)) of
           Some e \<Rightarrow> (Inl (Wrapped ''rate limit wait'' e), tick w)
         | None \<Rightarrow>
             (case fxInvalid env ''GET'' endpoint of
                Some e \<Rightarrow> (Inl (Wrapped ''build request'' e), tick w)
              | None \<Rightarrow>
                  let req = \<lparr>reqMethod = ''GET'', reqURL = endpoint, reqHeader = [], reqBody = [], reqDeadline = None\<rparr>;
                      req = with_header ''User-Agent'' (userAgent c) (with_header ''Accept'' ''application/json'' req)
                  in (case fxSend env (fxTick w) req of
                        Inl e \<Rightarrow> (Inl (Wrapped ''request failed'' e), tick w)
                      | Inr resp \<Rightarrow>
                          if respStatus resp < 200 \<or> respStatus resp \<ge> 300
                          then (Inl (HTTPError (respStatus resp)
                                  (TrimSpace (fst (read_limited maxErrorResponse (respBody resp))))), tick w)
                          else (case read_limited (maxResponseBody + 1) (respBody resp) of
                                  (text, Some e) \<Rightarrow> (Inl (Wrapped ''read response'' e), tick w)
                                | (text, None) \<Rightarrow>
                                    if length text > maxResponseBody
                                    then (Inl (Plain (''response exceeds '' @ dec_nat maxResponseBody @ '' bytes'')), tick w)
                                    else (Inr text, tick w)))))"

definition month_range :: "time \<Rightarrow> time \<Rightarrow> time \<times> time" where
  "month_range now effectiveDate =
     (let monthStart = Date (Year effectiveDate) (Month effectiveDate) 1;
          monthEnd = AddDate monthStart 0 1 (-1);
          today = dateUTC now
      in (monthStart, if today < monthEnd then today else monthEnd))"

fun join_comma :: "string list \<Rightarrow> string" where
  "join_comma [] = []"
| "join_comma [x] = x"
| "join_comma (x # xs) = x @ '','' @ join_comma xs"

definition rates_url :: "'raw fx_env \<Rightarrow> client \<Rightarrow> string \<Rightarrow> time \<Rightarrow> time \<Rightarrow> string" where
  "rates_url env c base monthStart monthEnd =
     baseURL c @ ''/v2/rates'' @ ''?'' @ fxEncode env
       ([(''base'', base), (''from'', FormatDate monthStart), (''to'', FormatDate monthEnd)] @
        (if quotes c \<noteq> [] then [(''quotes'', join_comma (quotes c))] else []))"

definition fetchMonth :: "'raw fx_env \<Rightarrow> string \<Rightarrow> time \<Rightarrow> fx_world \<Rightarrow> (fx_error option \<times> fx_world) option" where
  "fetchMonth env base effectiveDate w =
     (let c = fxClient w;
          (monthStart, monthEnd) = month_range (now_at c (fxTick w)) effectiveDate
      in case getBody env (rates_url env c base monthStart monthEnd) (tick w) of
           (Inl e, w') \<Rightarrow> Some (Some e, w')
         | (Inr text, w') \<Rightarrow>
             (case decodeRates env text base (monthStart - maxStaleness c) monthEnd of
                Inl e \<Rightarrow> Some (Some e, w')
              | Inr rates \<Rightarrow>
                  (case storeRates (fxOrder env (fxTick w' + 1)) (reorder (fxOrder env (fxTick w')) rates) (fxClient w') of
                     None \<Rightarrow> None
                   | Some c' \<Rightarrow> Some (None, tick (tick (w'\<lparr>fxClient := clearFailure base effectiveDate c'\<rparr>))))))"

definition for_date :: "string \<Rightarrow> string \<Rightarrow> time \<Rightarrow> string" where
  "for_date base quote effectiveDate = base @ ''/'' @ quote @ '' for '' @ FormatDate effectiveDate"

definition staleRateOrError :: "'raw fx_env \<Rightarrow> string \<Rightarrow> string \<Rightarrow> time \<Rightarrow> fx_error \<Rightarrow> fx_world \<Rightarrow>
    ((fx_error + Rate) \<times> fx_world) option" where
  "staleRateOrError env base quote effectiveDate cause w =
     (case cachedStaleRate (fxOrder env (fxTick w)) (fxClient w) base effectiveDate quote of
        Some cached \<Rightarrow>
          (case storeFallback (fxOrder env (fxTick w + 1)) base effectiveDate cached (fxClient w) of
             None \<Rightarrow> None
           | Some c' \<Rightarrow> Some (Inr cached, tick (tick (w\<lparr>fxClient := c'\<rparr>))))
      | None \<Rightarrow> Some (Inl (UnavailableBecause (for_date base quote effectiveDate) cause), tick w))"

text \<open>The two lookups that \<open>GetRate\<close> makes before and again behind the gate.\<close>

definition look_up :: "'raw fx_env \<Rightarrow> string \<Rightarrow> string \<Rightarrow> time \<Rightarrow> (fx_world \<Rightarrow> ((fx_error + Rate) \<times> fx_world) option) \<Rightarrow>
    fx_world \<Rightarrow> ((fx_error + Rate) \<times> fx_world) option" where
  "look_up env base quote effectiveDate miss w =
     (case cachedRate (fxClient w) base effectiveDate quote of
        Some cached \<Rightarrow> Some (Inr cached, w)
      | None \<Rightarrow>
          (case cached_failure (now_at (fxClient w) (fxTick w)) base effectiveDate (fxClient w) of
             (Some failure, c') \<Rightarrow> staleRateOrError env base quote effectiveDate failure (tick (w\<lparr>fxClient := c'\<rparr>))
           | (None, c') \<Rightarrow> miss (tick (w\<lparr>fxClient := c'\<rparr>))))"

definition fetch_and_look_up :: "'raw fx_env \<Rightarrow> string \<Rightarrow> string \<Rightarrow> time \<Rightarrow> fx_world \<Rightarrow> ((fx_error + Rate) \<times> fx_world) option" where
  "fetch_and_look_up env base quote effectiveDate w =
     (case fetchMonth env base effectiveDate w of
        None \<Rightarrow> None
      | Some (Some err, w') \<Rightarrow>
          let c' = (if fxCtxErr env (fxTick w') = None
                    then storeFailure (now_at (fxClient w') (fxTick w')) base effectiveDate err (fxClient w')
                    else fxClient w')
          in staleRateOrError env base quote effectiveDate err (tick (w'\<lparr>fxClient := c'\<rparr>))
      | Some (None, w') \<Rightarrow>
          (case cachedRate (fxClient w') base effectiveDate quote of
             Some cached \<Rightarrow> Some (Inr cached, w')
           | None \<Rightarrow>
               (case cachedStaleRate (fxOrder env (fxTick w')) (fxClient w') base effectiveDate quote of
                  Some cached \<Rightarrow>
                    (case storeFallback (fxOrder env (fxTick w' + 1)) base effectiveDate cached (fxClient w') of
                       None \<Rightarrow> None
                     | Some c' \<Rightarrow> Some (Inr cached, tick (tick (w'\<lparr>fxClient := c'\<rparr>))))
                | None \<Rightarrow>
                    Some (Inl (Unavailable (''response has no '' @ base @ ''/'' @ quote @ '' rate for '' @
                      FormatDate effectiveDate)), tick w'))))"

definition GetRate :: "'raw fx_env \<Rightarrow> RateRequest \<Rightarrow> fx_world \<Rightarrow> ((fx_error + Rate) \<times> fx_world) option" where
  "GetRate env req w =
     (let base = normalizeCurrency (fxUpper env) (rrBase req); quote = normalizeCurrency (fxUpper env) (rrQuote req)
      in if base = [] \<or> quote = [] then Some (Inl (Unavailable ''base and quote currencies are required''), w)
         else
           let effectiveDate = effective_date (now_at (fxClient w) (fxTick w)) (rrEffectiveAt req); w = tick w
           in if base = quote
              then Some (Inr \<lparr>rDate = effectiveDate, rBase = base, rQuote = quote, rValue = f64_one, rStale = False\<rparr>, w)
              else if quotes (fxClient w) \<noteq> [] \<and> \<not> Contains (quotes (fxClient w)) quote
              then Some (Inl (Unavailable (''quote '' @ quote @ '' is outside the configured batch'')), w)
              else look_up env base quote effectiveDate
                (\<lambda>w. case fxGate env (fxTick w) of
                   Some e \<Rightarrow> Some (Inl (CtxErr e), tick w)
                 | None \<Rightarrow> look_up env base quote effectiveDate (fetch_and_look_up env base quote effectiveDate) (tick w)) w)"

end
