(* ===== verification/Frankfurter_Cache.thy ===== *)
theory Frankfurter_Cache
  imports Frankfurter
begin

text \<open>
  The exchange-rate cache keeps its entries well formed through every operation, and what \<open>GetRate\<close>
  returns is a rate of the requested pair, of the requested day or flagged as stale within the limit.
\<close>

section \<open>The invariant of the cache\<close>

text \<open>A rate filed for a day: its own rate, or an earlier one marked stale.\<close>

definition entry_ok :: "duration \<Rightarrow> string \<Rightarrow> time \<Rightarrow> string \<Rightarrow> Rate \<Rightarrow> bool" where
  "entry_ok limit base d quote r \<longleftrightarrow> rBase r = base \<and> rQuote r = quote \<and> midnight (rDate r) \<and> rDate r \<le> d \<and>
     (rStale r \<longleftrightarrow> rDate r < d) \<and> (rStale r \<longrightarrow> time_sub d (rDate r) \<le> limit) \<and> positiveFinite (rValue r)"

definition day_ok :: "duration \<Rightarrow> string \<times> daily_rates \<Rightarrow> bool" where
  "day_ok limit e \<longleftrightarrow> distinct (map fst (snd e)) \<and>
     (\<exists>base d. midnight d \<and> fst e = cacheDateKey base d \<and> (\<forall>(q, r) \<in> set (snd e). entry_ok limit base d q r))"

definition cache_wf :: "client \<Rightarrow> bool" where
  "cache_wf c \<longleftrightarrow> distinct (map fst (ratesByDate c)) \<and> distinct (map fst (cacheStoredAt c)) \<and>
     dom (map_of (cacheStoredAt c)) = dom (map_of (ratesByDate c)) \<and> (\<forall>e \<in> set (ratesByDate c). day_ok (maxStaleness c) e)"

definition cache_ok :: "client \<Rightarrow> bool" where
  "cache_ok c \<longleftrightarrow> cache_wf c \<and> int (length (ratesByDate c)) \<le> maxCacheDays c"

text \<open>A visit of a map sees every key once.\<close>

definition visits :: "(string list \<Rightarrow> string list) \<Rightarrow> bool" where
  "visits ord \<longleftrightarrow> (\<forall>xs. mset (ord xs) = mset xs)"

text \<open>What the options set, which no request changes.\<close>

definition config :: "client \<Rightarrow> client" where
  "config c = c\<lparr>ratesByDate := [], cacheStoredAt := [], cacheSequence := 0, failuresByMonth := []\<rparr>"

lemma config_fields:
  assumes "config c = config c'"
  shows "maxStaleness c = maxStaleness c'" "maxCacheDays c = maxCacheDays c'" "failureTTL c = failureTTL c'"
    "quotes c = quotes c'" "fxNow c = fxNow c'"
  using assms by (cases c; cases c'; simp add: config_def)+

section \<open>Keys\<close>

lemma dateUTC_eq: "dateUTC t = t - t mod day_ns"
  by (simp add: dateUTC_def Date_civil)

lemma midnight_dateUTC [simp]: "midnight (dateUTC t)"
  by (simp add: dateUTC_def)

lemma midnight_effective_date [simp]: "midnight (effective_date t e)"
  by (simp add: effective_date_def Let_def)

lemma midnight_FormatDate_inj: "midnight d \<Longrightarrow> midnight e \<Longrightarrow> FormatDate d = FormatDate e \<Longrightarrow> d = e"
  using FormatDate_inj [of d e] by (simp add: midnight_def)

lemma bar_not_in_date [simp]: "CHR ''|'' \<notin> set (FormatDate t)"
  using FormatDate_chars [of "CHR ''|''" t] by (auto simp: is_digit_def less_eq_char_iff)

lemma append_last_sep:
  assumes "a @ c # s = b @ c # t" and "c \<notin> set s" and "c \<notin> set t"
  shows "a = b \<and> s = t"
proof -
  have "takeWhile (\<lambda>x. x \<noteq> c) (rev u @ c # v) = rev u" if "c \<notin> set u" for u v
    using that by (subst takeWhile_append2) auto
  moreover have "rev s @ c # rev a = rev t @ c # rev b" using arg_cong [OF assms(1), of rev] by simp
  ultimately have "rev s = rev t" using assms(2,3) by metis
  then show ?thesis using assms(1) by simp
qed

lemma cacheDateKey_inj:
  "cacheDateKey b d = cacheDateKey b' d' \<Longrightarrow> midnight d \<Longrightarrow> midnight d' \<Longrightarrow> b = b' \<and> d = d'"
  using append_last_sep [of b "CHR ''|''" "FormatDate d" b' "FormatDate d'"] midnight_FormatDate_inj
  by (auto simp: cacheDateKey_def)

lemma cacheDateKey_nonempty [simp]: "cacheDateKey b d \<noteq> []"
  by (simp add: cacheDateKey_def)

lemma ParseDate_chars:
  assumes "ParseDate s = Some t"
  shows "CHR ''|'' \<notin> set s"
proof -
  have s: "length s = 10" "s ! 4 = CHR ''-''" "s ! 7 = CHR ''-''" "list_all is_digit (take 4 s @ take 2 (drop 5 s) @ take 2 (drop 8 s))"
    using assms by (simp_all add: ParseDate_def Let_def split: if_splits)
  have split: "s = take 4 s @ s ! 4 # take 2 (drop 5 s) @ s ! 7 # take 2 (drop 8 s)"
    using s(1) by (auto simp: numeral_eq_Suc length_Suc_conv)
  have "\<not> is_digit (CHR ''|'')" by (simp add: is_digit_def less_eq_char_iff)
  then have "CHR ''|'' \<notin> set (take 4 s @ s ! 4 # take 2 (drop 5 s) @ s ! 7 # take 2 (drop 8 s))"
    using s(2-4) by (auto simp: list_all_iff)
  then show ?thesis by (metis split)
qed

lemma parseCacheDateKey_base:
  assumes "parseCacheDateKey (cacheDateKey b d) = (b', d', True)"
  shows "b' = b"
proof (cases "CHR ''|'' \<in> set b")
  case True
  then obtain u v where "b = u @ CHR ''|'' # v" "CHR ''|'' \<notin> set u" by (meson split_list_first)
  then have "Cut (cacheDateKey b d) (CHR ''|'') = (u, v @ ''|'' @ FormatDate d, True)"
    by (simp add: Cut_def cacheDateKey_def takeWhile_tail dropWhile_append)
  then have "\<exists>t. ParseDate (v @ ''|'' @ FormatDate d) = Some t"
    using assms by (auto simp: parseCacheDateKey_def split: option.splits)
  then show ?thesis using ParseDate_chars by fastforce
next
  case False
  then have "Cut (cacheDateKey b d) (CHR ''|'') = (b, FormatDate d, True)"
    by (simp add: Cut_def cacheDateKey_def takeWhile_append2 dropWhile_append2 takeWhile_tail dropWhile_append)
  then show ?thesis using assms by (auto simp: parseCacheDateKey_def split: option.splits)
qed

section \<open>Storing and evicting\<close>

lemma set_update_subset: "set (AList.update k v al) \<subseteq> insert (k, v) (set al)"
  by (induction al) auto

lemma set_delete_subset: "set (AList.delete k al) \<subseteq> set al"
  by (auto simp: AList.delete_eq)

lemma fold_update_entries:
  "set (fold (\<lambda>(q, r). AList.update q r) new old) \<subseteq> set new \<union> set old"
  "distinct (map fst old) \<Longrightarrow> distinct (map fst (fold (\<lambda>(q, r). AList.update q r) new old))"
proof (induction new arbitrary: old)
  case (Cons e new)
  {
    case 1
    show ?case using Cons.IH(1) [of "AList.update (fst e) (snd e) old"] set_update_subset [of "fst e" "snd e" old]
      by (auto simp: case_prod_beta)
  next
    case 2
    then show ?case using Cons.IH(2) [of "AList.update (fst e) (snd e) old"] by (simp add: case_prod_beta distinct_update)
  }
qed simp_all

lemma config_store_day [simp]: "config (store_day e c) = config c"
  by (cases e) (simp add: store_day_def config_def Let_def)

lemma store_day_wf:
  assumes "cache_wf c" and "day_ok (maxStaleness c) e"
  shows "cache_wf (store_day e c)"
proof -
  obtain key new where e: "e = (key, new)" by fastforce
  define old where "old = daily (ratesByDate c) key"
  define cached where "cached = fold (\<lambda>(q, r). AList.update q r) new old"
  obtain base d where new: "midnight d" "key = cacheDateKey base d" "\<forall>(q, r) \<in> set new. entry_ok (maxStaleness c) base d q r"
    using assms(2) by (auto simp: day_ok_def e)
  have "day_ok (maxStaleness c) (key, old) \<or> old = []"
    using assms(1) by (auto simp: old_def daily_def cache_wf_def split: option.splits dest!: map_of_SomeD)
  then have old: "distinct (map fst old)" "\<forall>(q, r) \<in> set old. entry_ok (maxStaleness c) base d q r"
    using new(1,2) by (auto simp: day_ok_def dest: cacheDateKey_inj)
  have day: "day_ok (maxStaleness c) (key, cached)"
    unfolding day_ok_def fst_conv snd_conv
    using fold_update_entries(1) [of new old] fold_update_entries(2) [of old new] old new
    by (intro conjI exI [of _ base] exI [of _ d]) (auto simp: cached_def)
  have rates: "ratesByDate (store_day e c) = AList.update key cached (ratesByDate c)"
    and stored: "cacheStoredAt (store_day e c) = AList.update key (cacheSequence c + 1) (cacheStoredAt c)"
    and limit: "maxStaleness (store_day e c) = maxStaleness c"
    by (simp_all add: e store_day_def Let_def cached_def old_def)
  have "\<forall>x \<in> set (AList.update key cached (ratesByDate c)). day_ok (maxStaleness c) x"
    using set_update_subset [of key cached "ratesByDate c"] day assms(1) by (auto simp: cache_wf_def)
  then show ?thesis
    using assms(1) unfolding cache_wf_def rates stored limit
    by (simp add: distinct_update AList.update_conv')
qed

lemma fold_store_day_wf:
  "cache_wf c \<Longrightarrow> \<forall>e \<in> set es. day_ok (maxStaleness c) e \<Longrightarrow>
    cache_wf (fold store_day es c) \<and> config (fold store_day es c) = config c"
proof (induction es arbitrary: c)
  case (Cons e es)
  then have "cache_wf (store_day e c)" by (simp add: store_day_wf)
  moreover have "maxStaleness (store_day e c) = maxStaleness c"
    using config_fields(1) [OF config_store_day] .
  ultimately show ?case using Cons.IH [of "store_day e c"] Cons.prems by simp
qed simp

lemma set_visit: "visits ord \<Longrightarrow> set (ord xs) = set xs"
  unfolding visits_def by (metis mset_eq_setD)

lemma reorder_set:
  assumes "visits ord" and "distinct (map fst m)"
  shows "set (reorder ord m) = set m"
  using assms by (force simp: reorder_def set_visit image_iff)

lemma oldest_loop_in: "\<forall>e \<in> set es. fst e \<noteq> [] \<Longrightarrow> es \<noteq> [] \<or> k \<noteq> [] \<Longrightarrow> oldest_loop es k s \<in> insert k (fst ` set es) - {[]}"
proof (induction es k s rule: oldest_loop.induct)
  case (2 key sq es k s)
  then show ?case by (cases "k = [] \<or> sq < s") auto
qed simp

lemma config_evict_one [simp]: "config (evict_one ord c) = config c"
  by (simp add: evict_one_def config_def Let_def)

lemma evict_one_wf:
  assumes "cache_wf c" and "visits ord" and "ratesByDate c \<noteq> []"
  shows "cache_wf (evict_one ord c)" "length (ratesByDate (evict_one ord c)) < length (ratesByDate c)"
proof -
  define k where "k = oldest_loop (reorder ord (cacheStoredAt c)) [] 0"
  have keys: "fst ` set (cacheStoredAt c) = fst ` set (ratesByDate c)" "distinct (map fst (cacheStoredAt c))"
      "distinct (map fst (ratesByDate c))"
    using assms(1) by (simp_all add: cache_wf_def dom_map_of_conv_image_fst)
  have eq: "set (reorder ord (cacheStoredAt c)) = set (cacheStoredAt c)"
    using assms(2) keys(2) by (rule reorder_set)
  have "\<forall>e \<in> set (ratesByDate c). fst e \<noteq> []"
    using assms(1) unfolding cache_wf_def day_ok_def by (metis cacheDateKey_nonempty)
  then have "\<forall>x \<in> fst ` set (ratesByDate c). x \<noteq> []" by (metis imageE)
  then have "\<forall>e \<in> set (reorder ord (cacheStoredAt c)). fst e \<noteq> []" unfolding keys(1) [symmetric] eq by blast
  moreover have "reorder ord (cacheStoredAt c) \<noteq> []"
    using eq keys(1) assms(3) by (metis image_is_empty set_empty)
  ultimately have k: "k \<in> fst ` set (ratesByDate c)"
    using oldest_loop_in [of "reorder ord (cacheStoredAt c)" "[]" 0] by (simp add: k_def eq keys(1))
  have fields: "ratesByDate (evict_one ord c) = AList.delete k (ratesByDate c)"
      "cacheStoredAt (evict_one ord c) = AList.delete k (cacheStoredAt c)" "maxStaleness (evict_one ord c) = maxStaleness c"
    by (simp_all add: evict_one_def k_def Let_def)
  have "set (AList.delete k (ratesByDate c)) \<subseteq> set (ratesByDate c)" by (auto simp: AList.delete_eq)
  then show "cache_wf (evict_one ord c)"
    using assms(1) unfolding cache_wf_def fields by (auto simp: distinct_delete AList.delete_conv')
  show "length (ratesByDate (evict_one ord c)) < length (ratesByDate c)"
    unfolding fields AList.delete_eq using k by (auto simp: length_filter_less)
qed

text \<open>The eviction loop returns, with at most the configured number of days left.\<close>

lemma evict_returns:
  assumes "cache_wf c" and "visits ord" and "0 \<le> maxCacheDays c"
  shows "\<exists>c'. evict ord c = Some c' \<and> cache_ok c' \<and> config c' = config c"
  using assms
proof (induction "length (ratesByDate c)" arbitrary: c rule: less_induct)
  case less
  show ?case
  proof (cases "maxCacheDays c < int (length (ratesByDate c))")
    case True
    then have "ratesByDate c \<noteq> []" using less.prems(3) by auto
    note one = evict_one_wf [OF less.prems(1,2) this]
    have "0 \<le> maxCacheDays (evict_one ord c)" using less.prems(3) config_fields(2) [OF config_evict_one [of ord c]] by simp
    from less.hyps [OF one(2) one(1) less.prems(2) this] True show ?thesis by (subst evict.simps) simp
  next
    case False
    then show ?thesis using less.prems by (subst evict.simps) (simp add: cache_ok_def)
  qed
qed

lemma storeRates_ok:
  assumes "cache_wf c" and "visits ord" and "0 \<le> maxCacheDays c" and "\<forall>e \<in> set rates. day_ok (maxStaleness c) e"
  shows "\<exists>c'. storeRates ord rates c = Some c' \<and> cache_ok c' \<and> config c' = config c"
proof -
  have f: "cache_wf (fold store_day rates c)" "config (fold store_day rates c) = config c"
    using fold_store_day_wf assms(1,4) by blast+
  moreover have "0 \<le> maxCacheDays (fold store_day rates c)" using assms(3) config_fields(2) [OF f(2)] by simp
  ultimately show ?thesis using evict_returns [of "fold store_day rates c" ord] assms(2) by (auto simp: storeRates_def)
qed

section \<open>Looking up\<close>

lemma cachedRate_ok:
  assumes "cache_wf c" and "midnight d" and "cachedRate c base d quote = Some r"
  shows "entry_ok (maxStaleness c) base d quote r"
proof -
  obtain day where "map_of (ratesByDate c) (cacheDateKey base d) = Some day" "map_of day quote = Some r"
    using assms(3) by (auto simp: cachedRate_def daily_def split: option.splits)
  then have "(cacheDateKey base d, day) \<in> set (ratesByDate c)" "(quote, r) \<in> set day" by (auto dest: map_of_SomeD)
  then show ?thesis using assms(1,2) by (fastforce simp: cache_wf_def day_ok_def dest: cacheDateKey_inj)
qed

text \<open>A stale rate is an earlier rate of the pair within the limit, with nothing newer to choose.\<close>

definition stale_ok :: "duration \<Rightarrow> string \<Rightarrow> time \<Rightarrow> string \<Rightarrow> Rate \<Rightarrow> bool" where
  "stale_ok limit base d quote r \<longleftrightarrow> rBase r = base \<and> rQuote r = quote \<and> midnight (rDate r) \<and> rDate r < d \<and>
     time_sub d (rDate r) \<le> limit \<and> positiveFinite (rValue r)"

lemma stale_entry: "stale_ok limit base d quote r \<Longrightarrow> entry_ok limit base d quote (r\<lparr>rStale := True\<rparr>)"
  by (simp add: stale_ok_def entry_ok_def)

lemma stale_loop_ok:
  assumes "\<forall>e \<in> set es. day_ok (maxStaleness c) e"
    and "rDate selected \<noteq> 0 \<longrightarrow> stale_ok (maxStaleness c) base d quote selected"
    and "rDate (stale_loop c base d quote es selected) \<noteq> 0"
  shows "stale_ok (maxStaleness c) base d quote (stale_loop c base d quote es selected)"
  using assms
proof (induction es arbitrary: selected)
  case (Cons e es)
  obtain key day where e: "e = (key, day)" by fastforce
  have cand: "stale_ok (maxStaleness c) base d quote r"
    if "parseCacheDateKey key = (base, x, True)" "map_of day quote = Some r" "rDate r < d"
      "\<not> maxStaleness c < time_sub d (rDate r)" for x r
  proof -
    obtain b k where "midnight k" "key = cacheDateKey b k" "\<forall>(q, r) \<in> set day. entry_ok (maxStaleness c) b k q r"
      using Cons.prems(1) by (auto simp: e day_ok_def)
    then show ?thesis using that parseCacheDateKey_base [of b k base x] map_of_SomeD [OF that(2)]
      by (auto simp: stale_ok_def entry_ok_def)
  qed
  let ?sel = "case parseCacheDateKey key of (keyBase, _, ok) \<Rightarrow>
      if \<not> ok \<or> keyBase \<noteq> base then selected
      else case map_of day quote of None \<Rightarrow> selected
        | Some candidate \<Rightarrow>
            if \<not> rDate candidate < d \<or> time_sub d (rDate candidate) > maxStaleness c then selected
            else if rDate selected = 0 \<or> rDate selected < rDate candidate then candidate else selected"
  have "rDate ?sel \<noteq> 0 \<longrightarrow> stale_ok (maxStaleness c) base d quote ?sel"
    using cand Cons.prems(2) by (auto split: prod.splits option.splits)
  then show ?case using Cons.IH [of ?sel] Cons.prems(1,3) by (simp add: e)
qed simp

lemma cachedStaleRate_ok:
  assumes "cache_wf c" and "visits ord" and "cachedStaleRate ord c base d quote = Some r"
  shows "stale_ok (maxStaleness c) base d quote r \<and> rStale r"
proof -
  define sel where "sel = stale_loop c base d quote (reorder ord (ratesByDate c)) zero_rate"
  have "\<forall>e \<in> set (reorder ord (ratesByDate c)). day_ok (maxStaleness c) e"
    using assms(1,2) by (simp add: cache_wf_def reorder_set)
  moreover have sel: "rDate sel \<noteq> 0" "r = sel\<lparr>rStale := True\<rparr>"
    using assms(3) by (simp_all add: cachedStaleRate_def Let_def sel_def split: if_splits)
  ultimately have "stale_ok (maxStaleness c) base d quote sel"
    unfolding sel_def by (intro stale_loop_ok) (simp_all add: zero_rate_def)
  then show ?thesis by (simp add: sel(2) stale_ok_def)
qed

lemma storeFallback_ok:
  assumes "cache_ok c" and "visits ord" and "0 \<le> maxCacheDays c" and "midnight d" and "stale_ok (maxStaleness c) base d quote r"
  shows "\<exists>c'. storeFallback ord base d r c = Some c' \<and> cache_ok c' \<and> config c' = config c"
proof -
  have "day_ok (maxStaleness c) (cacheDateKey base d, [(quote, r\<lparr>rStale := True\<rparr>)])"
    unfolding day_ok_def using assms(4) stale_entry [OF assms(5)]
    by (intro conjI exI [of _ base] exI [of _ d]) simp_all
  moreover have "rQuote r = quote" using assms(5) by (simp add: stale_ok_def)
  ultimately show ?thesis
    using assms(1-3) storeRates_ok [of c ord "[(cacheDateKey base d, [(quote, r\<lparr>rStale := True\<rparr>)])]"]
    by (simp add: storeFallback_def Let_def cache_ok_def)
qed

lemma failures_irrelevant [simp]:
  "config (c\<lparr>failuresByMonth := fs\<rparr>) = config c" "cache_ok (c\<lparr>failuresByMonth := fs\<rparr>) = cache_ok c"
  by (simp_all add: config_def cache_ok_def cache_wf_def)

lemma cached_failure_keeps:
  assumes "cached_failure t base d c = (e, c')"
  shows "config c' = config c" "cache_ok c' = cache_ok c"
  using assms by (auto simp: cached_failure_def Let_def split: if_splits option.splits)

lemma storeFailure_keeps: "config (storeFailure t base d e c) = config c" "cache_ok (storeFailure t base d e c) = cache_ok c"
  by (simp_all add: storeFailure_def Let_def)

lemma clearFailure_keeps: "config (clearFailure base d c) = config c" "cache_ok (clearFailure base d c) = cache_ok c"
  by (simp_all add: clearFailure_def)

section \<open>Decoding\<close>

text \<open>
  What a row asks for: its date, quote and rate, if it names a date in the range, the base and a
  quote. \<open>decode_row\<close> is then a step over these triples.
\<close>

definition row_pair :: "(string \<Rightarrow> string) \<Rightarrow> string \<Rightarrow> time \<Rightarrow> time \<Rightarrow> rateRow option \<Rightarrow> (time \<times> string \<times> f64) option" where
  "row_pair up base from to row =
     (case row of None \<Rightarrow> None
      | Some row \<Rightarrow>
          (case ParseDate (TrimSpace (rowDate row)) of None \<Rightarrow> None
           | Some date \<Rightarrow>
               let quote = normalizeCurrency up (rowQuote row)
               in if from \<le> date \<and> date \<le> to \<and> normalizeCurrency up (rowBase row) = base \<and> quote \<noteq> []
                  then Some (date, quote, rowRate row) else None))"

fun pair_step :: "string \<Rightarrow> (time \<times> string \<times> f64) option \<Rightarrow> rates_by_date \<times> string list \<Rightarrow> rates_by_date \<times> string list" where
  "pair_step base None st = st"
| "pair_step base (Some (date, quote, v)) (rates, seen) =
     (let dateKey = cacheDateKey base date; pairKey = dateKey @ ''|'' @ quote
      in if pairKey \<in> set seen then
           (case map_of rates dateKey of None \<Rightarrow> (rates, seen)
            | Some dailyRates \<Rightarrow> (AList.update dateKey (AList.delete quote dailyRates) rates, seen))
         else if \<not> positiveFinite v then (rates, pairKey # seen)
         else (AList.update dateKey (AList.update quote
                 \<lparr>rDate = date, rBase = base, rQuote = quote, rValue = v, rStale = False\<rparr>
                 (daily rates dateKey)) rates, pairKey # seen))"

lemma decode_row_pair: "decode_row up base from to row = pair_step base (row_pair up base from to row)"
proof
  show "decode_row up base from to row st = pair_step base (row_pair up base from to row) st" for st
    by (cases st) (auto simp: decode_row_def row_pair_def Let_def split: option.splits)
qed

lemma row_pair_midnight: "row_pair up base from to row = Some (date, quote, v) \<Longrightarrow> midnight date \<and> from \<le> date \<and> date \<le> to \<and> quote \<noteq> []"
  by (auto simp: row_pair_def Let_def ParseDate_midnight split: option.splits if_splits)

text \<open>
  The reference: a pair gets a rate exactly if one row asks for it, and that row's rate is positive
  and finite.
\<close>

definition rate_for :: "string \<Rightarrow> (time \<times> string \<times> f64) list \<Rightarrow> time \<Rightarrow> string \<Rightarrow> Rate option" where
  "rate_for base ps date quote =
     (case filter (\<lambda>(d, q, v). d = date \<and> q = quote) ps of
        [(d, q, v)] \<Rightarrow>
          if positiveFinite v then Some \<lparr>rDate = date, rBase = base, rQuote = quote, rValue = v, rStale = False\<rparr> else None
      | _ \<Rightarrow> None)"

definition rate_at :: "string \<Rightarrow> rates_by_date \<Rightarrow> time \<Rightarrow> string \<Rightarrow> Rate option" where
  "rate_at base rates date quote = map_of (daily rates (cacheDateKey base date)) quote"

lemma pair_key_inj:
  assumes "cacheDateKey base d @ ''|'' @ q = cacheDateKey base e @ ''|'' @ q'" and "midnight d" and "midnight e"
  shows "d = e \<and> q = q'"
proof -
  have "FormatDate d @ CHR ''|'' # q = FormatDate e @ CHR ''|'' # q'" using assms(1) by (simp add: cacheDateKey_def)
  then have "rev q @ CHR ''|'' # rev (FormatDate d) = rev q' @ CHR ''|'' # rev (FormatDate e)"
    by (metis rev.simps(2) rev_append append_Cons append_Nil append_assoc)
  then have "q = q'" "FormatDate d = FormatDate e"
    using append_last_sep [of "rev q" _ "rev (FormatDate d)" "rev q'" "rev (FormatDate e)"] by simp_all
  then show ?thesis using assms midnight_FormatDate_inj by blast
qed

definition decoded :: "string \<Rightarrow> (time \<times> string \<times> f64) list \<Rightarrow> rates_by_date \<times> string list \<Rightarrow> bool" where
  "decoded base ps st \<longleftrightarrow> (\<forall>d q. midnight d \<longrightarrow>
     (cacheDateKey base d @ ''|'' @ q \<in> set (snd st) \<longleftrightarrow> (\<exists>v. (d, q, v) \<in> set ps)) \<and>
     rate_at base (fst st) d q = rate_for base ps d q)"

lemma daily_update: "daily (AList.update k v m) k' = (if k' = k then v else daily m k')"
  by (simp add: daily_def AList.update_conv')

lemma rate_for_snoc:
  assumes "\<not> (\<exists>w. (d, q, w) \<in> set ps)"
  shows "rate_for base (ps @ [(d, q, v)]) d' q' =
    (if d' = d \<and> q' = q then (if positiveFinite v then Some \<lparr>rDate = d, rBase = base, rQuote = q, rValue = v, rStale = False\<rparr>
       else None) else rate_for base ps d' q')"
proof (cases "d' = d \<and> q' = q")
  case True
  then have "filter (\<lambda>(a, b, w). a = d' \<and> b = q') ps = []" using assms by (auto simp: filter_empty_conv)
  then show ?thesis using True by (simp add: rate_for_def)
qed (auto simp: rate_for_def)

lemma rate_for_again:
  assumes "(d, q, w) \<in> set ps"
  shows "rate_for base (ps @ [(d, q, v)]) d' q' = (if d' = d \<and> q' = q then None else rate_for base ps d' q')"
proof (cases "d' = d \<and> q' = q")
  case True
  then have "filter (\<lambda>(a, b, w). a = d' \<and> b = q') ps \<noteq> []" using assms by (force simp: filter_empty_conv)
  then obtain x xs where "filter (\<lambda>(a, b, w). a = d' \<and> b = q') ps = x # xs" by (meson neq_Nil_conv)
  then show ?thesis using True by (cases xs) (simp_all add: rate_for_def split_beta)
qed (auto simp: rate_for_def)

lemma decoded_step:
  assumes "decoded base ps (rates, seen)" and "midnight d"
  shows "decoded base (ps @ [(d, q, v)]) (pair_step base (Some (d, q, v)) (rates, seen))"
proof -
  let ?k = "cacheDateKey base d" let ?p = "cacheDateKey base d @ ''|'' @ q"
  have seen: "cacheDateKey base e @ ''|'' @ q' \<in> set seen \<longleftrightarrow> (\<exists>w. (e, q', w) \<in> set ps)"
    and look: "rate_at base rates e q' = rate_for base ps e q'" if "midnight e" for e q'
    using assms(1) that by (auto simp: decoded_def)
  have same: "cacheDateKey base e @ ''|'' @ q' = ?p \<longleftrightarrow> e = d \<and> q' = q" "cacheDateKey base e = ?k \<longleftrightarrow> e = d" if "midnight e" for e q'
    using that assms(2) pair_key_inj cacheDateKey_inj by blast+
  show ?thesis
  proof (cases "?p \<in> set seen")
    case True
    then obtain w where w: "(d, q, w) \<in> set ps" using seen assms(2) by blast
    show ?thesis
    proof (cases "map_of rates ?k")
      case None
      then have "rate_at base rates d q = None" by (simp add: rate_at_def daily_def)
      then show ?thesis using True None seen look same w
        by (auto simp: decoded_def Let_def rate_for_again [OF w])
    next
      case (Some day)
      then have "daily rates ?k = day" by (simp add: daily_def)
      then have "rate_at base (AList.update ?k (AList.delete q day) rates) e q' =
          (if e = d \<and> q' = q then None else rate_at base rates e q')" if "midnight e" for e q'
        using same(2) [OF that] by (auto simp: rate_at_def daily_update AList.delete_conv')
      then show ?thesis using True Some seen look same w
        by (auto simp: decoded_def Let_def rate_for_again [OF w])
    qed
  next
    case False
    then have new: "\<not> (\<exists>w. (d, q, w) \<in> set ps)" using seen assms(2) by blast
    have "rate_at base (AList.update ?k (AList.update q r (daily rates ?k)) rates) e q' =
        (if e = d \<and> q' = q then Some r else rate_at base rates e q')" if "midnight e" for e q' r
      using same(2) [OF that] by (auto simp: rate_at_def daily_update AList.update_conv')
    moreover have "filter (\<lambda>(a, b, w). a = d \<and> b = q) ps = []" using new by (auto simp: filter_empty_conv)
    then have "rate_at base rates d q = None" using look [OF assms(2)] by (simp add: rate_for_def)
    ultimately show ?thesis using False seen look same
      by (auto simp: decoded_def Let_def rate_for_snoc [OF new])
  qed
qed

lemma decoded_fold:
  assumes "\<forall>row \<in> set rows. \<forall>d q v. f row = Some (d, q, v) \<longrightarrow> midnight d"
  shows "decoded base (map the (filter (\<lambda>x. x \<noteq> None) (map f rows))) (fold (\<lambda>row. pair_step base (f row)) rows ([], []))"
  using assms
proof (induction rows rule: rev_induct)
  case Nil
  show ?case by (simp add: decoded_def rate_at_def rate_for_def daily_def)
next
  case (snoc row rows)
  let ?st = "fold (\<lambda>row. pair_step base (f row)) rows ([], [])"
  have IH: "decoded base (map the (filter (\<lambda>x. x \<noteq> None) (map f rows))) ?st" using snoc by simp
  show ?case
  proof (cases "f row")
    case None
    then show ?thesis using IH by simp
  next
    case (Some p)
    obtain d q v where p: "p = (d, q, v)" by (cases p) auto
    have "midnight d" using snoc.prems Some p by simp
    then show ?thesis using decoded_step [of base _ "fst ?st" "snd ?st" d q v] IH Some p by simp
  qed
qed

text \<open>Every day that was decoded is well formed.\<close>

definition decoded_wf :: "string \<Rightarrow> rates_by_date \<Rightarrow> bool" where
  "decoded_wf base rates \<longleftrightarrow> distinct (map fst rates) \<and> (\<forall>(k, day) \<in> set rates. distinct (map fst day) \<and>
     (\<exists>d. midnight d \<and> k = cacheDateKey base d \<and> (\<forall>(q, r) \<in> set day.
        rDate r = d \<and> rBase r = base \<and> rQuote r = q \<and> \<not> rStale r \<and> positiveFinite (rValue r))))"

lemma decoded_wf_update:
  assumes "decoded_wf base rates" and "midnight d" and "distinct (map fst day)"
    and "\<forall>(q, r) \<in> set day. rDate r = d \<and> rBase r = base \<and> rQuote r = q \<and> \<not> rStale r \<and> positiveFinite (rValue r)"
  shows "decoded_wf base (AList.update (cacheDateKey base d) day rates)"
  unfolding decoded_wf_def
proof (intro conjI ballI)
  show "distinct (map fst (AList.update (cacheDateKey base d) day rates))"
    using assms(1) by (simp add: decoded_wf_def distinct_update)
  fix e assume "e \<in> set (AList.update (cacheDateKey base d) day rates)"
  then consider "e = (cacheDateKey base d, day)" | "e \<in> set rates"
    using set_update_subset [of "cacheDateKey base d" day rates] by blast
  then show "case e of (k, day) \<Rightarrow> distinct (map fst day) \<and> (\<exists>d. midnight d \<and> k = cacheDateKey base d \<and>
      (\<forall>(q, r) \<in> set day. rDate r = d \<and> rBase r = base \<and> rQuote r = q \<and> \<not> rStale r \<and> positiveFinite (rValue r)))"
  proof cases
    case 1
    then show ?thesis using assms(2-4) by (simp, intro exI [of _ d]) simp
  next
    case 2
    then show ?thesis using assms(1) by (simp add: decoded_wf_def)
  qed
qed

lemma decoded_wf_daily:
  assumes "decoded_wf base rates" and "midnight d"
  shows "distinct (map fst (daily rates (cacheDateKey base d)))"
    "\<forall>(q, r) \<in> set (daily rates (cacheDateKey base d)).
       rDate r = d \<and> rBase r = base \<and> rQuote r = q \<and> \<not> rStale r \<and> positiveFinite (rValue r)"
proof -
  let ?day = "daily rates (cacheDateKey base d)"
  have "distinct (map fst ?day) \<and> (\<forall>(q, r) \<in> set ?day.
       rDate r = d \<and> rBase r = base \<and> rQuote r = q \<and> \<not> rStale r \<and> positiveFinite (rValue r))"
  proof (cases "map_of rates (cacheDateKey base d)")
    case (Some day)
    then have "(cacheDateKey base d, day) \<in> set rates" by (rule map_of_SomeD)
    then have "distinct (map fst day) \<and> (\<exists>e. midnight e \<and> cacheDateKey base d = cacheDateKey base e \<and> (\<forall>(q, r) \<in> set day.
        rDate r = e \<and> rBase r = base \<and> rQuote r = q \<and> \<not> rStale r \<and> positiveFinite (rValue r)))"
      using assms(1) by (auto simp: decoded_wf_def)
    then show ?thesis using Some assms(2) by (auto simp: daily_def dest: cacheDateKey_inj)
  qed (simp add: daily_def)
  then show "distinct (map fst ?day)" "\<forall>(q, r) \<in> set ?day.
       rDate r = d \<and> rBase r = base \<and> rQuote r = q \<and> \<not> rStale r \<and> positiveFinite (rValue r)" by blast+
qed

lemma pair_step_wf:
  assumes "decoded_wf base (fst st)" and "\<And>d q v. p = Some (d, q, v) \<Longrightarrow> midnight d"
  shows "decoded_wf base (fst (pair_step base p st))"
proof (cases p)
  case (Some x)
  obtain d q v where x: "x = (d, q, v)" by (cases x) auto
  obtain rates seen where st: "st = (rates, seen)" by fastforce
  have d: "midnight d" using assms(2) Some x by simp
  note day = decoded_wf_daily [OF assms(1) d, unfolded st fst_conv]
  have "decoded_wf base (AList.update (cacheDateKey base d) (AList.delete q day') rates)"
    if "map_of rates (cacheDateKey base d) = Some day'" for day'
    using assms(1) d day that distinct_delete [of day' q] set_delete_subset [of q day']
    by (intro decoded_wf_update) (auto simp: st daily_def)
  moreover have "decoded_wf base (AList.update (cacheDateKey base d) (AList.update q
      \<lparr>rDate = d, rBase = base, rQuote = q, rValue = v, rStale = False\<rparr> (daily rates (cacheDateKey base d))) rates)"
    if "positiveFinite v"
    using assms(1) d day that set_update_subset [of q "\<lparr>rDate = d, rBase = base, rQuote = q, rValue = v, rStale = False\<rparr>"
      "daily rates (cacheDateKey base d)"]
    by (intro decoded_wf_update) (auto simp: st distinct_update)
  ultimately show ?thesis using assms(1) by (simp add: Some x st Let_def split: option.split)
qed (use assms in simp)

lemma decoded_wf_day_ok: "decoded_wf base rates \<Longrightarrow> \<forall>e \<in> set rates. day_ok limit e"
  unfolding decoded_wf_def day_ok_def entry_ok_def by fastforce

definition asked :: "'raw fx_env \<Rightarrow> string \<Rightarrow> time \<Rightarrow> time \<Rightarrow> 'raw list \<Rightarrow> (time \<times> string \<times> f64) list" where
  "asked env base from to rows =
     map the (filter (\<lambda>x. x \<noteq> None) (map (\<lambda>raw. row_pair (fxUpper env) base from to (fxRow env raw)) rows))"

lemma decodeRates_rows:
  assumes "decodeRates env text base from to = Inr rates"
  obtains rows where "fxRows env text = Inr rows" "rows \<noteq> []"
    "rates = fst (fold (\<lambda>raw. pair_step base (row_pair (fxUpper env) base from to (fxRow env raw))) rows ([], []))"
  using assms by (auto simp: decodeRates_def decode_row_pair split: sum.splits if_splits)

lemma decodeRates_wf:
  assumes "decodeRates env text base from to = Inr rates"
  shows "decoded_wf base rates"
proof -
  obtain rows where r: "rates = fst (fold (\<lambda>raw. pair_step base (row_pair (fxUpper env) base from to (fxRow env raw))) rows ([], []))"
    using assms by (rule decodeRates_rows)
  have "decoded_wf base (fst (fold (\<lambda>raw. pair_step base (row_pair (fxUpper env) base from to (fxRow env raw))) rows ([], [])))"
  proof (induction rows rule: rev_induct)
    case (snoc row rows)
    then show ?case using row_pair_midnight by (auto intro!: pair_step_wf)
  qed (simp add: decoded_wf_def)
  then show ?thesis by (simp add: r)
qed

section \<open>Requests\<close>

definition fair_env :: "'raw fx_env \<Rightarrow> bool" where
  "fair_env env \<longleftrightarrow> (\<forall>i. visits (fxOrder env i))"

text \<open>A call that returned: the cache is well formed, the configuration unchanged, a rate answers the request.\<close>

definition answered :: "client \<Rightarrow> string \<Rightarrow> time \<Rightarrow> string \<Rightarrow> ((fx_error + Rate) \<times> fx_world) option \<Rightarrow> bool" where
  "answered c base d quote x \<longleftrightarrow> (\<exists>res w'. x = Some (res, w') \<and> cache_ok (fxClient w') \<and> config (fxClient w') = config c \<and>
     (\<forall>r. res = Inr r \<longrightarrow> entry_ok (maxStaleness c) base d quote r))"

lemma fxClient_tick [simp]: "fxClient (tick w) = fxClient w"
  by (simp add: tick_def)

lemma answered_error [simp]:
  "answered c base d quote (Some (Inl e, w)) \<longleftrightarrow> cache_ok (fxClient w) \<and> config (fxClient w) = config c"
  by (simp add: answered_def)

lemma answered_rate [simp]:
  "answered c base d quote (Some (Inr r, w)) \<longleftrightarrow>
    cache_ok (fxClient w) \<and> config (fxClient w) = config c \<and> entry_ok (maxStaleness c) base d quote r"
  by (simp add: answered_def)

lemma cache_ok_days: "cache_ok c \<Longrightarrow> cache_wf c \<and> 0 \<le> maxCacheDays c"
  by (auto simp: cache_ok_def)

lemma stale_answer:
  assumes "cache_ok (fxClient w)" and "fair_env env" and "midnight d" and "config (fxClient w) = config c"
    and "cachedStaleRate (fxOrder env i) (fxClient w) base d quote = Some r"
  shows "answered c base d quote (case storeFallback (fxOrder env j) base d r (fxClient w) of None \<Rightarrow> None
      | Some c' \<Rightarrow> Some (Inr r, tick (tick (w\<lparr>fxClient := c'\<rparr>))))"
proof -
  have limit: "maxStaleness (fxClient w) = maxStaleness c" using config_fields(1) [OF assms(4)] .
  have r: "stale_ok (maxStaleness c) base d quote r" "rStale r"
    using cachedStaleRate_ok [OF _ _ assms(5)] assms(1,2) cache_ok_days limit by (auto simp: fair_env_def)
  then obtain c' where "storeFallback (fxOrder env j) base d r (fxClient w) = Some c'" "cache_ok c'" "config c' = config (fxClient w)"
    using storeFallback_ok [of "fxClient w" "fxOrder env j" d base quote r] assms(1-3) cache_ok_days limit
    by (auto simp: fair_env_def)
  moreover have "r\<lparr>rStale := True\<rparr> = r" using r(2) by (cases r) simp
  ultimately show ?thesis using stale_entry [OF r(1)] assms(4) by simp
qed

lemma staleRateOrError_answered:
  assumes "cache_ok (fxClient w)" and "fair_env env" and "midnight d" and "config (fxClient w) = config c"
  shows "answered c base d quote (staleRateOrError env base quote d cause w)"
  using stale_answer [OF assms] assms(1,4) by (auto simp: staleRateOrError_def split: option.split)

lemma look_up_answered:
  assumes "cache_ok (fxClient w)" and "fair_env env" and "midnight d" and "config (fxClient w) = config c"
    and miss: "\<And>w'. cache_ok (fxClient w') \<Longrightarrow> config (fxClient w') = config c \<Longrightarrow> answered c base d quote (miss w')"
  shows "answered c base d quote (look_up env base quote d miss w)"
proof (cases "cachedRate (fxClient w) base d quote")
  case None
  obtain e c' where f: "cached_failure (now_at (fxClient w) (fxTick w)) base d (fxClient w) = (e, c')" by fastforce
  have "cache_ok (fxClient (tick (w\<lparr>fxClient := c'\<rparr>)))" "config (fxClient (tick (w\<lparr>fxClient := c'\<rparr>))) = config c"
    using cached_failure_keeps [OF f] assms(1,4) by simp_all
  then show ?thesis using miss staleRateOrError_answered [OF _ assms(2,3)] None f
    by (cases e) (simp_all add: look_up_def)
next
  case (Some r)
  then show ?thesis
    using cachedRate_ok [of "fxClient w" d base quote r] assms(1,3,4) cache_ok_days config_fields(1) [OF assms(4)]
    by (simp add: look_up_def)
qed

lemma getBody_keeps [simp]: "fxClient (snd (getBody env u w)) = fxClient w"
proof -
  have *: "fxClient (snd (case x of None \<Rightarrow> f | Some a \<Rightarrow> g a)) = c" if "fxClient (snd f) = c" "\<And>a. fxClient (snd (g a)) = c"
    for x :: "http_error option" and f g c using that by (cases x) simp_all
  have **: "fxClient (snd (case x of Inl a \<Rightarrow> f a | Inr a \<Rightarrow> g a)) = c" if "\<And>a. fxClient (snd (f a)) = c" "\<And>a. fxClient (snd (g a)) = c"
    for x :: "http_error + http_response" and f g c using that by (cases x) simp_all
  show ?thesis unfolding getBody_def Let_def by (intro * **) (simp_all split: prod.split option.split)
qed

lemma fetchMonth_keeps:
  assumes "cache_ok (fxClient w)" and "fair_env env"
  shows "\<exists>e w'. fetchMonth env base d w = Some (e, w') \<and> cache_ok (fxClient w') \<and> config (fxClient w') = config (fxClient w)"
proof -
  define c where "c = fxClient w"
  obtain monthStart monthEnd where mr: "month_range (now_at c (fxTick w)) d = (monthStart, monthEnd)" by fastforce
  define u where "u = rates_url env c base monthStart monthEnd"
  obtain x w1 where body: "getBody env u (tick w) = (x, w1)" by fastforce
  have w1: "fxClient w1 = c" using getBody_keeps [of env u "tick w"] body by (simp add: c_def)
  have keep: "cache_ok c" "cache_wf c" "0 \<le> maxCacheDays c" using assms(1) cache_ok_days by (simp_all add: c_def)
  show ?thesis
  proof (cases x)
    case (Inl e)
    then show ?thesis using body w1 keep
      by (simp add: fetchMonth_def Let_def c_def [symmetric] mr u_def [symmetric])
  next
    case (Inr content)
    show ?thesis
    proof (cases "decodeRates env content base (monthStart - maxStaleness c) monthEnd")
      case (Inl e)
      then show ?thesis using body w1 keep Inr
        by (simp add: fetchMonth_def Let_def c_def [symmetric] mr u_def [symmetric])
    next
      case (Inr rates)
      have wf: "decoded_wf base rates" using Inr by (rule decodeRates_wf)
      have "set (reorder (fxOrder env (fxTick w1)) rates) = set rates"
        using wf assms(2) by (intro reorder_set) (simp_all add: decoded_wf_def fair_env_def)
      then have "\<forall>e \<in> set (reorder (fxOrder env (fxTick w1)) rates). day_ok (maxStaleness c) e"
        using decoded_wf_day_ok [OF wf] by simp
      then obtain c' where "storeRates (fxOrder env (fxTick w1 + 1)) (reorder (fxOrder env (fxTick w1)) rates) c = Some c'"
          "cache_ok c'" "config c' = config c"
        using storeRates_ok keep assms(2) by (metis fair_env_def)
      then show ?thesis using body w1 \<open>x = Inr content\<close> Inr
        by (simp add: fetchMonth_def Let_def c_def [symmetric] mr u_def [symmetric] clearFailure_keeps)
    qed
  qed
qed

lemma fetch_and_look_up_answered:
  assumes "cache_ok (fxClient w)" and "fair_env env" and "midnight d" and "config (fxClient w) = config c"
  shows "answered c base d quote (fetch_and_look_up env base quote d w)"
proof -
  obtain e w' where f: "fetchMonth env base d w = Some (e, w')" and w': "cache_ok (fxClient w')" "config (fxClient w') = config c"
    using fetchMonth_keeps [OF assms(1,2), of base d] assms(4) by auto
  show ?thesis
  proof (cases e)
    case (Some err)
    define c' where "c' = (if fxCtxErr env (fxTick w') = None
      then storeFailure (now_at (fxClient w') (fxTick w')) base d err (fxClient w') else fxClient w')"
    have "cache_ok c'" "config c' = config c" using w' by (simp_all add: c'_def storeFailure_keeps)
    then have "answered c base d quote (staleRateOrError env base quote d err (tick (w'\<lparr>fxClient := c'\<rparr>)))"
      using assms(2,3) by (intro staleRateOrError_answered) simp_all
    then show ?thesis by (simp only: fetch_and_look_up_def f Some option.case prod.case Let_def c'_def)
  next
    case None
    show ?thesis
    proof (cases "cachedRate (fxClient w') base d quote")
      case (Some r)
      then show ?thesis
        using cachedRate_ok [of "fxClient w'" d base quote r] assms(3) w' cache_ok_days config_fields(1) [OF w'(2)]
        by (simp add: fetch_and_look_up_def f None)
    next
      case miss: None
      then show ?thesis using stale_answer [OF w'(1) assms(2,3) w'(2)] w'
        by (simp add: fetch_and_look_up_def f None split: option.split)
    qed
  qed
qed

lemma positiveFinite_one [simp]: "positiveFinite f64_one"
  by (simp add: positiveFinite_def f64_gt_0_def IsNaN_def IsInf_def f64_zero_def f64_negative_def f64_exponent_def
      f64_fraction_def f64_one_def)

lemma GetRate_answered:
  assumes "cache_ok (fxClient w)" and "fair_env env"
  shows "answered (fxClient w) (normalizeCurrency (fxUpper env) (rrBase req))
     (effective_date (now_at (fxClient w) (fxTick w)) (rrEffectiveAt req))
     (normalizeCurrency (fxUpper env) (rrQuote req)) (GetRate env req w)"
proof -
  define base quote d where defs: "base = normalizeCurrency (fxUpper env) (rrBase req)"
    "quote = normalizeCurrency (fxUpper env) (rrQuote req)"
    "d = effective_date (now_at (fxClient w) (fxTick w)) (rrEffectiveAt req)"
  have d: "midnight d" by (simp add: defs)
  have fetch: "answered (fxClient w) base d quote
      (case fxGate env (fxTick w') of Some e \<Rightarrow> Some (Inl (CtxErr e), tick w')
       | None \<Rightarrow> look_up env base quote d (fetch_and_look_up env base quote d) (tick w'))"
    if "cache_ok (fxClient w')" "config (fxClient w') = config (fxClient w)" for w'
    using that assms(2) d by (auto intro!: look_up_answered fetch_and_look_up_answered split: option.split)
  then show ?thesis
    unfolding GetRate_def Let_def defs [symmetric]
    using assms d by (auto simp: entry_ok_def intro!: look_up_answered)
qed

section \<open>Construction\<close>

text \<open>The options the package offers, and nil.\<close>

inductive fx_option :: "(client \<Rightarrow> client) \<Rightarrow> bool" where
  "fx_option (WithBaseURL u)"
| "fx_option (WithHTTPClient h)"
| "fx_option (WithRateLimit qps)"
| "fx_option (WithTimeout d)"
| "fx_option (WithRetry n d)"
| "fx_option (WithTransportWrapper wrapper)"
| "fx_option (WithUserAgent ua)"
| "fx_option (WithQuotes up qs)"
| "fx_option (WithMaxStaleness d)"
| "fx_option (WithFailureTTL d)"
| "fx_option (withClock clock)"

definition fresh_cache :: "client \<Rightarrow> bool" where
  "fresh_cache c \<longleftrightarrow> ratesByDate c = [] \<and> cacheStoredAt c = [] \<and> failuresByMonth c = [] \<and> maxCacheDays c = defaultMaxCachedDays"

lemma option_fresh: "fx_option f \<Longrightarrow> fresh_cache c \<Longrightarrow> fresh_cache (f c)"
  by (cases rule: fx_option.cases)
    (auto simp: fresh_cache_def WithBaseURL_def WithHTTPClient_def WithRateLimit_def WithTimeout_def WithRetry_def
      WithTransportWrapper_def WithUserAgent_def WithQuotes_def WithMaxStaleness_def WithFailureTTL_def withClock_def
      Let_def split: option.splits)

lemma options_fresh:
  "\<forall>f. Some f \<in> set opts \<longrightarrow> fx_option f \<Longrightarrow> fresh_cache c \<Longrightarrow>
    fresh_cache (fold (\<lambda>opt c. case opt of None \<Rightarrow> c | Some f \<Rightarrow> f c) opts c)"
proof (induction opts arbitrary: c)
  case (Cons opt opts)
  then have "fresh_cache (case opt of None \<Rightarrow> c | Some f \<Rightarrow> f c)" by (cases opt) (auto intro: option_fresh)
  then show ?case using Cons by simp
qed simp

lemma NewClient_fresh:
  assumes "\<forall>f. Some f \<in> set opts \<longrightarrow> fx_option f"
  shows "fresh_cache (NewClient time_now newTransport opts)"
proof -
  define c0 where "c0 = \<lparr>baseURL = ''https://api.frankfurter.dev'', userAgent = ''superform-go-utils/frankfurter'',
     quotes = [], httpClient = None, limiter = Some f64_one, transportWrapper = None, timeout = None,
     fxMaxRetries = None, fxRetryDelay = None, fxNow = Some time_now, maxStaleness = defaultMaxStaleness,
     failureTTL = defaultFailureTTL, maxCacheDays = defaultMaxCachedDays, ratesByDate = [],
     cacheStoredAt = [], cacheSequence = 0, failuresByMonth = []\<rparr>"
  have "fresh_cache (fold (\<lambda>opt c. case opt of None \<Rightarrow> c | Some f \<Rightarrow> f c) opts c0)"
    using assms by (rule options_fresh) (simp add: fresh_cache_def c0_def)
  then show ?thesis by (simp add: NewClient_def c0_def [symmetric] Let_def fresh_cache_def)
qed

lemma fresh_cache_ok: "fresh_cache c \<Longrightarrow> cache_ok c"
  by (simp add: fresh_cache_def cache_ok_def cache_wf_def defaultMaxCachedDays_def)

section \<open>Properties\<close>

text \<open>
  C32. Decoding is exact. From a month's rows \<open>decodeRates\<close> files a rate for a day and a quote if and
  only if exactly one row of the base names that day, inside the range, and that quote, and the
  rate of that row is positive and finite; a second row for the pair, equal or not, drops the pair
  and leaves every other pair alone.
\<close>

theorem decodeRates_exact:
  assumes "decodeRates env content base from to = Inr rates" and "fxRows env content = Inr rows" and "midnight d"
  shows "map_of (daily rates (cacheDateKey base d)) quote = rate_for base (asked env base from to rows) d quote"
proof -
  obtain rows' where r: "fxRows env content = Inr rows'"
    "rates = fst (fold (\<lambda>raw. pair_step base (row_pair (fxUpper env) base from to (fxRow env raw))) rows' ([], []))"
    using assms(1) by (rule decodeRates_rows)
  have "decoded base (asked env base from to rows)
      (fold (\<lambda>raw. pair_step base (row_pair (fxUpper env) base from to (fxRow env raw))) rows ([], []))"
    unfolding asked_def using row_pair_midnight by (intro decoded_fold) blast
  then show ?thesis using r assms(2,3) by (auto simp: decoded_def rate_at_def)
qed

text \<open>
  C29. Every request is answered soundly. On a well-formed cache \<open>GetRate\<close> returns, leaves the cache
  well formed and the configuration alone, and a rate it returns is a positive finite rate of the
  requested pair that is either of the effective date itself or of an earlier day and then flagged
  as stale and at most the configured staleness older than the effective date.
\<close>

theorem GetRate_sound:
  assumes "cache_ok (fxClient w)" and "fair_env env"
  shows "\<exists>res w'. GetRate env req w = Some (res, w') \<and> cache_ok (fxClient w') \<and> config (fxClient w') = config (fxClient w) \<and>
    (\<forall>r. res = Inr r \<longrightarrow>
       (let d = effective_date (now_at (fxClient w) (fxTick w)) (rrEffectiveAt req)
        in rBase r = normalizeCurrency (fxUpper env) (rrBase req) \<and> rQuote r = normalizeCurrency (fxUpper env) (rrQuote req) \<and>
           positiveFinite (rValue r) \<and>
           (rDate r = d \<and> \<not> rStale r \<or>
            rDate r < d \<and> rStale r \<and> time_sub d (rDate r) \<le> maxStaleness (fxClient w))))"
  using GetRate_answered [OF assms, of req]
  by (auto simp: answered_def entry_ok_def Let_def)

lemma staleRateOrError_send:
  "staleRateOrError (env\<lparr>fxSend := send'\<rparr>) base quote d cause w = staleRateOrError env base quote d cause w"
  by (cases "cachedStaleRate (fxOrder env (fxTick w)) (fxClient w) base d quote") (simp_all add: staleRateOrError_def)

lemma GetRate_looks_up:
  assumes "base = normalizeCurrency (fxUpper env) (rrBase req)" and "quote = normalizeCurrency (fxUpper env) (rrQuote req)"
    and "d = effective_date (now_at (fxClient w) (fxTick w)) (rrEffectiveAt req)" and "base \<noteq> []" "quote \<noteq> []" "base \<noteq> quote"
    and "quotes (fxClient w) = [] \<or> quote \<in> set (quotes (fxClient w))"
  obtains miss where "GetRate env req w = look_up env base quote d miss (tick w)"
proof -
  have "\<not> (quotes (fxClient (tick w)) \<noteq> [] \<and> \<not> Contains (quotes (fxClient (tick w))) quote)"
    using assms(7) by (auto simp: Contains_set)
  then show thesis
    using that assms(4-6) unfolding GetRate_def Let_def assms(1-3) [symmetric] by (simp only: if_False simp_thms)
qed

lemma storeFailure_live:
  assumes "0 < failureTTL c" and "cacheMonthKey base d' = cacheMonthKey base d" and "t' < t + failureTTL c"
  shows "cached_failure t' base d (storeFailure t base d' e c) = (Some e, storeFailure t base d' e c)"
  using assms by (simp add: cached_failure_def storeFailure_def Let_def AList.update_conv')

text \<open>
  Requests that are not sent. A call that finds a rate in the cache for its pair and day returns
  it, whether fresh or a stale fallback filed there earlier, at any later time and whatever the service
  would answer; and from a failed fetch until the failure TTL has passed no call for a day of that
  month sends a request.
\<close>

theorem requests_suppressed:
  assumes "base = normalizeCurrency (fxUpper env) (rrBase req)" and "quote = normalizeCurrency (fxUpper env) (rrQuote req)"
    and "d = effective_date (now_at (fxClient w) (fxTick w)) (rrEffectiveAt req)" and "base \<noteq> []" "quote \<noteq> []" "base \<noteq> quote"
    and "quotes (fxClient w) = [] \<or> quote \<in> set (quotes (fxClient w))"
  shows "(\<forall>r. cachedRate (fxClient w) base d quote = Some r \<longrightarrow> GetRate env req w = Some (Inr r, tick w)) \<and>
    (\<forall>t d' e c send'. fxClient w = storeFailure t base d' e c \<and> 0 < failureTTL c \<and> FormatMonth d' = FormatMonth d \<and>
      now_at (fxClient w) (fxTick w + 1) < t + failureTTL c \<longrightarrow>
      GetRate (env\<lparr>fxSend := send'\<rparr>) req w = GetRate env req w)"
proof (intro conjI allI impI)
  obtain miss where m: "GetRate env req w = look_up env base quote d miss (tick w)"
    using assms by (rule GetRate_looks_up)
  show "GetRate env req w = Some (Inr r, tick w)" if "cachedRate (fxClient w) base d quote = Some r" for r
    using that by (simp add: m look_up_def)
  fix t d' e c send'
  assume "fxClient w = storeFailure t base d' e c \<and> 0 < failureTTL c \<and> FormatMonth d' = FormatMonth d \<and>
      now_at (fxClient w) (fxTick w + 1) < t + failureTTL c"
  then have f: "cached_failure (now_at (fxClient w) (fxTick w + 1)) base d (fxClient w) = (Some e, fxClient w)"
    by (metis storeFailure_live cacheMonthKey_def)
  have "base = normalizeCurrency (fxUpper (env\<lparr>fxSend := send'\<rparr>)) (rrBase req)"
      "quote = normalizeCurrency (fxUpper (env\<lparr>fxSend := send'\<rparr>)) (rrQuote req)" using assms(1,2) by simp_all
  from GetRate_looks_up [OF this assms(3-7)]
  obtain miss' where m': "GetRate (env\<lparr>fxSend := send'\<rparr>) req w = look_up (env\<lparr>fxSend := send'\<rparr>) base quote d miss' (tick w)"
    by blast
  have tick: "fxTick (tick w) = fxTick w + 1" by (simp add: tick_def)
  show "GetRate (env\<lparr>fxSend := send'\<rparr>) req w = GetRate env req w"
    unfolding m m' look_up_def fxClient_tick tick f prod.case option.case staleRateOrError_send ..
qed

end
