(* ===== verification/Frankfurter_Calls.thy ===== *)
theory Frankfurter_Calls
  imports Frankfurter_Cache
begin

text \<open>
  Concurrent calls of \<open>GetRate\<close> on one client. Each critical section under \<open>cacheMu\<close> is one step, and
  so are the sends and receives on \<open>fetchGate\<close>; between two steps of a call any other call may run.
  The clock, the order of every visit of a map, the answers of the service and the caller's
  contexts are whatever the steps choose.
\<close>

section \<open>The steps of a call\<close>

text \<open>
  Where a call is. The flag says whether it is behind the gate. The cause of a look-up for a stale
  rate is the failure that led to it, or none after a successful fetch without the rate.
\<close>

datatype call_pc =
    LookUp bool
  | LookFailure bool
  | AtGate
  | Fetching
  | StoreMonth rates_by_date
  | ClearMonth
  | MonthFailed fx_error
  | LookUpFetched
  | LookStale bool "fx_error option"
  | StoreStale bool Rate
  | Done "fx_error + Rate"

record call =
  clBase :: string
  clQuote :: string
  clDate :: time
  clPc :: call_pc

fun holds_gate :: "call_pc \<Rightarrow> bool" where
  "holds_gate (LookUp g) = g"
| "holds_gate (LookFailure g) = g"
| "holds_gate (LookStale g e) = g"
| "holds_gate (StoreStale g r) = g"
| "holds_gate AtGate = False"
| "holds_gate (Done r) = False"
| "holds_gate pc = True"

definition no_rate :: "call \<Rightarrow> fx_error option \<Rightarrow> fx_error" where
  "no_rate cl cause =
     (case cause of
        None \<Rightarrow> Unavailable (''response has no '' @ clBase cl @ ''/'' @ clQuote cl @ '' rate for '' @ FormatDate (clDate cl))
      | Some e \<Rightarrow> UnavailableBecause (for_date (clBase cl) (clQuote cl) (clDate cl)) e)"

text \<open>
  One step of a call \<open>cl\<close>, on the client and the gate (whether it is taken). A call that returns
  from behind the gate releases it.
\<close>

inductive call_step :: "call \<Rightarrow> client \<Rightarrow> bool \<Rightarrow> call \<Rightarrow> client \<Rightarrow> bool \<Rightarrow> bool" where
  hit: "clPc cl = LookUp g \<Longrightarrow> cachedRate c (clBase cl) (clDate cl) (clQuote cl) = Some r \<Longrightarrow>
    call_step cl c gate (cl\<lparr>clPc := Done (Inr r)\<rparr>) c (gate \<and> \<not> g)"
| miss: "clPc cl = LookUp g \<Longrightarrow> cachedRate c (clBase cl) (clDate cl) (clQuote cl) = None \<Longrightarrow>
    call_step cl c gate (cl\<lparr>clPc := LookFailure g\<rparr>) c gate"
| failed_before: "clPc cl = LookFailure g \<Longrightarrow> cached_failure t (clBase cl) (clDate cl) c = (Some e, c') \<Longrightarrow>
    call_step cl c gate (cl\<lparr>clPc := LookStale g (Some e)\<rparr>) c' gate"
| go_to_gate: "clPc cl = LookFailure False \<Longrightarrow> cached_failure t (clBase cl) (clDate cl) c = (None, c') \<Longrightarrow>
    call_step cl c gate (cl\<lparr>clPc := AtGate\<rparr>) c' gate"
| go_fetch: "clPc cl = LookFailure True \<Longrightarrow> cached_failure t (clBase cl) (clDate cl) c = (None, c') \<Longrightarrow>
    call_step cl c gate (cl\<lparr>clPc := Fetching\<rparr>) c' gate"
| enter: "clPc cl = AtGate \<Longrightarrow> \<not> gate \<Longrightarrow> call_step cl c gate (cl\<lparr>clPc := LookUp True\<rparr>) c True"
| cancel: "clPc cl = AtGate \<Longrightarrow> call_step cl c gate (cl\<lparr>clPc := Done (Inl (CtxErr e))\<rparr>) c gate"
| fetch_error: "clPc cl = Fetching \<Longrightarrow> call_step cl c gate (cl\<lparr>clPc := MonthFailed e\<rparr>) c gate"
| fetched: "clPc cl = Fetching \<Longrightarrow> month_range t (clDate cl) = (monthStart, monthEnd) \<Longrightarrow>
    decodeRates (env :: string fx_env) content (clBase cl) (monthStart - maxStaleness c) monthEnd = Inr rates \<Longrightarrow> visits ord \<Longrightarrow>
    call_step cl c gate (cl\<lparr>clPc := StoreMonth (reorder ord rates)\<rparr>) c gate"
| store_month: "clPc cl = StoreMonth rates \<Longrightarrow> visits ord \<Longrightarrow> storeRates ord rates c = Some c' \<Longrightarrow>
    call_step cl c gate (cl\<lparr>clPc := ClearMonth\<rparr>) c' gate"
| clear_month: "clPc cl = ClearMonth \<Longrightarrow>
    call_step cl c gate (cl\<lparr>clPc := LookUpFetched\<rparr>) (clearFailure (clBase cl) (clDate cl) c) gate"
| note_failure: "clPc cl = MonthFailed e \<Longrightarrow> c' \<in> {c, storeFailure t (clBase cl) (clDate cl) e c} \<Longrightarrow>
    call_step cl c gate (cl\<lparr>clPc := LookStale True (Some e)\<rparr>) c' gate"
| hit_fetched: "clPc cl = LookUpFetched \<Longrightarrow> cachedRate c (clBase cl) (clDate cl) (clQuote cl) = Some r \<Longrightarrow>
    call_step cl c gate (cl\<lparr>clPc := Done (Inr r)\<rparr>) c False"
| miss_fetched: "clPc cl = LookUpFetched \<Longrightarrow> cachedRate c (clBase cl) (clDate cl) (clQuote cl) = None \<Longrightarrow>
    call_step cl c gate (cl\<lparr>clPc := LookStale True None\<rparr>) c gate"
| stale: "clPc cl = LookStale g e \<Longrightarrow> visits ord \<Longrightarrow> cachedStaleRate ord c (clBase cl) (clDate cl) (clQuote cl) = Some r \<Longrightarrow>
    call_step cl c gate (cl\<lparr>clPc := StoreStale g r\<rparr>) c gate"
| no_stale: "clPc cl = LookStale g e \<Longrightarrow> visits ord \<Longrightarrow> cachedStaleRate ord c (clBase cl) (clDate cl) (clQuote cl) = None \<Longrightarrow>
    call_step cl c gate (cl\<lparr>clPc := Done (Inl (no_rate cl e))\<rparr>) c (gate \<and> \<not> g)"
| store_stale: "clPc cl = StoreStale g r \<Longrightarrow> visits ord \<Longrightarrow> storeFallback ord (clBase cl) (clDate cl) r c = Some c' \<Longrightarrow>
    call_step cl c gate (cl\<lparr>clPc := Done (Inr r)\<rparr>) c' (gate \<and> \<not> g)"

inductive_cases call_step_cases: "call_step cl c gate cl' c' gate'"

text \<open>
  All calls on a client: a call starts with the currencies and the date that \<open>GetRate\<close> computed from
  its request, and then any call makes a step.
\<close>

record fx_system =
  sysClient :: client
  sysGate :: bool
  sysCalls :: "call list"

inductive fx_step :: "fx_system \<Rightarrow> fx_system \<Rightarrow> bool" where
  start: "fx_step s (s\<lparr>sysCalls := sysCalls s @ [\<lparr>clBase = normalizeCurrency up b, clQuote = normalizeCurrency up q,
     clDate = effective_date t e, clPc = LookUp False\<rparr>]\<rparr>)"
| step: "i < length (sysCalls s) \<Longrightarrow> call_step (sysCalls s ! i) (sysClient s) (sysGate s) cl' c' gate' \<Longrightarrow>
    fx_step s \<lparr>sysClient = c', sysGate = gate', sysCalls = (sysCalls s)[i := cl']\<rparr>"

definition new_system :: "client \<Rightarrow> fx_system" where
  "new_system c = \<lparr>sysClient = c, sysGate = False, sysCalls = []\<rparr>"

abbreviation fx_reachable :: "client \<Rightarrow> fx_system \<Rightarrow> bool" where
  "fx_reachable c s \<equiv> fx_step\<^sup>*\<^sup>* (new_system c) s"

section \<open>Every interleaving keeps the cache well formed\<close>

fun pc_ok :: "duration \<Rightarrow> call \<Rightarrow> call_pc \<Rightarrow> bool" where
  "pc_ok limit cl (StoreMonth rates) = (\<forall>e \<in> set rates. day_ok limit e)"
| "pc_ok limit cl (StoreStale g r) = (stale_ok limit (clBase cl) (clDate cl) (clQuote cl) r \<and> rStale r)"
| "pc_ok limit cl (Done (Inr r)) = entry_ok limit (clBase cl) (clDate cl) (clQuote cl) r"
| "pc_ok limit cl pc = True"

definition call_ok :: "duration \<Rightarrow> call \<Rightarrow> bool" where
  "call_ok limit cl \<longleftrightarrow> midnight (clDate cl) \<and> pc_ok limit cl (clPc cl)"

definition gate_holders :: "call list \<Rightarrow> nat" where
  "gate_holders cls = length (filter (\<lambda>cl. holds_gate (clPc cl)) cls)"

definition sys_ok :: "client \<Rightarrow> fx_system \<Rightarrow> bool" where
  "sys_ok c0 s \<longleftrightarrow> cache_ok (sysClient s) \<and> config (sysClient s) = config c0 \<and>
     (\<forall>cl \<in> set (sysCalls s). call_ok (maxStaleness c0) cl) \<and> gate_holders (sysCalls s) = of_bool (sysGate s)"

lemma pc_ok_update [simp]: "pc_ok limit (cl\<lparr>clPc := pc'\<rparr>) pc = pc_ok limit cl pc"
  by (cases "(limit, cl, pc)" rule: pc_ok.cases) simp_all

lemma call_step_frame:
  assumes "call_step cl c gate cl' c' gate'"
  shows "clDate cl' = clDate cl" "clBase cl' = clBase cl" "clQuote cl' = clQuote cl"
  using assms by (cases rule: call_step.cases; simp)+

lemma call_step_gate:
  assumes "call_step cl c gate cl' c' gate'" and "holds_gate (clPc cl) \<Longrightarrow> gate"
  shows "of_bool gate' + (of_bool (holds_gate (clPc cl)) :: nat) = of_bool gate + of_bool (holds_gate (clPc cl'))"
  using assms by (cases rule: call_step.cases) (auto split: if_splits)

lemma call_step_ok:
  assumes "call_step cl c gate cl' c' gate'" and "cache_ok c" and "call_ok (maxStaleness c) cl"
  shows "cache_ok c' \<and> config c' = config c \<and> call_ok (maxStaleness c) cl'"
  using assms(1)
proof (cases rule: call_step.cases)
  case (fetched t monthStart monthEnd env content rates ord)
  have wf: "decoded_wf (clBase cl) rates" using fetched by (auto intro: decodeRates_wf)
  then have "set (reorder ord rates) = set rates" using fetched by (intro reorder_set) (simp_all add: decoded_wf_def)
  then show ?thesis using decoded_wf_day_ok [OF wf] fetched assms(2,3) by (simp add: call_ok_def)
next
  case (store_month rates ord)
  then obtain c'' where "storeRates ord rates c = Some c''" "cache_ok c''" "config c'' = config c"
    using storeRates_ok [of c ord rates] assms(2,3) cache_ok_days by (auto simp: call_ok_def)
  then show ?thesis using store_month assms(3) by (simp add: call_ok_def)
next
  case (store_stale g r ord)
  have r: "stale_ok (maxStaleness c) (clBase cl) (clDate cl) (clQuote cl) r" "rStale r" "midnight (clDate cl)"
    using store_stale assms(3) by (simp_all add: call_ok_def)
  then obtain c'' where "storeFallback ord (clBase cl) (clDate cl) r c = Some c''" "cache_ok c''" "config c'' = config c"
    using storeFallback_ok [of c ord "clDate cl" "clBase cl" "clQuote cl" r] store_stale assms(2) cache_ok_days by auto
  moreover have "r\<lparr>rStale := True\<rparr> = r" using r(2) by (cases r) simp
  ultimately show ?thesis using store_stale stale_entry [OF r(1)] r(3) by (simp add: call_ok_def)
qed (use assms(2,3) cache_ok_days in
    \<open>auto simp: call_ok_def cached_failure_keeps clearFailure_keeps storeFailure_keeps
       intro: cachedRate_ok cachedStaleRate_ok dest: cachedStaleRate_ok\<close>)

lemma gate_holders_update:
  "i < length cls \<Longrightarrow> gate_holders (cls[i := cl']) + of_bool (holds_gate (clPc (cls ! i))) =
    gate_holders cls + of_bool (holds_gate (clPc cl'))"
proof (induction cls arbitrary: i)
  case (Cons cl cls)
  then show ?case by (cases i) (auto simp: gate_holders_def)
qed simp

lemma gate_holders_pos: "cl \<in> set cls \<Longrightarrow> holds_gate (clPc cl) \<Longrightarrow> 0 < gate_holders cls"
  by (auto simp: gate_holders_def length_greater_0_conv filter_empty_conv)

lemma fx_step_ok:
  assumes "fx_step s s'" and "sys_ok c0 s"
  shows "sys_ok c0 s'"
  using assms
proof cases
  case (start up b q t e)
  then show ?thesis using assms(2) by (simp add: sys_ok_def call_ok_def gate_holders_def)
next
  case (step i cl' c' gate')
  let ?cl = "sysCalls s ! i"
  have mem: "?cl \<in> set (sysCalls s)" using step(2) by simp
  have "config (sysClient s) = config c0" using assms(2) by (simp add: sys_ok_def)
  then have limit: "maxStaleness (sysClient s) = maxStaleness c0" by (rule config_fields)
  have "holds_gate (clPc ?cl) \<Longrightarrow> sysGate s"
    using gate_holders_pos [OF mem] assms(2) by (auto simp: sys_ok_def)
  then have "gate_holders ((sysCalls s)[i := cl']) = of_bool gate'"
    using call_step_gate [OF step(3)] gate_holders_update [OF step(2), of cl'] assms(2) by (simp add: sys_ok_def)
  moreover have "cache_ok c' \<and> config c' = config (sysClient s) \<and> call_ok (maxStaleness c0) cl'"
    using call_step_ok [OF step(3)] assms(2) mem by (simp add: sys_ok_def limit)
  ultimately show ?thesis
    using assms(2) set_update_subset_insert [of "sysCalls s" i cl'] by (auto simp: sys_ok_def step(1))
qed

lemma reachable_ok: "fx_reachable c s \<Longrightarrow> cache_ok c \<Longrightarrow> sys_ok c s"
proof (induction rule: rtranclp_induct)
  case base
  then show ?case by (simp add: sys_ok_def new_system_def gate_holders_def)
qed (auto intro: fx_step_ok)

lemma visits_id: "visits (\<lambda>xs. xs)"
  by (simp add: visits_def)

text \<open>A call that has not returned can make a step; waiting at the gate it can at least be cancelled.\<close>

lemma call_progress:
  assumes "cache_ok c" and "call_ok (maxStaleness c) cl" and "\<nexists>r. clPc cl = Done r"
  shows "\<exists>cl' c' gate'. call_step cl c gate cl' c' gate'"
proof (cases "clPc cl")
  case (LookUp g)
  then show ?thesis
    by (cases "cachedRate c (clBase cl) (clDate cl) (clQuote cl)") (blast intro: call_step.hit call_step.miss)+
next
  case (LookFailure g)
  obtain e c' where "cached_failure 0 (clBase cl) (clDate cl) c = (e, c')" by fastforce
  with LookFailure show ?thesis
    by (cases e; cases g) (auto intro: call_step.failed_before call_step.go_to_gate call_step.go_fetch)
next
  case (StoreMonth rates)
  then obtain c' where "storeRates (\<lambda>xs. xs) rates c = Some c'"
    using storeRates_ok [of c "\<lambda>xs. xs" rates] assms(1,2) cache_ok_days visits_id by (auto simp: call_ok_def)
  then show ?thesis using call_step.store_month [OF StoreMonth visits_id] by blast
next
  case LookUpFetched
  then show ?thesis
    by (cases "cachedRate c (clBase cl) (clDate cl) (clQuote cl)") (blast intro: call_step.hit_fetched call_step.miss_fetched)+
next
  case (LookStale g e)
  then show ?thesis using visits_id
    by (cases "cachedStaleRate (\<lambda>xs. xs) c (clBase cl) (clDate cl) (clQuote cl)") (blast intro: call_step.stale call_step.no_stale)+
next
  case (StoreStale g r)
  then obtain c' where "storeFallback (\<lambda>xs. xs) (clBase cl) (clDate cl) r c = Some c'"
    using storeFallback_ok [of c "\<lambda>xs. xs" "clDate cl" "clBase cl" "clQuote cl" r] assms(1,2) cache_ok_days visits_id
    by (auto simp: call_ok_def)
  then show ?thesis using call_step.store_stale [OF StoreStale visits_id] by blast
next
  case (Done r)
  then show ?thesis using assms(3) by simp
qed (blast intro: call_step.cancel call_step.fetch_error call_step.clear_month call_step.note_failure)+

text \<open>
  C31. The shared cache stays well typed. In every state that any interleaving of calls reaches from
  a new client, both cache maps have the same keys, each once, no more than 450 days are kept, and
  every cached rate is a positive finite rate of its own base and quote, is filed under its own date
  or, flagged as stale, under a later date within the configured staleness.
\<close>

theorem shared_cache_typed:
  assumes "\<forall>f. Some f \<in> set opts \<longrightarrow> fx_option f" and "fx_reachable (NewClient time_now newTransport opts) s"
  shows "distinct (map fst (ratesByDate (sysClient s))) \<and> distinct (map fst (cacheStoredAt (sysClient s))) \<and>
    dom (map_of (cacheStoredAt (sysClient s))) = dom (map_of (ratesByDate (sysClient s))) \<and>
    length (ratesByDate (sysClient s)) \<le> 450 \<and>
    (\<forall>base d quote r. midnight d \<longrightarrow> cachedRate (sysClient s) base d quote = Some r \<longrightarrow>
       rBase r = base \<and> rQuote r = quote \<and> positiveFinite (rValue r) \<and>
       (rDate r = d \<and> \<not> rStale r \<or>
        rDate r < d \<and> rStale r \<and> time_sub d (rDate r) \<le> maxStaleness (NewClient time_now newTransport opts)))"
proof -
  define c where "c = NewClient time_now newTransport opts"
  have fresh: "fresh_cache c" using NewClient_fresh [OF assms(1)] by (simp add: c_def)
  then have ok: "sys_ok c s" using reachable_ok assms(2) fresh_cache_ok by (simp add: c_def)
  then have wf: "cache_wf (sysClient s)" "int (length (ratesByDate (sysClient s))) \<le> maxCacheDays (sysClient s)"
    and cfg: "config (sysClient s) = config c" by (simp_all add: sys_ok_def cache_ok_def)
  have "maxCacheDays (sysClient s) = 450"
    using config_fields(2) [OF cfg] fresh by (simp add: fresh_cache_def defaultMaxCachedDays_def)
  moreover have "entry_ok (maxStaleness c) base d quote r"
    if "midnight d" "cachedRate (sysClient s) base d quote = Some r" for base d quote r
    using cachedRate_ok [OF wf(1) that] config_fields(1) [OF cfg] by simp
  then have "rBase r = base \<and> rQuote r = quote \<and> positiveFinite (rValue r) \<and>
       (rDate r = d \<and> \<not> rStale r \<or> rDate r < d \<and> rStale r \<and> time_sub d (rDate r) \<le> maxStaleness c)"
    if "midnight d" "cachedRate (sysClient s) base d quote = Some r" for base d quote r
    using that by (fastforce simp: entry_ok_def)
  ultimately show ?thesis using wf unfolding cache_wf_def c_def [symmetric] by auto
qed


end
