(* ===== verification/Frankfurter_Example.thy ===== *)
theory Frankfurter_Example
  imports Frankfurter_Calls
begin

text \<open>
  A concrete month of rates, the witnesses of the properties of the exchange-rate client, and a run
  in which a fresh rate is replaced by a stale one.
\<close>

section \<open>A month\<close>

definition ex_day :: "int \<Rightarrow> time" where
  "ex_day d = Date 2026 9 d"

definition ex_row :: "string \<Rightarrow> string \<Rightarrow> f64 \<Rightarrow> rateRow" where
  "ex_row date quote v = \<lparr>rowDate = date, rowBase = ''usd'', rowQuote = quote, rowRate = v\<rparr>"

definition ex_fx_env :: "string fx_env" where
  "ex_fx_env = \<lparr>fxUpper = id, fxGate = (\<lambda>_. None), fxCtxErr = (\<lambda>_. None), fxLimiterWait = (\<lambda>_. None),
     fxInvalid = (\<lambda>_ _. None), fxSend = (\<lambda>_ _. Inl (plain_error ''down'')),
     fxRows = (\<lambda>_. Inr [''a'', ''b'', ''c'', ''d'']),
     fxRow = (\<lambda>raw. if raw = ''a'' then Some (ex_row ''2026-09-15'' ''eur'' f64_one)
        else if raw = ''b'' then Some (ex_row ''2026-09-15'' ''KRW'' f64_one)
        else if raw = ''c'' then Some (ex_row ''2026-09-15'' ''krw'' f64_one) else None),
     fxOrder = (\<lambda>_ xs. xs), fxEncode = (\<lambda>_. [])\<rparr>"

definition ex_rate :: "int \<Rightarrow> string \<Rightarrow> Rate" where
  "ex_rate d quote = \<lparr>rDate = ex_day d, rBase = ''USD'', rQuote = quote, rValue = f64_one, rStale = False\<rparr>"

lemma ex_civil: "civil (ex_day 14) = (2026, 9, 14)" "civil (ex_day 15) = (2026, 9, 15)"
  unfolding ex_day_def by (rule civil_Date, simp add: valid_date_def daysIn_def month_lengths_def isLeap_def)+

lemma dec_nat_numeral:
  "dec_nat (numeral k) = (if numeral k < (10::nat) then [digit_char (numeral k)]
     else dec_nat (numeral k div 10) @ [digit_char (numeral k mod 10)])"
  by (rule dec_nat.simps)

lemmas ex_format = Year_def Month_def Day_def ex_civil append_int_def Let_def dec_nat_numeral dec_nat.simps [of "Suc 0"] digit_char_def

lemma ex_FormatDate: "FormatDate (ex_day 14) = ''2026-09-14''" "FormatDate (ex_day 15) = ''2026-09-15''"
  by (simp_all add: FormatDate_def ex_format)

lemma ex_midnight [simp]: "midnight (ex_day d)"
  by (simp add: ex_day_def)

lemma ex_ParseDate: "ParseDate ''2026-09-14'' = Some (ex_day 14)" "ParseDate ''2026-09-15'' = Some (ex_day 15)"
  using ParseDate_FormatDate [of "ex_day 14"] ParseDate_FormatDate [of "ex_day 15"] ex_midnight
  by (simp_all add: ex_FormatDate Year_def ex_civil midnight_def)

lemma ex_keys:
  "cacheDateKey ''USD'' (ex_day 14) = ''USD|2026-09-14''" "cacheDateKey ''USD'' (ex_day 15) = ''USD|2026-09-15''"
  "cacheMonthKey ''USD'' (ex_day 14) = ''USD|2026-09''" "cacheMonthKey ''USD'' (ex_day 15) = ''USD|2026-09''"
  by (simp_all add: cacheDateKey_def cacheMonthKey_def ex_FormatDate) (simp_all add: FormatMonth_def ex_format)

lemma ex_parse_key:
  "parseCacheDateKey ''USD|2026-09-14'' = (''USD'', ex_day 14, True)" "parseCacheDateKey ''USD|2026-09-15'' = (''USD'', ex_day 15, True)"
  by (simp_all add: parseCacheDateKey_def Cut_def ex_ParseDate)

lemma ex_trim: "TrimSpace ''2026-09-15'' = ''2026-09-15''"
  by (simp add: TrimSpace_graphic graphic_def)

lemma ex_currency:
  "normalizeCurrency up ''usd'' = ''USD''" "normalizeCurrency up ''eur'' = ''EUR''" "normalizeCurrency up ''KRW'' = ''KRW''"
  "normalizeCurrency up ''krw'' = ''KRW''"
  by (simp_all add: normalizeCurrency_def TrimSpace_graphic graphic_def ToUpper_def upper_ascii_def Let_def char_of_def bit_numeral_rec bit_0)

lemma ex_order: "ex_day 1 < ex_day 14" "ex_day 14 < ex_day 15" "ex_day 14 \<noteq> 0" "time_sub (ex_day 15) (ex_day 14) = day_ns"
  by (simp_all add: ex_day_def Date_def days_before_month_def month_lengths_def isLeap_def daysBeforeYear_def
      day_ns_def second_def time_sub_def Let_def)

lemma ex_decode:
  "from \<le> ex_day 15 \<Longrightarrow> decodeRates ex_fx_env [] ''USD'' from (ex_day 15) = Inr [(''USD|2026-09-15'', [(''EUR'', ex_rate 15 ''EUR'')])]"
  by (simp add: decodeRates_def ex_fx_env_def decode_row_def ex_row_def ex_trim ex_ParseDate ex_currency ex_keys Let_def daily_def ex_rate_def)

section \<open>Witnesses\<close>

theorem decodeRates_exact_witness:
  "map_of (daily [(''USD|2026-09-15'', [(''EUR'', ex_rate 15 ''EUR'')])] (cacheDateKey ''USD'' (ex_day 15))) ''KRW'' =
    rate_for ''USD'' (asked ex_fx_env ''USD'' (ex_day 1) (ex_day 15) [''a'', ''b'', ''c'', ''d'']) (ex_day 15) ''KRW''"
  using ex_order by (intro decodeRates_exact [OF ex_decode _ ex_midnight]) (simp_all add: ex_fx_env_def)

definition ex_new :: client where
  "ex_new = NewClient (\<lambda>_. ex_day 15) (\<lambda>_. ex_base) []"

definition ex_fx_world :: fx_world where
  "ex_fx_world = \<lparr>fxClient = ex_new, fxTick = 0\<rparr>"

definition ex_fx_request :: RateRequest where
  "ex_fx_request = \<lparr>rrBase = ''usd'', rrQuote = ''eur'', rrEffectiveAt = 0\<rparr>"

lemma ex_fair: "fair_env ex_fx_env"
  by (simp add: fair_env_def ex_fx_env_def visits_def)

lemma ex_new_ok: "cache_ok ex_new" "fresh_cache ex_new"
  using NewClient_fresh [of "[]"] fresh_cache_ok by (simp_all add: ex_new_def)

theorem GetRate_sound_witness:
  "\<exists>res w'. GetRate ex_fx_env ex_fx_request ex_fx_world = Some (res, w') \<and> cache_ok (fxClient w')"
  using GetRate_sound [of ex_fx_world ex_fx_env ex_fx_request] ex_fair ex_new_ok(1)
  by (auto simp: ex_fx_world_def)

lemma ex_new_fields: "quotes ex_new = []" "failureTTL ex_new = 300 * second" "now_at ex_new i = ex_day 15"
    "maxStaleness ex_new = 259200 * second" "maxCacheDays ex_new = 450"
  by (simp_all add: ex_new_def NewClient_def Let_def now_at_def defaultFailureTTL_def defaultMaxStaleness_def defaultMaxCachedDays_def second_def)

lemma ex_effective: "effective_date (ex_day 15) 0 = ex_day 15"
  using ex_midnight [of 15] by (simp add: effective_date_def Let_def dateUTC_eq midnight_def)

definition ex_failed_world :: fx_world where
  "ex_failed_world = \<lparr>fxClient = storeFailure (ex_day 15) ''USD'' (ex_day 15) (Plain ''down'') ex_new, fxTick = 0\<rparr>"

theorem requests_suppressed_witness:
  "GetRate (ex_fx_env\<lparr>fxSend := (\<lambda>_ _. Inr (ex_response 200 ''[]''))\<rparr>) ex_fx_request ex_failed_world =
    GetRate ex_fx_env ex_fx_request ex_failed_world"
proof -
  let ?c = "storeFailure (ex_day 15) ''USD'' (ex_day 15) (Plain ''down'') ex_new"
  have cfg: "config ?c = config ex_new" by (rule storeFailure_keeps)
  have fields: "quotes ?c = []" "now_at ?c i = ex_day 15" for i
    using config_fields(4,5) [OF cfg] by (simp_all add: ex_new_fields now_at_def) (metis ex_new_fields(3) now_at_def)
  have "0 < failureTTL ex_new" "ex_day 15 < ex_day 15 + failureTTL ex_new" by (simp_all add: ex_new_fields second_def)
  then show ?thesis
    using requests_suppressed [of "''USD''" ex_fx_env ex_fx_request "''EUR''" "ex_day 15" ex_failed_world]
    by (simp add: ex_failed_world_def ex_fx_request_def ex_currency ex_effective fields)
qed

definition ex_call :: "call_pc \<Rightarrow> call" where
  "ex_call pc = \<lparr>clBase = ''USD'', clQuote = ''EUR'', clDate = ex_day 15, clPc = pc\<rparr>"

definition ex_system :: "client \<Rightarrow> bool \<Rightarrow> call_pc list \<Rightarrow> fx_system" where
  "ex_system c gate pcs = \<lparr>sysClient = c, sysGate = gate, sysCalls = map ex_call pcs\<rparr>"

lemma ex_start: "fx_step (ex_system c gate pcs) (ex_system c gate (pcs @ [LookUp False]))"
  using fx_step.start [of "ex_system c gate pcs" id "''usd''" "''eur''" "ex_day 15" 0]
  by (simp add: ex_system_def ex_call_def ex_currency ex_effective)

theorem shared_cache_typed_witness:
  "length (ratesByDate (sysClient (ex_system (NewClient (\<lambda>_. ex_day 15) (\<lambda>_. ex_base) []) False [LookUp False]))) \<le> 450"
proof -
  have "fx_reachable ex_new (ex_system ex_new False ([] @ [LookUp False]))"
    using ex_start [of ex_new False "[]"] by (simp add: new_system_def ex_system_def)
  then show ?thesis
    using shared_cache_typed [of "[]" "\<lambda>_. ex_day 15" "\<lambda>_. ex_base"] by (simp add: ex_new_def)
qed


section \<open>A fresh rate that is lost\<close>

text \<open>
  The cache has the rate of the day before and a failure of the month that is about to expire. The
  first call finds the failure while it lasts; the second finds it expired, fetches the month and
  stores the rate of the day; the first then files the rate of the day before over it.
\<close>

definition ex_old :: client where
  "ex_old = ex_new\<lparr>ratesByDate := [(''USD|2026-09-14'', [(''EUR'', ex_rate 14 ''EUR'')])],
     cacheStoredAt := [(''USD|2026-09-14'', 1)], cacheSequence := 1,
     failuresByMonth := [(''USD|2026-09'', \<lparr>cfErr = Plain ''down'', cfRetryAfter = ex_day 15\<rparr>)]\<rparr>"

definition ex_expired :: client where
  "ex_expired = ex_old\<lparr>failuresByMonth := []\<rparr>"

definition ex_fresh :: client where
  "ex_fresh = ex_expired\<lparr>ratesByDate := [(''USD|2026-09-14'', [(''EUR'', ex_rate 14 ''EUR'')]), (''USD|2026-09-15'', [(''EUR'', ex_rate 15 ''EUR'')])],
     cacheStoredAt := [(''USD|2026-09-14'', 1), (''USD|2026-09-15'', 2)], cacheSequence := 2\<rparr>"

definition ex_stale :: Rate where
  "ex_stale = (ex_rate 14 ''EUR'')\<lparr>rStale := True\<rparr>"

definition ex_lost :: client where
  "ex_lost = ex_fresh\<lparr>ratesByDate := [(''USD|2026-09-14'', [(''EUR'', ex_rate 14 ''EUR'')]), (''USD|2026-09-15'', [(''EUR'', ex_stale)])],
     cacheStoredAt := [(''USD|2026-09-14'', 1), (''USD|2026-09-15'', 3)], cacheSequence := 3\<rparr>"

lemmas ex_clients = ex_old_def ex_expired_def ex_fresh_def ex_lost_def

lemma ex_old_ok: "cache_ok ex_old"
proof -
  have "day_ok (maxStaleness ex_new) (''USD|2026-09-14'', [(''EUR'', ex_rate 14 ''EUR'')])"
    unfolding day_ok_def
    by (intro conjI exI [of _ "''USD''"] exI [of _ "ex_day 14"]) (simp_all add: ex_keys ex_rate_def entry_ok_def)
  then show ?thesis by (simp add: cache_ok_def cache_wf_def ex_old_def ex_new_fields)
qed

lemma ex_cached:
  "cachedRate ex_old ''USD'' (ex_day 15) ''EUR'' = None" "cachedRate ex_expired ''USD'' (ex_day 15) ''EUR'' = None"
  "cachedRate ex_fresh ''USD'' (ex_day 15) ''EUR'' = Some (ex_rate 15 ''EUR'')"
  "cachedRate ex_lost ''USD'' (ex_day 15) ''EUR'' = Some ex_stale"
  by (simp_all add: cachedRate_def daily_def ex_keys ex_clients)

lemma ex_failures:
  "cached_failure (ex_day 14) ''USD'' (ex_day 15) ex_old = (Some (Plain ''down''), ex_old)"
  "cached_failure (ex_day 15) ''USD'' (ex_day 15) ex_old = (None, ex_expired)"
  "cached_failure (ex_day 15) ''USD'' (ex_day 15) ex_expired = (None, ex_expired)"
  using ex_order by (simp_all add: cached_failure_def ex_keys ex_clients ex_new_fields second_def)

lemma ex_stored: "storeRates (\<lambda>xs. xs) [(''USD|2026-09-15'', [(''EUR'', ex_rate 15 ''EUR'')])] ex_expired = Some ex_fresh"
  "storeFallback (\<lambda>xs. xs) ''USD'' (ex_day 15) ex_stale ex_fresh = Some ex_lost"
  by (simp_all add: storeRates_def storeFallback_def evict.simps store_day_def daily_def ex_keys ex_clients ex_new_fields
      ex_stale_def ex_rate_def Let_def)

lemma ex_chosen: "cachedStaleRate (\<lambda>xs. xs) ex_fresh ''USD'' (ex_day 15) ''EUR'' = Some ex_stale"
  using ex_order
  by (simp add: cachedStaleRate_def reorder_def ex_parse_key ex_clients ex_new_fields ex_rate_def ex_stale_def zero_rate_def
      day_ns_def second_def)

lemma ex_range: "month_range (ex_day 15) (ex_day 15) = (ex_day 1, ex_day 15)"
proof -
  have "AddDate (ex_day 1) 0 1 (-1) = ex_day 30"
  proof -
    have "civil (ex_day 1) = (2026, 9, 1)"
      unfolding ex_day_def by (rule civil_Date) (simp add: valid_date_def daysIn_def month_lengths_def isLeap_def)
    then show ?thesis
      by (simp add: AddDate_def Year_def Month_def Day_def ex_day_def Date_def days_before_month_def month_lengths_def isLeap_def)
  qed
  moreover have "ex_day 15 < ex_day 30" by (simp add: ex_day_def Date_def Let_def)
  moreover have "dateUTC (ex_day 15) = ex_day 15" using ex_midnight [of 15] by (simp add: dateUTC_eq midnight_def)
  moreover have "Date (Year (ex_day 15)) (Month (ex_day 15)) 1 = ex_day 1"
    unfolding Year_def Month_def ex_civil by (simp add: ex_day_def)
  ultimately show ?thesis by (simp add: month_range_def Let_def)
qed

lemma fx_one: "fx_step a b \<Longrightarrow> fx_step\<^sup>*\<^sup>* a b"
  by (rule r_into_rtranclp)

lemma fx_then: "fx_step\<^sup>*\<^sup>* a b \<Longrightarrow> fx_step b c \<Longrightarrow> fx_step\<^sup>*\<^sup>* a c"
  by (rule rtranclp.rtrancl_into_rtrancl)

lemma ex_first: "call_step (ex_call pc) c gate (ex_call pc') c' gate' \<Longrightarrow>
    fx_step (ex_system c gate (pc # pcs)) (ex_system c' gate' (pc' # pcs))"
  using fx_step.step [of 0 "ex_system c gate (pc # pcs)" "ex_call pc'" c' gate'] by (simp add: ex_system_def)

lemma ex_second: "call_step (ex_call pc) c gate (ex_call pc') c' gate' \<Longrightarrow>
    fx_step (ex_system c gate [x, pc]) (ex_system c' gate' [x, pc'])"
  using fx_step.step [of 1 "ex_system c gate [x, pc]" "ex_call pc'" c' gate'] by (simp add: ex_system_def)

lemma ex_steps:
  "call_step (ex_call (LookUp False)) ex_old gate (ex_call (LookFailure False)) ex_old gate"
  "call_step (ex_call (LookFailure False)) ex_old gate (ex_call (LookStale False (Some (Plain ''down'')))) ex_old gate"
  "call_step (ex_call (LookFailure False)) ex_old gate (ex_call AtGate) ex_expired gate"
  "call_step (ex_call AtGate) ex_expired False (ex_call (LookUp True)) ex_expired True"
  "call_step (ex_call (LookUp True)) ex_expired gate (ex_call (LookFailure True)) ex_expired gate"
  "call_step (ex_call (LookFailure True)) ex_expired gate (ex_call Fetching) ex_expired gate"
  "call_step (ex_call Fetching) ex_expired gate
     (ex_call (StoreMonth [(''USD|2026-09-15'', [(''EUR'', ex_rate 15 ''EUR'')])])) ex_expired gate"
  "call_step (ex_call (StoreMonth [(''USD|2026-09-15'', [(''EUR'', ex_rate 15 ''EUR'')])])) ex_expired gate
     (ex_call ClearMonth) ex_fresh gate"
  "call_step (ex_call (LookStale False (Some (Plain ''down'')))) ex_fresh gate (ex_call (StoreStale False ex_stale)) ex_fresh gate"
  "call_step (ex_call (StoreStale False ex_stale)) ex_fresh gate (ex_call (Done (Inr ex_stale))) ex_lost gate"
proof -
  have upd: "(ex_call pc)\<lparr>clPc := pc'\<rparr> = ex_call pc'" and fields: "clBase (ex_call pc) = ''USD''"
      "clQuote (ex_call pc) = ''EUR''" "clDate (ex_call pc) = ex_day 15" "clPc (ex_call pc) = pc" for pc pc'
    by (simp_all add: ex_call_def)
  note miss = call_step.miss [where cl = "ex_call pc" for pc, unfolded upd fields]
  show "call_step (ex_call (LookUp False)) ex_old gate (ex_call (LookFailure False)) ex_old gate"
    "call_step (ex_call (LookUp True)) ex_expired gate (ex_call (LookFailure True)) ex_expired gate"
    by (rule miss; simp add: ex_cached)+
  show "call_step (ex_call (LookFailure False)) ex_old gate (ex_call (LookStale False (Some (Plain ''down'')))) ex_old gate"
    using call_step.failed_before [of "ex_call (LookFailure False)" False "ex_day 14"] ex_failures(1) by (simp add: upd fields)
  show "call_step (ex_call (LookFailure False)) ex_old gate (ex_call AtGate) ex_expired gate"
    using call_step.go_to_gate [of "ex_call (LookFailure False)" "ex_day 15"] ex_failures(2) by (simp add: upd fields)
  show "call_step (ex_call AtGate) ex_expired False (ex_call (LookUp True)) ex_expired True"
    using call_step.enter [of "ex_call AtGate" False] by (simp add: upd fields)
  show "call_step (ex_call (LookFailure True)) ex_expired gate (ex_call Fetching) ex_expired gate"
    using call_step.go_fetch [of "ex_call (LookFailure True)" "ex_day 15"] ex_failures(3) by (simp add: upd fields)
  have "maxStaleness ex_expired = 259200 * second" by (simp add: ex_clients ex_new_fields)
  then have "decodeRates ex_fx_env [] ''USD'' (ex_day 1 - maxStaleness ex_expired) (ex_day 15) =
      Inr [(''USD|2026-09-15'', [(''EUR'', ex_rate 15 ''EUR'')])]"
    using ex_order by (intro ex_decode) (simp add: second_def)
  then show "call_step (ex_call Fetching) ex_expired gate
     (ex_call (StoreMonth [(''USD|2026-09-15'', [(''EUR'', ex_rate 15 ''EUR'')])])) ex_expired gate"
    using call_step.fetched [of "ex_call Fetching" "ex_day 15" "ex_day 1" "ex_day 15" ex_fx_env "[]" ex_expired _ "\<lambda>xs. xs" gate]
      ex_range visits_id by (simp add: upd fields reorder_def)
  show "call_step (ex_call (StoreMonth [(''USD|2026-09-15'', [(''EUR'', ex_rate 15 ''EUR'')])])) ex_expired gate
     (ex_call ClearMonth) ex_fresh gate"
    using call_step.store_month [of "ex_call (StoreMonth [(''USD|2026-09-15'', [(''EUR'', ex_rate 15 ''EUR'')])])" _ "\<lambda>xs. xs"]
      visits_id ex_stored(1) by (simp add: upd fields)
  show "call_step (ex_call (LookStale False (Some (Plain ''down'')))) ex_fresh gate (ex_call (StoreStale False ex_stale)) ex_fresh gate"
    using call_step.stale [of "ex_call (LookStale False (Some (Plain ''down'')))" False _ "\<lambda>xs. xs"] visits_id ex_chosen
    by (simp add: upd fields)
  show "call_step (ex_call (StoreStale False ex_stale)) ex_fresh gate (ex_call (Done (Inr ex_stale))) ex_lost gate"
    using call_step.store_stale [of "ex_call (StoreStale False ex_stale)" False ex_stale "\<lambda>xs. xs" ex_fresh ex_lost gate]
      visits_id ex_stored(2) by (simp add: upd fields)
qed


end
