(* ===== verification/Pg_Rows.thy ===== *)
theory Pg_Rows
  imports Mem_Queue Go_Hex Go_Text
begin

text \<open>
  \<open>evm/txmngr/txmngr_provider/pg/util.go\<close>: how the PostgreSQL provider turns transactions and attempts
  into columns and back. \<open>Address.Hex\<close>, \<open>HexToAddress\<close>, \<open>HexToHash\<close> and the JSON forms of go-ethereum's
  transactions, receipts and authorizations are the fields of a \<open>pg_codec\<close>. A row of a table maps
  column names to values; a statement that sets columns leaves the others as they were.
\<close>

section \<open>Values and models\<close>

datatype sql_value = VNull | VText string | VInt int | VBool bool | VTime time | VBytes bytes

type_synonym sql_row = "string \<rightharpoonup> sql_value"

record pg_codec =
  pcAddressHex :: "address \<Rightarrow> string"
  pcHexToAddress :: "string \<Rightarrow> address"
  pcHexToHash :: "string \<Rightarrow> hash"
  pcMarshalTx :: "eth_tx \<Rightarrow> go_error + string"
  pcUnmarshalTx :: "string \<Rightarrow> go_error + eth_tx"
  pcMarshalReceipt :: "receipt \<Rightarrow> go_error + string"
  pcUnmarshalReceipt :: "string \<Rightarrow> go_error + receipt"
  pcMarshalAuths :: "SetCodeAuthorization list \<Rightarrow> go_error + string"
  pcUnmarshalAuths :: "string \<Rightarrow> go_error + SetCodeAuthorization list"

fun status_text :: "TxStatus \<Rightarrow> string" where
  "status_text SucceedTxStatus = ''succeed''"
| "status_text ErroredTxStatus = ''errored''"
| "status_text ProcessingTxStatus = ''processing''"
| "status_text ConfirmingTxStatus = ''confirming''"
| "status_text PendingTxStatus = ''pending''"
| "status_text FailedTxStatus = ''failed''"

record attemptModel =
  amTransactionID :: string
  amTxHash :: string
  amNonce :: u64
  amRawTx :: string
  amCreatedAt :: time

record txModel =
  mID :: string
  mChainID :: u64
  mIntentID :: "string option"
  mOperationKey :: "string option"
  mPayloadHash :: "string option"
  mSender :: "string option"
  mAddress :: string
  mValue :: string
  mData :: bytes
  mGasLimit :: u64
  mRawAuthorizations :: "string option"
  mAssignedNonce :: "u64 option"
  mRawTx :: string
  mRawReceipt :: string
  mStatus :: TxStatus
  mMsg :: string
  mNextActionAt :: time
  mBroadcastPending :: bool
  mRejectedAttemptHash :: "string option"
  mNonceConsumedAt :: "time option"
  mNotifiedAt :: "time option"
  mNotificationAttempts :: u32
  mNextNotificationAt :: time
  mNotificationError :: string
  mUpdatedAt :: time
  mCreatedAt :: time

section \<open>Writing\<close>

definition nullable :: "('a \<Rightarrow> sql_value) \<Rightarrow> 'a option \<Rightarrow> sql_value" where
  "nullable f x = (case x of None \<Rightarrow> VNull | Some y \<Rightarrow> f y)"

definition nullableAddress :: "pg_codec \<Rightarrow> address \<Rightarrow> string option" where
  "nullableAddress C a = (if a = 0 then None else Some (pcAddressHex C a))"

definition pointerValue :: "string option \<Rightarrow> string" where
  "pointerValue v = (case v of None \<Rightarrow> [] | Some s \<Rightarrow> s)"

definition plain_fields :: "pg_codec \<Rightarrow> Transaction \<Rightarrow> (string \<times> sql_value) list" where
  "plain_fields C tx =
     (let val = (case Value tx of None \<Rightarrow> 0 | Some v \<Rightarrow> v)
      in [(''id'', VText (ID tx)), (''chain_id'', VInt (uint (ChainID tx))), (''intent_id'', nullable VText (IntentID tx)),
          (''operation_key'', nullable VText (OperationKey tx)), (''payload_hash'', nullable VText (PayloadHash tx)),
          (''sender'', nullable VText (nullableAddress C (Sender tx))), (''address'', VText (pcAddressHex C (Address tx))),
          (''value'', VText (dec_int val)), (''data'', VBytes (Data tx)), (''gas_limit'', VInt (uint (GasLimit tx))),
          (''assigned_nonce'', nullable (\<lambda>n. VInt (uint n)) (AssignedNonce tx)), (''status'', VText (status_text (Status tx))),
          (''msg'', VText (Msg tx)), (''next_action_at'', VTime (NextActionAt tx)),
          (''broadcast_pending'', VBool (BroadcastPending tx)),
          (''rejected_attempt_hash'', nullable VText (RejectedAttemptHash tx)),
          (''nonce_consumed_at'', nullable VTime (NonceConsumedAt tx)), (''notified_at'', nullable VTime (NotifiedAt tx)),
          (''notification_attempts'', VInt (uint (NotificationAttempts tx))),
          (''next_notification_at'', VTime (NextNotificationAt tx)), (''notification_error'', VText (NotificationError tx)),
          (''updated_at'', VTime (UpdatedAt tx)), (''created_at'', VTime (CreatedAt tx))])"

text \<open>A column that is only written when the value is not nil.\<close>

definition raw_field :: "string \<Rightarrow> string \<Rightarrow> ('a \<Rightarrow> go_error + string) \<Rightarrow> 'a option \<Rightarrow> go_error + (string \<times> sql_value) list" where
  "raw_field what column marshal x =
     (case x of
        None \<Rightarrow> Inr []
      | Some v \<Rightarrow> (case marshal v of Inl e \<Rightarrow> Inl (wrapf (''failed to marshal '' @ what) e)
                    | Inr text \<Rightarrow> Inr [(column, VText text)]))"

text \<open>A nil slice of authorizations is the empty list of the model.\<close>

definition transactionToTxModel :: "pg_codec \<Rightarrow> Transaction \<Rightarrow> go_error + (string \<times> sql_value) list" where
  "transactionToTxModel C tx =
     (case raw_field ''raw authorizations'' ''raw_authorizations'' (pcMarshalAuths C)
             (if RawAuthorizations tx = [] then None else Some (RawAuthorizations tx)) of
        Inl e \<Rightarrow> Inl e
      | Inr auths \<Rightarrow>
          (case raw_field ''raw tx'' ''raw_tx'' (pcMarshalTx C) (Tx tx) of
             Inl e \<Rightarrow> Inl e
           | Inr rawTx \<Rightarrow>
               (case raw_field ''raw receipt'' ''raw_receipt'' (pcMarshalReceipt C) (Receipt tx) of
                  Inl e \<Rightarrow> Inl e
                | Inr rawReceipt \<Rightarrow> Inr (plain_fields C tx @ auths @ rawTx @ rawReceipt))))"

definition attemptToModel :: "pg_codec \<Rightarrow> TransactionAttempt \<Rightarrow> go_error + (string \<times> sql_value) list" where
  "attemptToModel C a =
     (case attTx a of
        None \<Rightarrow> Inl (errors_new None ''transaction attempt is missing raw transaction'')
      | Some tx \<Rightarrow>
          (case pcMarshalTx C tx of
             Inl e \<Rightarrow> Inl (wrapf ''failed to marshal transaction attempt'' e)
           | Inr rawTx \<Rightarrow> Inr [(''transaction_id'', VText (attTransactionID a)), (''tx_hash'', VText (hash_hex (attHash a))),
               (''nonce'', VInt (uint (attNonce a))), (''raw_tx'', VText rawTx), (''created_at'', VTime (attCreatedAt a))]))"

definition qualifyColumns :: "string \<Rightarrow> string list \<Rightarrow> string list" where
  "qualifyColumns table columns = map (\<lambda>c. table @ ''.'' @ c) columns"

section \<open>Reading\<close>

text \<open>
  Scanning a row into the model, by the types of its fields. A column of a type that the field does
  not accept is an error of the database layer (\<open>None\<close>). A text that is no status is outside the model.
\<close>

fun scan_text :: "sql_value option \<Rightarrow> string option" where
  "scan_text (Some (VText s)) = Some s" | "scan_text v = None"

fun scan_time :: "sql_value option \<Rightarrow> time option" where
  "scan_time (Some (VTime t)) = Some t" | "scan_time v = None"

fun scan_bool :: "sql_value option \<Rightarrow> bool option" where
  "scan_bool (Some (VBool b)) = Some b" | "scan_bool v = None"

fun scan_bytes :: "sql_value option \<Rightarrow> bytes option" where
  "scan_bytes (Some (VBytes b)) = Some b" | "scan_bytes (Some VNull) = Some []" | "scan_bytes v = None"

fun scan_uint :: "sql_value option \<Rightarrow> 'w::len word option" where
  "scan_uint (Some (VInt n)) = (if 0 \<le> n \<and> n < 2 ^ LENGTH('w) then Some (word_of_int n) else None)"
| "scan_uint v = None"

definition scan_null :: "(sql_value option \<Rightarrow> 'a option) \<Rightarrow> sql_value option \<Rightarrow> 'a option option" where
  "scan_null f v = (if v = Some VNull then Some None else map_option Some (f v))"

definition scan_status :: "sql_value option \<Rightarrow> TxStatus option" where
  "scan_status v = (case scan_text v of None \<Rightarrow> None
     | Some s \<Rightarrow> find (\<lambda>st. status_text st = s) (ActiveStatuses @ TerminalStatuses))"

definition scan_row :: "sql_row \<Rightarrow> txModel option" where
  "scan_row r =
     Option.bind (scan_text (r ''id'')) (\<lambda>i.
     Option.bind (scan_uint (r ''chain_id'')) (\<lambda>chain.
     Option.bind (scan_null scan_text (r ''intent_id'')) (\<lambda>intent.
     Option.bind (scan_null scan_text (r ''operation_key'')) (\<lambda>key.
     Option.bind (scan_null scan_text (r ''payload_hash'')) (\<lambda>payload.
     Option.bind (scan_null scan_text (r ''sender'')) (\<lambda>sender.
     Option.bind (scan_text (r ''address'')) (\<lambda>addr.
     Option.bind (scan_text (r ''value'')) (\<lambda>val.
     Option.bind (scan_bytes (r ''data'')) (\<lambda>data.
     Option.bind (scan_uint (r ''gas_limit'')) (\<lambda>gas.
     Option.bind (scan_null scan_text (r ''raw_authorizations'')) (\<lambda>auths.
     Option.bind (scan_null scan_uint (r ''assigned_nonce'')) (\<lambda>nonce.
     Option.bind (scan_text (r ''raw_tx'')) (\<lambda>rawTx.
     Option.bind (scan_text (r ''raw_receipt'')) (\<lambda>rawReceipt.
     Option.bind (scan_status (r ''status'')) (\<lambda>status.
     Option.bind (scan_text (r ''msg'')) (\<lambda>msg.
     Option.bind (scan_time (r ''next_action_at'')) (\<lambda>nextAction.
     Option.bind (scan_bool (r ''broadcast_pending'')) (\<lambda>pending.
     Option.bind (scan_null scan_text (r ''rejected_attempt_hash'')) (\<lambda>rejected.
     Option.bind (scan_null scan_time (r ''nonce_consumed_at'')) (\<lambda>consumed.
     Option.bind (scan_null scan_time (r ''notified_at'')) (\<lambda>notified.
     Option.bind (scan_uint (r ''notification_attempts'')) (\<lambda>tries.
     Option.bind (scan_time (r ''next_notification_at'')) (\<lambda>nextNotification.
     Option.bind (scan_text (r ''notification_error'')) (\<lambda>nerr.
     Option.bind (scan_time (r ''updated_at'')) (\<lambda>updated.
     Option.bind (scan_time (r ''created_at'')) (\<lambda>created.
       Some \<lparr>mID = i, mChainID = chain, mIntentID = intent, mOperationKey = key, mPayloadHash = payload, mSender = sender,
         mAddress = addr, mValue = val, mData = data, mGasLimit = gas, mRawAuthorizations = auths, mAssignedNonce = nonce,
         mRawTx = rawTx, mRawReceipt = rawReceipt, mStatus = status, mMsg = msg, mNextActionAt = nextAction,
         mBroadcastPending = pending, mRejectedAttemptHash = rejected, mNonceConsumedAt = consumed, mNotifiedAt = notified,
         mNotificationAttempts = tries, mNextNotificationAt = nextNotification, mNotificationError = nerr,
         mUpdatedAt = updated, mCreatedAt = created\<rparr>))))))))))))))))))))))))))"

text \<open>\<open>common.BytesToHash\<close> of at most 32 bytes is the word of their value.\<close>

definition normalizedHash :: "string option \<Rightarrow> string option" where
  "normalizedHash v =
     (case v of None \<Rightarrow> None
      | Some original \<Rightarrow>
          let digits = (if take 2 original = ''0x'' \<or> take 2 original = ''0X'' then drop 2 original else original)
          in if length digits = 0 \<or> length digits > 64 then Some original
             else let digits = (if length digits mod 2 \<noteq> 0 then CHR ''0'' # digits else digits)
                  in case hex_decode digits of
                       None \<Rightarrow> Some original
                     | Some decoded \<Rightarrow> Some (hash_hex (of_nat (bytes_value decoded))))"

definition decode_raws :: "pg_codec \<Rightarrow> string option \<Rightarrow> string \<Rightarrow> string \<Rightarrow>
    go_error + SetCodeAuthorization list \<times> eth_tx option \<times> receipt option" where
  "decode_raws C ra rt rr =
     (case (if pointerValue ra \<noteq> [] then pcUnmarshalAuths C (pointerValue ra) else Inr []) of
        Inl e \<Rightarrow> Inl (wrapf ''failed to unmarshal raw authorizations'' e)
      | Inr auths \<Rightarrow>
          (case (if rt \<noteq> ''{}'' \<and> rt \<noteq> [] then map_sum id Some (pcUnmarshalTx C rt) else Inr None) of
             Inl e \<Rightarrow> Inl (wrapf ''failed to unmarshal raw tx'' e)
           | Inr ethTx \<Rightarrow>
               (case (if rr \<noteq> ''{}'' \<and> rr \<noteq> [] then map_sum id Some (pcUnmarshalReceipt C rr) else Inr None) of
                  Inl e \<Rightarrow> Inl (wrapf ''failed to unmarshal raw receipt'' e)
                | Inr rcpt \<Rightarrow> Inr (auths, ethTx, rcpt))))"

definition txModelToTransaction :: "pg_codec \<Rightarrow> txModel \<Rightarrow> go_error + Transaction" where
  "txModelToTransaction C m =
     (case decode_raws C (mRawAuthorizations m) (mRawTx m) (mRawReceipt m) of
        Inl e \<Rightarrow> Inl e
      | Inr (auths, ethTx, rcpt) \<Rightarrow>
          (case SetString (mValue m) of
             None \<Rightarrow> Inl (errors_new None ''failed to parse value'')
           | Some val \<Rightarrow> Inr \<lparr>ID = mID m, IntentID = mIntentID m, OperationKey = mOperationKey m, PayloadHash = mPayloadHash m,
               ChainID = mChainID m, Sender = pcHexToAddress C (pointerValue (mSender m)), Address = pcHexToAddress C (mAddress m),
               Data = mData m, Value = Some val, GasLimit = mGasLimit m, RawAuthorizations = auths,
               AssignedNonce = mAssignedNonce m, Tx = ethTx, Receipt = rcpt, Status = mStatus m, Msg = mMsg m,
               NextActionAt = mNextActionAt m, BroadcastPending = mBroadcastPending m,
               RejectedAttemptHash = normalizedHash (mRejectedAttemptHash m), NonceConsumedAt = mNonceConsumedAt m,
               NotifiedAt = mNotifiedAt m, NotificationAttempts = mNotificationAttempts m,
               NextNotificationAt = mNextNotificationAt m, NotificationError = mNotificationError m,
               UpdatedAt = mUpdatedAt m, CreatedAt = mCreatedAt m\<rparr>))"

definition attemptModelToAttempt :: "pg_codec \<Rightarrow> attemptModel \<Rightarrow> go_error + TransactionAttempt" where
  "attemptModelToAttempt C m =
     (case pcUnmarshalTx C (amRawTx m) of
        Inl e \<Rightarrow> Inl (wrapf ''failed to unmarshal transaction attempt'' e)
      | Inr tx \<Rightarrow> Inr \<lparr>attTransactionID = amTransactionID m, attHash = pcHexToHash C (amTxHash m), attNonce = amNonce m,
          attTx = Some tx, attCreatedAt = amCreatedAt m\<rparr>)"

fun attemptModelsToAttempts :: "pg_codec \<Rightarrow> attemptModel list \<Rightarrow> go_error + TransactionAttempt list" where
  "attemptModelsToAttempts C [] = Inr []"
| "attemptModelsToAttempts C (m # ms) =
     (case attemptModelToAttempt C m of
        Inl e \<Rightarrow> Inl (wrapf (''converting transaction attempt '' @ amTxHash m) e)
      | Inr a \<Rightarrow> (case attemptModelsToAttempts C ms of Inl e \<Rightarrow> Inl e | Inr as \<Rightarrow> Inr (a # as)))"

definition scan_attempt :: "sql_row \<Rightarrow> attemptModel option" where
  "scan_attempt r =
     Option.bind (scan_text (r ''transaction_id'')) (\<lambda>i.
     Option.bind (scan_text (r ''tx_hash'')) (\<lambda>h.
     Option.bind (scan_uint (r ''nonce'')) (\<lambda>n.
     Option.bind (scan_text (r ''raw_tx'')) (\<lambda>raw.
     Option.bind (scan_time (r ''created_at'')) (\<lambda>t.
       Some \<lparr>amTransactionID = i, amTxHash = h, amNonce = n, amRawTx = raw, amCreatedAt = t\<rparr>)))))"

section \<open>Reading back what was written\<close>

text \<open>\<open>INSERT\<close> and \<open>UPDATE ... SET\<close>: the listed columns over the defaults or the old row.\<close>

definition sql_set :: "sql_row \<Rightarrow> (string \<times> sql_value) list \<Rightarrow> sql_row" where
  "sql_set old cols = old ++ map_of cols"

text \<open>
  What the code relies on of go-ethereum: the text forms of addresses and hashes and the JSON forms
  are read back as they were, and no JSON form is empty.
\<close>

definition codec_ok :: "pg_codec \<Rightarrow> bool" where
  "codec_ok C \<longleftrightarrow> (\<forall>a. pcHexToAddress C (pcAddressHex C a) = a) \<and> pcHexToAddress C [] = 0 \<and>
     (\<forall>h. pcHexToHash C (hash_hex h) = h) \<and>
     (\<forall>t s. pcMarshalTx C t = Inr s \<longrightarrow> pcUnmarshalTx C s = Inr t \<and> s \<noteq> [] \<and> s \<noteq> ''{}'') \<and>
     (\<forall>t s. pcMarshalReceipt C t = Inr s \<longrightarrow> pcUnmarshalReceipt C s = Inr t \<and> s \<noteq> [] \<and> s \<noteq> ''{}'') \<and>
     (\<forall>t s. pcMarshalAuths C t = Inr s \<longrightarrow> pcUnmarshalAuths C s = Inr t \<and> s \<noteq> [])"

lemma scan_uint_uint [simp]: "scan_uint (Some (VInt (uint w))) = Some w"
  by simp

lemma scan_null_nullable [simp]:
  "scan_null scan_text (Some (nullable VText x)) = Some x" "scan_null scan_time (Some (nullable VTime t)) = Some t"
  "scan_null scan_uint (Some (nullable (\<lambda>n. VInt (uint n)) w)) = Some w"
  by (cases x, simp_all add: scan_null_def nullable_def) (cases t, simp_all, cases w, simp_all)

lemma scan_status_text [simp]: "scan_status (Some (VText (status_text st))) = Some st"
  by (cases st) (simp_all add: scan_status_def ActiveStatuses_def TerminalStatuses_def)

text \<open>The three columns a row may leave unset, and what they decode to.\<close>

definition raws_of :: "pg_codec \<Rightarrow> sql_row \<Rightarrow> SetCodeAuthorization list \<times> eth_tx option \<times> receipt option \<Rightarrow> bool" where
  "raws_of C r x \<longleftrightarrow> (\<exists>ra rt rr. r ''raw_authorizations'' = Some (nullable VText ra) \<and> r ''raw_tx'' = Some (VText rt) \<and>
     r ''raw_receipt'' = Some (VText rr) \<and> decode_raws C ra rt rr = Inr x)"

lemma decode_raws_Inr:
  "decode_raws C ra rt rr = Inr (a, t, r) \<longleftrightarrow>
     (if pointerValue ra \<noteq> [] then pcUnmarshalAuths C (pointerValue ra) else Inr []) = Inr a \<and>
     (if rt \<noteq> ''{}'' \<and> rt \<noteq> [] then map_sum id Some (pcUnmarshalTx C rt) else Inr None) = Inr t \<and>
     (if rr \<noteq> ''{}'' \<and> rr \<noteq> [] then map_sum id Some (pcUnmarshalReceipt C rr) else Inr None) = Inr r"
  by (auto simp: decode_raws_def split: sum.splits)

lemma raws_of_set:
  assumes "codec_ok C" and "raws_of C old (a, t, r)" and "transactionToTxModel C tx = Inr cols"
  shows "raws_of C (sql_set old cols)
     (if RawAuthorizations tx = [] then a else RawAuthorizations tx,
      case Tx tx of None \<Rightarrow> t | Some x \<Rightarrow> Some x, case Receipt tx of None \<Rightarrow> r | Some x \<Rightarrow> Some x)"
proof -
  obtain ra rt rr where old: "old ''raw_authorizations'' = Some (nullable VText ra)" "old ''raw_tx'' = Some (VText rt)"
      "old ''raw_receipt'' = Some (VText rr)" and dec: "decode_raws C ra rt rr = Inr (a, t, r)"
    using assms(2) by (auto simp: raws_of_def)
  obtain f1 f2 f3 where
    f1: "raw_field ''raw authorizations'' ''raw_authorizations'' (pcMarshalAuths C)
       (if RawAuthorizations tx = [] then None else Some (RawAuthorizations tx)) = Inr f1" and
    f2: "raw_field ''raw tx'' ''raw_tx'' (pcMarshalTx C) (Tx tx) = Inr f2" and
    f3: "raw_field ''raw receipt'' ''raw_receipt'' (pcMarshalReceipt C) (Receipt tx) = Inr f3" and
    cols: "cols = plain_fields C tx @ f1 @ f2 @ f3"
    using assms(3) by (auto simp: transactionToTxModel_def split: sum.splits)
  have plain: "map_of (plain_fields C tx) ''raw_authorizations'' = None" "map_of (plain_fields C tx) ''raw_tx'' = None"
      "map_of (plain_fields C tx) ''raw_receipt'' = None"
    by (simp_all add: plain_fields_def Let_def)
  define ra' where "ra' = (if RawAuthorizations tx = [] then ra else case f1 of [(_, VText s)] \<Rightarrow> Some s | _ \<Rightarrow> None)"
  define rt' where "rt' = (case f2 of [(_, VText s)] \<Rightarrow> s | _ \<Rightarrow> rt)"
  define rr' where "rr' = (case f3 of [(_, VText s)] \<Rightarrow> s | _ \<Rightarrow> rr)"
  have c1: "f1 = [] \<and> RawAuthorizations tx = [] \<or> (\<exists>s. f1 = [(''raw_authorizations'', VText s)] \<and>
      RawAuthorizations tx \<noteq> [] \<and> pcMarshalAuths C (RawAuthorizations tx) = Inr s)"
    using f1 by (auto simp: raw_field_def split: if_splits sum.splits)
  have c2: "f2 = [] \<and> Tx tx = None \<or> (\<exists>s x. f2 = [(''raw_tx'', VText s)] \<and> Tx tx = Some x \<and> pcMarshalTx C x = Inr s)"
    using f2 by (auto simp: raw_field_def split: option.splits sum.splits)
  have c3: "f3 = [] \<and> Receipt tx = None \<or> (\<exists>s x. f3 = [(''raw_receipt'', VText s)] \<and> Receipt tx = Some x \<and> pcMarshalReceipt C x = Inr s)"
    using f3 by (auto simp: raw_field_def split: option.splits sum.splits)
  have "sql_set old cols ''raw_authorizations'' = Some (nullable VText ra')"
    using c1 c2 c3 plain(1) old(1) by (auto simp: sql_set_def cols map_add_def ra'_def nullable_def)
  moreover have "sql_set old cols ''raw_tx'' = Some (VText rt')"
    using c1 c2 c3 plain(2) old(2) by (auto simp: sql_set_def cols map_add_def rt'_def)
  moreover have "sql_set old cols ''raw_receipt'' = Some (VText rr')"
    using c1 c2 c3 plain(3) old(3) by (auto simp: sql_set_def cols map_add_def rr'_def)
  moreover have "decode_raws C ra' rt' rr' = Inr (if RawAuthorizations tx = [] then a else RawAuthorizations tx,
      case Tx tx of None \<Rightarrow> t | Some x \<Rightarrow> Some x, case Receipt tx of None \<Rightarrow> r | Some x \<Rightarrow> Some x)"
    unfolding decode_raws_Inr using dec [unfolded decode_raws_Inr] c1 c2 c3 assms(1)
    by (intro conjI) (auto simp: codec_ok_def ra'_def rt'_def rr'_def pointerValue_def)
  ultimately show ?thesis unfolding raws_of_def by blast
qed

lemma SetString_dec_int [simp]: "SetString (dec_int v) = Some v"
proof (cases "v < 0")
  case True
  then show ?thesis using dec_nat_digits by (auto simp: SetString_def dec_int_def list_all_iff)
next
  case False
  then show ?thesis using dec_nat_digits SetString_digits [of "dec_nat (nat v)"] by (simp add: dec_int_def)
qed

text \<open>What a transaction is read back as, over the raw columns that were there before.\<close>

definition read_back :: "SetCodeAuthorization list \<times> eth_tx option \<times> receipt option \<Rightarrow> Transaction \<Rightarrow> Transaction" where
  "read_back raws tx = tx\<lparr>Value := Some (case Value tx of None \<Rightarrow> 0 | Some v \<Rightarrow> v),
     RejectedAttemptHash := normalizedHash (RejectedAttemptHash tx),
     RawAuthorizations := (if RawAuthorizations tx = [] then fst raws else RawAuthorizations tx),
     Tx := (case Tx tx of None \<Rightarrow> fst (snd raws) | Some x \<Rightarrow> Some x),
     Receipt := (case Receipt tx of None \<Rightarrow> snd (snd raws) | Some x \<Rightarrow> Some x)\<rparr>"

definition read_row :: "pg_codec \<Rightarrow> sql_row \<Rightarrow> (go_error + Transaction) option" where
  "read_row C r = map_option (txModelToTransaction C) (scan_row r)"

lemma plain_columns:
  assumes "transactionToTxModel C tx = Inr cols"
  obtains raws where "cols = plain_fields C tx @ raws"
  using assms by (auto simp: transactionToTxModel_def split: sum.splits)

lemma read_row_set:
  assumes "codec_ok C" and "raws_of C old raws" and "transactionToTxModel C tx = Inr cols"
  shows "read_row C (sql_set old cols) = Some (Inr (read_back raws tx))"
proof -
  obtain a t r where raws: "raws = (a, t, r)" by (cases raws) auto
  have rb: "(RawAuthorizations (read_back raws tx), Tx (read_back raws tx), Receipt (read_back raws tx)) =
      (if RawAuthorizations tx = [] then a else RawAuthorizations tx,
       case Tx tx of None \<Rightarrow> t | Some x \<Rightarrow> Some x, case Receipt tx of None \<Rightarrow> r | Some x \<Rightarrow> Some x)"
    by (simp add: read_back_def raws split: option.split)
  obtain ra rt rr where new: "sql_set old cols ''raw_authorizations'' = Some (nullable VText ra)"
      "sql_set old cols ''raw_tx'' = Some (VText rt)" "sql_set old cols ''raw_receipt'' = Some (VText rr)"
      and dec: "decode_raws C ra rt rr = Inr (RawAuthorizations (read_back raws tx), Tx (read_back raws tx), Receipt (read_back raws tx))"
    using raws_of_set [OF assms(1) assms(2) [unfolded raws] assms(3)] unfolding raws_of_def rb by blast
  obtain xs where cols: "cols = plain_fields C tx @ xs" using assms(3) by (rule plain_columns)
  have plain: "map_of (plain_fields C tx) k = Some v \<Longrightarrow> sql_set old cols k = Some v" for k v
    by (simp add: sql_set_def cols map_add_def)
  define val where "val = (case Value tx of None \<Rightarrow> 0 | Some v \<Rightarrow> v)"
  define m where "m = \<lparr>mID = ID tx, mChainID = ChainID tx, mIntentID = IntentID tx, mOperationKey = OperationKey tx,
    mPayloadHash = PayloadHash tx, mSender = nullableAddress C (Sender tx), mAddress = pcAddressHex C (Address tx),
    mValue = dec_int val, mData = Data tx, mGasLimit = GasLimit tx, mRawAuthorizations = ra, mAssignedNonce = AssignedNonce tx,
    mRawTx = rt, mRawReceipt = rr, mStatus = Status tx, mMsg = Msg tx, mNextActionAt = NextActionAt tx,
    mBroadcastPending = BroadcastPending tx, mRejectedAttemptHash = RejectedAttemptHash tx,
    mNonceConsumedAt = NonceConsumedAt tx, mNotifiedAt = NotifiedAt tx, mNotificationAttempts = NotificationAttempts tx,
    mNextNotificationAt = NextNotificationAt tx, mNotificationError = NotificationError tx, mUpdatedAt = UpdatedAt tx,
    mCreatedAt = CreatedAt tx\<rparr>"
  have "scan_row (sql_set old cols) = Some m"
    by (simp add: scan_row_def new plain plain_fields_def Let_def val_def m_def del: scan_uint.simps)
  moreover have "txModelToTransaction C m = Inr (read_back raws tx)"
    using assms(1) dec by (simp add: txModelToTransaction_def m_def read_back_def val_def codec_ok_def nullableAddress_def
        pointerValue_def)
  ultimately show ?thesis by (simp add: read_row_def)
qed

section \<open>Canonical hashes\<close>

fun hex_number :: "string \<Rightarrow> nat option" where
  "hex_number [] = Some 0"
| "hex_number (c # s) = (case (hex_value c, hex_number s) of
     (Some d, Some n) \<Rightarrow> Some (d * 16 ^ length s + n) | _ \<Rightarrow> None)"

lemma hex_value_less: "hex_value c = Some d \<Longrightarrow> d < 16"
  by (auto simp: hex_value_def in_range_def byte_def split: if_splits)

lemma hex_decode_number:
  "even (length s) \<Longrightarrow> hex_number s = map_option bytes_value (hex_decode s) \<and>
    (\<forall>bs. hex_decode s = Some bs \<longrightarrow> length s = 2 * length bs)"
proof (induction s rule: hex_decode.induct)
  case (3 a b s)
  then have IH: "hex_number s = map_option bytes_value (hex_decode s)" "\<forall>bs. hex_decode s = Some bs \<longrightarrow> length s = 2 * length bs"
    by auto
  show ?case
  proof (cases "hex_value a = None \<or> hex_value b = None \<or> hex_decode s = None")
    case True
    then show ?thesis using IH(1) by (auto split: option.splits)
  next
    case False
    then obtain x y bs where v: "hex_value a = Some x" "hex_value b = Some y" "hex_decode s = Some bs" by auto
    then have l: "length s = 2 * length bs" using IH(2) by simp
    have "16 * x + y < 256" using hex_value_less [OF v(1)] hex_value_less [OF v(2)] by simp
    then have "unat (of_nat (16 * x + y) :: 8 word) = 16 * x + y" by (simp add: unat_of_nat take_bit_nat_eq_self del: of_nat_add of_nat_mult)
    moreover have "(16::nat) ^ (length bs * 2) = 256 ^ length bs"
      using power_mult [of "16::nat" 2 "length bs"] by (simp add: mult.commute)
    ultimately show ?thesis using v l IH(1)
      by (simp add: bytes_value_Cons algebra_simps del: of_nat_add of_nat_mult)
  qed
qed (simp_all add: bytes_value_def)

lemma hex_number_pad: "hex_number (CHR ''0'' # s) = hex_number s"
  by (simp add: hex_value_def in_range_def byte_def split: option.splits)

lemma hex_number_snoc:
  "hex_number (s @ [c]) = (case (hex_number s, hex_value c) of (Some n, Some d) \<Rightarrow> Some (16 * n + d) | _ \<Rightarrow> None)"
  by (induction s) (auto simp: algebra_simps split: option.splits)

lemma hex_number_hex_nat: "hex_number (hex_nat k n) = Some (n mod 16 ^ k)"
proof (induction k arbitrary: n)
  case (Suc k)
  have "16 * (n div 16 mod 16 ^ k) + n mod 16 = n mod 16 ^ Suc k"
    by (simp add: mod_mult2_eq)
  then show ?case using Suc hex_value_digit [of "n mod 16"] by (simp add: hex_number_snoc)
qed simp

lemma hex_number_chars: "hex_number s = Some n \<Longrightarrow> c \<in> set s \<Longrightarrow> hex_value c \<noteq> None"
  by (induction s arbitrary: n) (auto split: option.splits)

text \<open>The hash a text spells: an optional prefix and up to 64 hexadecimal digits in any case.\<close>

definition spelled_hash :: "string \<Rightarrow> hash option" where
  "spelled_hash s =
     (let ds = (if take 2 s = ''0x'' \<or> take 2 s = ''0X'' then drop 2 s else s)
      in if length ds = 0 \<or> length ds > 64 then None else map_option of_nat (hex_number ds))"

lemma normalizedHash_spelled:
  "normalizedHash (Some s) = (case spelled_hash s of None \<Rightarrow> Some s | Some h \<Rightarrow> Some (hash_hex h))"
proof -
  define ds where "ds = (if take 2 s = ''0x'' \<or> take 2 s = ''0X'' then drop 2 s else s)"
  define ds' where "ds' = (if length ds mod 2 \<noteq> 0 then CHR ''0'' # ds else ds)"
  have "even (length ds')" by (auto simp: ds'_def)
  then have "hex_number ds' = map_option bytes_value (hex_decode ds')" using hex_decode_number by blast
  moreover have "hex_number ds' = hex_number ds" by (simp add: ds'_def hex_number_pad del: hex_number.simps)
  ultimately have n: "hex_number ds = map_option bytes_value (hex_decode ds')" by simp
  have "normalizedHash (Some s) = (if length ds = 0 \<or> length ds > 64 then Some s
      else case hex_decode ds' of None \<Rightarrow> Some s | Some bs \<Rightarrow> Some (hash_hex (of_nat (bytes_value bs))))"
    by (simp only: normalizedHash_def option.case Let_def ds_def ds'_def)
  moreover have "spelled_hash s = (if length ds = 0 \<or> length ds > 64 then None else map_option of_nat (hex_number ds))"
    by (simp only: spelled_hash_def Let_def ds_def)
  ultimately show ?thesis by (simp add: n split: option.split)
qed

lemma spelled_hash_hex: "spelled_hash (hash_hex h) = Some h"
proof -
  have "unat h < 16 ^ 64" using unsigned_less [of h] by simp
  moreover have "hex_nat 64 (unat h) \<noteq> []" using length_hex_nat [of 64 "unat h"] by fastforce
  ultimately show ?thesis by (simp add: spelled_hash_def hash_hex_def Let_def hex_number_hex_nat)
qed

text \<open>
  Canonical hashes. A text with an optional prefix 0x or 0X and one to 64 hexadecimal digits in
  any case, padded or not, is normalized to the canonical text of the hash it spells, so that two
  spellings of one hash compare equal with \<open>Hash.Hex\<close> and with each other; every other text is left
  alone, and normalizing twice changes nothing more.
\<close>

lemma normalizedHash_canonical:
  "normalizedHash (Some s) = (case spelled_hash s of None \<Rightarrow> Some s | Some h \<Rightarrow> Some (hash_hex h)) \<and>
    normalizedHash (Some (hash_hex h)) = Some (hash_hex h) \<and>
    normalizedHash (normalizedHash v) = normalizedHash v"
proof (intro conjI)
  show "normalizedHash (Some s) = (case spelled_hash s of None \<Rightarrow> Some s | Some h \<Rightarrow> Some (hash_hex h))"
    by (rule normalizedHash_spelled)
  show "normalizedHash (Some (hash_hex h)) = Some (hash_hex h)" by (simp add: normalizedHash_spelled spelled_hash_hex)
  show "normalizedHash (normalizedHash v) = normalizedHash v"
  proof (cases v)
    case (Some t)
    then show ?thesis by (cases "spelled_hash t") (simp_all add: normalizedHash_spelled spelled_hash_hex)
  qed (simp add: normalizedHash_def)
qed

lemma read_attempt_set:
  assumes "codec_ok C" and "attemptToModel C a = Inr cols"
  shows "map_option (attemptModelToAttempt C) (scan_attempt (sql_set old cols)) = Some (Inr a)"
proof -
  obtain tx raw where tx: "attTx a = Some tx" "pcMarshalTx C tx = Inr raw"
    using assms(2) by (auto simp: attemptToModel_def split: option.splits sum.splits)
  then have "pcUnmarshalTx C raw = Inr tx" using assms(1) by (simp add: codec_ok_def)
  moreover have "cols = [(''transaction_id'', VText (attTransactionID a)), (''tx_hash'', VText (hash_hex (attHash a))),
      (''nonce'', VInt (uint (attNonce a))), (''raw_tx'', VText raw), (''created_at'', VTime (attCreatedAt a))]"
    using assms(2) tx by (simp add: attemptToModel_def)
  ultimately show ?thesis using assms(1) tx(1)
    by (simp add: scan_attempt_def sql_set_def map_add_def attemptModelToAttempt_def codec_ok_def del: scan_uint.simps)
qed


end
