(* ===== verification/Pg_Store.thy ===== *)
theory Pg_Store
  imports Pg_Rows
begin

text \<open>
  \<open>evm/txmngr/txmngr_provider/pg/tx.go\<close>: the statements of the PostgreSQL provider and what it makes of
  their results. A table is the list of its rows in no particular order. The statements mean what SQL
  says of them: a condition on NULL is unknown and selects nothing, \<open>UPDATE\<close> sets the listed columns of
  the rows that satisfy the condition, text is ordered by bytes (the C collation). The columns that
  an \<open>INSERT\<close> leaves out take their defaults, a parameter. A statement may fail, before it took effect
  or after it was committed: both are arguments of the operations.
\<close>

section \<open>Conditions and orders\<close>

datatype sql_cond =
    Eq string sql_value
  | EqAny string "sql_value list"
  | LtOrEq string sql_value
  | IsNull string
  | IsNotNull string
  | NotEmpty string
  | OrElse sql_cond sql_cond

definition column :: "sql_row \<Rightarrow> string \<Rightarrow> sql_value" where
  "column r c = (case r c of None \<Rightarrow> VNull | Some v \<Rightarrow> v)"

definition sql_eq :: "sql_value \<Rightarrow> sql_value \<Rightarrow> bool option" where
  "sql_eq a b = (if a = VNull \<or> b = VNull then None else Some (a = b))"

fun sql_le :: "sql_value \<Rightarrow> sql_value \<Rightarrow> bool option" where
  "sql_le (VTime a) (VTime b) = Some (a \<le> b)"
| "sql_le (VInt a) (VInt b) = Some (a \<le> b)"
| "sql_le (VText a) (VText b) = Some (a \<le> b)"
| "sql_le a b = None"

fun sql_or :: "bool option \<Rightarrow> bool option \<Rightarrow> bool option" where
  "sql_or (Some True) b = Some True"
| "sql_or a (Some True) = Some True"
| "sql_or (Some False) (Some False) = Some False"
| "sql_or a b = None"

text \<open>\<open>sq.Eq\<close> with a slice is \<open>IN\<close>, and with an empty slice the condition \<open>1=0\<close>.\<close>

fun sql_eval :: "sql_cond \<Rightarrow> sql_row \<Rightarrow> bool option" where
  "sql_eval (Eq c v) r = sql_eq (column r c) v"
| "sql_eval (EqAny c vs) r = foldr (\<lambda>v acc. sql_or (sql_eq (column r c) v) acc) vs (Some False)"
| "sql_eval (LtOrEq c v) r = sql_le (column r c) v"
| "sql_eval (IsNull c) r = Some (column r c = VNull)"
| "sql_eval (IsNotNull c) r = Some (column r c \<noteq> VNull)"
| "sql_eval (NotEmpty c) r = map_option Not (sql_eq (column r c) (VText []))"
| "sql_eval (OrElse a b) r = sql_or (sql_eval a r) (sql_eval b r)"

definition where_holds :: "sql_cond list \<Rightarrow> sql_row \<Rightarrow> bool" where
  "where_holds conds r \<longleftrightarrow> (\<forall>c \<in> set conds. sql_eval c r = Some True)"

text \<open>\<open>ORDER BY\<close>: ascending columns, the later ones for ties, with NULL behind every value.\<close>

fun compare_values :: "sql_value \<Rightarrow> sql_value \<Rightarrow> int" where
  "compare_values VNull VNull = 0"
| "compare_values VNull b = 1"
| "compare_values a VNull = -1"
| "compare_values (VTime a) (VTime b) = cmp_compare a b"
| "compare_values (VInt a) (VInt b) = cmp_compare a b"
| "compare_values (VText a) (VText b) = cmp_compare a b"
| "compare_values a b = 0"

definition compare_rows :: "string list \<Rightarrow> sql_row \<Rightarrow> sql_row \<Rightarrow> int" where
  "compare_rows cs a b = cmp_or (map (\<lambda>c. compare_values (column a c) (column b c)) cs)"

definition order_by :: "string list \<Rightarrow> sql_row list \<Rightarrow> sql_row list" where
  "order_by cs rows = (if cs = [] then rows else sort_stable_func (compare_rows cs) rows)"

section \<open>Queries\<close>

record pg_queue =
  pgSender :: "address option"
  pgWhere :: "sql_cond list"
  pgOrder :: "string list"
  pgLimit :: "u64 option"

definition pgNewTransactionsQ :: pg_queue where
  "pgNewTransactionsQ = \<lparr>pgSender = None, pgWhere = [], pgOrder = [], pgLimit = None\<rparr>"

definition pgNewSenderTransactionsQ :: "pg_codec \<Rightarrow> address \<Rightarrow> pg_queue" where
  "pgNewSenderTransactionsQ C sender =
     pgNewTransactionsQ\<lparr>pgSender := Some sender, pgWhere := [Eq ''sender'' (VText (pcAddressHex C sender))]\<rparr>"

definition pgNew :: "pg_codec \<Rightarrow> pg_queue \<Rightarrow> pg_queue" where
  "pgNew C q = (case pgSender q of Some sender \<Rightarrow> pgNewSenderTransactionsQ C sender | None \<Rightarrow> pgNewTransactionsQ)"

definition withFilters :: "sql_cond list \<Rightarrow> pg_queue \<Rightarrow> pg_queue" where
  "withFilters conds q = q\<lparr>pgWhere := pgWhere q @ conds\<rparr>"

definition status_values :: "TxStatus list \<Rightarrow> sql_value list" where
  "status_values sts = map (\<lambda>s. VText (status_text s)) sts"

definition pgFilterByIds :: "string list \<Rightarrow> pg_queue \<Rightarrow> pg_queue" where
  "pgFilterByIds ids = withFilters [EqAny ''id'' (map VText ids)]"

definition pgFilterByChainIds :: "u64 list \<Rightarrow> pg_queue \<Rightarrow> pg_queue" where
  "pgFilterByChainIds chainIDs = withFilters [EqAny ''chain_id'' (map (\<lambda>c. VInt (uint c)) chainIDs)]"

definition pgFilterBySenderOrUnset :: "pg_codec \<Rightarrow> address \<Rightarrow> pg_queue \<Rightarrow> pg_queue" where
  "pgFilterBySenderOrUnset C sender =
     withFilters [OrElse (Eq ''sender'' (VText (pcAddressHex C sender))) (IsNull ''sender'')]"

definition pgFilterByStatuses :: "TxStatus list \<Rightarrow> pg_queue \<Rightarrow> pg_queue" where
  "pgFilterByStatuses statuses = withFilters [EqAny ''status'' (status_values statuses)]"

definition pgFilterReadyBefore :: "time \<Rightarrow> pg_queue \<Rightarrow> pg_queue" where
  "pgFilterReadyBefore before = withFilters [LtOrEq ''next_action_at'' (VTime before)]"

definition pgFilterNotificationReadyBefore :: "time \<Rightarrow> pg_queue \<Rightarrow> pg_queue" where
  "pgFilterNotificationReadyBefore before = withFilters [EqAny ''status'' (status_values TerminalStatuses),
     IsNull ''notified_at'', IsNotNull ''intent_id'', NotEmpty ''intent_id'', LtOrEq ''next_notification_at'' (VTime before)]"

text \<open>The builder's \<open>OrderBy\<close> appends to the columns it has.\<close>

definition pgOrderByNextAction :: "pg_queue \<Rightarrow> pg_queue" where
  "pgOrderByNextAction q = q\<lparr>pgOrder := pgOrder q @ [''next_action_at'', ''created_at'', ''id'']\<rparr>"

definition pgOrderByLaneWork :: "pg_queue \<Rightarrow> pg_queue" where
  "pgOrderByLaneWork q = q\<lparr>pgOrder := pgOrder q @ [''assigned_nonce'', ''next_action_at'', ''created_at'', ''id'']\<rparr>"

definition pgOrderByNextNotification :: "pg_queue \<Rightarrow> pg_queue" where
  "pgOrderByNextNotification q = q\<lparr>pgOrder := pgOrder q @ [''next_notification_at'', ''created_at'', ''id'']\<rparr>"

definition pgLimitTo :: "u64 \<Rightarrow> pg_queue \<Rightarrow> pg_queue" where
  "pgLimitTo n q = q\<lparr>pgLimit := Some n\<rparr>"

section \<open>Statements\<close>

record pg_db =
  pgTxs :: "sql_row list"
  pgAttempts :: "sql_row list"
  pgDefaults :: sql_row
  pgLocks :: "int list"

text \<open>How a statement ends: it fails unexecuted, or it is executed and its answer is lost, or neither.\<close>

datatype pg_fault = NoFault | FailsBefore go_error | FailsAfter go_error

definition run_stmt :: "pg_fault \<Rightarrow> (pg_db \<Rightarrow> 'a \<times> pg_db) \<Rightarrow> pg_db \<Rightarrow> (go_error + 'a) \<times> pg_db" where
  "run_stmt fault stmt db =
     (case fault of
        FailsBefore e \<Rightarrow> (Inl e, db)
      | FailsAfter e \<Rightarrow> (Inl e, snd (stmt db))
      | NoFault \<Rightarrow> (case stmt db of (x, db') \<Rightarrow> (Inr x, db')))"

definition update_stmt :: "(string \<times> sql_value) list \<Rightarrow> sql_cond list \<Rightarrow> pg_db \<Rightarrow> nat \<times> pg_db" where
  "update_stmt cols conds db =
     (length (filter (where_holds conds) (pgTxs db)),
      db\<lparr>pgTxs := map (\<lambda>r. if where_holds conds r then sql_set r cols else r) (pgTxs db)\<rparr>)"

definition insert_stmt :: "(string \<times> sql_value) list \<Rightarrow> pg_db \<Rightarrow> unit \<times> pg_db" where
  "insert_stmt cols db = ((), db\<lparr>pgTxs := pgTxs db @ [sql_set (pgDefaults db) cols]\<rparr>)"

text \<open>
  \<open>INSERT ... ON CONFLICT (operation_key) WHERE operation_key IS NOT NULL DO UPDATE SET operation_key =
  EXCLUDED.operation_key RETURNING ...\<close>: the row that has the key already, unchanged, or the new row.
\<close>

definition insert_or_get_stmt :: "(string \<times> sql_value) list \<Rightarrow> pg_db \<Rightarrow> sql_row \<times> pg_db" where
  "insert_or_get_stmt cols db =
     (let new = sql_set (pgDefaults db) cols; key = column new ''operation_key''
      in case (if key = VNull then None else find (\<lambda>r. column r ''operation_key'' = key) (pgTxs db)) of
           Some r \<Rightarrow> (r, db)
         | None \<Rightarrow> (new, db\<lparr>pgTxs := pgTxs db @ [new]\<rparr>))"

definition insert_attempt_stmt :: "(string \<times> sql_value) list \<Rightarrow> pg_db \<Rightarrow> sql_row \<times> pg_db" where
  "insert_attempt_stmt cols db =
     (let new = sql_set Map.empty cols
      in case find (\<lambda>r. column r ''tx_hash'' = column new ''tx_hash'') (pgAttempts db) of
           Some r \<Rightarrow> (r, db)
         | None \<Rightarrow> (new, db\<lparr>pgAttempts := pgAttempts db @ [new]\<rparr>))"

section \<open>Operations\<close>

definition sender_error :: go_error where
  "sender_error = errors_new None ''transaction sender differs from queue signer''"

definition foreign_sender :: "pg_queue \<Rightarrow> Transaction \<Rightarrow> bool" where
  "foreign_sender q tx \<longleftrightarrow> pgSender q \<noteq> None \<and> pgSender q \<noteq> Some (Sender tx)"

definition pgInsert :: "pg_codec \<Rightarrow> pg_fault \<Rightarrow> pg_queue \<Rightarrow> Transaction \<Rightarrow> (pg_db, unit) act" where
  "pgInsert C fault q tx db =
     (if foreign_sender q tx then (Fail sender_error, db)
      else case transactionToTxModel C tx of
             Inl e \<Rightarrow> (Fail (wrapf (''converting transaction '' @ ID tx @ '' to model data'') e), db)
           | Inr cols \<Rightarrow> (case run_stmt fault (insert_stmt cols) db of
                            (Inl e, db') \<Rightarrow> (Fail e, db') | (Inr _, db') \<Rightarrow> (Ret (), db')))"

definition scan_error :: go_error where
  "scan_error = errors_new None ''sql: Scan error''"

definition pgInsertOrGet :: "pg_codec \<Rightarrow> pg_fault \<Rightarrow> pg_queue \<Rightarrow> Transaction \<Rightarrow> (pg_db, Transaction) act" where
  "pgInsertOrGet C fault q tx db =
     (if foreign_sender q tx then (Fail sender_error, db)
      else case transactionToTxModel C tx of
             Inl e \<Rightarrow> (Fail (wrapf ''failed to convert tx to model data'' e), db)
           | Inr cols \<Rightarrow>
               (case run_stmt fault (insert_or_get_stmt cols) db of
                  (Inl e, db') \<Rightarrow> (Fail (wrapf ''inserting transaction'' e), db')
                | (Inr row, db') \<Rightarrow>
                    (case scan_row row of
                       None \<Rightarrow> (Fail (wrapf ''inserting transaction'' scan_error), db')
                     | Some m \<Rightarrow>
                         if OperationKey tx \<noteq> None \<and>
                            (mPayloadHash m = None \<or> PayloadHash tx = None \<or> mPayloadHash m \<noteq> PayloadHash tx)
                         then (Fail (errors_new (Some ErrIdempotencyConflict)
                                ''transaction operation key already exists with a different payload''), db')
                         else (case txModelToTransaction C m of Inl e \<Rightarrow> (Fail e, db') | Inr t \<Rightarrow> (Ret t, db')))))"

definition pgInsertAttempt :: "pg_codec \<Rightarrow> pg_fault \<Rightarrow> TransactionAttempt \<Rightarrow> (pg_db, unit) act" where
  "pgInsertAttempt C fault a db =
     (case attemptToModel C a of
        Inl e \<Rightarrow> (Fail (wrapf ''failed to convert transaction attempt'' e), db)
      | Inr cols \<Rightarrow>
          (case run_stmt fault (insert_attempt_stmt cols) db of
             (Inl e, db') \<Rightarrow> (Fail (wrapf (''persisting transaction attempt '' @ hash_hex (attHash a)) e), db')
           | (Inr row, db') \<Rightarrow>
               (case scan_text (row ''transaction_id'') of
                  None \<Rightarrow> (Fail (wrapf (''persisting transaction attempt '' @ hash_hex (attHash a)) scan_error), db')
                | Some transactionID \<Rightarrow>
                    if transactionID \<noteq> attTransactionID a
                    then (Fail (AttemptHashConflictError (hash_hex (attHash a)) transactionID), db')
                    else (Ret (), db'))))"

definition expectSingleUpdate :: "nat \<Rightarrow> go_error option" where
  "expectSingleUpdate rows = (if rows \<noteq> 1 then Some stale_error else None)"

definition update_result :: "(go_error \<Rightarrow> go_error) \<Rightarrow> (go_error + nat) \<times> pg_db \<Rightarrow> (go_error, unit) outcome \<times> pg_db" where
  "update_result wrap x =
     (case x of
        (Inl e, db') \<Rightarrow> (Fail (wrap e), db')
      | (Inr n, db') \<Rightarrow> (case expectSingleUpdate n of Some e \<Rightarrow> (Fail e, db') | None \<Rightarrow> (Ret (), db')))"

definition active_conds :: "Transaction \<Rightarrow> sql_cond list" where
  "active_conds tx = [Eq ''id'' (VText (ID tx)), EqAny ''status'' (status_values ActiveStatuses)]"

definition pgUpdateIfActive :: "pg_codec \<Rightarrow> pg_fault \<Rightarrow> Transaction \<Rightarrow> (pg_db, unit) act" where
  "pgUpdateIfActive C fault tx db =
     (case transactionToTxModel C tx of
        Inl e \<Rightarrow> (Fail (wrapf (''converting transaction '' @ ID tx @ '' to model data'') e), db)
      | Inr cols \<Rightarrow> update_result (wrapf (''updating transaction '' @ ID tx)) (run_stmt fault (update_stmt cols (active_conds tx)) db))"

definition notification_cols :: "Transaction \<Rightarrow> (string \<times> sql_value) list" where
  "notification_cols tx = [(''notified_at'', nullable VTime (NotifiedAt tx)),
     (''notification_attempts'', VInt (uint (NotificationAttempts tx))), (''next_notification_at'', VTime (NextNotificationAt tx)),
     (''notification_error'', VText (NotificationError tx)), (''updated_at'', VTime (UpdatedAt tx))]"

definition pgUpdateNotification :: "pg_fault \<Rightarrow> Transaction \<Rightarrow> (pg_db, unit) act" where
  "pgUpdateNotification fault tx db =
     update_result id (run_stmt fault (update_stmt (notification_cols tx)
       [Eq ''id'' (VText (ID tx)), EqAny ''status'' (status_values TerminalStatuses), IsNull ''notified_at'']) db)"

definition selected_rows :: "pg_queue \<Rightarrow> pg_db \<Rightarrow> sql_row list" where
  "selected_rows q db =
     (let rows = order_by (pgOrder q) (filter (where_holds (pgWhere q)) (pgTxs db))
      in case pgLimit q of None \<Rightarrow> rows | Some n \<Rightarrow> take (unat n) rows)"

fun convert_rows :: "pg_codec \<Rightarrow> txModel list \<Rightarrow> go_error + Transaction list" where
  "convert_rows C [] = Inr []"
| "convert_rows C (m # ms) =
     (case txModelToTransaction C m of
        Inl e \<Rightarrow> Inl (wrapf ''failed to convert model to transaction'' e)
      | Inr t \<Rightarrow> (case convert_rows C ms of Inl e \<Rightarrow> Inl e | Inr ts \<Rightarrow> Inr (t # ts)))"

definition pgSelect :: "pg_codec \<Rightarrow> go_error option \<Rightarrow> pg_queue \<Rightarrow> (pg_db, Transaction list) act" where
  "pgSelect C err q db =
     (case err of
        Some e \<Rightarrow> (Fail (wrapf ''failed to select transactions'' e), db)
      | None \<Rightarrow>
          (case those (map scan_row (selected_rows q db)) of
             None \<Rightarrow> (Fail (wrapf ''failed to select transactions'' scan_error), db)
           | Some ms \<Rightarrow> (case convert_rows C ms of Inl e \<Rightarrow> (Fail e, db) | Inr ts \<Rightarrow> (Ret ts, db))))"

definition pgGet :: "pg_codec \<Rightarrow> go_error option \<Rightarrow> pg_queue \<Rightarrow> (pg_db, Transaction) act" where
  "pgGet C err q db =
     (case err of
        Some e \<Rightarrow> (Fail (wrapf ''failed to get transaction'' e), db)
      | None \<Rightarrow>
          (case selected_rows q db of
             [] \<Rightarrow> (Fail (wrapf ''failed to get transaction'' no_rows_error), db)
           | row # _ \<Rightarrow>
               (case scan_row row of
                  None \<Rightarrow> (Fail (wrapf ''failed to get transaction'' scan_error), db)
                | Some m \<Rightarrow> (case txModelToTransaction C m of
                               Inl e \<Rightarrow> (Fail (wrapf ''failed to convert model to transaction'' e), db)
                             | Inr t \<Rightarrow> (Ret t, db)))))"

definition read_attempts :: "pg_codec \<Rightarrow> string \<Rightarrow> go_error option \<Rightarrow> sql_row list \<Rightarrow> (pg_db, TransactionAttempt list) act" where
  "read_attempts C what err rows db =
     (case err of
        Some e \<Rightarrow> (Fail (wrapf (''selecting attempts for '' @ what) e), db)
      | None \<Rightarrow>
          (case those (map scan_attempt rows) of
             None \<Rightarrow> (Fail (wrapf (''selecting attempts for '' @ what) scan_error), db)
           | Some ms \<Rightarrow> (case attemptModelsToAttempts C ms of
                           Inl e \<Rightarrow> (Fail (wrapf (''converting attempts for '' @ what) e), db)
                         | Inr as \<Rightarrow> (Ret as, db))))"

text \<open>The attempts table numbers its rows by an ID in the order of their insertion.\<close>

definition pgSelectAttempts :: "pg_codec \<Rightarrow> go_error option \<Rightarrow> string \<Rightarrow> (pg_db, TransactionAttempt list) act" where
  "pgSelectAttempts C err transactionID db =
     read_attempts C (''transaction '' @ transactionID) err
       (sort_stable_func (compare_rows [''created_at''])
         (filter (where_holds [Eq ''transaction_id'' (VText transactionID)]) (pgAttempts db))) db"

definition pgSelectAttemptsByNonce :: "pg_codec \<Rightarrow> go_error option \<Rightarrow> u64 \<Rightarrow> u64 \<Rightarrow> (pg_db, TransactionAttempt list) act" where
  "pgSelectAttemptsByNonce C err chainID nonce db =
     read_attempts C (''chain '' @ dec_nat (unat chainID) @ '' nonce '' @ dec_nat (unat nonce)) err
       (sort_stable_func (compare_rows [''created_at''])
         (filter (\<lambda>a. where_holds [Eq ''nonce'' (VInt (uint nonce))] a \<and>
            (\<exists>t \<in> set (pgTxs db). sql_eq (column t ''id'') (column a ''transaction_id'') = Some True \<and>
               where_holds [Eq ''chain_id'' (VInt (uint chainID))] t)) (pgAttempts db))) db"

fun count_group :: "sql_value list \<Rightarrow> (u64 \<times> u64) list \<Rightarrow> (u64 \<times> u64) list option" where
  "count_group [] counts = Some counts"
| "count_group (v # vs) counts =
     (case scan_uint (Some v) of None \<Rightarrow> None | Some c \<Rightarrow> count_group vs (bump_count c counts))"

definition pgCountByChain :: "pg_codec \<Rightarrow> go_error option \<Rightarrow> pg_queue \<Rightarrow> TxStatus list \<Rightarrow> (pg_db, (u64 \<times> u64) list) act" where
  "pgCountByChain C err q statuses db =
     (if statuses = [] then (Ret [], db)
      else
        let conds = EqAny ''status'' (status_values statuses) #
              (case pgSender q of None \<Rightarrow> [] | Some sender \<Rightarrow> [Eq ''sender'' (VText (pcAddressHex C sender))])
        in case err of
             Some e \<Rightarrow> (Fail (wrapf ''counting transactions by chain'' e), db)
           | None \<Rightarrow>
               (case count_group (map (\<lambda>r. column r ''chain_id'') (filter (where_holds conds) (pgTxs db))) [] of
                  None \<Rightarrow> (Fail (wrapf ''counting transactions by chain'' scan_error), db)
                | Some counts \<Rightarrow> (Ret counts, db)))"

definition max_value :: "sql_value list \<Rightarrow> int option" where
  "max_value vs = (case List.map_filter (\<lambda>v. case v of VInt n \<Rightarrow> Some n | _ \<Rightarrow> None) vs of [] \<Rightarrow> None | n # ns \<Rightarrow> Some (fold max ns n))"

definition pgMaxAssignedNonce :: "pg_codec \<Rightarrow> go_error option \<Rightarrow> address \<Rightarrow> u64 \<Rightarrow> (pg_db, u64 option) act" where
  "pgMaxAssignedNonce C err sender chainID db =
     (case err of
        Some e \<Rightarrow> (Fail (wrapf (''selecting lane assigned nonce for chain '' @ dec_nat (unat chainID)) e), db)
      | None \<Rightarrow>
          (case max_value (map (\<lambda>r. column r ''assigned_nonce'') (filter (where_holds
                  [Eq ''sender'' (VText (pcAddressHex C sender)), Eq ''chain_id'' (VInt (uint chainID)), IsNotNull ''assigned_nonce''])
                  (pgTxs db))) of
             None \<Rightarrow> (Ret None, db)
           | Some n \<Rightarrow>
               if \<not> in_i64 n then (Fail (wrapf (''selecting lane assigned nonce for chain '' @ dec_nat (unat chainID)) scan_error), db)
               else if n < 0 then (Fail (errors_new None (''persisted assigned nonce '' @ dec_int n @ '' for chain '' @
                                    dec_nat (unat chainID) @ '' is negative'')), db)
               else (Ret (Some (word_of_int n)), db)))"

section \<open>Lane locks\<close>

text \<open>Keccak-256 is the parameter; the key is the first eight bytes of the hash as an int64.\<close>

definition laneLockKey :: "(bytes \<Rightarrow> bytes) \<Rightarrow> address \<Rightarrow> u64 \<Rightarrow> int" where
  "laneLockKey keccak sender chainID =
     wrap_i64 (int (bytes_value (take 8 (keccak (address_bytes sender @ u64_bytes chainID)))))"

record pg_lock =
  plKey :: int
  plOnce :: bool
  plErr :: "go_error option"

text \<open>
  An advisory lock belongs to the session of its connection, so discarding the connection ends it.
  The arguments are the errors of taking the connection, of the query, and of closing the connection.
\<close>

definition pgTryLockLane :: "(bytes \<Rightarrow> bytes) \<Rightarrow> go_error option \<Rightarrow> go_error option \<Rightarrow> go_error option \<Rightarrow> address \<Rightarrow> u64 \<Rightarrow>
    (pg_db, pg_lock option) act" where
  "pgTryLockLane keccak connErr queryErr closeErr sender chainID db =
     (case connErr of
        Some e \<Rightarrow> (Fail (wrapf ''acquiring transaction lane connection'' e), db)
      | None \<Rightarrow>
          let key = laneLockKey keccak sender chainID
          in case queryErr of
               Some e \<Rightarrow> (Fail (wrapf ''acquiring transaction lane advisory lock'' e), db)
             | None \<Rightarrow>
                 if key \<in> set (pgLocks db) then
                   (case closeErr of
                      Some e \<Rightarrow> (Fail (wrapf ''releasing unused transaction lane connection'' e), db)
                    | None \<Rightarrow> (Ret None, db))
                 else (Ret (Some \<lparr>plKey = key, plOnce = False, plErr = None\<rparr>), db\<lparr>pgLocks := key # pgLocks db\<rparr>))"

definition pgUnlock :: "go_error option \<Rightarrow> go_error option \<Rightarrow> pg_lock \<Rightarrow> pg_db \<Rightarrow> (pg_lock \<times> go_error option) \<times> pg_db" where
  "pgUnlock queryErr closeErr l db =
     (if plOnce l then ((l, plErr l), db)
      else
        let unlocked = plKey l \<in> set (pgLocks db);
            err = (case queryErr of
                     Some e \<Rightarrow> Some (wrapf ''unlocking transaction lane'' e)
                   | None \<Rightarrow> if \<not> unlocked then Some (errors_new None ''transaction lane advisory lock was not held'') else closeErr);
            l' = l\<lparr>plOnce := True, plErr := err\<rparr>
        in ((l', err), db\<lparr>pgLocks := removeAll (plKey l) (pgLocks db)\<rparr>))"

section \<open>Both providers select the same transactions\<close>

text \<open>A row shows a transaction: the columns that queries use are its fields, and it is read as it.\<close>

definition row_shows :: "pg_codec \<Rightarrow> sql_row \<Rightarrow> Transaction \<Rightarrow> bool" where
  "row_shows C r t \<longleftrightarrow> column r ''id'' = VText (ID t) \<and> column r ''chain_id'' = VInt (uint (ChainID t)) \<and>
     column r ''intent_id'' = nullable VText (IntentID t) \<and>
     column r ''sender'' = nullable VText (nullableAddress C (Sender t)) \<and>
     column r ''assigned_nonce'' = nullable (\<lambda>n. VInt (uint n)) (AssignedNonce t) \<and>
     column r ''status'' = VText (status_text (Status t)) \<and> column r ''next_action_at'' = VTime (NextActionAt t) \<and>
     column r ''notified_at'' = nullable VTime (NotifiedAt t) \<and>
     column r ''next_notification_at'' = VTime (NextNotificationAt t) \<and> column r ''created_at'' = VTime (CreatedAt t) \<and>
     read_row C r = Some (Inr t)"

lemma row_shows_set:
  assumes "codec_ok C" and "raws_of C old raws" and "transactionToTxModel C tx = Inr cols"
  shows "row_shows C (sql_set old cols) (read_back raws tx)"
proof -
  obtain xs where cols: "cols = plain_fields C tx @ xs" using assms(3) by (rule plain_columns)
  have plain: "map_of (plain_fields C tx) k = Some v \<Longrightarrow> column (sql_set old cols) k = v" for k v
    by (simp add: sql_set_def cols map_add_def column_def)
  show ?thesis using read_row_set [OF assms]
    by (simp add: row_shows_def plain plain_fields_def Let_def read_back_def)
qed

definition apply_filter :: "pg_codec \<Rightarrow> tx_filter \<Rightarrow> pg_queue \<Rightarrow> pg_queue" where
  "apply_filter C f =
     (case f of
        FilterByIds ids \<Rightarrow> pgFilterByIds ids
      | FilterByChainIds chainIDs \<Rightarrow> pgFilterByChainIds chainIDs
      | FilterBySenderOrUnset sender \<Rightarrow> pgFilterBySenderOrUnset C sender
      | FilterByStatuses statuses \<Rightarrow> pgFilterByStatuses statuses
      | FilterReadyBefore before \<Rightarrow> pgFilterReadyBefore before
      | FilterNotificationReadyBefore before \<Rightarrow> pgFilterNotificationReadyBefore before)"

definition apply_order :: "txOrder \<Rightarrow> pg_queue \<Rightarrow> pg_queue" where
  "apply_order ord =
     (case ord of orderNone \<Rightarrow> id | orderNextAction \<Rightarrow> pgOrderByNextAction | orderLaneWork \<Rightarrow> pgOrderByLaneWork
      | orderNextNotification \<Rightarrow> pgOrderByNextNotification)"

text \<open>The query that the same chain of methods builds on this provider; a limit is positive.\<close>

definition pg_of :: "pg_codec \<Rightarrow> tx_query \<Rightarrow> pg_queue" where
  "pg_of C q =
     (let pq = apply_order (qOrderBy q) (fold (apply_filter C) (qFilters q) pgNewTransactionsQ)
      in if qLimit q = 0 then pq else pgLimitTo (qLimit q) pq)"

definition filter_conds :: "pg_codec \<Rightarrow> tx_filter \<Rightarrow> sql_cond list" where
  "filter_conds C f = pgWhere (apply_filter C f pgNewTransactionsQ)"

lemma withFilters_fields [simp]:
  "pgWhere (withFilters cs q) = pgWhere q @ cs" "pgOrder (withFilters cs q) = pgOrder q" "pgLimit (withFilters cs q) = pgLimit q"
  "pgSender (withFilters cs q) = pgSender q"
  by (simp_all add: withFilters_def)

lemmas filter_defs = pgFilterByIds_def pgFilterByChainIds_def pgFilterBySenderOrUnset_def pgFilterByStatuses_def
  pgFilterReadyBefore_def pgFilterNotificationReadyBefore_def

lemma apply_filter_fields:
  "pgWhere (apply_filter C f q) = pgWhere q @ filter_conds C f" "pgOrder (apply_filter C f q) = pgOrder q"
  "pgLimit (apply_filter C f q) = pgLimit q" "pgSender (apply_filter C f q) = pgSender q"
  by (cases f; simp add: apply_filter_def filter_conds_def filter_defs pgNewTransactionsQ_def)+

lemma apply_filters_fields:
  "pgWhere (fold (apply_filter C) fs q) = pgWhere q @ concat (map (filter_conds C) fs)"
  "pgOrder (fold (apply_filter C) fs q) = pgOrder q" "pgLimit (fold (apply_filter C) fs q) = pgLimit q"
  by (induction fs arbitrary: q) (simp_all add: apply_filter_fields)

lemma sql_or_True: "sql_or a b = Some True \<longleftrightarrow> a = Some True \<or> b = Some True"
  by (cases "(a, b)" rule: sql_or.cases) auto

lemma sql_in_True: "foldr (\<lambda>v acc. sql_or (sql_eq x v) acc) vs (Some False) = Some True \<longleftrightarrow> (\<exists>v \<in> set vs. sql_eq x v = Some True)"
  by (induction vs) (auto simp: sql_or_True)

lemma sql_eq_True: "sql_eq a b = Some True \<longleftrightarrow> a \<noteq> VNull \<and> a = b"
  by (auto simp: sql_eq_def)

lemma sql_ne_True: "map_option Not (sql_eq a b) = Some True \<longleftrightarrow> a \<noteq> VNull \<and> b \<noteq> VNull \<and> a \<noteq> b"
  by (simp add: sql_eq_def)

lemma status_text_inj [simp]: "status_text a = status_text b \<longleftrightarrow> a = b"
  by (cases a; cases b) simp_all

lemma nullable_simps [simp]:
  "nullable VText x = VNull \<longleftrightarrow> x = None" "nullable VTime t = VNull \<longleftrightarrow> t = None" "nullable VText x = VText y \<longleftrightarrow> x = Some y"
  by (auto simp: nullable_def split: option.splits)

lemma address_hex_inj: "codec_ok C \<Longrightarrow> pcAddressHex C a = pcAddressHex C b \<longleftrightarrow> a = b"
  by (metis codec_ok_def)

text \<open>The SQL conditions of a filter say what the closure of the in-memory provider says.\<close>

lemma filter_conds_hold:
  assumes "codec_ok C" and "row_shows C r t"
  shows "where_holds (filter_conds C f) r \<longleftrightarrow> filter_holds f t"
  using assms
  by (cases f)
    (auto simp: filter_conds_def apply_filter_def filter_defs pgNewTransactionsQ_def where_holds_def sql_in_True sql_or_True
      sql_eq_True sql_ne_True row_shows_def status_values_def nullableAddress_def address_hex_inj IsCompleted_terminal
      not_less simp del: map_option_eq_Some dest: word_uint_eqI split: if_splits)

lemma where_holds_append: "where_holds (xs @ ys) r \<longleftrightarrow> where_holds xs r \<and> where_holds ys r"
  by (auto simp: where_holds_def)

lemma query_conds_hold:
  assumes "codec_ok C" and "row_shows C r t"
  shows "where_holds (concat (map (filter_conds C) fs)) r \<longleftrightarrow> filter_all fs t"
proof (induction fs)
  case (Cons f fs)
  then show ?case using filter_conds_hold [OF assms] by (simp add: where_holds_append)
qed (simp add: where_holds_def)

lemma compare_uint: "cmp_compare (uint a) (uint b) = cmp_compare a b" for a b :: "'w::len word"
  by (auto simp: cmp_compare_def word_less_def dest: word_uint_eqI)

lemma compare_rows_schedule:
  assumes "row_shows C r t" and "row_shows C r' t'"
  shows "compare_rows [''next_action_at'', ''created_at'', ''id''] r r' = compareScheduleOrder t t'"
    "compare_rows [''assigned_nonce'', ''next_action_at'', ''created_at'', ''id''] r r' = compareLaneWork t t'"
proof -
  have "compare_values (nullable (\<lambda>n. VInt (uint n)) a) (nullable (\<lambda>n. VInt (uint n)) b) = compareAssignedNonce a b" for a b :: "u64 option"
    by (cases a; cases b) (simp_all add: nullable_def compare_uint)
  then show "compare_rows [''next_action_at'', ''created_at'', ''id''] r r' = compareScheduleOrder t t'"
      "compare_rows [''assigned_nonce'', ''next_action_at'', ''created_at'', ''id''] r r' = compareLaneWork t t'"
    using assms by (simp_all add: compare_rows_def row_shows_def compareScheduleOrder_def compareLaneWork_def)
qed

lemma list_all2_filter:
  "list_all2 R xs ys \<Longrightarrow> (\<And>x y. R x y \<Longrightarrow> P x = Q y) \<Longrightarrow> list_all2 R (filter P xs) (filter Q ys)"
  by (induction rule: list_all2_induct) auto

lemma list_all2_insort:
  assumes "list_all2 R xs ys" and "R x y" and "\<And>a b a' b'. R a b \<Longrightarrow> R a' b' \<Longrightarrow> c a a' = d b b'"
  shows "list_all2 R (insort_func c x xs) (insort_func d y ys)"
  using assms(1,2)
proof (induction rule: list_all2_induct)
  case (Cons x' xs y' ys)
  then show ?case using assms(3) [of x y x' y'] by auto
qed (use assms(2) in simp)

lemma list_all2_sort:
  assumes "list_all2 R xs ys" and "\<And>a b a' b'. R a b \<Longrightarrow> R a' b' \<Longrightarrow> c a a' = d b b'"
  shows "list_all2 R (sort_stable_func c xs) (sort_stable_func d ys)"
  using assms(1)
proof (induction rule: list_all2_induct)
  case (Cons x xs y ys)
  then show ?case using list_all2_insort [of R _ _ x y c d] assms(2) by (simp add: sort_stable_func_def)
qed (simp add: sort_stable_func_def)

lemma selected_rows_agree:
  assumes "codec_ok C" and "list_all2 (row_shows C) (pgTxs db) (map snd (txs s))" and "qOrderBy q \<noteq> orderNextNotification"
  shows "list_all2 (row_shows C) (selected_rows (pg_of C q) db)
    (let result = order_rows (qOrderBy q) (filter (filter_all (qFilters q)) (map snd (txs s)))
     in if qLimit q > 0 \<and> length result > unat (qLimit q) then take (unat (qLimit q)) result else result)"
proof -
  let ?conds = "concat (map (filter_conds C) (qFilters q))"
  let ?rows = "filter (where_holds ?conds) (pgTxs db)"
  let ?ts = "filter (filter_all (qFilters q)) (map snd (txs s))"
  have f: "list_all2 (row_shows C) ?rows ?ts"
    using assms(2) query_conds_hold [OF assms(1)] by (rule list_all2_filter)
  define cs where "cs = (case qOrderBy q of orderNone \<Rightarrow> [] | orderNextAction \<Rightarrow> [''next_action_at'', ''created_at'', ''id'']
     | orderLaneWork \<Rightarrow> [''assigned_nonce'', ''next_action_at'', ''created_at'', ''id''] | orderNextNotification \<Rightarrow> [])"
  have o: "list_all2 (row_shows C) (order_by cs ?rows) (order_rows (qOrderBy q) ?ts)"
    using f assms(3) by (cases "qOrderBy q") (auto simp: order_by_def cs_def intro!: list_all2_sort compare_rows_schedule)
  have q: "selected_rows (pg_of C q) db = (if qLimit q = 0 then order_by cs ?rows else take (unat (qLimit q)) (order_by cs ?rows))"
    using assms(3) by (cases "qOrderBy q")
      (simp_all add: selected_rows_def pg_of_def Let_def apply_order_def apply_filters_fields pgOrderByNextAction_def
        pgOrderByLaneWork_def pgLimitTo_def pgNewTransactionsQ_def cs_def)
  have take: "(if (0::u64) < n \<and> length xs > unat n then take (unat n) xs else xs) = (if n = 0 then xs else take (unat n) xs)"
    for n and xs :: "'x list" by (auto simp: word_gt_0)
  show ?thesis using o by (simp add: q Let_def take list_all2_takeI)
qed

lemma pgSelect_shows:
  assumes "list_all2 (row_shows C) (selected_rows q db) ts"
  shows "pgSelect C None q db = (Ret ts, db)"
proof -
  have "list_all2 (row_shows C) rows ts \<Longrightarrow> \<exists>ms. those (map scan_row rows) = Some ms \<and> convert_rows C ms = Inr ts" for rows ts
  proof (induction rule: list_all2_induct)
    case (Cons r rs t ts)
    then show ?case by (auto simp: row_shows_def read_row_def)
  qed simp
  then show ?thesis using assms by (fastforce simp: pgSelect_def)
qed


section \<open>Queues of one signer\<close>

text \<open>The queues that the methods reach from a queue, \<open>New\<close> included.\<close>

inductive derived :: "pg_codec \<Rightarrow> pg_queue \<Rightarrow> pg_queue \<Rightarrow> bool" for C q0 where
  self: "derived C q0 q0"
| renew: "derived C q0 q \<Longrightarrow> derived C q0 (pgNew C q)"
| filtered: "derived C q0 q \<Longrightarrow> derived C q0 (apply_filter C f q)"
| ordered: "derived C q0 q \<Longrightarrow> derived C q0 (apply_order ord q)"
| limited: "derived C q0 q \<Longrightarrow> derived C q0 (pgLimitTo n q)"

lemma apply_order_fields [simp]:
  "pgWhere (apply_order ord q) = pgWhere q" "pgSender (apply_order ord q) = pgSender q"
  by (cases ord; simp add: apply_order_def pgOrderByNextAction_def pgOrderByLaneWork_def pgOrderByNextNotification_def)+

lemma derived_scoped:
  assumes "derived C (pgNewSenderTransactionsQ C sender) q"
  shows "pgSender q = Some sender \<and> Eq ''sender'' (VText (pcAddressHex C sender)) \<in> set (pgWhere q)"
  using assms
  by induction (auto simp: pgNewSenderTransactionsQ_def pgNew_def apply_filter_fields pgLimitTo_def)

lemma those_map_set: "those (map f xs) = Some ys \<Longrightarrow> y \<in> set ys \<Longrightarrow> \<exists>x \<in> set xs. f x = Some y"
  by (induction xs arbitrary: ys) (auto split: option.splits)

lemma convert_rows_set: "convert_rows C ms = Inr ts \<Longrightarrow> t \<in> set ts \<Longrightarrow> \<exists>m \<in> set ms. txModelToTransaction C m = Inr t"
  by (induction ms arbitrary: ts) (auto split: sum.splits)

lemma set_insort_func [simp]: "set (insort_func c x xs) = insert x (set xs)"
  by (induction xs) auto

lemma set_sort_stable_func [simp]: "set (sort_stable_func c xs) = set xs"
  by (induction xs) (simp_all add: sort_stable_func_def)

lemma selected_rows_where: "r \<in> set (selected_rows q db) \<Longrightarrow> r \<in> set (pgTxs db) \<and> where_holds (pgWhere q) r"
  by (auto simp: selected_rows_def Let_def order_by_def split: option.splits if_splits dest!: in_set_takeD)

lemma scan_row_sender:
  assumes "scan_row r = Some m" and "column r ''sender'' = VText h"
  shows "mSender m = Some h"
proof -
  obtain sender where "scan_null scan_text (r ''sender'') = Some sender" "mSender m = sender"
    using assms(1) unfolding scan_row_def Option.bind_eq_Some_conv by (elim exE conjE) clarsimp
  then show ?thesis using assms(2) by (auto simp: scan_null_def column_def split: option.splits if_splits)
qed

text \<open>
  One signer. Whatever filters, orders, limits and \<open>New\<close> are applied to the queue of a signer,
  \<open>Select\<close> returns only transactions of that signer (none with an unset sender), and the queue refuses to insert a transaction of another
  sender, without a statement.
\<close>

theorem signer_queue_scoped:
  assumes "codec_ok C" and "derived C (pgNewSenderTransactionsQ C sender) q"
  shows "(\<forall>ts db'. pgSelect C err q db = (Ret ts, db') \<longrightarrow> db' = db \<and> (\<forall>t \<in> set ts. Sender t = sender)) \<and>
    (Sender tx \<noteq> sender \<longrightarrow> pgInsert C fault q tx db = (Fail sender_error, db) \<and>
       pgInsertOrGet C fault q tx db = (Fail sender_error, db))"
proof (intro conjI allI impI)
  note scoped = derived_scoped [OF assms(2)]
  show "pgInsert C fault q tx db = (Fail sender_error, db)" "pgInsertOrGet C fault q tx db = (Fail sender_error, db)"
    if "Sender tx \<noteq> sender"
    using that scoped by (simp_all add: pgInsert_def pgInsertOrGet_def foreign_sender_def)
  fix ts db' assume sel: "pgSelect C err q db = (Ret ts, db')"
  then obtain ms where ms: "those (map scan_row (selected_rows q db)) = Some ms" "convert_rows C ms = Inr ts" and db: "db' = db"
    by (auto simp: pgSelect_def split: option.splits sum.splits)
  have "Sender t = sender" if t: "t \<in> set ts" for t
  proof -
    obtain m where m: "m \<in> set ms" "txModelToTransaction C m = Inr t" using convert_rows_set [OF ms(2) t] by blast
    obtain r where r: "r \<in> set (selected_rows q db)" "scan_row r = Some m" using those_map_set [OF ms(1) m(1)] by blast
    have "sql_eval (Eq ''sender'' (VText (pcAddressHex C sender))) r = Some True"
      using selected_rows_where [OF r(1)] scoped unfolding where_holds_def by blast
    then have "mSender m = Some (pcAddressHex C sender)" using scan_row_sender [OF r(2)] by (simp add: sql_eq_True)
    then show ?thesis using m(2) assms(1)
      by (auto simp: txModelToTransaction_def pointerValue_def codec_ok_def split: sum.splits option.splits)
  qed
  then show "db' = db" "\<forall>t \<in> set ts. Sender t = sender" using db by blast+
qed

section \<open>Guarded writes\<close>

lemma single_index: "length (filter P xs) = 1 \<Longrightarrow> \<exists>!i. i < length xs \<and> P (xs ! i)"
proof -
  assume "length (filter P xs) = 1"
  then have "card {i. i < length xs \<and> P (xs ! i)} = 1" by (simp add: length_filter_conv_card)
  then obtain k where "{i. i < length xs \<and> P (xs ! i)} = {k}" by (rule card_1_singletonE)
  then have "(i < length xs \<and> P (xs ! i)) = (i = k)" for i by (simp add: set_eq_iff)
  then show ?thesis by simp
qed

lemma active_conds_hold:
  "where_holds (active_conds tx) r \<longleftrightarrow> column r ''id'' = VText (ID tx) \<and> (\<exists>st \<in> set ActiveStatuses. column r ''status'' = VText (status_text st))"
  by (auto simp: where_holds_def active_conds_def sql_in_True sql_eq_True status_values_def)


end
