(* ===== verification/Pg_Example.thy ===== *)
theory Pg_Example
  imports Pg_Store
begin

text \<open>A codec that keeps its laws, a table with one row, and the witnesses of the PostgreSQL provider.\<close>

definition ex_eth_tx :: eth_tx where
  "ex_eth_tx = \<lparr>txType = 2, txChainId = Some 1, txNonce = 7, txGasPrice = 0, txGasTipCap = 1, txGasFeeCap = 2, txGas = 21000,
     txTo = Some 5, txValue = 0, txData = [], txAuthList = [], txSignature = (0, 1, 1)\<rparr>"

definition ex_codec_error :: go_error where
  "ex_codec_error = errors_new None ''unsupported''"

definition ex_codec :: pg_codec where
  "ex_codec = \<lparr>pcAddressHex = (\<lambda>a. ''0x'' @ hex_nat 40 (unat a)),
     pcHexToAddress = (\<lambda>s. case hex_number (drop 2 s) of None \<Rightarrow> 0 | Some n \<Rightarrow> of_nat n),
     pcHexToHash = (\<lambda>s. case hex_number (drop 2 s) of None \<Rightarrow> 0 | Some n \<Rightarrow> of_nat n),
     pcMarshalTx = (\<lambda>t. if t = ex_eth_tx then Inr ''T'' else Inl ex_codec_error),
     pcUnmarshalTx = (\<lambda>s. if s = ''T'' then Inr ex_eth_tx else Inl ex_codec_error),
     pcMarshalReceipt = (\<lambda>_. Inl ex_codec_error), pcUnmarshalReceipt = (\<lambda>_. Inl ex_codec_error),
     pcMarshalAuths = (\<lambda>_. Inl ex_codec_error), pcUnmarshalAuths = (\<lambda>_. Inl ex_codec_error)\<rparr>"

lemma ex_codec_ok: "codec_ok ex_codec"
proof -
  have "unat a < 16 ^ 40" for a :: address using unsigned_less [of a] by simp
  moreover have "unat h < 16 ^ 64" for h :: hash using unsigned_less [of h] by simp
  ultimately show ?thesis by (simp add: codec_ok_def ex_codec_def hash_hex_def hex_number_hex_nat)
qed

definition ex_pg_tx :: Transaction where
  "ex_pg_tx = \<lparr>ID = ''t1'', IntentID = Some ''i'', OperationKey = Some ''op'', PayloadHash = Some ''h'', ChainID = 1, Sender = 3,
     Address = 5, Data = [], Value = Some 4, GasLimit = 21000, RawAuthorizations = [], AssignedNonce = Some 7,
     Tx = Some ex_eth_tx, Receipt = None, Status = ProcessingTxStatus, Msg = [], NextActionAt = 10, BroadcastPending = True,
     RejectedAttemptHash = None, NonceConsumedAt = None, NotifiedAt = None, NotificationAttempts = 0,
     NextNotificationAt = 0, NotificationError = [], UpdatedAt = 1, CreatedAt = 1\<rparr>"

definition ex_pg_attempt :: TransactionAttempt where
  "ex_pg_attempt = \<lparr>attTransactionID = ''t1'', attHash = 9, attNonce = 7, attTx = Some ex_eth_tx, attCreatedAt = 2\<rparr>"

definition ex_pg_defaults :: sql_row where
  "ex_pg_defaults = [''raw_tx'' \<mapsto> VText ''{}'', ''raw_receipt'' \<mapsto> VText ''{}'', ''raw_authorizations'' \<mapsto> VNull]"

definition ex_pg_cols :: "(string \<times> sql_value) list" where
  "ex_pg_cols = plain_fields ex_codec ex_pg_tx @ [(''raw_tx'', VText ''T'')]"

definition ex_pg_db :: pg_db where
  "ex_pg_db = \<lparr>pgTxs = [sql_set ex_pg_defaults ex_pg_cols], pgAttempts = [], pgDefaults = ex_pg_defaults, pgLocks = []\<rparr>"

lemma ex_pg_written: "transactionToTxModel ex_codec ex_pg_tx = Inr ex_pg_cols"
  by (simp add: transactionToTxModel_def raw_field_def ex_pg_tx_def ex_codec_def ex_pg_cols_def)

lemma ex_pg_raws: "raws_of ex_codec ex_pg_defaults ([], None, None)"
  unfolding raws_of_def
  by (intro exI [of _ None] exI [of _ "''{}''"]) (simp add: ex_pg_defaults_def nullable_def decode_raws_def pointerValue_def)

lemma ex_pg_read_back: "read_back ([], None, None) ex_pg_tx = ex_pg_tx"
  by (simp add: read_back_def ex_pg_tx_def normalizedHash_def)

lemma ex_pg_shows: "row_shows ex_codec (sql_set ex_pg_defaults ex_pg_cols) ex_pg_tx"
  using row_shows_set [OF ex_codec_ok ex_pg_raws ex_pg_written] by (simp add: ex_pg_read_back)


definition ex_pg_query :: tx_query where
  "ex_pg_query = Limit 5 (OrderBy orderLaneWork (withFilter (FilterByStatuses ActiveStatuses) (withFilter (FilterBySenderOrUnset 3) New)))"


theorem signer_queue_scoped_witness:
  "pgInsert ex_codec NoFault (pgLimitTo 1 (pgNewSenderTransactionsQ ex_codec 4)) ex_pg_tx ex_pg_db = (Fail sender_error, ex_pg_db)"
proof -
  have "derived ex_codec (pgNewSenderTransactionsQ ex_codec 4) (pgLimitTo 1 (pgNewSenderTransactionsQ ex_codec 4))"
    by (intro derived.limited derived.self)
  moreover have "Sender ex_pg_tx \<noteq> 4" by (simp add: ex_pg_tx_def)
  ultimately show ?thesis using signer_queue_scoped [OF ex_codec_ok] by blast
qed

lemma ex_pg_active: "where_holds (active_conds ex_pg_tx) (sql_set ex_pg_defaults ex_pg_cols)"
  using ex_pg_shows unfolding active_conds_hold row_shows_def by (auto simp: ex_pg_tx_def ActiveStatuses_def)


end
