(* ===== verification/Kms_Signer.thy ===== *)
theory Kms_Signer
  imports Go_Errors Go_Hex "HOL-Library.AList"
begin

text \<open>
  \<open>evm/ethawskmssigner\<close>: Ethereum signatures made by an AWS KMS key. The KMS client, \<open>encoding/asn1\<close> and
  go-ethereum's curve functions are the fields of \<open>kms_env\<close>, over a type of public keys. The cache
  of public keys is a map from key IDs, the state of the actions. Byte slices are values: the \<open>append\<close>s
  of \<open>getEthereumSignature\<close> may write into the decoded signature, after both of its parts were read.
\<close>

section \<open>The model\<close>

record 'k kms_env =
  kmsGetPublicKey :: "string \<Rightarrow> go_error + bytes"
  kmsSign :: "string \<Rightarrow> bytes \<Rightarrow> go_error + bytes"
  asn1PublicKey :: "bytes \<Rightarrow> go_error + bytes"
  asn1Signature :: "bytes \<Rightarrow> go_error + bytes \<times> bytes"
  unmarshalPubkey :: "bytes \<Rightarrow> go_error + 'k"
  marshalPubkey :: "'k \<Rightarrow> bytes"
  pubkeyToAddress :: "'k \<Rightarrow> address"
  ecrecover :: "bytes \<Rightarrow> bytes \<Rightarrow> go_error + bytes"

definition secp256k1N :: int where
  "secp256k1N = 0xFFFFFFFFFFFFFFFFFFFFFFFFFFFFFFFEBAAEDCE6AF48A03BBFD25E8CD0364141"

definition secp256k1HalfN :: int where
  "secp256k1HalfN = secp256k1N div 2"

type_synonym 'k pubKeyCache = "(string \<times> 'k) list"

definition newPubKeyCache :: "'k pubKeyCache" where
  "newPubKeyCache = []"

definition cache_add :: "string \<Rightarrow> 'k \<Rightarrow> 'k pubKeyCache \<Rightarrow> 'k pubKeyCache" where
  "cache_add keyId key c = AList.update keyId key c"

definition cache_get :: "'k pubKeyCache \<Rightarrow> string \<Rightarrow> 'k option" where
  "cache_get c keyId = map_of c keyId"

definition getPublicKeyDerBytesFromKMS :: "'k kms_env \<Rightarrow> string \<Rightarrow> go_error + bytes" where
  "getPublicKeyDerBytesFromKMS env keyId =
     (case kmsGetPublicKey env keyId of
        Inl e \<Rightarrow> Inl (wrapf (''can not get public key from KMS for KeyId='' @ keyId) e)
      | Inr der \<Rightarrow>
          (case asn1PublicKey env der of
             Inl e \<Rightarrow> Inl (wrapf (''can not parse asn1 public key for KeyId='' @ keyId) e)
           | Inr bs \<Rightarrow> Inr bs))"

definition GetPubKey :: "'k kms_env \<Rightarrow> string \<Rightarrow> ('k pubKeyCache, 'k) act" where
  "GetPubKey env keyId c =
     (case cache_get c keyId of
        Some pubkey \<Rightarrow> (Ret pubkey, c)
      | None \<Rightarrow>
          (case getPublicKeyDerBytesFromKMS env keyId of
             Inl e \<Rightarrow> (Fail e, c)
           | Inr bs \<Rightarrow>
               (case unmarshalPubkey env bs of
                  Inl e \<Rightarrow> (Fail (wrapf ''can not construct secp256k1 public key from key bytes'' e), c)
                | Inr pubkey \<Rightarrow> (Ret pubkey, cache_add keyId pubkey c))))"

definition getSignatureFromKms :: "'k kms_env \<Rightarrow> string \<Rightarrow> bytes \<Rightarrow> go_error + bytes \<times> bytes" where
  "getSignatureFromKms env keyId txHashBytes =
     (case kmsSign env keyId txHashBytes of Inl e \<Rightarrow> Inl e | Inr sig \<Rightarrow> asn1Signature env sig)"

fun pad_left :: "nat \<Rightarrow> bytes \<Rightarrow> bytes" where
  "pad_left 0 buffer = buffer"
| "pad_left (Suc k) buffer = (if length buffer < 32 then pad_left k (0 # buffer) else buffer)"

text \<open>The loop prepends one zero per pass while fewer than 32 bytes are there, so 32 passes are enough.\<close>

definition adjustSignatureLength :: "bytes \<Rightarrow> bytes" where
  "adjustSignatureLength buffer = pad_left 32 (dropWhile (\<lambda>b. b = 0) buffer)"

definition low_s :: "bytes \<Rightarrow> bytes" where
  "low_s sBytes =
     (let sBigInt = int (bytes_value sBytes)
      in if sBigInt > secp256k1HalfN then nat_bytes (nat \<bar>secp256k1N - sBigInt\<bar>) else sBytes)"

definition getEthereumSignature :: "'k kms_env \<Rightarrow> bytes \<Rightarrow> bytes \<Rightarrow> bytes \<Rightarrow> bytes \<Rightarrow> go_error + bytes" where
  "getEthereumSignature env expected txHash r s =
     (let rsSignature = adjustSignatureLength r @ adjustSignatureLength s;
          signature = rsSignature @ [0]
      in case ecrecover env txHash signature of
           Inl e \<Rightarrow> Inl e
         | Inr recovered \<Rightarrow>
             if hex_encode recovered \<noteq> hex_encode expected then
               (let signature = rsSignature @ [1]
                in case ecrecover env txHash signature of
                     Inl e \<Rightarrow> Inl e
                   | Inr recovered \<Rightarrow>
                       if hex_encode recovered \<noteq> hex_encode expected
                       then Inl (errors_new None ''can not reconstruct public key from sig'')
                       else Inr signature)
             else Inr signature)"

definition SignMessageHash :: "'k kms_env \<Rightarrow> string \<Rightarrow> 'k \<Rightarrow> bytes \<Rightarrow> go_error + bytes" where
  "SignMessageHash env keyId pubKey messageHash =
     (case getSignatureFromKms env keyId messageHash of
        Inl e \<Rightarrow> Inl e
      | Inr (rBytes, sBytes) \<Rightarrow> getEthereumSignature env (marshalPubkey env pubKey) messageHash rBytes (low_s sBytes))"

text \<open>The transactor: its address and its signing function; the signer's hash and \<open>WithSignature\<close> are parameters.\<close>

record 'tx transact_opts =
  optFrom :: address
  optSigner :: "address \<Rightarrow> 'tx \<Rightarrow> go_error + 'tx"

definition errNotAuthorized :: go_error where
  "errNotAuthorized = errors_new None ''not authorized to sign this account''"

definition errNoChainID :: go_error where
  "errNoChainID = errors_new None ''no chain id specified''"

definition signerFn :: "'k kms_env \<Rightarrow> (int \<Rightarrow> 'tx \<Rightarrow> bytes) \<Rightarrow> (int \<Rightarrow> 'tx \<Rightarrow> bytes \<Rightarrow> go_error + 'tx) \<Rightarrow> string \<Rightarrow> 'k \<Rightarrow> int \<Rightarrow>
    address \<Rightarrow> 'tx \<Rightarrow> go_error + 'tx" where
  "signerFn env signerHash withSignature keyId pubkey chainID addr tx =
     (if addr \<noteq> pubkeyToAddress env pubkey then Inl errNotAuthorized
      else let txHashBytes = signerHash chainID tx
           in case getSignatureFromKms env keyId txHashBytes of
                Inl e \<Rightarrow> Inl e
              | Inr (rBytes, sBytes) \<Rightarrow>
                  (case getEthereumSignature env (marshalPubkey env pubkey) txHashBytes rBytes (low_s sBytes) of
                     Inl e \<Rightarrow> Inl e
                   | Inr signature \<Rightarrow> withSignature chainID tx signature))"

definition NewAwsKmsTransactorWithChainID :: "'k kms_env \<Rightarrow> (int \<Rightarrow> 'tx \<Rightarrow> bytes) \<Rightarrow> (int \<Rightarrow> 'tx \<Rightarrow> bytes \<Rightarrow> go_error + 'tx) \<Rightarrow>
    string \<Rightarrow> int option \<Rightarrow> ('k pubKeyCache, 'tx transact_opts) act" where
  "NewAwsKmsTransactorWithChainID env signerHash withSignature keyId chainID c =
     (case GetPubKey env keyId c of
        (Fail e, c') \<Rightarrow> (Fail e, c')
      | (Panic m, c') \<Rightarrow> (Panic m, c')
      | (Ret pubkey, c') \<Rightarrow>
          (case chainID of
             None \<Rightarrow> (Fail errNoChainID, c')
           | Some chain \<Rightarrow> (Ret \<lparr>optFrom = pubkeyToAddress env pubkey,
               optSigner = signerFn env signerHash withSignature keyId pubkey chain\<rparr>, c')))"

text \<open>\<open>kms.NewFromConfig\<close> of the AWS SDK makes the client.\<close>

definition InitKMSClient :: "('cfg \<Rightarrow> 'opt list \<Rightarrow> 'k kms_env) \<Rightarrow> string \<Rightarrow> 'cfg \<Rightarrow> 'opt list \<Rightarrow>
    ('k pubKeyCache, 'k kms_env \<times> 'k) act" where
  "InitKMSClient newFromConfig keyID cfg options c =
     (let kmsClient = newFromConfig cfg options
      in case GetPubKey kmsClient keyID c of
           (Fail e, c') \<Rightarrow> (Fail e, c')
         | (Panic m, c') \<Rightarrow> (Panic m, c')
         | (Ret publicKey, c') \<Rightarrow> (Ret (kmsClient, publicKey), c'))"

section \<open>Signatures\<close>

lemma pad_left_spec:
  "32 \<le> length b + k \<Longrightarrow> pad_left k b = replicate (32 - length b) 0 @ b"
proof (induction k arbitrary: b)
  case (Suc k)
  show ?case
  proof (cases "length b < 32")
    case True
    then have "pad_left (Suc k) b = replicate (32 - Suc (length b)) 0 @ 0 # b" using Suc by simp
    also have "\<dots> = replicate (32 - length b) 0 @ b"
      using True replicate_append_same [of "31 - length b" "0 :: 8 word"] by (simp add: Suc_diff_Suc flip: replicate_Suc)
    finally show ?thesis .
  qed simp
qed simp

lemma bytes_value_zeros: "bytes_value (replicate k 0 @ b) = bytes_value b"
  by (induction k) (simp_all add: bytes_value_Cons)

lemma bytes_value_trim: "bytes_value (dropWhile (\<lambda>b. b = 0) bs) = bytes_value bs"
  by (induction bs) (simp_all add: bytes_value_Cons)

lemma adjustSignatureLength:
  "bytes_value (adjustSignatureLength b) = bytes_value b" "32 \<le> length (adjustSignatureLength b)"
  by (simp_all add: adjustSignatureLength_def pad_left_spec bytes_value_zeros bytes_value_trim)

lemma hex_encode_inj [simp]: "hex_encode a = hex_encode b \<longleftrightarrow> a = b"
  by (metis hex_decode_encode option.inject)

lemma low_s_value:
  assumes "0 < bytes_value s" and "int (bytes_value s) < secp256k1N"
  shows "0 < bytes_value (low_s s)" "int (bytes_value (low_s s)) \<le> secp256k1HalfN"
    "int (bytes_value (low_s s)) \<in> {int (bytes_value s), secp256k1N - int (bytes_value s)}"
proof -
  have "secp256k1N = 2 * secp256k1HalfN + 1" by (simp add: secp256k1N_def secp256k1HalfN_def)
  then show "0 < bytes_value (low_s s)" "int (bytes_value (low_s s)) \<le> secp256k1HalfN"
    "int (bytes_value (low_s s)) \<in> {int (bytes_value s), secp256k1N - int (bytes_value s)}"
    using assms by (auto simp: low_s_def Let_def)
qed

lemma getEthereumSignature_Inr:
  assumes "getEthereumSignature env expected h r s = Inr sig"
  shows "\<exists>v \<in> {0, 1}. sig = adjustSignatureLength r @ adjustSignatureLength s @ [v] \<and> ecrecover env h sig = Inr expected"
  using assms by (auto simp: getEthereumSignature_def Let_def split: sum.splits if_splits)

text \<open>
  C37. Canonical signatures. What \<open>SignMessageHash\<close> returns for a KMS signature with an \<open>s\<close> between one
  and the order of the curve is exactly 65 bytes: 32 bytes of \<open>r\<close>, 32 bytes of an \<open>s\<close> in the lower half of the
  order that is the \<open>s\<close> of KMS or its negation, and a recovery ID of 0 or 1 with which the
  signature recovers to the expected public key. \<open>Ecrecover\<close> accepts only 65 bytes.
\<close>

theorem SignMessageHash_canonical:
  assumes "\<And>h sig k. ecrecover env h sig = Inr k \<Longrightarrow> length sig = 65"
    and "getSignatureFromKms env keyId h = Inr (r, s)" and "0 < bytes_value s" and "int (bytes_value s) < secp256k1N"
    and "SignMessageHash env keyId pubKey h = Inr sig"
  shows "\<exists>r' s' v. sig = r' @ s' @ [v] \<and> length r' = 32 \<and> length s' = 32 \<and> v \<in> {0, 1} \<and>
    bytes_value r' = bytes_value r \<and> 0 < bytes_value s' \<and> int (bytes_value s') \<le> secp256k1HalfN \<and>
    int (bytes_value s') \<in> {int (bytes_value s), secp256k1N - int (bytes_value s)} \<and>
    ecrecover env h sig = Inr (marshalPubkey env pubKey)"
proof -
  let ?r = "adjustSignatureLength r" and ?s = "adjustSignatureLength (low_s s)"
  obtain v where v: "v \<in> {0, 1}" "sig = ?r @ ?s @ [v]" "ecrecover env h sig = Inr (marshalPubkey env pubKey)"
    using getEthereumSignature_Inr assms(2,5) by (fastforce simp: SignMessageHash_def)
  have "length ?r + length ?s = 64" using assms(1) [OF v(3)] v(2) by simp
  then have "length ?r = 32" "length ?s = 32" using adjustSignatureLength(2) [of r] adjustSignatureLength(2) [of "low_s s"] by linarith+
  then show ?thesis using v low_s_value [OF assms(3,4)] by (intro exI [of _ ?r] exI [of _ ?s] exI [of _ v]) (simp add: adjustSignatureLength(1))
qed

text \<open>A key whose first candidate recovers to another public key, and whose \<open>s\<close> is in the upper half.\<close>

definition example_kms :: "bool kms_env" where
  "example_kms = \<lparr>kmsGetPublicKey = \<lambda>_. Inr [1], kmsSign = \<lambda>_ _. Inr [2], asn1PublicKey = Inr,
     asn1Signature = \<lambda>_. Inr ([0, 5], replicate 32 0xF0), unmarshalPubkey = \<lambda>_. Inr True,
     marshalPubkey = \<lambda>_. [4], pubkeyToAddress = \<lambda>_. 9,
     ecrecover = \<lambda>_ sig. if length sig = 65 then Inr (if last sig = 1 then [4] else [3])
       else Inl (errors_new None ''invalid signature length'')\<rparr>"

lemma bytes_value_replicate: "255 * bytes_value (replicate k b) + unat b = unat b * 256 ^ k"
  by (induction k) (simp_all add: bytes_value_Cons algebra_simps)

lemma example_s: "int (bytes_value (replicate 32 0xF0)) > secp256k1HalfN" "int (bytes_value (replicate 32 0xF0)) < secp256k1N"
proof -
  have "255 * int (bytes_value (replicate 32 0xF0)) + 240 = 240 * 256 ^ 32"
    using arg_cong [OF bytes_value_replicate [of 32 "0xF0"], of int] by simp
  moreover have "(115792089237316195423570985008687907852837564279074904382605163141518161494337 :: int) div 2
      = 57896044618658097711785492504343953926418782139537452191302581570759080747168" by simp
  ultimately show "int (bytes_value (replicate 32 0xF0)) > secp256k1HalfN" "int (bytes_value (replicate 32 0xF0)) < secp256k1N"
    unfolding secp256k1N_def secp256k1HalfN_def by simp_all
qed

lemma adjustSignatureLength_nat_bytes:
  assumes "n < 256 ^ 32" shows "length (adjustSignatureLength (nat_bytes n)) = 32"
  using nat_bytes_length [OF assms] length_dropWhile_le [of "\<lambda>b. b = 0" "nat_bytes n"]
  by (simp add: adjustSignatureLength_def pad_left_spec)

lemma example_kms_signs:
  "SignMessageHash example_kms ''k'' True [] =
     Inr (adjustSignatureLength [0, 5] @ adjustSignatureLength (low_s (replicate 32 0xF0)) @ [1])"
proof -
  have "length (adjustSignatureLength (low_s (replicate 32 0xF0))) = 32"
    using example_s by (simp add: low_s_def adjustSignatureLength_nat_bytes secp256k1HalfN_def secp256k1N_def)
  moreover have "length (adjustSignatureLength [0, 5]) = 32" by (simp add: adjustSignatureLength_def pad_left_spec)
  ultimately show ?thesis
    by (simp add: SignMessageHash_def getSignatureFromKms_def example_kms_def getEthereumSignature_def)
qed

theorem SignMessageHash_canonical_witness:
  "\<exists>sig r' s' v. SignMessageHash example_kms ''k'' True [] = Inr sig \<and> sig = r' @ s' @ [v] \<and> length r' = 32 \<and> length s' = 32 \<and>
    v \<in> {0, 1} \<and> int (bytes_value s') \<le> secp256k1HalfN \<and> ecrecover example_kms [] sig = Inr [4]"
proof -
  have "length sig = 65" if "ecrecover example_kms h sig = Inr k" for h sig k
    using that by (simp add: example_kms_def split: if_splits)
  moreover have "getSignatureFromKms example_kms ''k'' [] = Inr ([0, 5], replicate 32 0xF0)"
    by (simp add: getSignatureFromKms_def example_kms_def)
  moreover have "0 < bytes_value (replicate 32 0xF0)" using example_s(1) by (simp add: secp256k1HalfN_def secp256k1N_def)
  moreover have "marshalPubkey example_kms True = [4]" by (simp add: example_kms_def)
  ultimately show ?thesis
    using SignMessageHash_canonical [of example_kms "''k''" "[]" "[0, 5]" "replicate 32 0xF0" True] example_s(2) example_kms_signs
    by auto
qed

end
