(* ===== verification/Go_Json.thy ===== *)
theory Go_Json
  imports Go_Hex Go_Text
begin

text \<open>
  Go's \<open>encoding/json\<close>, as far as the clients of the providers use it: which texts are valid, the
  values of strings and numbers, and \<open>Unmarshal\<close> into structs. A text is viewed one level deep: the
  elements of an array and the members of an object are texts again, as a \<open>json.RawMessage\<close> is.
\<close>

section \<open>Valid texts\<close>

datatype json =
    JNull
  | JBool bool
  | JNumber string
  | JString string
  | JArray "string list"
  | JObject "(string \<times> string) list"

definition skip_ws :: "string \<Rightarrow> string" where
  "skip_ws s = dropWhile (\<lambda>c. byte c = 32 \<or> byte c = 9 \<or> byte c = 10 \<or> byte c = 13) s"

definition strip_text :: "string \<Rightarrow> string \<Rightarrow> string option" where
  "strip_text p s = (if take (length p) s = p then Some (drop (length p) s) else None)"

text \<open>Digits, and what follows them.\<close>

definition span_digits :: "string \<Rightarrow> string \<times> string" where
  "span_digits s = (takeWhile is_digit s, dropWhile is_digit s)"

definition scan_exponent :: "string \<Rightarrow> (string \<times> string) option" where
  "scan_exponent s =
     (if s \<noteq> [] \<and> (hd s = CHR ''e'' \<or> hd s = CHR ''E'') then
        (let sign = (if tl s \<noteq> [] \<and> (hd (tl s) = CHR ''+'' \<or> hd (tl s) = CHR ''-'') then [hd (tl s)] else []);
             (ds, r) = span_digits (drop (length sign) (tl s))
         in if ds = [] then None else Some (hd s # sign @ ds, r))
      else Some ([], s))"

definition scan_fraction :: "string \<Rightarrow> (string \<times> string) option" where
  "scan_fraction s =
     (if s \<noteq> [] \<and> hd s = CHR ''.'' then
        (let (ds, r) = span_digits (tl s) in if ds = [] then None else Some (CHR ''.'' # ds, r))
      else Some ([], s))"

text \<open>The integer part has no leading zero.\<close>

definition scan_integer :: "string \<Rightarrow> (string \<times> string) option" where
  "scan_integer s =
     (if s = [] \<or> \<not> is_digit (hd s) then None
      else if hd s = CHR ''0'' then Some (''0'', tl s)
      else Some (span_digits s))"

definition scan_number :: "string \<Rightarrow> (string \<times> string) option" where
  "scan_number s =
     (let sign = (if s \<noteq> [] \<and> hd s = CHR ''-'' then ''-'' else [])
      in case scan_integer (drop (length sign) s) of
           None \<Rightarrow> None
         | Some (ds, r) \<Rightarrow>
             (case scan_fraction r of
                None \<Rightarrow> None
              | Some (fs, r) \<Rightarrow>
                  (case scan_exponent r of None \<Rightarrow> None | Some (es, r) \<Rightarrow> Some (sign @ ds @ fs @ es, r))))"

text \<open>A string after its opening quote: the text inside the quotes, and what follows the closing one.\<close>

definition is_hex :: "char \<Rightarrow> bool" where
  "is_hex c \<longleftrightarrow> hex_value c \<noteq> None"

function scan_string :: "string \<Rightarrow> (string \<times> string) option" where
  "scan_string s =
     (case s of
        [] \<Rightarrow> None
      | c # t \<Rightarrow>
          if c = CHR 0x22 then Some ([], t)
          else if byte c < 32 then None
          else if c = CHR 0x5C then
            (if t = [] then None
             else if hd t = CHR ''u'' then
               (if length t < 5 \<or> \<not> list_all is_hex (take 4 (tl t)) then None
                else map_option (\<lambda>(i, r). (c # take 5 t @ i, r)) (scan_string (drop 5 t)))
             else if hd t \<in> set ''bfnrt/'' \<or> hd t = CHR 0x22 \<or> hd t = CHR 0x5C
             then map_option (\<lambda>(i, r). (c # hd t # i, r)) (scan_string (tl t))
             else None)
          else map_option (\<lambda>(i, r). (c # i, r)) (scan_string t))"
  by pat_completeness auto
termination by (relation "measure length") auto

declare scan_string.simps [simp del]

text \<open>The UTF-8 encoding of a code point.\<close>

definition encode_rune :: "nat \<Rightarrow> string" where
  "encode_rune n = map char_of
     (if n < 0x80 then [n]
      else if n < 0x800 then [0xC0 + n div 0x40, 0x80 + n mod 0x40]
      else if n < 0x10000 then [0xE0 + n div 0x1000, 0x80 + n div 0x40 mod 0x40, 0x80 + n mod 0x40]
      else [0xF0 + n div 0x40000, 0x80 + n div 0x1000 mod 0x40, 0x80 + n div 0x40 mod 0x40, 0x80 + n mod 0x40])"

definition ReplacementChar :: nat where
  "ReplacementChar = 0xFFFD"

definition hex4 :: "string \<Rightarrow> nat" where
  "hex4 s = foldl (\<lambda>acc c. 16 * acc + (case hex_value c of Some v \<Rightarrow> v | None \<Rightarrow> 0)) 0 (take 4 s)"

text \<open>\<open>getu4\<close>: the code unit of an escape at the front of the text, if there is one.\<close>

definition getu4 :: "string \<Rightarrow> nat option" where
  "getu4 s = (if 6 \<le> length s \<and> s ! 0 = CHR 0x5C \<and> s ! 1 = CHR ''u'' \<and> list_all is_hex (take 4 (drop 2 s))
     then Some (hex4 (drop 2 s)) else None)"

definition escaped :: "char \<Rightarrow> char" where
  "escaped c = (if c = CHR ''b'' then char_of (8 :: nat) else if c = CHR ''f'' then char_of (12 :: nat)
     else if c = CHR ''n'' then char_of (10 :: nat) else if c = CHR ''r'' then char_of (13 :: nat)
     else if c = CHR ''t'' then char_of (9 :: nat) else c)"

text \<open>\<open>unquoteBytes\<close>: surrogate pairs are joined, what is not a valid code point is replaced.\<close>

function unquote :: "string \<Rightarrow> string" where
  "unquote s =
     (case s of
        [] \<Rightarrow> []
      | c # t \<Rightarrow>
          if c = CHR 0x5C then
            (case getu4 s of
               Some u \<Rightarrow>
                 (if 0xD800 \<le> u \<and> u < 0xE000 then
                    (case getu4 (drop 6 s) of
                       Some v \<Rightarrow>
                         (if u < 0xDC00 \<and> 0xDC00 \<le> v \<and> v < 0xE000
                          then encode_rune ((u - 0xD800) * 0x400 + (v - 0xDC00) + 0x10000) @ unquote (drop 12 s)
                          else encode_rune ReplacementChar @ unquote (drop 6 s))
                     | None \<Rightarrow> encode_rune ReplacementChar @ unquote (drop 6 s))
                  else encode_rune u @ unquote (drop 6 s))
             | None \<Rightarrow> (case t of [] \<Rightarrow> [] | e # r \<Rightarrow> escaped e # unquote r))
          else if rune_width s = 0 then encode_rune ReplacementChar @ unquote t
          else take (rune_width s) s @ unquote (drop (rune_width s) s))"
  by pat_completeness auto
termination by (relation "measure length") (auto simp: rune_width.simps)

declare unquote.simps [simp del]

text \<open>
  One value at the front of a text. The nesting is limited to 10000 levels. That a value has a first
  byte, the comparison of the lengths, always holds (\<open>scan_consumes\<close>); it bounds the recursion.
\<close>

definition maxNestingDepth :: nat where
  "maxNestingDepth = 10000"

definition consumed :: "string \<Rightarrow> string \<Rightarrow> string" where
  "consumed s r = take (length s - length r) s"

function scan_value :: "nat \<Rightarrow> string \<Rightarrow> (json \<times> string) option"
  and scan_elements :: "nat \<Rightarrow> string \<Rightarrow> (string list \<times> string) option"
  and scan_members :: "nat \<Rightarrow> string \<Rightarrow> ((string \<times> string) list \<times> string) option" where
  "scan_value d s =
     (case s of
        [] \<Rightarrow> None
      | c # t \<Rightarrow>
          if c = CHR ''{'' then
            (if maxNestingDepth \<le> d then None
             else (case skip_ws t of
                     [] \<Rightarrow> None
                   | c' # r \<Rightarrow> if c' = CHR ''}'' then Some (JObject [], r)
                               else map_option (map_prod JObject id) (scan_members (Suc d) (skip_ws t))))
          else if c = CHR ''['' then
            (if maxNestingDepth \<le> d then None
             else (case skip_ws t of
                     [] \<Rightarrow> None
                   | c' # r \<Rightarrow> if c' = CHR '']'' then Some (JArray [], r)
                               else map_option (map_prod JArray id) (scan_elements (Suc d) (skip_ws t))))
          else if c = CHR 0x22 then map_option (map_prod (\<lambda>i. JString (unquote i)) id) (scan_string t)
          else if c = CHR ''t'' then map_option (Pair (JBool True)) (strip_text ''rue'' t)
          else if c = CHR ''f'' then map_option (Pair (JBool False)) (strip_text ''alse'' t)
          else if c = CHR ''n'' then map_option (Pair JNull) (strip_text ''ull'' t)
          else map_option (map_prod JNumber id) (scan_number s))"
| "scan_elements d s =
     (case scan_value d s of
        None \<Rightarrow> None
      | Some (_, r) \<Rightarrow>
          (case skip_ws r of
             [] \<Rightarrow> None
           | c # r' \<Rightarrow>
               if c = CHR '']'' then Some ([consumed s r], r')
               else if c = CHR '','' \<and> length r < length s
               then map_option (map_prod (Cons (consumed s r)) id) (scan_elements d (skip_ws r'))
               else None))"
| "scan_members d s =
     (if s = [] \<or> hd s \<noteq> CHR 0x22 then None
      else case scan_string (tl s) of
             None \<Rightarrow> None
           | Some (k, r) \<Rightarrow>
               (case skip_ws r of
                  [] \<Rightarrow> None
                | c # r \<Rightarrow>
                    if c \<noteq> CHR '':'' \<or> length s \<le> length (skip_ws r) then None
                    else (case scan_value d (skip_ws r) of
                            None \<Rightarrow> None
                          | Some (_, r') \<Rightarrow>
                              (case skip_ws r' of
                                 [] \<Rightarrow> None
                               | c' # r'' \<Rightarrow>
                                   if c' = CHR ''}'' then Some ([(unquote k, consumed (skip_ws r) r')], r'')
                                   else if c' = CHR '','' \<and> length (skip_ws r'') < length s
                                   then map_option (map_prod (Cons (unquote k, consumed (skip_ws r) r')) id)
                                          (scan_members d (skip_ws r''))
                                   else None))))"
  by pat_completeness auto

lemma skip_ws_length: "length (skip_ws s) \<le> length s"
  by (simp add: skip_ws_def length_dropWhile_le)

lemma skip_ws_Cons: "skip_ws s = c # r \<Longrightarrow> length r < length s"
  using skip_ws_length [of s] by simp

lemma skip_ws_less: "length s < n \<Longrightarrow> length (skip_ws s) < n"
  using skip_ws_length [of s] by simp

termination scan_value
proof (relation "measure (\<lambda>x. case x of Inl (d, s) \<Rightarrow> 2 * length s | Inr (Inl (d, s)) \<Rightarrow> 2 * length s + 1
    | Inr (Inr (d, s)) \<Rightarrow> 2 * length s + 1)", simp_all add: less_Suc_eq_le, goal_cases)
  case (1 d s c t c' r)
  then show ?case using skip_ws_Cons [of t c' r] by simp
next
  case (2 d s c t c' r)
  then show ?case using skip_ws_Cons [of t c' r] by simp
next
  case (3 d s x v r r')
  then show ?case using skip_ws_Cons [of r "CHR '',''" r'] skip_ws_length [of r'] by simp
qed

declare scan_value.simps [simp del] scan_elements.simps [simp del] scan_members.simps [simp del]

text \<open>\<open>json.Valid\<close> on a text, the text without the white space around its value, and the view of the value.\<close>

definition json_scan :: "string \<Rightarrow> (json \<times> string) option" where
  "json_scan s =
     (case scan_value 0 (skip_ws s) of
        Some (v, r) \<Rightarrow> if skip_ws r = [] then Some (v, consumed (skip_ws s) r) else None
      | None \<Rightarrow> None)"

definition json_Valid :: "string \<Rightarrow> bool" where
  "json_Valid s \<longleftrightarrow> json_scan s \<noteq> None"

definition json_view :: "string \<Rightarrow> json option" where
  "json_view s = map_option fst (json_scan s)"

section \<open>Unmarshalling\<close>

text \<open>
  A decoder stores the value of a text in a variable: it gets the old value of the variable and
  returns the new one and whether a type mismatch was recorded, after which decoding goes on, or the
  error of an \<open>UnmarshalJSON\<close> method, which ends it. \<open>null\<close> leaves most variables as they are.
  \<open>bad\<close> stands for the errors of the package itself, whose texts are not modelled.
\<close>

type_synonym ('e, 'a) decoder = "'a \<Rightarrow> string \<Rightarrow> 'e + ('a \<times> bool)"

definition Unmarshal :: "'e \<Rightarrow> ('e, 'a) decoder \<Rightarrow> 'a \<Rightarrow> string \<Rightarrow> 'e + 'a" where
  "Unmarshal bad d old data =
     (case json_scan data of
        None \<Rightarrow> Inl bad
      | Some (_, raw) \<Rightarrow>
          (case d old raw of
             Inl e \<Rightarrow> Inl e
           | Inr (v, mismatch) \<Rightarrow> if mismatch then Inl bad else Inr v))"

definition scalar :: "(json \<Rightarrow> 'a option) \<Rightarrow> ('e, 'a) decoder" where
  "scalar f old raw =
     (case json_view raw of
        Some JNull \<Rightarrow> Inr (old, False)
      | Some v \<Rightarrow> (case f v of Some x \<Rightarrow> Inr (x, False) | None \<Rightarrow> Inr (old, True))
      | None \<Rightarrow> Inr (old, True))"

definition json_string :: "('e, string) decoder" where
  "json_string = scalar (\<lambda>v. case v of JString s \<Rightarrow> Some s | _ \<Rightarrow> None)"

definition json_bool :: "('e, bool) decoder" where
  "json_bool = scalar (\<lambda>v. case v of JBool b \<Rightarrow> Some b | _ \<Rightarrow> None)"

text \<open>Integers are read by \<open>strconv.ParseInt\<close> and \<open>strconv.ParseUint\<close>: no fraction, no exponent, in range.\<close>

definition json_int64 :: "('e, int) decoder" where
  "json_int64 = scalar (\<lambda>v. case v of JNumber s \<Rightarrow> Atoi s | _ \<Rightarrow> None)"

definition json_uint :: "('e, 'w::len word) decoder" where
  "json_uint = scalar (\<lambda>v. case v of
     JNumber s \<Rightarrow> if list_all is_digit s \<and> digits_val s < 2 ^ LENGTH('w) then Some (of_nat (digits_val s)) else None
   | _ \<Rightarrow> None)"

text \<open>A type with a method \<open>UnmarshalJSON\<close>, which also gets \<open>null\<close>; \<open>json.RawMessage\<close> is one.\<close>

definition custom :: "(string \<Rightarrow> 'e + 'a) \<Rightarrow> ('e, 'a) decoder" where
  "custom u old raw = (case u raw of Inl e \<Rightarrow> Inl e | Inr v \<Rightarrow> Inr (v, False))"

definition json_raw :: "('e, string) decoder" where
  "json_raw old raw = Inr (raw, False)"

definition pointer :: "'a \<Rightarrow> ('e, 'a) decoder \<Rightarrow> ('e, 'a option) decoder" where
  "pointer zero d old raw =
     (if json_view raw = Some JNull then Inr (None, False)
      else case d (case old of None \<Rightarrow> zero | Some v \<Rightarrow> v) raw of
             Inl e \<Rightarrow> Inl e
           | Inr (v, mismatch) \<Rightarrow> Inr (Some v, mismatch))"

text \<open>A slice whose elements have a method \<open>UnmarshalJSON\<close>; \<open>None\<close> is the nil slice.\<close>

fun each :: "(string \<Rightarrow> 'e + 'a) \<Rightarrow> string list \<Rightarrow> 'e + 'a list" where
  "each u [] = Inr []"
| "each u (raw # raws) =
     (case u raw of Inl e \<Rightarrow> Inl e | Inr v \<Rightarrow> (case each u raws of Inl e \<Rightarrow> Inl e | Inr vs \<Rightarrow> Inr (v # vs)))"

definition slice :: "(string \<Rightarrow> 'e + 'a) \<Rightarrow> ('e, 'a list option) decoder" where
  "slice u old raw =
     (case json_view raw of
        Some JNull \<Rightarrow> Inr (None, False)
      | Some (JArray raws) \<Rightarrow> (case each u raws of Inl e \<Rightarrow> Inl e | Inr vs \<Rightarrow> Inr (Some vs, False))
      | _ \<Rightarrow> Inr (old, True))"

text \<open>
  A slice of other elements. A second member for the same variable decodes into the elements that are
  there; what a shorter second member cuts off is not seen by a third one in the model.
\<close>

fun each_into :: "'a \<Rightarrow> ('e, 'a) decoder \<Rightarrow> 'a list \<Rightarrow> string list \<Rightarrow> 'e + ('a list \<times> bool)" where
  "each_into zero d olds [] = Inr ([], False)"
| "each_into zero d olds (raw # raws) =
     (case d (case olds of [] \<Rightarrow> zero | v # _ \<Rightarrow> v) raw of
        Inl e \<Rightarrow> Inl e
      | Inr (v, mismatch) \<Rightarrow>
          (case each_into zero d (tl olds) raws of Inl e \<Rightarrow> Inl e | Inr (vs, later) \<Rightarrow> Inr (v # vs, mismatch \<or> later)))"

definition slice_of :: "'a \<Rightarrow> ('e, 'a) decoder \<Rightarrow> ('e, 'a list option) decoder" where
  "slice_of zero d old raw =
     (case json_view raw of
        Some JNull \<Rightarrow> Inr (None, False)
      | Some (JArray raws) \<Rightarrow>
          (case each_into zero d (case old of None \<Rightarrow> [] | Some vs \<Rightarrow> vs) raws of
             Inl e \<Rightarrow> Inl e
           | Inr (vs, mismatch) \<Rightarrow> Inr (Some vs, mismatch))
      | _ \<Rightarrow> Inr (old, True))"

text \<open>
  A key selects the field whose name it equals up to simple case folding: ASCII letters, and the two
  runes outside ASCII that fold to ASCII letters, the long s and the Kelvin sign. All field
  names of the code are ASCII.
\<close>

fun fold_name :: "string \<Rightarrow> string" where
  "fold_name (a # b # c # s) =
     (if byte a = 0xC5 \<and> byte b = 0xBF then CHR ''S'' # fold_name (c # s)
      else if byte a = 0xE2 \<and> byte b = 0x84 \<and> byte c = 0xAA then CHR ''K'' # fold_name s
      else (if in_range 97 122 a then char_of (byte a - 32) else a) # fold_name (b # c # s))"
| "fold_name [a, b] =
     (if byte a = 0xC5 \<and> byte b = 0xBF then ''S''
      else [if in_range 97 122 a then char_of (byte a - 32) else a, if in_range 97 122 b then char_of (byte b - 32) else b])"
| "fold_name [a] = [if in_range 97 122 a then char_of (byte a - 32) else a]"
| "fold_name [] = []"

type_synonym ('e, 'a) fields = "(string \<times> ('e, 'a) decoder) list"

definition field :: "('a \<Rightarrow> 'b) \<Rightarrow> (('b \<Rightarrow> 'b) \<Rightarrow> 'a \<Rightarrow> 'a) \<Rightarrow> ('e, 'b) decoder \<Rightarrow> ('e, 'a) decoder" where
  "field get upd d r raw =
     (case d (get r) raw of Inl e \<Rightarrow> Inl e | Inr (v, mismatch) \<Rightarrow> Inr (upd (\<lambda>_. v) r, mismatch))"

fun set_fields :: "('e, 'a) fields \<Rightarrow> (string \<times> string) list \<Rightarrow> 'a \<Rightarrow> 'e + ('a \<times> bool)" where
  "set_fields table [] r = Inr (r, False)"
| "set_fields table ((key, raw) # ms) r =
     (case find (\<lambda>(name, _). fold_name name = fold_name key) table of
        None \<Rightarrow> set_fields table ms r
      | Some (_, d) \<Rightarrow>
          (case d r raw of
             Inl e \<Rightarrow> Inl e
           | Inr (r', mismatch) \<Rightarrow>
               (case set_fields table ms r' of Inl e \<Rightarrow> Inl e | Inr (r'', later) \<Rightarrow> Inr (r'', mismatch \<or> later))))"

definition struct :: "('e, 'a) fields \<Rightarrow> ('e, 'a) decoder" where
  "struct table old raw =
     (case json_view raw of
        Some JNull \<Rightarrow> Inr (old, False)
      | Some (JObject ms) \<Rightarrow> set_fields table ms old
      | _ \<Rightarrow> Inr (old, True))"

text \<open>\<open>map[string]json.RawMessage\<close>: the last member with a key counts.\<close>

definition raw_map :: "('e, string \<rightharpoonup> string) decoder" where
  "raw_map old raw =
     (case json_view raw of
        Some JNull \<Rightarrow> Inr (Map.empty, False)
      | Some (JObject ms) \<Rightarrow> Inr (old ++ map_of (rev ms), False)
      | _ \<Rightarrow> Inr (old, True))"

section \<open>Facts\<close>

lemma strip_text_length: "strip_text p s = Some r \<Longrightarrow> length r \<le> length s"
  by (auto simp: strip_text_def split: if_splits)

lemma span_digits_append: "span_digits s = (ds, r) \<Longrightarrow> s = ds @ r \<and> list_all is_digit ds"
  by (auto simp: span_digits_def list_all_iff dest: set_takeWhileD)

lemma scan_integer_append:
  assumes "scan_integer s = Some (ds, r)" shows "s = ds @ r \<and> ds \<noteq> [] \<and> list_all is_digit ds"
  using assms span_digits_append [of s ds r]
  by (cases s) (auto simp: scan_integer_def span_digits_def is_digit_def split: if_splits)

lemma scan_fraction_append: "scan_fraction s = Some (fs, r) \<Longrightarrow> s = fs @ r"
  by (cases s) (auto simp: scan_fraction_def Let_def dest!: span_digits_append split: if_splits prod.splits)

lemma scan_exponent_append:
  assumes "scan_exponent s = Some (es, r)" shows "s = es @ r"
proof (cases "s \<noteq> [] \<and> (hd s = CHR ''e'' \<or> hd s = CHR ''E'')")
  case True
  define sign where "sign = (if tl s \<noteq> [] \<and> (hd (tl s) = CHR ''+'' \<or> hd (tl s) = CHR ''-'') then [hd (tl s)] else [])"
  have t: "tl s = sign @ drop (length sign) (tl s)" by (cases "tl s") (auto simp: sign_def)
  obtain ds where ds: "es = hd s # sign @ ds" "span_digits (drop (length sign) (tl s)) = (ds, r)"
    using assms True by (auto simp: scan_exponent_def Let_def sign_def split: if_splits prod.splits)
  have "s = hd s # tl s" using True by simp
  then show ?thesis using t span_digits_append [OF ds(2)] ds(1) by simp
next
  case False
  then have "Some ([], s) = Some (es, r)" using assms unfolding scan_exponent_def by (simp only: if_False)
  then show ?thesis by simp
qed

lemma scan_number_append:
  assumes "scan_number s = Some (t, r)" shows "s = t @ r \<and> t \<noteq> []"
proof -
  define sign where "sign = (if s \<noteq> [] \<and> hd s = CHR ''-'' then ''-'' else [])"
  have "s = sign @ drop (length sign) s" by (cases s) (auto simp: sign_def)
  then show ?thesis
    using assms by (auto simp: scan_number_def Let_def sign_def [symmetric] split: option.splits prod.splits
        dest!: scan_integer_append scan_fraction_append scan_exponent_append)
qed

lemma scan_string_append: "scan_string s = Some (i, r) \<Longrightarrow> s = i @ CHR 0x22 # r"
proof (induction s arbitrary: i r rule: scan_string.induct)
  case (1 s)
  show ?case
  proof (cases s)
    case (Cons c t)
    note u = 1(4) [unfolded Cons scan_string.simps [of "c # t"] list.case]
    consider (close) "c = CHR 0x22" | (unicode) "c = CHR 0x5C" "t \<noteq> []" "hd t = CHR ''u''" "\<not> length t < 5"
      | (esc) "c = CHR 0x5C" "t \<noteq> []" "hd t \<noteq> CHR ''u''" | (plain) "c \<noteq> CHR 0x22" "c \<noteq> CHR 0x5C" "\<not> byte c < 32"
      using u by (auto split: if_splits)
    then show ?thesis
    proof cases
      case unicode
      then obtain i' where i: "scan_string (drop 5 t) = Some (i', r)" "i = c # take 5 t @ i'" and h: "list_all is_hex (take 4 (tl t))"
        using u by (auto split: if_splits)
      then have "drop 5 t = i' @ CHR 0x22 # r" using 1(1) [OF Cons] unicode by (simp add: byte_def)
      then show ?thesis using i(2) Cons append_take_drop_id [of 5 t] by (metis append.assoc append_Cons)
    next
      case esc
      then show ?thesis using 1(2) [OF Cons] u Cons by (cases t) (auto simp: byte_def split: if_splits)
    next
      case plain
      then show ?thesis using 1(3) [OF Cons] u Cons by auto
    qed (use u Cons in simp)
  qed (use 1 in \<open>simp add: scan_string.simps\<close>)
qed

lemma suffix_skip_ws: "suffix (skip_ws s) s"
  unfolding skip_ws_def by (rule suffix_dropWhile)

lemma suffix_skip_ws_Cons: "skip_ws s = c # r \<Longrightarrow> suffix r s"
  by (metis suffix_ConsI suffix_order.trans suffix_order.refl suffix_skip_ws)

lemma scan_string_suffix: "scan_string s = Some (i, r) \<Longrightarrow> suffix r s"
  by (auto dest!: scan_string_append simp: suffix_def)

lemma strip_text_suffix: "strip_text p s = Some r \<Longrightarrow> suffix r s"
  by (auto simp: strip_text_def suffix_drop split: if_splits)

lemma suffix_Cons_strict: "suffix r s \<Longrightarrow> strict_suffix r (c # s)"
  by (auto simp: strict_suffix_def suffix_def)

lemma strict_suffix_of_skip: "strict_suffix r (skip_ws t) \<Longrightarrow> suffix r t"
  by (meson strict_suffix_def suffix_order.trans suffix_skip_ws)

lemma scan_consumes:
  shows "scan_value d s = Some (v, r) \<Longrightarrow> strict_suffix r s"
    and "scan_elements d s = Some (xs, r') \<Longrightarrow> strict_suffix r' s"
    and "scan_members d s = Some (ms, r'') \<Longrightarrow> strict_suffix r'' s"
proof (induction d s and d s and d s arbitrary: v r and xs r' and ms r'' rule: scan_value_scan_elements_scan_members.induct)
  case (1 d s)
  show ?case
  proof (cases s)
    case (Cons c t)
    note u = 1(3) [unfolded Cons scan_value.simps [of d "c # t"] list.case]
    have object: "suffix r t" if c: "c = CHR ''{''"
    proof -
      obtain c' t' where t': "skip_ws t = c' # t'" using u c by (cases "skip_ws t") (auto split: if_splits)
      show ?thesis
      proof (cases "c' = CHR ''}''")
        case True
        then show ?thesis using u c t' suffix_skip_ws_Cons [OF t'] by (auto split: if_splits)
      next
        case False
        then have "strict_suffix r (skip_ws t)" using u c t' 1(1) [OF Cons c _ t'] by (auto split: if_splits)
        then show ?thesis by (rule strict_suffix_of_skip)
      qed
    qed
    have arr: "suffix r t" if c: "c = CHR ''[''"
    proof -
      obtain c' t' where t': "skip_ws t = c' # t'" using u c by (cases "skip_ws t") (auto split: if_splits)
      show ?thesis
      proof (cases "c' = CHR '']''")
        case True
        then show ?thesis using u c t' suffix_skip_ws_Cons [OF t'] by (auto split: if_splits)
      next
        case False
        then have "strict_suffix r (skip_ws t)" using u c t' 1(2) [OF Cons _ c _ t'] by (auto split: if_splits)
        then show ?thesis by (rule strict_suffix_of_skip)
      qed
    qed
    have "c = CHR ''{'' \<or> c = CHR ''['' \<or> suffix r t \<or> (\<exists>n. scan_number s = Some (n, r))"
      using u Cons by (auto split: if_splits dest: scan_string_suffix strip_text_suffix)
    then consider "suffix r t" | n where "scan_number s = Some (n, r)" using object arr by blast
    then show ?thesis
    proof cases
      case 2
      then show ?thesis using scan_number_append [OF 2] by (auto simp: strict_suffix_def suffix_def)
    qed (simp add: Cons suffix_Cons_strict)
  qed (use 1 in \<open>simp add: scan_value.simps\<close>)
next
  case (2 d s)
  note u = 2(3) [unfolded scan_elements.simps [of d s]]
  obtain v r where r: "scan_value d s = Some (v, r)" using u by (auto split: option.splits)
  obtain c t where t: "skip_ws r = c # t" using u r by (cases "skip_ws r") auto
  have s: "strict_suffix r s" using 2(1) [OF r] .
  have "suffix t r" by (rule suffix_skip_ws_Cons [OF t])
  moreover have "c = CHR '']'' \<and> r' = t \<or> strict_suffix r' (skip_ws t)"
    using u r t 2(2) [OF r _ t] by (auto split: if_splits)
  ultimately have "suffix r' r" using strict_suffix_of_skip suffix_order.trans by blast
  then show ?case using s suffix_order.le_less_trans by blast
next
  case (3 d s)
  note u = 3(3) [unfolded scan_members.simps [of d s]]
  have "s \<noteq> [] \<and> hd s = CHR 0x22" using u by (auto split: if_splits)
  then obtain s' where s': "s = CHR 0x22 # s'" by (cases s) auto
  obtain k r where r: "scan_string s' = Some (k, r)" using u s' by (auto split: option.splits)
  obtain c t where t: "skip_ws r = c # t" "c = CHR '':''" using u s' r by (cases "skip_ws r") (auto split: if_splits)
  obtain v q where q: "scan_value d (skip_ws t) = Some (v, q)" using u s' r t by (auto split: option.splits if_splits)
  obtain c' t' where t': "skip_ws q = c' # t'" using u s' r t q by (cases "skip_ws q") (auto split: if_splits)
  have g: "\<not> (s = [] \<or> hd s \<noteq> CHR 0x22)" "scan_string (tl s) = Some (k, r)"
      "\<not> (c \<noteq> CHR '':'' \<or> length s \<le> length (skip_ws t))"
    using u s' r t by (auto split: if_splits)
  have "strict_suffix q (skip_ws t)" using 3(1) [OF g(1,2) refl t(1) g(3) q] .
  then have "suffix q s'"
    by (meson strict_suffix_of_skip suffix_skip_ws_Cons [OF t(1)] scan_string_suffix [OF r] suffix_order.trans)
  moreover have "suffix t' q" by (rule suffix_skip_ws_Cons [OF t'])
  moreover have "c' = CHR ''}'' \<and> r'' = t' \<or> strict_suffix r'' (skip_ws t')"
    using u s' r t(1) q t' g(3) 3(2) [OF g(1,2) refl t(1) g(3) q refl t'] by (auto split: if_splits)
  ultimately have "suffix r'' s'" using strict_suffix_of_skip suffix_order.trans by blast
  then show ?case by (simp add: s' suffix_Cons_strict)
qed

text \<open>So the guards on the lengths in the loops are always true.\<close>

lemma scan_guards:
  shows "scan_value d s = Some (v, r) \<Longrightarrow> length r < length s"
    and "s = CHR 0x22 # s' \<Longrightarrow> scan_string s' = Some (k, r) \<Longrightarrow> skip_ws r = c # t \<Longrightarrow> length (skip_ws t) < length s"
proof -
  show "scan_value d s = Some (v, r) \<Longrightarrow> length r < length s"
    using scan_consumes(1) suffix_length_less by blast
  show "s = CHR 0x22 # s' \<Longrightarrow> scan_string s' = Some (k, r) \<Longrightarrow> skip_ws r = c # t \<Longrightarrow> length (skip_ws t) < length s"
    using suffix_length_le [OF scan_string_suffix] skip_ws_Cons [of r c t] skip_ws_length [of t] by fastforce
qed

lemma json_scan_append: "json_scan s = Some (v, raw) \<Longrightarrow> \<exists>w w'. s = w @ raw @ w' \<and> raw \<noteq> []"
proof -
  assume "json_scan s = Some (v, raw)"
  then obtain r where r: "scan_value 0 (skip_ws s) = Some (v, r)" "raw = consumed (skip_ws s) r"
    by (auto simp: json_scan_def split: option.splits if_splits)
  then obtain t where t: "skip_ws s = t @ r" "t \<noteq> []"
    using scan_consumes(1) [OF r(1)] by (auto simp: strict_suffix_def suffix_def)
  moreover obtain w where "s = w @ skip_ws s" using suffix_skip_ws [of s] by (auto simp: suffix_def)
  ultimately show ?thesis using r(2) by (metis add_diff_cancel_right' append_eq_conv_conj consumed_def length_append)
qed

lemma each_Inr: "each u raws = Inr vs \<longleftrightarrow> list_all2 (\<lambda>raw v. u raw = Inr v) raws vs"
proof (induction raws arbitrary: vs)
  case (Cons raw raws)
  then show ?case by (cases "u raw"; cases "each u raws") (auto simp: list_all2_Cons1 Cons.IH [symmetric])
qed auto

lemma Unmarshal_slice:
  assumes "Unmarshal bad (slice u) None data = Inr (Some vs)"
  obtains v raw raws where "json_scan data = Some (v, raw)" "json_view raw = Some (JArray raws)"
    "list_all2 (\<lambda>raw v. u raw = Inr v) raws vs"
  using assms by (auto simp: Unmarshal_def slice_def each_Inr [symmetric] split: option.splits sum.splits json.splits if_splits)

lemma Unmarshal_struct:
  assumes "Unmarshal bad (struct table) zero data = Inr x"
  obtains (null) v raw where "json_scan data = Some (v, raw)" "json_view raw = Some JNull" "x = zero"
    | (object) v raw ms where "json_scan data = Some (v, raw)" "json_view raw = Some (JObject ms)" "set_fields table ms zero = Inr (x, False)"
  using assms by (auto simp: Unmarshal_def struct_def split: option.splits sum.splits json.splits if_splits)

text \<open>
  What \<open>Unmarshal\<close> leaves in one field of a struct depends on the members for that field only: the field
  \<open>name\<close> with the decoder \<open>dec\<close> is read by \<open>get\<close> and left alone by the decoders of the other fields.
\<close>

definition reads_field :: "('e, 'a) fields \<Rightarrow> string \<Rightarrow> ('a \<Rightarrow> 'b) \<Rightarrow> ('e, 'b) decoder \<Rightarrow> bool" where
  "reads_field table name get dec \<longleftrightarrow> distinct (map (\<lambda>x. fold_name (fst x)) table) \<and> name \<in> fst ` set table \<and>
     (\<forall>(n, d) \<in> set table. \<forall>r raw.
        (if n = name then (case d r raw of Inl e \<Rightarrow> dec (get r) raw = Inl e | Inr (r', b) \<Rightarrow> dec (get r) raw = Inr (get r', b))
         else (case d r raw of Inl _ \<Rightarrow> True | Inr (r', _) \<Rightarrow> get r' = get r)))"

lemma find_field:
  assumes "distinct (map (\<lambda>x. fold_name (fst x)) table)" and "find (\<lambda>(n, _). fold_name n = k) table = Some (n, d)"
  shows "(n, d) \<in> set table" "fold_name n = k" "\<And>n' d'. (n', d') \<in> set table \<Longrightarrow> fold_name n' = k \<Longrightarrow> n' = n"
proof -
  show n: "(n, d) \<in> set table" "fold_name n = k" using assms(2) by (auto simp: find_Some_iff in_set_conv_nth)
  show "n' = n" if "(n', d') \<in> set table" "fold_name n' = k" for n' d'
    using inj_onD [of "\<lambda>x. fold_name (fst x)" "set table" "(n', d')" "(n, d)"] assms(1) that n by (simp add: distinct_map)
qed

lemma set_fields_get:
  assumes "reads_field table name get dec" and "set_fields table ms r = Inr (r', False)"
  shows "set_fields [(name, dec)] ms (get r) = Inr (get r', False)"
  using assms(2)
proof (induction ms arbitrary: r)
  case (Cons m ms)
  obtain k raw where m: "m = (k, raw)" by (cases m)
  note t = assms(1) [unfolded reads_field_def]
  show ?case
  proof (cases "find (\<lambda>(n, _). fold_name n = fold_name k) table")
    case None
    then have "fold_name name \<noteq> fold_name k" using t by (auto simp: find_None_iff)
    then show ?thesis using Cons None by (simp add: m)
  next
    case (Some x)
    then obtain n d where x: "find (\<lambda>(n, _). fold_name n = fold_name k) table = Some (n, d)" by (cases x) simp
    note f = find_field [OF conjunct1 [OF t] x]
    obtain r1 b l where "d r raw = Inr (r1, b)" "set_fields table ms r1 = Inr (r', l)" "\<not> b \<and> \<not> l"
      using Cons.prems x by (auto simp: m split: sum.splits prod.splits)
    then have r1: "d r raw = Inr (r1, False)" "set_fields table ms r1 = Inr (r', False)" by simp_all
    note e = bspec [OF conjunct2 [OF conjunct2 [OF t]] f(1), unfolded prod.case, rule_format, of r raw]
    show ?thesis
    proof (cases "n = name")
      case True
      then have "dec (get r) raw = Inr (get r1, False)" using e r1(1) by simp
      then show ?thesis using Cons.IH [OF r1(2)] f(2) True by (simp add: m)
    next
      case False
      then have "get r1 = get r" using e r1(1) by simp
      moreover have "fold_name name \<noteq> fold_name k" using f(3) t False by fastforce
      ultimately show ?thesis using Cons.IH [OF r1(2)] by (simp add: m)
    qed
  qed
qed simp

lemma field_cases [simp]:
  "(\<And>f r. get (upd f r) = f (get r)) \<Longrightarrow> (case field get upd d r raw of Inl e \<Rightarrow> d (get r) raw = Inl e
     | Inr (r', b) \<Rightarrow> d (get r) raw = Inr (get r', b)) \<longleftrightarrow> True"
  "(\<And>f r. get' (upd f r) = get' r) \<Longrightarrow> (case field get upd d r raw of Inl _ \<Rightarrow> True | Inr (r', _) \<Rightarrow> get' r' = get' r) \<longleftrightarrow> True"
  by (auto simp: field_def split: sum.splits prod.splits)

lemma set_fields_custom:
  assumes "set_fields [(name, custom u)] ms old = Inr (v, False)"
  shows "v = old \<and> (\<forall>(k, raw) \<in> set ms. fold_name k \<noteq> fold_name name) \<or> (\<exists>raw. u raw = Inr v)"
  using assms
proof (induction ms arbitrary: old)
  case (Cons m ms)
  then show ?case by (cases m) (force simp: custom_def split: if_splits sum.splits)
qed simp

lemma set_fields_keeps:
  assumes "set_fields [(name, d)] ms old = Inr (v, b)" and "P old" and "\<And>old raw v b. P old \<Longrightarrow> d old raw = Inr (v, b) \<Longrightarrow> P v"
  shows "P v"
  using assms(1,2)
proof (induction ms arbitrary: old b)
  case (Cons m ms)
  obtain k raw where m: "m = (k, raw)" by (cases m)
  show ?case
  proof (cases "fold_name name = fold_name k")
    case True
    then obtain v1 b1 b2 where "d old raw = Inr (v1, b1)" "set_fields [(name, d)] ms v1 = Inr (v, b2)"
      using Cons.prems(1) by (cases "d old raw") (auto simp: m split: sum.split_asm prod.split_asm)
    then show ?thesis using Cons.IH assms(3) Cons.prems(2) by blast
  next
    case False
    then show ?thesis using Cons m by simp
  qed
qed simp

lemma raw_map_get:
  assumes "Unmarshal bad raw_map Map.empty data = Inr obj" and "obj k \<noteq> None" and "json_scan data = Some (v, raw)"
  obtains ms where "json_view raw = Some (JObject ms)" "k \<in> fst ` set ms"
  using assms by (force simp: Unmarshal_def raw_map_def dest!: map_of_SomeD split: option.splits json.splits)

end
