(* ===== verification/Hyperliquid_Amount.thy ===== *)
theory Hyperliquid_Amount
  imports Go_Json Complex_Main
begin

text \<open>
  \<open>providers/hyperliquid/amount.go\<close> and the decimals of \<open>ledger.go\<close>: which texts are amounts and their
  exact values. \<open>big.Rat.SetString\<close> is modelled on the texts the code passes to it.
\<close>

section \<open>Errors of the package\<close>

datatype ErrorKind = ErrorEncode | ErrorRequest | ErrorTransport | ErrorDecode | ErrorDispatch

text \<open>
  A message, a message with a quoted argument, an error of a callback, a context or a library by its
  text, a prefixed error, a \<open>*RequestError\<close>, an \<open>*HTTPError\<close>, an \<open>*L1ExplorerError\<close>, \<open>ErrRateLimited\<close>.
\<close>

datatype hl_error =
    HlMessage string
  | HlQuoted string string string
  | HlCause string
  | HlWrap string hl_error
  | HlRequest ErrorKind hl_error
  | HlHTTP int string
  | HlExplorer string
  | HlRateLimited

text \<open>The errors of \<open>encoding/json\<close>.\<close>

definition json_failed :: hl_error where
  "json_failed = HlCause ''json''"

section \<open>Amounts\<close>

text \<open>The loops over a fraction and an exponent are those of a JSON number.\<close>

definition isDecimalNumber :: "string \<Rightarrow> bool" where
  "isDecimalNumber val =
     (if val = [] then False
      else let rest = (if hd val = CHR ''-'' then tl val else val)
           in if rest = [] then False
              else let (ds, r) = span_digits rest
                   in if ds = [] then False
                      else case scan_fraction r of
                             None \<Rightarrow> False
                           | Some (_, r) \<Rightarrow> (case scan_exponent r of None \<Rightarrow> False | Some (_, r) \<Rightarrow> r = []))"

text \<open>
  \<open>big.Rat.SetString\<close> on a decimal text. The exponent must fit an int64, and, unless the digits are all
  zero, the power of ten after counting the fraction must be at most a million either way.
\<close>

definition scale10 :: "int \<Rightarrow> int \<Rightarrow> rat" where
  "scale10 m e = (if 0 \<le> e then of_int (m * 10 ^ nat e) else of_int m / of_int (10 ^ nat (- e)))"

definition maxRatExponent :: int where
  "maxRatExponent = 1000000"

definition rat_SetString :: "string \<Rightarrow> rat option" where
  "rat_SetString s =
     (let neg = (hd s = CHR ''-'');
          (ds, r) = span_digits (if neg then tl s else s);
          (fs, r) = (if r \<noteq> [] \<and> hd r = CHR ''.'' then span_digits (tl r) else ([], r));
          m = int (digits_val (ds @ fs))
      in case (if r = [] then Some 0 else Atoi (tl r)) of
           None \<Rightarrow> None
         | Some x \<Rightarrow>
             if m = 0 then Some 0
             else let e = wrap_i64 (x - int (length fs))
                  in if maxRatExponent < \<bar>e\<bar> then None else Some (scale10 (if neg then - m else m) e))"

definition ParseAmount :: "string \<Rightarrow> hl_error + rat" where
  "ParseAmount s =
     (if \<not> isDecimalNumber s then Inl (HlQuoted ''invalid decimal amount '' s [])
      else case rat_SetString s of
             None \<Rightarrow> Inl (HlQuoted ''invalid decimal amount '' s [])
           | Some amount \<Rightarrow> Inr amount)"

section \<open>Decimals of the venue\<close>

text \<open>A \<open>Decimal\<close> is its text.\<close>

definition Decimal_Rat :: "string \<Rightarrow> hl_error + rat" where
  "Decimal_Rat d = ParseAmount d"

definition decodeDecimalText :: "string \<Rightarrow> hl_error + string" where
  "decodeDecimalText data0 =
     (let data = TrimSpace data0
      in if data \<noteq> [] \<and> hd data = CHR 0x22 then
           (case Unmarshal json_failed json_string [] data of
              Inl e \<Rightarrow> Inl (HlWrap ''decoding quoted HyperCore decimal'' e)
            | Inr val \<Rightarrow> Inr val)
         else if data = [] \<or> hd data \<noteq> CHR ''-'' \<and> \<not> is_digit (hd data) \<or> \<not> json_Valid data
         then Inl (HlMessage ''decoding numeric HyperCore decimal: expected one JSON number'')
         else Inr data)"

definition Decimal_UnmarshalJSON :: "string \<Rightarrow> hl_error + string" where
  "Decimal_UnmarshalJSON data =
     (case decodeDecimalText data of
        Inl e \<Rightarrow> Inl e
      | Inr val \<Rightarrow> (case ParseAmount val of Inl e \<Rightarrow> Inl e | Inr _ \<Rightarrow> Inr val))"

definition decimalWireText_UnmarshalJSON :: "string \<Rightarrow> hl_error + string" where
  "decimalWireText_UnmarshalJSON data =
     (if TrimSpace data = ''null'' then Inr [] else decodeDecimalText data)"

section \<open>Exact values\<close>

text \<open>The texts of the grammar by their parts: a sign, digits, a fraction and an exponent.\<close>

definition fraction_text :: "string \<Rightarrow> string" where
  "fraction_text fs = (if fs = [] then [] else CHR ''.'' # fs)"

definition amount_text :: "bool \<Rightarrow> string \<Rightarrow> string \<Rightarrow> string \<Rightarrow> string" where
  "amount_text neg ds fs es = (if neg then ''-'' else []) @ ds @ fraction_text fs @ es"

text \<open>An exponent is absent, or a letter, perhaps a sign, and digits.\<close>

definition exponent_ok :: "string \<Rightarrow> bool" where
  "exponent_ok es \<longleftrightarrow> es = [] \<or>
     (\<exists>c sign ds. es = c # sign @ ds \<and> c \<in> {CHR ''e'', CHR ''E''} \<and> sign \<in> {[], ''+'', ''-''} \<and> ds \<noteq> [] \<and> list_all is_digit ds)"

definition exponent_value :: "string \<Rightarrow> int option" where
  "exponent_value es = (if es = [] then Some 0 else Atoi (tl es))"

lemma span_digits_digits:
  assumes "list_all is_digit ds" and "r = [] \<or> \<not> is_digit (hd r)"
  shows "span_digits (ds @ r) = (ds, r)"
  using assms by (cases r) (simp_all add: span_digits_def list_all_iff takeWhile_append2 dropWhile_append2)

lemma span_digits_stop: "span_digits s = (ds, r) \<Longrightarrow> r = [] \<or> \<not> is_digit (hd r)"
  by (cases r) (auto simp: span_digits_def dropWhile_eq_Cons_conv)

lemma exponent_start: "exponent_ok es \<Longrightarrow> es = [] \<or> \<not> is_digit (hd es) \<and> hd es \<noteq> CHR ''.'' \<and> hd es \<noteq> CHR ''-''"
  by (auto simp: exponent_ok_def is_digit_def less_eq_char_iff)

lemma scan_exponent_ok:
  assumes "exponent_ok es" shows "scan_exponent es = Some (es, [])"
proof (cases "es = []")
  case False
  then obtain c sign ds where es: "es = c # sign @ ds" "c \<in> {CHR ''e'', CHR ''E''}" "sign \<in> {[], ''+'', ''-''}" "ds \<noteq> []"
    "list_all is_digit ds" using assms by (auto simp: exponent_ok_def)
  have "is_digit (hd ds)" using es(4,5) by (cases ds) auto
  then have d: "hd ds \<noteq> CHR ''+''" "hd ds \<noteq> CHR ''-''" using is_digit_no_sign by blast+
  have "span_digits ds = (ds, [])" using span_digits_digits [OF es(5), of "[]"] by simp
  then show ?thesis using es(2-4) d unfolding es(1) by (auto simp: scan_exponent_def Let_def)
qed (simp add: scan_exponent_def)

lemma scan_exponent_only_ok:
  assumes "scan_exponent s = Some (es, [])" shows "s = es \<and> exponent_ok es"
proof -
  have s: "s = es" using scan_exponent_append [OF assms] by simp
  show ?thesis
  proof (cases "s \<noteq> [] \<and> (hd s = CHR ''e'' \<or> hd s = CHR ''E'')")
    case True
    define sign where "sign = (if tl s \<noteq> [] \<and> (hd (tl s) = CHR ''+'' \<or> hd (tl s) = CHR ''-'') then [hd (tl s)] else [])"
    obtain ds where ds: "es = hd s # sign @ ds" "span_digits (drop (length sign) (tl s)) = (ds, [])" "ds \<noteq> []"
      using assms True by (auto simp: scan_exponent_def Let_def sign_def split: if_splits prod.splits)
    moreover have "list_all is_digit ds" using span_digits_append [OF ds(2)] by simp
    moreover have "sign \<in> {[], ''+'', ''-''}" by (simp add: sign_def)
    ultimately show ?thesis using s True by (auto simp: exponent_ok_def)
  next
    case False
    then have "Some ([], s) = Some (es, [])" using assms unfolding scan_exponent_def by (simp only: if_False)
    then show ?thesis using s by (simp add: exponent_ok_def)
  qed
qed

lemma scan_fraction_text:
  assumes "list_all is_digit fs" and "exponent_ok es"
  shows "scan_fraction (fraction_text fs @ es) = Some (fraction_text fs, es)"
proof (cases "fs = []")
  case True
  then show ?thesis using exponent_start [OF assms(2)] by (auto simp: scan_fraction_def fraction_text_def)
next
  case False
  then show ?thesis using span_digits_digits [OF assms(1), of es] exponent_start [OF assms(2)]
    by (auto simp: scan_fraction_def fraction_text_def)
qed

lemma scan_fraction_Some:
  assumes "scan_fraction s = Some (x, r)" obtains fs where "x = fraction_text fs" "list_all is_digit fs" "s = x @ r"
proof (cases "s \<noteq> [] \<and> hd s = CHR ''.''")
  case True
  then obtain ds where ds: "span_digits (tl s) = (ds, r)" "ds \<noteq> []" "x = CHR ''.'' # ds"
    using assms by (auto simp: scan_fraction_def split: prod.splits if_splits)
  then show ?thesis using that [of ds] span_digits_append [OF ds(1)] scan_fraction_append [OF assms]
    by (simp add: fraction_text_def)
next
  case False
  then have "Some ([], s) = Some (x, r)" using assms unfolding scan_fraction_def by (simp only: if_False)
  then show ?thesis using that [of "[]"] by (simp add: fraction_text_def)
qed

lemma amount_text_spans:
  assumes "ds \<noteq> []" "list_all is_digit ds" "list_all is_digit fs" "exponent_ok es"
  shows "hd (amount_text neg ds fs es) = CHR ''-'' \<longleftrightarrow> neg"
    "span_digits (if neg then tl (amount_text neg ds fs es) else amount_text neg ds fs es) = (ds, fraction_text fs @ es)"
proof -
  have "is_digit (hd ds)" using assms(1,2) by (cases ds) auto
  then show "hd (amount_text neg ds fs es) = CHR ''-'' \<longleftrightarrow> neg"
    using assms(1) is_digit_no_sign [of "hd ds"] by (simp add: amount_text_def)
  have "fraction_text fs @ es = [] \<or> \<not> is_digit (hd (fraction_text fs @ es))"
    using exponent_start [OF assms(4)] by (auto simp: fraction_text_def is_digit_def less_eq_char_iff)
  then show "span_digits (if neg then tl (amount_text neg ds fs es) else amount_text neg ds fs es) = (ds, fraction_text fs @ es)"
    using span_digits_digits [OF assms(2)] by (simp add: amount_text_def)
qed

lemma isDecimalNumber_iff:
  "isDecimalNumber s \<longleftrightarrow>
     (\<exists>neg ds fs es. s = amount_text neg ds fs es \<and> ds \<noteq> [] \<and> list_all is_digit ds \<and> list_all is_digit fs \<and> exponent_ok es)"
  (is "_ \<longleftrightarrow> ?R")
proof
  assume ok: "isDecimalNumber s"
  define neg where "neg \<longleftrightarrow> hd s = CHR ''-''"
  obtain ds r where r: "span_digits (if neg then tl s else s) = (ds, r)" by (cases "span_digits (if neg then tl s else s)")
  then have "s \<noteq> []" "ds \<noteq> []" and d: "list_all is_digit ds" "(if neg then tl s else s) = ds @ r"
    using ok span_digits_append by (auto simp: isDecimalNumber_def Let_def neg_def split: if_splits)
  obtain x r' es where x: "scan_fraction r = Some (x, r')" "scan_exponent r' = Some (es, [])"
    using ok r by (auto simp: isDecimalNumber_def Let_def neg_def split: if_splits option.splits)
  obtain fs where fs: "x = fraction_text fs" "list_all is_digit fs" "r = x @ r'" using x(1) by (rule scan_fraction_Some)
  have "s = amount_text neg ds fs es"
    using \<open>s \<noteq> []\<close> d(2) fs scan_exponent_only_ok [OF x(2)] by (cases s) (auto simp: amount_text_def neg_def split: if_splits)
  then show ?R using \<open>ds \<noteq> []\<close> d(1) fs(2) scan_exponent_only_ok [OF x(2)] by blast
next
  assume ?R
  then obtain neg ds fs es where s: "s = amount_text neg ds fs es" and a: "ds \<noteq> []" "list_all is_digit ds" "list_all is_digit fs" "exponent_ok es"
    by blast
  have "s \<noteq> []" "(if neg then tl s else s) \<noteq> []" using s a(1) by (simp_all add: amount_text_def)
  then show "isDecimalNumber s"
    using amount_text_spans [OF a, of neg] scan_fraction_text [OF a(3,4)] scan_exponent_ok [OF a(4)] a(1)
    by (cases neg) (auto simp: isDecimalNumber_def Let_def s)
qed

lemma scale10_powi: "scale10 m e = of_int m * 10 powi e"
  by (simp add: scale10_def power_int_def field_simps)

lemma wrap_small:
  assumes "in_i64 x" and "0 \<le> n" "n < 2 ^ 62"
  shows "\<bar>wrap_i64 (x - n)\<bar> \<le> maxRatExponent \<longleftrightarrow> \<bar>x - n\<bar> \<le> maxRatExponent"
    and "\<bar>x - n\<bar> \<le> maxRatExponent \<Longrightarrow> wrap_i64 (x - n) = x - n"
proof -
  show id: "wrap_i64 (x - n) = x - n" if "\<bar>x - n\<bar> \<le> maxRatExponent"
    using that unfolding maxRatExponent_def by (intro wrap_i64_id) (auto simp: in_i64_def abs_le_iff)
  show "\<bar>wrap_i64 (x - n)\<bar> \<le> maxRatExponent \<longleftrightarrow> \<bar>x - n\<bar> \<le> maxRatExponent"
  proof (cases "- (2 ^ 63) \<le> x - n")
    case True
    then show ?thesis using assms wrap_i64_id [of "x - n"] by (simp add: in_i64_def)
  next
    case False
    have "(x - n + 2 ^ 63 + 2 ^ 64) mod 2 ^ 64 = x - n + 2 ^ 63 + 2 ^ 64"
      using False assms by (intro mod_pos_pos_trivial) (simp_all add: in_i64_def)
    then have "wrap_i64 (x - n) = x - n + 2 ^ 64" unfolding wrap_i64_def mod_add_self2 by simp
    then show ?thesis using False assms by (simp add: in_i64_def maxRatExponent_def)
  qed
qed

lemma Atoi_in_i64: "Atoi s = Some x \<Longrightarrow> in_i64 x"
  by (auto simp: Atoi_def Let_def split: if_splits prod.splits)

lemma rat_SetString_text:
  assumes a: "ds \<noteq> []" "list_all is_digit ds" "list_all is_digit fs" "exponent_ok es" and len: "int (length fs) < 2 ^ 62"
  shows "rat_SetString (amount_text neg ds fs es) =
    (case exponent_value es of
       None \<Rightarrow> None
     | Some x \<Rightarrow>
         if digits_val (ds @ fs) = 0 then Some 0
         else if \<bar>x - int (length fs)\<bar> \<le> maxRatExponent
         then Some ((if neg then - 1 else 1) * of_nat (digits_val (ds @ fs)) * 10 powi (x - int (length fs))) else None)"
proof -
  let ?s = "amount_text neg ds fs es" and ?m = "int (digits_val (ds @ fs))"
  have frac: "(if fraction_text fs @ es \<noteq> [] \<and> hd (fraction_text fs @ es) = CHR ''.'' then span_digits (tl (fraction_text fs @ es))
      else ([], fraction_text fs @ es)) = (fs, es)"
    using exponent_start [OF a(4)] span_digits_digits [OF a(3), of es] by (auto simp: fraction_text_def)
  have u: "rat_SetString ?s = (case exponent_value es of None \<Rightarrow> None | Some x \<Rightarrow>
      if ?m = 0 then Some 0 else if maxRatExponent < \<bar>wrap_i64 (x - int (length fs))\<bar> then None
      else Some (scale10 (if neg then - ?m else ?m) (wrap_i64 (x - int (length fs)))))"
    unfolding rat_SetString_def amount_text_spans(1) [OF a] amount_text_spans(2) [OF a] Let_def prod.case frac exponent_value_def ..
  show ?thesis
  proof (cases "exponent_value es")
    case (Some x)
    then have "in_i64 x" using Atoi_in_i64 by (auto simp: exponent_value_def in_i64_def split: if_splits)
    note w = wrap_small [OF this _ len]
    show ?thesis
    proof (cases "\<bar>x - int (length fs)\<bar> \<le> maxRatExponent")
      case True
      then show ?thesis unfolding u Some using w by (simp add: scale10_powi)
    next
      case False
      then have "maxRatExponent < \<bar>wrap_i64 (x - int (length fs))\<bar>" using w(1) by simp
      then show ?thesis unfolding u Some using False by simp
    qed
  qed (simp add: u)
qed

text \<open>
  C40. Amounts are exact. \<open>ParseAmount\<close> returns a number if and only if the text is a decimal with an
  optional sign, digits, an optional fraction and an optional exponent that fits an int64, and, unless all
  digits are zero, its power of ten is at most a million; the number is then exactly the one the
  text denotes.
\<close>

theorem ParseAmount_exact:
  assumes "int (length s) < 2 ^ 62"
  shows "ParseAmount s = Inr q \<longleftrightarrow>
    (\<exists>neg ds fs es x. s = amount_text neg ds fs es \<and> ds \<noteq> [] \<and> list_all is_digit ds \<and> list_all is_digit fs \<and>
       exponent_ok es \<and> exponent_value es = Some x \<and>
       (if digits_val (ds @ fs) = 0 then q = 0
        else \<bar>x - int (length fs)\<bar> \<le> 1000000 \<and>
             q = (if neg then - 1 else 1) * of_nat (digits_val (ds @ fs)) * 10 powi (x - int (length fs))))"
    (is "_ \<longleftrightarrow> ?R")
proof
  assume p: "ParseAmount s = Inr q"
  then obtain neg ds fs es where s: "s = amount_text neg ds fs es" and a: "ds \<noteq> []" "list_all is_digit ds" "list_all is_digit fs" "exponent_ok es"
    using isDecimalNumber_iff by (auto simp: ParseAmount_def split: if_splits)
  have "int (length fs) < 2 ^ 62" using assms by (auto simp: s amount_text_def fraction_text_def split: if_splits)
  note t = rat_SetString_text [OF a this, of neg, folded s]
  from p have "rat_SetString s = Some q" by (auto simp: ParseAmount_def split: if_splits option.splits)
  then obtain x where x: "exponent_value es = Some x" using t by (auto split: option.splits)
  show ?R using \<open>rat_SetString s = Some q\<close> t s a x
    by (intro exI [of _ neg] exI [of _ ds] exI [of _ fs] exI [of _ es] exI [of _ x])
       (auto simp: maxRatExponent_def split: if_splits)
next
  assume ?R
  then obtain neg ds fs es x where s: "s = amount_text neg ds fs es" and a: "ds \<noteq> []" "list_all is_digit ds" "list_all is_digit fs" "exponent_ok es"
    and x: "exponent_value es = Some x" and q: "if digits_val (ds @ fs) = 0 then q = 0
        else \<bar>x - int (length fs)\<bar> \<le> 1000000 \<and> q = (if neg then - 1 else 1) * of_nat (digits_val (ds @ fs)) * 10 powi (x - int (length fs))"
    by blast
  have "int (length fs) < 2 ^ 62" using assms by (auto simp: s amount_text_def fraction_text_def split: if_splits)
  then have "rat_SetString s = Some q" using rat_SetString_text [OF a, of neg] x q by (auto simp: s maxRatExponent_def split: if_splits)
  moreover have "isDecimalNumber s" using isDecimalNumber_iff s a by blast
  ultimately show "ParseAmount s = Inr q" by (simp add: ParseAmount_def)
qed

theorem ParseAmount_exact_witness: "ParseAmount ''-12.50e3'' = Inr (- 12500)"
proof (rule iffD2 [OF ParseAmount_exact], simp, intro exI conjI)
  show "''-12.50e3'' = amount_text True ''12'' ''50'' ''e3''" by (simp add: amount_text_def fraction_text_def)
  show "exponent_ok ''e3''" unfolding exponent_ok_def
    by (intro disjI2 exI [of _ "CHR ''e''"] exI [of _ "[]"] exI [of _ "''3''"]) (simp add: is_digit_def less_eq_char_iff)
  show "exponent_value ''e3'' = Some 3" by code_simp
  have "digits_val (''12'' @ ''50'') = 1250" by code_simp
  then show "if digits_val (''12'' @ ''50'') = 0 then - 12500 = (0 :: rat)
     else \<bar>3 - int (length ''50'')\<bar> \<le> 1000000 \<and>
          - 12500 = (if True then - 1 else 1) * of_nat (digits_val (''12'' @ ''50'')) * (10 :: rat) powi (3 - int (length ''50''))"
    by simp
qed (simp_all add: is_digit_def less_eq_char_iff)

end
