(* ===== verification/Hyperliquid_Evidence.thy ===== *)
theory Hyperliquid_Evidence
  imports Hyperliquid_Amount
begin

text \<open>
  The evidence that \<open>providers/hyperliquid\<close> decodes from JSON: \<open>evidence_json.go\<close>, the typed ledger
  deltas of \<open>ledger.go\<close>, the wire types of \<open>types.go\<close> with methods of their own, and the actions,
  transactions and blocks of \<open>explorer.go\<close>. Addresses and hashes are decoded by go-ethereum, the
  fields of \<open>eth_json\<close>.
\<close>

record eth_json =
  ejAddress :: "string \<Rightarrow> hl_error + address"
  ejHash :: "string \<Rightarrow> hl_error + hash"
  ejAddressHex :: "address \<Rightarrow> string"

section \<open>Required fields\<close>

fun missing_field :: "(string \<rightharpoonup> string) \<Rightarrow> string list \<Rightarrow> hl_error option" where
  "missing_field obj [] = None"
| "missing_field obj (f # fs) =
     (if obj f = None then Some (HlQuoted ''required field '' f '' is missing'') else missing_field obj fs)"

fun null_field :: "(string \<rightharpoonup> string) \<Rightarrow> string list \<Rightarrow> hl_error option" where
  "null_field obj [] = None"
| "null_field obj (f # fs) =
     (case obj f of
        None \<Rightarrow> Some (HlQuoted ''required field '' f '' is missing'')
      | Some v \<Rightarrow> if TrimSpace v = ''null'' then Some (HlQuoted ''required field '' f '' is null'') else null_field obj fs)"

definition requireJSONObjectFields :: "string \<Rightarrow> string list \<Rightarrow> hl_error option" where
  "requireJSONObjectFields data fs =
     (case Unmarshal json_failed raw_map Map.empty data of
        Inl e \<Rightarrow> Some (HlWrap ''decoding JSON object'' e)
      | Inr obj \<Rightarrow> missing_field obj fs)"

definition requireNonNullJSONObjectFields :: "string \<Rightarrow> string list \<Rightarrow> hl_error option" where
  "requireNonNullJSONObjectFields data fs =
     (case Unmarshal json_failed raw_map Map.empty data of
        Inl e \<Rightarrow> Some (HlWrap ''decoding JSON object'' e)
      | Inr obj \<Rightarrow> null_field obj fs)"

section \<open>Ledger deltas\<close>

record DepositLedgerDelta =
  dep_Type :: string
  dep_USDC :: string

record WithdrawLedgerDelta =
  wd_Type :: string
  wd_USDC :: string
  wd_Nonce :: u64
  wd_Fee :: string

record InternalTransferLedgerDelta =
  it_Type :: string
  it_USDC :: string
  it_User :: address
  it_Destination :: address
  it_Fee :: string

record SubAccountTransferLedgerDelta =
  sa_Type :: string
  sa_USDC :: string
  sa_User :: address
  sa_Destination :: address

record LiquidatedPosition =
  lp_Coin :: string
  lp_Szi :: string

record LiquidationLedgerDelta =
  lq_Type :: string
  lq_AccountValue :: string
  lq_LeverageType :: string
  lq_LiquidatedPositions :: "LiquidatedPosition list option"

record VaultLedgerDelta =
  vt_Type :: string
  vt_Vault :: address
  vt_USDC :: string

record VaultWithdrawalLedgerDelta =
  vw_Type :: string
  vw_Vault :: address
  vw_User :: address
  vw_RequestedUSD :: string
  vw_Commission :: string
  vw_ClosingCost :: string
  vw_Basis :: string
  vw_NetWithdrawnUSD :: string

record VaultLeaderCommissionLedgerDelta =
  vc_Type :: string
  vc_User :: address
  vc_USDC :: string

record SpotTransferLedgerDelta =
  st_Type :: string
  st_Token :: string
  st_Amount :: string
  st_USDCValue :: string
  st_User :: address
  st_Destination :: address
  st_Fee :: string

record SendLedgerDelta =
  sd_Type :: string
  sd_User :: address
  sd_Destination :: address
  sd_SourceDex :: string
  sd_DestinationDex :: string
  sd_Token :: string
  sd_Amount :: string
  sd_USDCValue :: string
  sd_Fee :: string
  sd_NativeTokenFee :: string
  sd_Nonce :: u64
  sd_FeeToken :: string

record AccountClassTransferLedgerDelta =
  ac_Type :: string
  ac_USDC :: string
  ac_ToPerp :: bool

record SpotGenesisLedgerDelta =
  sg_Type :: string
  sg_Token :: string
  sg_Amount :: string

record RewardsClaimLedgerDelta =
  rc_Type :: string
  rc_Amount :: string

datatype NonFundingLedgerDelta =
    DepositDelta DepositLedgerDelta
  | WithdrawDelta WithdrawLedgerDelta
  | InternalTransferDelta InternalTransferLedgerDelta
  | SubAccountTransferDelta SubAccountTransferLedgerDelta
  | LiquidationDelta LiquidationLedgerDelta
  | VaultDelta VaultLedgerDelta
  | VaultWithdrawalDelta VaultWithdrawalLedgerDelta
  | VaultLeaderCommissionDelta VaultLeaderCommissionLedgerDelta
  | SpotTransferDelta SpotTransferLedgerDelta
  | SendDelta SendLedgerDelta
  | AccountClassTransferDelta AccountClassTransferLedgerDelta
  | SpotGenesisDelta SpotGenesisLedgerDelta
  | RewardsClaimDelta RewardsClaimLedgerDelta
  | UnknownLedgerDelta string string

fun ledgerDeltaType :: "NonFundingLedgerDelta \<Rightarrow> string" where
  "ledgerDeltaType (DepositDelta d) = dep_Type d"
| "ledgerDeltaType (WithdrawDelta d) = wd_Type d"
| "ledgerDeltaType (InternalTransferDelta d) = it_Type d"
| "ledgerDeltaType (SubAccountTransferDelta d) = sa_Type d"
| "ledgerDeltaType (LiquidationDelta d) = lq_Type d"
| "ledgerDeltaType (VaultDelta d) = vt_Type d"
| "ledgerDeltaType (VaultWithdrawalDelta d) = vw_Type d"
| "ledgerDeltaType (VaultLeaderCommissionDelta d) = vc_Type d"
| "ledgerDeltaType (SpotTransferDelta d) = st_Type d"
| "ledgerDeltaType (SendDelta d) = sd_Type d"
| "ledgerDeltaType (AccountClassTransferDelta d) = ac_Type d"
| "ledgerDeltaType (SpotGenesisDelta d) = sg_Type d"
| "ledgerDeltaType (RewardsClaimDelta d) = rc_Type d"
| "ledgerDeltaType (UnknownLedgerDelta t _) = t"

definition LedgerDeltaKind :: "NonFundingLedgerDelta option \<Rightarrow> string" where
  "LedgerDeltaKind delta = (case delta of None \<Rightarrow> [] | Some d \<Rightarrow> ledgerDeltaType d)"

text \<open>How \<open>Unmarshal\<close> fills the structs. A \<open>Decimal\<close> starts empty.\<close>

definition decimal :: "(hl_error, string) decoder" where
  "decimal = custom Decimal_UnmarshalJSON"

definition addr :: "eth_json \<Rightarrow> (hl_error, address) decoder" where
  "addr E = custom (ejAddress E)"

definition deposit_fields :: "(hl_error, DepositLedgerDelta) fields" where
  "deposit_fields = [(''type'', field dep_Type dep_Type_update json_string), (''usdc'', field dep_USDC dep_USDC_update decimal)]"

definition withdraw_fields :: "(hl_error, WithdrawLedgerDelta) fields" where
  "withdraw_fields = [(''type'', field wd_Type wd_Type_update json_string), (''usdc'', field wd_USDC wd_USDC_update decimal),
     (''nonce'', field wd_Nonce wd_Nonce_update json_uint), (''fee'', field wd_Fee wd_Fee_update decimal)]"

definition internalTransfer_fields :: "eth_json \<Rightarrow> (hl_error, InternalTransferLedgerDelta) fields" where
  "internalTransfer_fields E = [(''type'', field it_Type it_Type_update json_string), (''usdc'', field it_USDC it_USDC_update decimal),
     (''user'', field it_User it_User_update (addr E)), (''destination'', field it_Destination it_Destination_update (addr E)),
     (''fee'', field it_Fee it_Fee_update decimal)]"

definition subAccountTransfer_fields :: "eth_json \<Rightarrow> (hl_error, SubAccountTransferLedgerDelta) fields" where
  "subAccountTransfer_fields E = [(''type'', field sa_Type sa_Type_update json_string), (''usdc'', field sa_USDC sa_USDC_update decimal),
     (''user'', field sa_User sa_User_update (addr E)), (''destination'', field sa_Destination sa_Destination_update (addr E))]"

definition position_fields :: "(hl_error, LiquidatedPosition) fields" where
  "position_fields = [(''coin'', field lp_Coin lp_Coin_update json_string), (''szi'', field lp_Szi lp_Szi_update decimal)]"

definition liquidation_fields :: "(hl_error, LiquidationLedgerDelta) fields" where
  "liquidation_fields = [(''type'', field lq_Type lq_Type_update json_string),
     (''accountValue'', field lq_AccountValue lq_AccountValue_update decimal),
     (''leverageType'', field lq_LeverageType lq_LeverageType_update json_string),
     (''liquidatedPositions'', field lq_LiquidatedPositions lq_LiquidatedPositions_update
        (slice_of \<lparr>lp_Coin = [], lp_Szi = []\<rparr> (struct position_fields)))]"

definition vault_fields :: "eth_json \<Rightarrow> (hl_error, VaultLedgerDelta) fields" where
  "vault_fields E = [(''type'', field vt_Type vt_Type_update json_string), (''vault'', field vt_Vault vt_Vault_update (addr E)),
     (''usdc'', field vt_USDC vt_USDC_update decimal)]"

definition vaultWithdrawal_fields :: "eth_json \<Rightarrow> (hl_error, VaultWithdrawalLedgerDelta) fields" where
  "vaultWithdrawal_fields E = [(''type'', field vw_Type vw_Type_update json_string), (''vault'', field vw_Vault vw_Vault_update (addr E)),
     (''user'', field vw_User vw_User_update (addr E)), (''requestedUsd'', field vw_RequestedUSD vw_RequestedUSD_update decimal),
     (''commission'', field vw_Commission vw_Commission_update decimal), (''closingCost'', field vw_ClosingCost vw_ClosingCost_update decimal),
     (''basis'', field vw_Basis vw_Basis_update decimal),
     (''netWithdrawnUsd'', field vw_NetWithdrawnUSD vw_NetWithdrawnUSD_update decimal)]"

definition vaultLeaderCommission_fields :: "eth_json \<Rightarrow> (hl_error, VaultLeaderCommissionLedgerDelta) fields" where
  "vaultLeaderCommission_fields E = [(''type'', field vc_Type vc_Type_update json_string),
     (''user'', field vc_User vc_User_update (addr E)), (''usdc'', field vc_USDC vc_USDC_update decimal)]"

definition spotTransfer_fields :: "eth_json \<Rightarrow> (hl_error, SpotTransferLedgerDelta) fields" where
  "spotTransfer_fields E = [(''type'', field st_Type st_Type_update json_string), (''token'', field st_Token st_Token_update json_string),
     (''amount'', field st_Amount st_Amount_update decimal), (''usdcValue'', field st_USDCValue st_USDCValue_update decimal),
     (''user'', field st_User st_User_update (addr E)), (''destination'', field st_Destination st_Destination_update (addr E)),
     (''fee'', field st_Fee st_Fee_update decimal)]"

definition send_fields :: "eth_json \<Rightarrow> (hl_error, SendLedgerDelta) fields" where
  "send_fields E = [(''type'', field sd_Type sd_Type_update json_string), (''user'', field sd_User sd_User_update (addr E)),
     (''destination'', field sd_Destination sd_Destination_update (addr E)),
     (''sourceDex'', field sd_SourceDex sd_SourceDex_update json_string),
     (''destinationDex'', field sd_DestinationDex sd_DestinationDex_update json_string),
     (''token'', field sd_Token sd_Token_update json_string), (''amount'', field sd_Amount sd_Amount_update decimal),
     (''usdcValue'', field sd_USDCValue sd_USDCValue_update decimal), (''fee'', field sd_Fee sd_Fee_update decimal),
     (''nativeTokenFee'', field sd_NativeTokenFee sd_NativeTokenFee_update decimal),
     (''nonce'', field sd_Nonce sd_Nonce_update json_uint), (''feeToken'', field sd_FeeToken sd_FeeToken_update json_string)]"

definition accountClassTransfer_fields :: "(hl_error, AccountClassTransferLedgerDelta) fields" where
  "accountClassTransfer_fields = [(''type'', field ac_Type ac_Type_update json_string), (''usdc'', field ac_USDC ac_USDC_update decimal),
     (''toPerp'', field ac_ToPerp ac_ToPerp_update json_bool)]"

definition spotGenesis_fields :: "(hl_error, SpotGenesisLedgerDelta) fields" where
  "spotGenesis_fields = [(''type'', field sg_Type sg_Type_update json_string), (''token'', field sg_Token sg_Token_update json_string),
     (''amount'', field sg_Amount sg_Amount_update decimal)]"

definition rewardsClaim_fields :: "(hl_error, RewardsClaimLedgerDelta) fields" where
  "rewardsClaim_fields = [(''type'', field rc_Type rc_Type_update json_string), (''amount'', field rc_Amount rc_Amount_update decimal)]"

text \<open>The discriminator of a union.\<close>

definition discriminator :: "(hl_error, string) decoder" where
  "discriminator = struct [(''type'', json_string)]"

definition decode_delta :: "string \<Rightarrow> ('a \<Rightarrow> NonFundingLedgerDelta) \<Rightarrow> (hl_error, 'a) fields \<Rightarrow> 'a \<Rightarrow> string \<Rightarrow>
    hl_error + NonFundingLedgerDelta" where
  "decode_delta typ f table zero data =
     (case Unmarshal json_failed (struct table) zero data of
        Inl e \<Rightarrow> Inl (HlWrap (''decoding '' @ typ @ '' ledger delta'') e)
      | Inr v \<Rightarrow> Inr (f v))"

definition require_then :: "hl_error option \<Rightarrow> hl_error + 'a \<Rightarrow> hl_error + 'a" where
  "require_then err x = (case err of Some e \<Rightarrow> Inl e | None \<Rightarrow> x)"

definition DecodeLedgerDelta :: "eth_json \<Rightarrow> string \<Rightarrow> hl_error + NonFundingLedgerDelta" where
  "DecodeLedgerDelta E data =
     (case Unmarshal json_failed discriminator [] data of
        Inl e \<Rightarrow> Inl (HlWrap ''decoding ledger delta type'' e)
      | Inr typ \<Rightarrow>
          if typ = [] then Inl (HlMessage ''ledger delta type is empty'')
          else if typ = ''deposit'' then decode_delta typ DepositDelta deposit_fields \<lparr>dep_Type = [], dep_USDC = []\<rparr> data
          else if typ = ''withdraw'' then
            decode_delta typ WithdrawDelta withdraw_fields \<lparr>wd_Type = [], wd_USDC = [], wd_Nonce = 0, wd_Fee = []\<rparr> data
          else if typ = ''internalTransfer'' then
            decode_delta typ InternalTransferDelta (internalTransfer_fields E)
              \<lparr>it_Type = [], it_USDC = [], it_User = 0, it_Destination = 0, it_Fee = []\<rparr> data
          else if typ = ''subAccountTransfer'' then
            decode_delta typ SubAccountTransferDelta (subAccountTransfer_fields E)
              \<lparr>sa_Type = [], sa_USDC = [], sa_User = 0, sa_Destination = 0\<rparr> data
          else if typ = ''liquidation'' then
            decode_delta typ LiquidationDelta liquidation_fields
              \<lparr>lq_Type = [], lq_AccountValue = [], lq_LeverageType = [], lq_LiquidatedPositions = None\<rparr> data
          else if typ = ''vaultCreate'' \<or> typ = ''vaultDeposit'' \<or> typ = ''vaultDistribution'' then
            decode_delta typ VaultDelta (vault_fields E) \<lparr>vt_Type = [], vt_Vault = 0, vt_USDC = []\<rparr> data
          else if typ = ''vaultWithdraw'' then
            decode_delta typ VaultWithdrawalDelta (vaultWithdrawal_fields E)
              \<lparr>vw_Type = [], vw_Vault = 0, vw_User = 0, vw_RequestedUSD = [], vw_Commission = [], vw_ClosingCost = [],
               vw_Basis = [], vw_NetWithdrawnUSD = []\<rparr> data
          else if typ = ''vaultLeaderCommission'' then
            decode_delta typ VaultLeaderCommissionDelta (vaultLeaderCommission_fields E)
              \<lparr>vc_Type = [], vc_User = 0, vc_USDC = []\<rparr> data
          else if typ = ''spotTransfer'' then
            decode_delta typ SpotTransferDelta (spotTransfer_fields E)
              \<lparr>st_Type = [], st_Token = [], st_Amount = [], st_USDCValue = [], st_User = 0, st_Destination = 0, st_Fee = []\<rparr> data
          else if typ = ''send'' then
            require_then (requireNonNullJSONObjectFields data
                [''user'', ''destination'', ''sourceDex'', ''destinationDex'', ''token'', ''amount'',
                 ''usdcValue'', ''fee'', ''nativeTokenFee'', ''nonce'', ''feeToken''])
              (decode_delta typ SendDelta (send_fields E)
                \<lparr>sd_Type = [], sd_User = 0, sd_Destination = 0, sd_SourceDex = [], sd_DestinationDex = [], sd_Token = [],
                 sd_Amount = [], sd_USDCValue = [], sd_Fee = [], sd_NativeTokenFee = [], sd_Nonce = 0, sd_FeeToken = []\<rparr> data)
          else if typ = ''accountClassTransfer'' then
            require_then (requireNonNullJSONObjectFields data [''usdc'', ''toPerp''])
              (decode_delta typ AccountClassTransferDelta accountClassTransfer_fields \<lparr>ac_Type = [], ac_USDC = [], ac_ToPerp = False\<rparr> data)
          else if typ = ''spotGenesis'' then
            decode_delta typ SpotGenesisDelta spotGenesis_fields \<lparr>sg_Type = [], sg_Token = [], sg_Amount = []\<rparr> data
          else if typ = ''rewardsClaim'' then
            decode_delta typ RewardsClaimDelta rewardsClaim_fields \<lparr>rc_Type = [], rc_Amount = []\<rparr> data
          else Inr (UnknownLedgerDelta typ data))"

section \<open>Wire types with methods\<close>

record UserRateLimit =
  rl_Cap :: "int option"
  rl_Used :: "int option"
  rl_CumVlm :: string

definition wire_text :: "(hl_error, string) decoder" where
  "wire_text = custom decimalWireText_UnmarshalJSON"

definition UserRateLimit_UnmarshalJSON :: "string \<Rightarrow> hl_error + UserRateLimit" where
  "UserRateLimit_UnmarshalJSON data =
     Unmarshal json_failed (struct [(''nRequestsCap'', field rl_Cap rl_Cap_update (pointer 0 json_int64)),
         (''nRequestsUsed'', field rl_Used rl_Used_update (pointer 0 json_int64)),
         (''cumVlm'', field rl_CumVlm rl_CumVlm_update wire_text)])
       \<lparr>rl_Cap = None, rl_Used = None, rl_CumVlm = []\<rparr> data"

record OrderStatusOrder =
  os_OrderID :: u64
  os_Cloid :: string

record OrderStatusEntry =
  oe_Order :: OrderStatusOrder
  oe_Status :: string
  oe_StatusTimestamp :: int

record OrderStatusResponse =
  or_Status :: string
  or_Order :: "OrderStatusEntry option"
  or_Raw :: string

definition order_fields :: "(hl_error, OrderStatusOrder) fields" where
  "order_fields = [(''oid'', field os_OrderID os_OrderID_update json_uint), (''cloid'', field os_Cloid os_Cloid_update json_string)]"

definition entry_fields :: "(hl_error, OrderStatusEntry) fields" where
  "entry_fields = [(''order'', field oe_Order oe_Order_update (struct order_fields)),
     (''status'', field oe_Status oe_Status_update json_string),
     (''statusTimestamp'', field oe_StatusTimestamp oe_StatusTimestamp_update json_int64)]"

text \<open>The local type \<open>wire\<close> has no methods; the raw text is set after it is decoded.\<close>

definition OrderStatusResponse_UnmarshalJSON :: "string \<Rightarrow> hl_error + OrderStatusResponse" where
  "OrderStatusResponse_UnmarshalJSON data =
     (case Unmarshal json_failed (struct [(''status'', field or_Status or_Status_update json_string),
         (''order'', field or_Order or_Order_update
            (pointer \<lparr>oe_Order = \<lparr>os_OrderID = 0, os_Cloid = []\<rparr>, oe_Status = [], oe_StatusTimestamp = 0\<rparr> (struct entry_fields)))])
         \<lparr>or_Status = [], or_Order = None, or_Raw = []\<rparr> data of
        Inl e \<Rightarrow> Inl e
      | Inr s \<Rightarrow> Inr (s\<lparr>or_Raw := data\<rparr>))"

record LedgerDelta =
  ld_Type :: string
  ld_Usdc :: string
  ld_UsdcValue :: string
  ld_Fee :: string
  ld_User :: string
  ld_Destination :: string
  ld_Token :: string
  ld_Amount :: string
  ld_Vault :: string
  ld_Raw :: string

definition LedgerDelta_fields :: "(hl_error, LedgerDelta) fields" where
  "LedgerDelta_fields = [(''type'', field ld_Type ld_Type_update json_string), (''usdc'', field ld_Usdc ld_Usdc_update wire_text),
     (''usdcValue'', field ld_UsdcValue ld_UsdcValue_update wire_text), (''fee'', field ld_Fee ld_Fee_update wire_text),
     (''user'', field ld_User ld_User_update json_string), (''destination'', field ld_Destination ld_Destination_update json_string),
     (''token'', field ld_Token ld_Token_update json_string), (''amount'', field ld_Amount ld_Amount_update wire_text),
     (''vault'', field ld_Vault ld_Vault_update json_string)]"

definition zero_LedgerDelta :: LedgerDelta where
  "zero_LedgerDelta = \<lparr>ld_Type = [], ld_Usdc = [], ld_UsdcValue = [], ld_Fee = [], ld_User = [], ld_Destination = [],
     ld_Token = [], ld_Amount = [], ld_Vault = [], ld_Raw = []\<rparr>"

definition LedgerDelta_UnmarshalJSON :: "string \<Rightarrow> hl_error + LedgerDelta" where
  "LedgerDelta_UnmarshalJSON data =
     (case Unmarshal json_failed (struct LedgerDelta_fields) zero_LedgerDelta data of
        Inl e \<Rightarrow> Inl e
      | Inr d \<Rightarrow> Inr (d\<lparr>ld_Raw := data\<rparr>))"

record LedgerUpdate =
  lu_Delta :: LedgerDelta
  lu_Time :: int
  lu_Hash :: string
  lu_Raw :: string

definition LedgerUpdate_UnmarshalJSON :: "string \<Rightarrow> hl_error + LedgerUpdate" where
  "LedgerUpdate_UnmarshalJSON data =
     (case Unmarshal json_failed (struct [(''delta'', field lu_Delta lu_Delta_update (custom LedgerDelta_UnmarshalJSON)),
         (''time'', field lu_Time lu_Time_update json_int64), (''hash'', field lu_Hash lu_Hash_update json_string)])
         \<lparr>lu_Delta = zero_LedgerDelta, lu_Time = 0, lu_Hash = [], lu_Raw = []\<rparr> data of
        Inl e \<Rightarrow> Inl e
      | Inr u \<Rightarrow> Inr (u\<lparr>lu_Raw := data\<rparr>))"

section \<open>Actions, transactions and blocks of the explorer\<close>

record L1USDClassTransferAction =
  ut_Type :: string
  ut_Ntl :: u64
  ut_ToPerp :: bool

record L1ApproveAgentAction =
  aa_Type :: string
  aa_SignatureChainID :: string
  aa_HyperliquidChain :: string
  aa_AgentAddress :: address
  aa_AgentName :: string
  aa_Nonce :: u64

record L1ApproveBuilderFeeAction =
  bf_Type :: string
  bf_MaxFeeRate :: u64
  bf_Builder :: address

record L1SendAssetAction =
  sn_Type :: string
  sn_Destination :: address
  sn_FromSubAccount :: "address option"
  sn_SourceDexOrSpot :: "u32 option"
  sn_DestinationDexOrSpot :: "u32 option"
  sn_Token :: u64
  sn_Wei :: u64

datatype L1Action =
    L1USDClassTransfer L1USDClassTransferAction
  | L1ApproveAgent L1ApproveAgentAction
  | L1ApproveBuilderFee L1ApproveBuilderFeeAction
  | L1SendAsset L1SendAssetAction
  | UnknownL1Action string string

fun L1ActionType :: "L1Action \<Rightarrow> string" where
  "L1ActionType (L1USDClassTransfer a) = ut_Type a"
| "L1ActionType (L1ApproveAgent a) = aa_Type a"
| "L1ActionType (L1ApproveBuilderFee a) = bf_Type a"
| "L1ActionType (L1SendAsset a) = sn_Type a"
| "L1ActionType (UnknownL1Action t _) = t"

definition usdClassTransfer_fields :: "(hl_error, L1USDClassTransferAction) fields" where
  "usdClassTransfer_fields = [(''type'', field ut_Type ut_Type_update json_string), (''ntl'', field ut_Ntl ut_Ntl_update json_uint),
     (''toPerp'', field ut_ToPerp ut_ToPerp_update json_bool)]"

definition approveAgent_fields :: "eth_json \<Rightarrow> (hl_error, L1ApproveAgentAction) fields" where
  "approveAgent_fields E = [(''type'', field aa_Type aa_Type_update json_string),
     (''signatureChainId'', field aa_SignatureChainID aa_SignatureChainID_update json_string),
     (''hyperliquidChain'', field aa_HyperliquidChain aa_HyperliquidChain_update json_string),
     (''agentAddress'', field aa_AgentAddress aa_AgentAddress_update (addr E)),
     (''agentName'', field aa_AgentName aa_AgentName_update json_string), (''nonce'', field aa_Nonce aa_Nonce_update json_uint)]"

definition approveBuilderFee_fields :: "eth_json \<Rightarrow> (hl_error, L1ApproveBuilderFeeAction) fields" where
  "approveBuilderFee_fields E = [(''type'', field bf_Type bf_Type_update json_string),
     (''maxFeeRate'', field bf_MaxFeeRate bf_MaxFeeRate_update json_uint), (''builder'', field bf_Builder bf_Builder_update (addr E))]"

definition sendAsset_fields :: "eth_json \<Rightarrow> (hl_error, L1SendAssetAction) fields" where
  "sendAsset_fields E = [(''type'', field sn_Type sn_Type_update json_string),
     (''destination'', field sn_Destination sn_Destination_update (addr E)),
     (''fromSubAccount'', field sn_FromSubAccount sn_FromSubAccount_update (pointer 0 (addr E))),
     (''sourceDexOrSpot'', field sn_SourceDexOrSpot sn_SourceDexOrSpot_update (pointer 0 json_uint)),
     (''destinationDexOrSpot'', field sn_DestinationDexOrSpot sn_DestinationDexOrSpot_update (pointer 0 json_uint)),
     (''token'', field sn_Token sn_Token_update json_uint), (''wei'', field sn_Wei sn_Wei_update json_uint)]"

definition decode_action :: "string \<Rightarrow> ('a \<Rightarrow> L1Action) \<Rightarrow> (hl_error, 'a) fields \<Rightarrow> 'a \<Rightarrow> string \<Rightarrow> hl_error + L1Action" where
  "decode_action typ f table zero data =
     (case Unmarshal json_failed (struct table) zero data of
        Inl e \<Rightarrow> Inl (HlWrap (''decoding '' @ typ @ '' L1 action'') e)
      | Inr v \<Rightarrow> Inr (f v))"

definition decodeL1Action :: "eth_json \<Rightarrow> string \<Rightarrow> hl_error + L1Action" where
  "decodeL1Action E data =
     (case Unmarshal json_failed discriminator [] data of
        Inl e \<Rightarrow> Inl (HlWrap ''decoding L1 action type'' e)
      | Inr typ \<Rightarrow>
          if typ = [] then Inl (HlMessage ''L1 action type is empty'')
          else if typ = ''SystemUsdClassTransferAction'' then
            require_then (requireNonNullJSONObjectFields data [''ntl'', ''toPerp''])
              (decode_action typ L1USDClassTransfer usdClassTransfer_fields \<lparr>ut_Type = [], ut_Ntl = 0, ut_ToPerp = False\<rparr> data)
          else if typ = ''approveAgent'' then
            require_then (requireNonNullJSONObjectFields data
                [''signatureChainId'', ''hyperliquidChain'', ''agentAddress'', ''agentName'', ''nonce''])
              (decode_action typ L1ApproveAgent (approveAgent_fields E)
                \<lparr>aa_Type = [], aa_SignatureChainID = [], aa_HyperliquidChain = [], aa_AgentAddress = 0, aa_AgentName = [], aa_Nonce = 0\<rparr> data)
          else if typ = ''SystemApproveBuilderFeeAction'' then
            require_then (requireNonNullJSONObjectFields data [''maxFeeRate'', ''builder''])
              (decode_action typ L1ApproveBuilderFee (approveBuilderFee_fields E) \<lparr>bf_Type = [], bf_MaxFeeRate = 0, bf_Builder = 0\<rparr> data)
          else if typ = ''SystemSendAssetAction'' then
            require_then (requireNonNullJSONObjectFields data [''destination'', ''token'', ''wei''])
              (require_then (requireJSONObjectFields data [''fromSubAccount'', ''sourceDexOrSpot'', ''destinationDexOrSpot''])
                (decode_action typ L1SendAsset (sendAsset_fields E)
                  \<lparr>sn_Type = [], sn_Destination = 0, sn_FromSubAccount = None, sn_SourceDexOrSpot = None,
                   sn_DestinationDexOrSpot = None, sn_Token = 0, sn_Wei = 0\<rparr> data))
          else Inr (UnknownL1Action typ data))"

record L1Transaction =
  lt_Time :: int
  lt_User :: address
  lt_Action :: L1Action
  lt_Block :: u64
  lt_Hash :: hash
  lt_Error :: "string option"

record l1_tx_wire =
  wt_Time :: "int option"
  wt_User :: "address option"
  wt_Action :: string
  wt_Block :: "u64 option"
  wt_Hash :: "hash option"
  wt_Error :: string

definition l1_tx_fields :: "eth_json \<Rightarrow> (hl_error, l1_tx_wire) fields" where
  "l1_tx_fields E = [(''time'', field wt_Time wt_Time_update (pointer 0 json_int64)),
     (''user'', field wt_User wt_User_update (pointer 0 (addr E))), (''action'', field wt_Action wt_Action_update json_raw),
     (''block'', field wt_Block wt_Block_update (pointer 0 json_uint)),
     (''hash'', field wt_Hash wt_Hash_update (pointer 0 (custom (ejHash E)))), (''error'', field wt_Error wt_Error_update json_raw)]"

definition L1Transaction_UnmarshalJSON :: "eth_json \<Rightarrow> string \<Rightarrow> hl_error + L1Transaction" where
  "L1Transaction_UnmarshalJSON E data =
     (case Unmarshal json_failed (struct (l1_tx_fields E))
         \<lparr>wt_Time = None, wt_User = None, wt_Action = [], wt_Block = None, wt_Hash = None, wt_Error = []\<rparr> data of
        Inl e \<Rightarrow> Inl (HlWrap ''decoding L1 transaction'' e)
      | Inr wire \<Rightarrow>
          (case wt_Time wire of
             None \<Rightarrow> Inl (HlMessage ''L1 transaction has no time'')
           | Some t \<Rightarrow>
               if t < 0 then Inl (HlMessage (''L1 transaction time must be non-negative, got '' @ dec_int t))
               else (case wt_User wire of
                  None \<Rightarrow> Inl (HlMessage ''L1 transaction has no user'')
                | Some user \<Rightarrow>
                    (case wt_Block wire of
                       None \<Rightarrow> Inl (HlMessage ''L1 transaction has no block'')
                     | Some block \<Rightarrow>
                         if wt_Hash wire = None \<or> wt_Hash wire = Some 0 then Inl (HlMessage ''L1 transaction has no hash'')
                         else let h = the (wt_Hash wire); named = ''L1 transaction '' @ hash_hex h
                              in if wt_Action wire = [] \<or> TrimSpace (wt_Action wire) = ''null''
                                 then Inl (HlMessage (named @ '' has no action''))
                                 else if wt_Error wire = [] then Inl (HlMessage (named @ '' has no error result''))
                                 else (case decodeL1Action E (wt_Action wire) of
                                    Inl e \<Rightarrow> Inl (HlWrap (''decoding '' @ named @ '' action'') e)
                                  | Inr action \<Rightarrow>
                                      (case (if TrimSpace (wt_Error wire) = ''null'' then Inr None
                                             else (case Unmarshal json_failed json_string [] (wt_Error wire) of
                                                     Inl e \<Rightarrow> Inl (HlWrap (''decoding '' @ named @ '' error result'') e)
                                                   | Inr message \<Rightarrow> Inr (Some message))) of
                                         Inl e \<Rightarrow> Inl e
                                       | Inr executionError \<Rightarrow>
                                           Inr \<lparr>lt_Time = t, lt_User = user, lt_Action = action, lt_Block = block,
                                              lt_Hash = h, lt_Error = executionError\<rparr>))))))"

text \<open>\<open>None\<close> for the transactions of a block is the nil slice.\<close>

record L1BlockDetails =
  bd_BlockTime :: int
  bd_Hash :: hash
  bd_Height :: u64
  bd_NumTransactions :: u64
  bd_Transactions :: "L1Transaction list option"

fun check_transactions :: "int \<Rightarrow> u64 \<Rightarrow> nat \<Rightarrow> hash list \<Rightarrow> L1Transaction list \<Rightarrow> hl_error option" where
  "check_transactions blockTime height i seen [] = None"
| "check_transactions blockTime height i seen (tx # txs) =
     (let named = ''L1 block '' @ dec_nat (unat height) @ '' transaction '' @ dec_nat i
      in if lt_Hash tx = 0 then Some (HlMessage (named @ '' has no hash''))
         else if lt_Block tx \<noteq> height then Some (HlMessage (named @ '' reports block '' @ dec_nat (unat (lt_Block tx))))
         else if lt_Time tx \<noteq> blockTime
         then Some (HlMessage (named @ '' reports time '' @ dec_int (lt_Time tx) @ ''; blockTime is '' @ dec_int blockTime))
         else if lt_Hash tx \<in> set seen
         then Some (HlMessage (''L1 block '' @ dec_nat (unat height) @ '' repeats transaction '' @ hash_hex (lt_Hash tx)))
         else check_transactions blockTime height (Suc i) (lt_Hash tx # seen) txs)"

definition block_Validate :: "L1BlockDetails \<Rightarrow> hl_error option" where
  "block_Validate b =
     (if bd_BlockTime b < 0 then Some (HlMessage ''L1 block has invalid blockTime'')
      else if bd_Hash b = 0 then Some (HlMessage ''L1 block has no hash'')
      else case bd_Transactions b of
             None \<Rightarrow> Some (HlMessage (''L1 block '' @ dec_nat (unat (bd_Height b)) @ '' has no transaction list''))
           | Some txs \<Rightarrow>
               if of_nat (length txs) \<noteq> bd_NumTransactions b
               then Some (HlMessage (''L1 block '' @ dec_nat (unat (bd_Height b)) @ '' contains '' @ dec_nat (length txs) @
                      '' transactions; numTxs is '' @ dec_nat (unat (bd_NumTransactions b))))
               else check_transactions (bd_BlockTime b) (bd_Height b) 0 [] txs)"

record l1_block_wire =
  wb_BlockTime :: "int option"
  wb_Hash :: "hash option"
  wb_Height :: "u64 option"
  wb_NumTxs :: "u64 option"
  wb_Txs :: string

definition l1_block_fields :: "eth_json \<Rightarrow> (hl_error, l1_block_wire) fields" where
  "l1_block_fields E = [(''blockTime'', field wb_BlockTime wb_BlockTime_update (pointer 0 json_int64)),
     (''hash'', field wb_Hash wb_Hash_update (pointer 0 (custom (ejHash E)))),
     (''height'', field wb_Height wb_Height_update (pointer 0 json_uint)),
     (''numTxs'', field wb_NumTxs wb_NumTxs_update (pointer 0 json_uint)), (''txs'', field wb_Txs wb_Txs_update json_raw)]"

definition L1BlockDetails_UnmarshalJSON :: "eth_json \<Rightarrow> string \<Rightarrow> hl_error + L1BlockDetails" where
  "L1BlockDetails_UnmarshalJSON E data =
     (case Unmarshal json_failed (struct (l1_block_fields E))
         \<lparr>wb_BlockTime = None, wb_Hash = None, wb_Height = None, wb_NumTxs = None, wb_Txs = []\<rparr> data of
        Inl e \<Rightarrow> Inl (HlWrap ''decoding L1 block details'' e)
      | Inr wire \<Rightarrow>
          if (case wb_BlockTime wire of None \<Rightarrow> True | Some t \<Rightarrow> t < 0) then Inl (HlMessage ''L1 block has invalid blockTime'')
          else if wb_Hash wire = None \<or> wb_Hash wire = Some 0 then Inl (HlMessage ''L1 block has no hash'')
          else case wb_Height wire of
                 None \<Rightarrow> Inl (HlMessage ''L1 block has no height'')
               | Some height \<Rightarrow>
                   let named = ''L1 block '' @ dec_nat (unat height)
                   in case wb_NumTxs wire of
                        None \<Rightarrow> Inl (HlMessage (named @ '' has no numTxs''))
                      | Some numTxs \<Rightarrow>
                          if wb_Txs wire = [] \<or> TrimSpace (wb_Txs wire) = ''null''
                          then Inl (HlMessage (named @ '' has no transaction list''))
                          else (case Unmarshal json_failed (slice (L1Transaction_UnmarshalJSON E)) None (wb_Txs wire) of
                                  Inl e \<Rightarrow> Inl (HlWrap (''decoding '' @ named @ '' transactions'') e)
                                | Inr transactions \<Rightarrow>
                                    let candidate = \<lparr>bd_BlockTime = the (wb_BlockTime wire), bd_Hash = the (wb_Hash wire),
                                          bd_Height = height, bd_NumTransactions = numTxs, bd_Transactions = transactions\<rparr>
                                    in case block_Validate candidate of Some e \<Rightarrow> Inl e | None \<Rightarrow> Inr candidate))"

section \<open>Kinds of evidence\<close>

lemmas table_defs = deposit_fields_def withdraw_fields_def internalTransfer_fields_def subAccountTransfer_fields_def
  liquidation_fields_def vault_fields_def vaultWithdrawal_fields_def vaultLeaderCommission_fields_def spotTransfer_fields_def
  send_fields_def accountClassTransfer_fields_def spotGenesis_fields_def rewardsClaim_fields_def
  usdClassTransfer_fields_def approveAgent_fields_def approveBuilderFee_fields_def sendAsset_fields_def

lemma reads_type:
  "reads_field deposit_fields ''type'' dep_Type json_string"
  "reads_field withdraw_fields ''type'' wd_Type json_string"
  "reads_field (internalTransfer_fields E) ''type'' it_Type json_string"
  "reads_field (subAccountTransfer_fields E) ''type'' sa_Type json_string"
  "reads_field liquidation_fields ''type'' lq_Type json_string"
  "reads_field (vault_fields E) ''type'' vt_Type json_string"
  "reads_field (vaultWithdrawal_fields E) ''type'' vw_Type json_string"
  "reads_field (vaultLeaderCommission_fields E) ''type'' vc_Type json_string"
  "reads_field (spotTransfer_fields E) ''type'' st_Type json_string"
  "reads_field (send_fields E) ''type'' sd_Type json_string"
  "reads_field accountClassTransfer_fields ''type'' ac_Type json_string"
  "reads_field spotGenesis_fields ''type'' sg_Type json_string"
  "reads_field rewardsClaim_fields ''type'' rc_Type json_string"
  by (simp_all add: reads_field_def table_defs byte_def in_range_def)

lemma reads_action_type:
  "reads_field usdClassTransfer_fields ''type'' ut_Type json_string"
  "reads_field (approveAgent_fields E) ''type'' aa_Type json_string"
  "reads_field (approveBuilderFee_fields E) ''type'' bf_Type json_string"
  "reads_field (sendAsset_fields E) ''type'' sn_Type json_string"
  by (simp_all add: reads_field_def table_defs byte_def in_range_def)

lemma send_decimals:
  "reads_field (send_fields E) ''amount'' sd_Amount decimal"
  "reads_field (send_fields E) ''usdcValue'' sd_USDCValue decimal"
  "reads_field (send_fields E) ''fee'' sd_Fee decimal"
  "reads_field (send_fields E) ''nativeTokenFee'' sd_NativeTokenFee decimal"
  by (simp_all add: reads_field_def table_defs byte_def in_range_def)

text \<open>The struct and the discriminator are decoded from the same members, so they agree on the type.\<close>

lemma discriminated:
  assumes "Unmarshal json_failed (struct table) zero data = Inr x" and "Unmarshal json_failed discriminator [] data = Inr typ"
    and "reads_field table ''type'' get json_string" and "get zero = []"
  shows "get x = typ"
  using assms(1)
proof (cases rule: Unmarshal_struct)
  case (null v raw)
  then show ?thesis using assms(2,4) by (simp add: Unmarshal_def discriminator_def struct_def)
next
  case (object v raw ms)
  then have "set_fields [(''type'', json_string)] ms [] = (Inr (get x, False) :: hl_error + string \<times> bool)"
    using set_fields_get [OF assms(3) object(3)] assms(4) by simp
  then show ?thesis using assms(2) object(1,2) by (simp add: Unmarshal_def discriminator_def struct_def)
qed

lemma decode_delta_type:
  assumes "decode_delta typ f table zero data = Inr v" and "Unmarshal json_failed discriminator [] data = Inr typ"
    and "reads_field table ''type'' get json_string" and "get zero = []" and "\<And>x. ledgerDeltaType (f x) = get x"
  shows "ledgerDeltaType v = typ \<and> (\<exists>x. v = f x)"
  using assms(1) discriminated [OF _ assms(2-4)] assms(5) by (auto simp: decode_delta_def split: sum.splits)

lemma decode_action_type:
  assumes "decode_action typ f table zero data = Inr v" and "Unmarshal json_failed discriminator [] data = Inr typ"
    and "reads_field table ''type'' get json_string" and "get zero = []" and "\<And>x. L1ActionType (f x) = get x"
  shows "L1ActionType v = typ \<and> (\<exists>x. v = f x)"
  using assms(1) discriminated [OF _ assms(2-4)] assms(5) by (auto simp: decode_action_def split: sum.splits)

lemma require_then_Inr [simp]: "require_then err x = Inr v \<longleftrightarrow> err = None \<and> x = Inr v"
  by (auto simp: require_then_def split: option.splits)

lemma if_Inr_E: "(if c then x else y) = Inr v \<Longrightarrow> (c \<Longrightarrow> x = Inr v \<Longrightarrow> P) \<Longrightarrow> (y = Inr v \<Longrightarrow> P) \<Longrightarrow> P"
  by (cases c) simp_all

lemma null_field_None: "null_field obj fs = None \<Longrightarrow> f \<in> set fs \<Longrightarrow> \<exists>v. obj f = Some v \<and> TrimSpace v \<noteq> ''null''"
  by (induction fs) (auto split: option.splits if_splits)

text \<open>A required decimal was given, and the text kept is one that parses.\<close>

lemma required_decimal:
  assumes "requireNonNullJSONObjectFields data fs = None" and "name \<in> set fs"
    and "Unmarshal json_failed (struct table) zero data = Inr x" and "reads_field table name get decimal"
  shows "\<exists>q. ParseAmount (get x) = Inr q"
proof -
  obtain obj where obj: "Unmarshal json_failed raw_map Map.empty data = Inr obj" "null_field obj fs = None"
    using assms(1) by (auto simp: requireNonNullJSONObjectFields_def split: sum.splits)
  have some: "obj name \<noteq> None" using null_field_None [OF obj(2) assms(2)] by auto
  from assms(3) show ?thesis
  proof (cases rule: Unmarshal_struct)
    case (null v raw)
    then show ?thesis using raw_map_get [OF obj(1) some null(1)] by auto
  next
    case (object v raw ms)
    obtain ms' where "json_view raw = Some (JObject ms')" "name \<in> fst ` set ms'" by (rule raw_map_get [OF obj(1) some object(1)])
    then have "\<not> (\<forall>(k, raw) \<in> set ms. fold_name k \<noteq> fold_name name)" using object(2) by auto
    moreover have "set_fields [(name, custom Decimal_UnmarshalJSON)] ms (get zero) = Inr (get x, False)"
      using set_fields_get [OF assms(4) object(3)] by (simp add: decimal_def)
    ultimately obtain r where "Decimal_UnmarshalJSON r = Inr (get x)" 
      using set_fields_custom [of name Decimal_UnmarshalJSON ms "get zero" "get x"] by blast
    then show ?thesis by (auto simp: Decimal_UnmarshalJSON_def split: sum.splits)
  qed
qed

lemmas delta_types =
  decode_delta_type [where f = DepositDelta, OF _ _ reads_type(1), unfolded ledgerDeltaType.simps, OF _ _ _ refl]
  decode_delta_type [where f = WithdrawDelta, OF _ _ reads_type(2), unfolded ledgerDeltaType.simps, OF _ _ _ refl]
  decode_delta_type [where f = InternalTransferDelta, OF _ _ reads_type(3), unfolded ledgerDeltaType.simps, OF _ _ _ refl]
  decode_delta_type [where f = SubAccountTransferDelta, OF _ _ reads_type(4), unfolded ledgerDeltaType.simps, OF _ _ _ refl]
  decode_delta_type [where f = LiquidationDelta, OF _ _ reads_type(5), unfolded ledgerDeltaType.simps, OF _ _ _ refl]
  decode_delta_type [where f = VaultDelta, OF _ _ reads_type(6), unfolded ledgerDeltaType.simps, OF _ _ _ refl]
  decode_delta_type [where f = VaultWithdrawalDelta, OF _ _ reads_type(7), unfolded ledgerDeltaType.simps, OF _ _ _ refl]
  decode_delta_type [where f = VaultLeaderCommissionDelta, OF _ _ reads_type(8), unfolded ledgerDeltaType.simps, OF _ _ _ refl]
  decode_delta_type [where f = SpotTransferDelta, OF _ _ reads_type(9), unfolded ledgerDeltaType.simps, OF _ _ _ refl]
  decode_delta_type [where f = SendDelta, OF _ _ reads_type(10), unfolded ledgerDeltaType.simps, OF _ _ _ refl]
  decode_delta_type [where f = AccountClassTransferDelta, OF _ _ reads_type(11), unfolded ledgerDeltaType.simps, OF _ _ _ refl]
  decode_delta_type [where f = SpotGenesisDelta, OF _ _ reads_type(12), unfolded ledgerDeltaType.simps, OF _ _ _ refl]
  decode_delta_type [where f = RewardsClaimDelta, OF _ _ reads_type(13), unfolded ledgerDeltaType.simps, OF _ _ _ refl]

text \<open>
  Ledger deltas are decoded as what they say they are. A decoded delta has the type that the text's
  discriminator names; a type the package does not know keeps the text verbatim; and the amount, value
  and fees of a send are given in the text and are exact decimals.
\<close>

theorem DecodeLedgerDelta_faithful:
  assumes "DecodeLedgerDelta E data = Inr v"
  shows "Unmarshal json_failed discriminator [] data = Inr (ledgerDeltaType v) \<and>
    (case v of
       UnknownLedgerDelta t raw \<Rightarrow> raw = data
     | SendDelta s \<Rightarrow> \<exists>a u f n. ParseAmount (sd_Amount s) = Inr a \<and> ParseAmount (sd_USDCValue s) = Inr u \<and>
                       ParseAmount (sd_Fee s) = Inr f \<and> ParseAmount (sd_NativeTokenFee s) = Inr n
     | _ \<Rightarrow> True)"
proof -
  obtain kind where kind: "Unmarshal json_failed discriminator [] data = Inr kind"
    using assms by (auto simp: DecodeLedgerDelta_def split: sum.splits)
  note d = assms [unfolded DecodeLedgerDelta_def kind sum.case]
  have "ledgerDeltaType v = kind \<and> (\<forall>t raw. v = UnknownLedgerDelta t raw \<longrightarrow> raw = data) \<and>
      (\<forall>s. v = SendDelta s \<longrightarrow> kind = ''send'')"
    using d kind by (elim if_Inr_E) (auto dest!: delta_types)
  moreover have "(\<exists>q. ParseAmount (sd_Amount s) = Inr q) \<and> (\<exists>q. ParseAmount (sd_USDCValue s) = Inr q) \<and>
      (\<exists>q. ParseAmount (sd_Fee s) = Inr q) \<and> (\<exists>q. ParseAmount (sd_NativeTokenFee s) = Inr q)" if v: "v = SendDelta s" "kind = ''send''" for s
  proof -
    obtain fs zero where r: "requireNonNullJSONObjectFields data fs = None" "{''amount'', ''usdcValue'', ''fee'', ''nativeTokenFee''} \<subseteq> set fs"
      and x: "Unmarshal json_failed (struct (send_fields E)) zero data = Inr s"
      using d v by (auto simp: decode_delta_def split: sum.splits)
    show ?thesis
      using required_decimal [OF r(1) _ x send_decimals(1)] required_decimal [OF r(1) _ x send_decimals(2)]
        required_decimal [OF r(1) _ x send_decimals(3)] required_decimal [OF r(1) _ x send_decimals(4)] r(2) by simp
  qed
  ultimately show ?thesis using kind by (auto split: NonFundingLedgerDelta.split)
qed

text \<open>The same for actions of the explorer.\<close>

lemmas action_types =
  decode_action_type [where f = L1USDClassTransfer, OF _ _ reads_action_type(1), unfolded L1ActionType.simps, OF _ _ _ refl]
  decode_action_type [where f = L1ApproveAgent, OF _ _ reads_action_type(2), unfolded L1ActionType.simps, OF _ _ _ refl]
  decode_action_type [where f = L1ApproveBuilderFee, OF _ _ reads_action_type(3), unfolded L1ActionType.simps, OF _ _ _ refl]
  decode_action_type [where f = L1SendAsset, OF _ _ reads_action_type(4), unfolded L1ActionType.simps, OF _ _ _ refl]

lemma decodeL1Action_type:
  assumes "decodeL1Action E data = Inr a"
  shows "Unmarshal json_failed discriminator [] data = Inr (L1ActionType a)" "a = UnknownL1Action t raw \<Longrightarrow> raw = data"
proof -
  obtain kind where kind: "Unmarshal json_failed discriminator [] data = Inr kind"
    using assms by (auto simp: decodeL1Action_def split: sum.splits)
  note d = assms [unfolded decodeL1Action_def kind sum.case]
  have "L1ActionType a = kind \<and> (\<forall>t raw. a = UnknownL1Action t raw \<longrightarrow> raw = data)"
    using d kind by (elim if_Inr_E) (auto dest!: action_types)
  then show "Unmarshal json_failed discriminator [] data = Inr (L1ActionType a)" "a = UnknownL1Action t raw \<Longrightarrow> raw = data"
    using kind by auto
qed

section \<open>Blocks are complete\<close>

lemma check_transactions_None:
  "check_transactions blockTime height i seen txs = None \<longleftrightarrow>
     (\<forall>tx \<in> set txs. lt_Hash tx \<noteq> 0 \<and> lt_Block tx = height \<and> lt_Time tx = blockTime) \<and>
     distinct (map lt_Hash txs) \<and> set (map lt_Hash txs) \<inter> set seen = {}"
  by (induction txs arbitrary: i seen) (auto simp: Let_def)

lemma block_Validate_None:
  "block_Validate b = None \<longleftrightarrow> 0 \<le> bd_BlockTime b \<and> bd_Hash b \<noteq> 0 \<and>
     (\<exists>txs. bd_Transactions b = Some txs \<and> of_nat (length txs) = bd_NumTransactions b \<and> distinct (map lt_Hash txs) \<and>
        (\<forall>tx \<in> set txs. lt_Hash tx \<noteq> 0 \<and> lt_Block tx = bd_Height b \<and> lt_Time tx = bd_BlockTime b))"
  by (auto simp: block_Validate_def check_transactions_None split: option.splits)


text \<open>What is known of a decoded transaction.\<close>

lemma L1Transaction_decoded:
  assumes "L1Transaction_UnmarshalJSON E data = Inr t"
  shows "0 \<le> lt_Time t" "lt_Hash t \<noteq> 0" "\<exists>raw. decodeL1Action E raw = Inr (lt_Action t)"
  using assms by (auto simp: L1Transaction_UnmarshalJSON_def Let_def split: sum.splits option.splits if_splits)

lemma L1Block_validated: "L1BlockDetails_UnmarshalJSON E data = Inr b \<Longrightarrow> block_Validate b = None"
  by (auto simp: L1BlockDetails_UnmarshalJSON_def Let_def split: sum.split_asm option.split_asm if_split_asm)

text \<open>
  C39. Blocks are complete. A block that is decoded has exactly the transactions of its list, each decoded
  from the element at its place, as many as the block's own count says; their hashes are distinct and
  none is zero, and each of them names the block's height and time.
\<close>

theorem L1Block_complete:
  assumes "L1BlockDetails_UnmarshalJSON E data = Inr b"
  shows "\<exists>wire raw raws txs. Unmarshal json_failed (struct (l1_block_fields E))
        \<lparr>wb_BlockTime = None, wb_Hash = None, wb_Height = None, wb_NumTxs = None, wb_Txs = []\<rparr> data = Inr wire \<and>
      wb_BlockTime wire = Some (bd_BlockTime b) \<and> wb_Hash wire = Some (bd_Hash b) \<and> wb_Height wire = Some (bd_Height b) \<and>
      wb_NumTxs wire = Some (bd_NumTransactions b) \<and> map_option snd (json_scan (wb_Txs wire)) = Some raw \<and>
      json_view raw = Some (JArray raws) \<and> bd_Transactions b = Some txs \<and>
      list_all2 (\<lambda>raw tx. L1Transaction_UnmarshalJSON E raw = Inr tx) raws txs \<and>
      of_nat (length raws) = bd_NumTransactions b \<and> distinct (map lt_Hash txs) \<and>
      (\<forall>tx \<in> set txs. lt_Hash tx \<noteq> 0 \<and> lt_Block tx = bd_Height b \<and> lt_Time tx = bd_BlockTime b \<and> 0 \<le> lt_Time tx)"
proof -
  obtain wire transactions where w: "Unmarshal json_failed (struct (l1_block_fields E))
        \<lparr>wb_BlockTime = None, wb_Hash = None, wb_Height = None, wb_NumTxs = None, wb_Txs = []\<rparr> data = Inr wire"
      "wb_BlockTime wire = Some (bd_BlockTime b)" "wb_Hash wire = Some (bd_Hash b)" "wb_Height wire = Some (bd_Height b)"
      "wb_NumTxs wire = Some (bd_NumTransactions b)"
    and t: "Unmarshal json_failed (slice (L1Transaction_UnmarshalJSON E)) None (wb_Txs wire) = Inr transactions"
      "bd_Transactions b = transactions" "block_Validate b = None"
    using assms by (auto simp: L1BlockDetails_UnmarshalJSON_def Let_def split: sum.splits option.splits if_splits)
  obtain txs where txs: "transactions = Some txs" "of_nat (length txs) = bd_NumTransactions b" "distinct (map lt_Hash txs)"
      "\<forall>tx \<in> set txs. lt_Hash tx \<noteq> 0 \<and> lt_Block tx = bd_Height b \<and> lt_Time tx = bd_BlockTime b" and time: "0 \<le> bd_BlockTime b"
    using t(2,3) block_Validate_None by auto
  obtain v raw raws where r: "json_scan (wb_Txs wire) = Some (v, raw)" "json_view raw = Some (JArray raws)"
      "list_all2 (\<lambda>raw v. L1Transaction_UnmarshalJSON E raw = Inr v) raws txs"
    using t(1) txs(1) by (auto elim: Unmarshal_slice)
  show ?thesis
    by (intro exI [of _ wire] exI [of _ raw] exI [of _ raws] exI [of _ txs])
       (use w t(2) txs r time list_all2_lengthD [OF r(3)] in auto)
qed

end
