(* ===== verification/Hyperliquid_Http.thy ===== *)
theory Hyperliquid_Http
  imports Hyperliquid_Evidence Http_Client
begin

text \<open>
  The clients of \<open>providers/hyperliquid\<close>: \<open>info.go\<close>, the dispatch of \<open>exchange.go\<close>, the queries of
  \<open>explorer.go\<close> and the wire types of \<open>types.go\<close>. A call returns its response record and its result, and
  the events it caused: the callback before the dispatch and each \<open>Do\<close>. Context, request
  construction and transport are the fields of \<open>hl_env\<close>.
\<close>

section \<open>Environment\<close>

record hl_env =
  hvCtxBefore :: "string option"
  hvCtxAfter :: "string option"
  hvInvalid :: "string \<Rightarrow> string option"
  hvDo :: "http_request \<Rightarrow> string + http_response"

datatype hl_event = CalledBack | Sent http_request

record Response =
  rsDispatched :: bool
  rsStatusCode :: int
  rsDate :: string

definition no_response :: Response where
  "no_response = \<lparr>rsDispatched = False, rsStatusCode = 0, rsDate = []\<rparr>"

definition dispatched :: Response where
  "dispatched = no_response\<lparr>rsDispatched := True\<rparr>"

definition answered :: "http_response \<Rightarrow> Response" where
  "answered resp = dispatched\<lparr>rsStatusCode := respStatus resp, rsDate := Header_Get ''Date'' (respHeader resp)\<rparr>"

type_synonym 'a reply = "(Response \<times> (hl_error + 'a)) \<times> hl_event list"

definition json_request :: "string \<Rightarrow> string \<Rightarrow> http_request" where
  "json_request endpoint payload = \<lparr>reqMethod = ''POST'', reqURL = endpoint,
     reqHeader = Header_Set ''Content-Type'' ''application/json'' [], reqBody = map of_char payload, reqDeadline = None\<rparr>"

text \<open>\<open>io.LimitReader\<close> with an int64: a limit that is not positive reads nothing.\<close>

definition read_upto :: "int \<Rightarrow> response_body \<Rightarrow> string \<times> http_error option" where
  "read_upto n b = (if n \<le> 0 then ([], None) else read_limited (nat n) b)"

section \<open>Reads\<close>

datatype hl_doer = DefaultDoer | InjectedDoer nat

record InfoClient =
  icEndpoint :: string
  icHttpClient :: "hl_doer option"
  icResponseLimit :: int

definition WithResponseLimit :: "int \<Rightarrow> InfoClient \<Rightarrow> InfoClient" where
  "WithResponseLimit limit c = (if limit > 0 then c\<lparr>icResponseLimit := limit\<rparr> else c)"

definition NewInfoClient :: "string \<Rightarrow> hl_doer option \<Rightarrow> (InfoClient \<Rightarrow> InfoClient) option list \<Rightarrow> InfoClient" where
  "NewInfoClient endpoint0 client0 opts =
     (let endpoint = (if endpoint0 = [] then ''https://api.hyperliquid.xyz/info'' else endpoint0);
          doer = (if client0 = None then Some DefaultDoer else client0)
      in fold (\<lambda>opt c. case opt of None \<Rightarrow> c | Some f \<Rightarrow> f c) opts
           \<lparr>icEndpoint = endpoint, icHttpClient = doer, icResponseLimit = 4194304\<rparr>)"

text \<open>
  \<open>payload\<close> is what \<open>json.Marshal\<close> makes of the request, or its error; \<open>decode\<close> is \<open>json.Unmarshal\<close> into the
  variable of the caller.
\<close>

definition info_Post :: "hl_env \<Rightarrow> InfoClient option \<Rightarrow> string + string \<Rightarrow> (string \<Rightarrow> hl_error + 'a) \<Rightarrow> 'a reply" where
  "info_Post env c payload decode =
     (case payload of
        Inl e \<Rightarrow> ((no_response, Inl (HlRequest ErrorEncode (HlWrap ''hyperliquid: request encoding failed'' (HlCause e)))), [])
      | Inr text \<Rightarrow>
          if (case c of None \<Rightarrow> True | Some cl \<Rightarrow> icHttpClient cl = None)
          then ((no_response, Inl (HlRequest ErrorRequest (HlMessage ''hyperliquid: info client is not configured''))), [])
          else let cl = the c
               in case hvInvalid env (icEndpoint cl) of
                    Some e \<Rightarrow> ((no_response, Inl (HlRequest ErrorRequest (HlWrap ''hyperliquid: request construction failed'' (HlCause e)))), [])
                  | None \<Rightarrow>
                      let req = json_request (icEndpoint cl) text; events = [Sent req]
                      in case hvDo env req of
                           Inl e \<Rightarrow> ((dispatched, Inl (HlRequest ErrorTransport (HlWrap ''hyperliquid: info request'' (HlCause e)))), events)
                         | Inr resp \<Rightarrow>
                             let result = answered resp
                             in if respStatus resp = 429 then ((result, Inl HlRateLimited), events)
                                else if respStatus resp < 200 \<or> respStatus resp \<ge> 300 then
                                  (case read_limited 512 (respBody resp) of
                                     (_, Some _) \<Rightarrow> ((result, Inl (HlHTTP (respStatus resp) [])), events)
                                   | (raw, None) \<Rightarrow> ((result, Inl (HlHTTP (respStatus resp) (TrimSpace raw))), events))
                                else
                                  (case read_upto (wrap_i64 (icResponseLimit cl + 1)) (respBody resp) of
                                     (_, Some e) \<Rightarrow> ((result, Inl (HlRequest ErrorDecode (HlWrap ''hyperliquid: reading info response'' (HlCause (heText e))))), events)
                                   | (raw, None) \<Rightarrow>
                                       if int (length raw) > icResponseLimit cl
                                       then ((result, Inl (HlRequest ErrorDecode (HlMessage (''hyperliquid: response exceeds '' @
                                               dec_int (icResponseLimit cl) @ '' bytes'')))), events)
                                       else (case decode raw of
                                               Inl e \<Rightarrow> ((result, Inl (HlRequest ErrorDecode (HlWrap ''hyperliquid: response decoding failed'' e))), events)
                                             | Inr v \<Rightarrow> ((result, Inr v), events))))"

section \<open>Signed writes\<close>

text \<open>The injected client is copied and does not follow redirects.\<close>

record exchange_http =
  ehDoer :: hl_doer
  ehFollowsRedirects :: bool

record ExchangeClient =
  ecEndpoint :: string
  ecHttpClient :: "exchange_http option"
  ecResponseLimit :: int

definition WithExchangeResponseLimit :: "int \<Rightarrow> ExchangeClient \<Rightarrow> ExchangeClient" where
  "WithExchangeResponseLimit limit c = (if limit > 0 then c\<lparr>ecResponseLimit := limit\<rparr> else c)"

definition NewExchangeClient :: "string \<Rightarrow> hl_doer option \<Rightarrow> (ExchangeClient \<Rightarrow> ExchangeClient) option list \<Rightarrow> ExchangeClient" where
  "NewExchangeClient endpoint0 client0 opts =
     (let endpoint = (if endpoint0 = [] then ''https://api.hyperliquid.xyz/exchange'' else endpoint0);
          doer = (case client0 of None \<Rightarrow> DefaultDoer | Some d \<Rightarrow> d)
      in fold (\<lambda>opt c. case opt of None \<Rightarrow> c | Some f \<Rightarrow> f c) opts
           \<lparr>ecEndpoint = endpoint, ecHttpClient = Some \<lparr>ehDoer = doer, ehFollowsRedirects = False\<rparr>, ecResponseLimit = 4194304\<rparr>)"

text \<open>\<open>before\<close> is the callback: absent, or its result.\<close>

definition exchange_Post :: "hl_env \<Rightarrow> ExchangeClient option \<Rightarrow> string + string \<Rightarrow> (string \<Rightarrow> hl_error + 'a) \<Rightarrow>
    string option option \<Rightarrow> 'a reply" where
  "exchange_Post env c payload decode before =
     (if (case c of None \<Rightarrow> True | Some cl \<Rightarrow> ecHttpClient cl = None)
      then ((no_response, Inl (HlRequest ErrorRequest (HlMessage ''hyperliquid: exchange client is not configured''))), [])
      else let cl = the c
           in case payload of
                Inl _ \<Rightarrow> ((no_response, Inl (HlRequest ErrorEncode (HlMessage ''hyperliquid: exchange request encoding failed''))), [])
              | Inr text \<Rightarrow>
                  if hvInvalid env (ecEndpoint cl) \<noteq> None
                  then ((no_response, Inl (HlRequest ErrorRequest (HlMessage ''hyperliquid: exchange request construction failed''))), [])
                  else case hvCtxBefore env of
                         Some e \<Rightarrow> ((no_response, Inl (HlRequest ErrorRequest
                           (HlWrap ''hyperliquid: exchange request canceled before dispatch'' (HlCause e)))), [])
                       | None \<Rightarrow>
                           let called = (case before of None \<Rightarrow> [] | Some _ \<Rightarrow> [CalledBack])
                           in case before of
                                Some (Some e) \<Rightarrow> ((no_response, Inl (HlRequest ErrorDispatch (HlCause e))), called)
                              | _ \<Rightarrow>
                                  let req = json_request (ecEndpoint cl) text; events = called @ [Sent req]
                                  in case hvDo env req of
                                       Inl _ \<Rightarrow> ((dispatched, Inl (HlRequest ErrorTransport
                                         (case hvCtxAfter env of
                                            Some e \<Rightarrow> HlWrap ''hyperliquid: exchange transport failed'' (HlCause e)
                                          | None \<Rightarrow> HlMessage ''hyperliquid: exchange transport failed''))), events)
                                     | Inr resp \<Rightarrow>
                                         let result = answered resp
                                         in if respStatus resp = 429 then ((result, Inl HlRateLimited), events)
                                            else if respStatus resp < 200 \<or> respStatus resp \<ge> 300
                                            then ((result, Inl (HlHTTP (respStatus resp) [])), events)
                                            else (case read_upto (wrap_i64 (ecResponseLimit cl + 1)) (respBody resp) of
                                                    (raw, err) \<Rightarrow>
                                                      (case (if err \<noteq> None \<or> int (length raw) > ecResponseLimit cl then Inl json_failed
                                                             else decode raw) of
                                                         Inl _ \<Rightarrow> ((result, Inl (HlRequest ErrorDecode
                                                           (HlMessage ''hyperliquid: exchange response decoding failed''))), events)
                                                       | Inr v \<Rightarrow> ((result, Inr v), events))))"

section \<open>Signed writes are dispatched once\<close>

text \<open>The errors a signed write can report: fixed messages, the caller's own errors, the status.\<close>

definition undisclosing :: "string option option \<Rightarrow> string option \<Rightarrow> string option \<Rightarrow> hl_error \<Rightarrow> bool" where
  "undisclosing before ctx ctx' e \<longleftrightarrow>
     e = HlRateLimited \<or> (\<exists>code. e = HlHTTP code []) \<or>
     e = HlRequest ErrorRequest (HlMessage ''hyperliquid: exchange client is not configured'') \<or>
     e = HlRequest ErrorEncode (HlMessage ''hyperliquid: exchange request encoding failed'') \<or>
     e = HlRequest ErrorRequest (HlMessage ''hyperliquid: exchange request construction failed'') \<or>
     e = HlRequest ErrorTransport (HlMessage ''hyperliquid: exchange transport failed'') \<or>
     e = HlRequest ErrorDecode (HlMessage ''hyperliquid: exchange response decoding failed'') \<or>
     (\<exists>m. ctx = Some m \<and> e = HlRequest ErrorRequest (HlWrap ''hyperliquid: exchange request canceled before dispatch'' (HlCause m))) \<or>
     (\<exists>m. ctx' = Some m \<and> e = HlRequest ErrorTransport (HlWrap ''hyperliquid: exchange transport failed'' (HlCause m))) \<or>
     (\<exists>m. before = Some (Some m) \<and> e = HlRequest ErrorDispatch (HlCause m))"

text \<open>
  C38. A signed write is dispatched at most once. \<open>Post\<close> hands its request to \<open>Do\<close> at most once, after the
  callback has agreed and never if it refused or the context was done; \<open>Dispatched\<close> is set exactly if it
  did. A result is only returned for a dispatched request with a success status. Every error is a fixed
  message, the status, or an error of the caller's context or callback: neither the endpoint, nor
  the payload, nor what the transport or the venue said.
\<close>

theorem signed_write_dispatch:
  assumes "exchange_Post env c payload decode before = ((resp, res), events)"
  shows "rsDispatched resp = (\<exists>req. Sent req \<in> set events) \<and>
    (\<exists>sent \<in> {[], [Sent (json_request (ecEndpoint (the c)) (projr payload))]}. events = sent \<or> before \<noteq> None \<and> events = CalledBack # sent) \<and>
    (rsDispatched resp \<longrightarrow> hvCtxBefore env = None \<and> (before = None \<or> before = Some None \<and> hd events = CalledBack)) \<and>
    (case res of
       Inr v \<Rightarrow> rsDispatched resp \<and> 200 \<le> rsStatusCode resp \<and> rsStatusCode resp < 300
     | Inl e \<Rightarrow> undisclosing before (hvCtxBefore env) (hvCtxAfter env) e)"
proof -
  have flags [simp]: "\<not> rsDispatched no_response" "rsDispatched dispatched" "rsDispatched (answered r)" "rsStatusCode (answered r) = respStatus r" for r
    by (simp_all add: no_response_def dispatched_def answered_def)
  show ?thesis
    using assms unfolding exchange_Post_def Let_def
    by (auto simp: undisclosing_def split: option.split_asm sum.split_asm if_split_asm prod.split_asm)
qed

end
