(* ===== verification/Hyperliquid_Reads.thy ===== *)
theory Hyperliquid_Reads
  imports Hyperliquid_Http
begin

text \<open>
  The queries of \<open>providers/hyperliquid\<close>: the wire types of \<open>types.go\<close>, the requests of \<open>info.go\<close> and
  the queries of the explorer in \<open>explorer.go\<close>.
\<close>

section \<open>Wire types\<close>

record MarginSummary =
  ms_AccountValue :: string
  ms_TotalNtlPos :: string
  ms_TotalRawUsd :: string
  ms_TotalMarginUsed :: string

record Position =
  po_Coin :: string
  po_Szi :: string
  po_EntryPx :: "string option"
  po_PositionValue :: string
  po_UnrealizedPnl :: string
  po_MarginUsed :: string
  po_LiquidationPx :: "string option"

record AssetPosition =
  ap_Type :: string
  ap_Position :: Position

record PerpState =
  ps_MarginSummary :: MarginSummary
  ps_CrossMarginSummary :: MarginSummary
  ps_CrossMaintenanceMarginUsed :: string
  ps_Withdrawable :: string
  ps_AssetPositions :: "AssetPosition list option"
  ps_Time :: int

record SpotBalance =
  sb_Coin :: string
  sb_Token :: int
  sb_Hold :: string
  sb_Total :: string
  sb_EntryNtl :: string

record ExtraAgent =
  ea_Address :: address
  ea_Name :: string
  ea_ValidUntil :: int

record RawExtraAgent =
  ra_Address :: string
  ra_Name :: string
  ra_ValidUntil :: int

record PerpMarket =
  pm_Name :: string
  pm_SizeDecimals :: int
  pm_Delisted :: bool
  pm_MaxLeverage :: int
  pm_OnlyIsolated :: bool

record EvmContract =
  ec_Address :: string
  ec_EvmExtraWeiDecimals :: int

record SpotToken =
  tk_Name :: string
  tk_Index :: int
  tk_SzDecimals :: int
  tk_WeiDecimals :: int
  tk_EvmContract :: "EvmContract option"

record SpotPair =
  sp_Name :: string
  sp_Tokens :: "int list option"
  sp_Index :: int
  sp_IsCanonical :: bool

record SpotMeta =
  sm_Tokens :: "SpotToken list option"
  sm_Universe :: "SpotPair list option"

record SpotAssetCtx =
  cx_DayNtlVlm :: string
  cx_MarkPx :: "string option"
  cx_MidPx :: "string option"
  cx_PrevDayPx :: "string option"

text \<open>An int32 is read like an int64 and must be in its range.\<close>

definition json_int32 :: "('e, int) decoder" where
  "json_int32 = scalar (\<lambda>v. case v of
     JNumber s \<Rightarrow> (case Atoi s of Some x \<Rightarrow> if - (2 ^ 31) \<le> x \<and> x < 2 ^ 31 then Some x else None | None \<Rightarrow> None)
   | _ \<Rightarrow> None)"

definition text_pointer :: "('e, string option) decoder" where
  "text_pointer = pointer [] json_string"

definition zero_margin :: MarginSummary where
  "zero_margin = \<lparr>ms_AccountValue = [], ms_TotalNtlPos = [], ms_TotalRawUsd = [], ms_TotalMarginUsed = []\<rparr>"

definition json_margin :: "('e, MarginSummary) decoder" where
  "json_margin = struct [(''accountValue'', field ms_AccountValue ms_AccountValue_update json_string),
     (''totalNtlPos'', field ms_TotalNtlPos ms_TotalNtlPos_update json_string),
     (''totalRawUsd'', field ms_TotalRawUsd ms_TotalRawUsd_update json_string),
     (''totalMarginUsed'', field ms_TotalMarginUsed ms_TotalMarginUsed_update json_string)]"

definition json_position :: "('e, Position) decoder" where
  "json_position = struct [(''coin'', field po_Coin po_Coin_update json_string), (''szi'', field po_Szi po_Szi_update json_string),
     (''entryPx'', field po_EntryPx po_EntryPx_update text_pointer),
     (''positionValue'', field po_PositionValue po_PositionValue_update json_string),
     (''unrealizedPnl'', field po_UnrealizedPnl po_UnrealizedPnl_update json_string),
     (''marginUsed'', field po_MarginUsed po_MarginUsed_update json_string),
     (''liquidationPx'', field po_LiquidationPx po_LiquidationPx_update text_pointer)]"

definition zero_asset :: AssetPosition where
  "zero_asset = \<lparr>ap_Type = [], ap_Position = \<lparr>po_Coin = [], po_Szi = [], po_EntryPx = None, po_PositionValue = [],
     po_UnrealizedPnl = [], po_MarginUsed = [], po_LiquidationPx = None\<rparr>\<rparr>"

definition json_asset :: "('e, AssetPosition) decoder" where
  "json_asset = struct [(''type'', field ap_Type ap_Type_update json_string), (''position'', field ap_Position ap_Position_update json_position)]"

definition json_PerpState :: "('e, PerpState) decoder" where
  "json_PerpState = struct [(''marginSummary'', field ps_MarginSummary ps_MarginSummary_update json_margin),
     (''crossMarginSummary'', field ps_CrossMarginSummary ps_CrossMarginSummary_update json_margin),
     (''crossMaintenanceMarginUsed'', field ps_CrossMaintenanceMarginUsed ps_CrossMaintenanceMarginUsed_update json_string),
     (''withdrawable'', field ps_Withdrawable ps_Withdrawable_update json_string),
     (''assetPositions'', field ps_AssetPositions ps_AssetPositions_update (slice_of zero_asset json_asset)),
     (''time'', field ps_Time ps_Time_update json_int64)]"

definition zero_PerpState :: PerpState where
  "zero_PerpState = \<lparr>ps_MarginSummary = zero_margin, ps_CrossMarginSummary = zero_margin, ps_CrossMaintenanceMarginUsed = [],
     ps_Withdrawable = [], ps_AssetPositions = None, ps_Time = 0\<rparr>"

definition json_balance :: "('e, SpotBalance) decoder" where
  "json_balance = struct [(''coin'', field sb_Coin sb_Coin_update json_string), (''token'', field sb_Token sb_Token_update json_int64),
     (''hold'', field sb_Hold sb_Hold_update json_string), (''total'', field sb_Total sb_Total_update json_string),
     (''entryNtl'', field sb_EntryNtl sb_EntryNtl_update json_string)]"

text \<open>\<open>SpotState\<close> and \<open>PerpMeta\<close> have one field each, their list.\<close>

definition json_SpotState :: "('e, SpotBalance list option) decoder" where
  "json_SpotState = struct [(''balances'', slice_of \<lparr>sb_Coin = [], sb_Token = 0, sb_Hold = [], sb_Total = [], sb_EntryNtl = []\<rparr> json_balance)]"

definition json_ExtraAgent :: "eth_json \<Rightarrow> (hl_error, ExtraAgent) decoder" where
  "json_ExtraAgent E = struct [(''address'', field ea_Address ea_Address_update (addr E)), (''name'', field ea_Name ea_Name_update json_string),
     (''validUntil'', field ea_ValidUntil ea_ValidUntil_update json_int64)]"

definition json_RawExtraAgent :: "(hl_error, RawExtraAgent) decoder" where
  "json_RawExtraAgent = struct [(''address'', field ra_Address ra_Address_update json_string), (''name'', field ra_Name ra_Name_update json_string),
     (''validUntil'', field ra_ValidUntil ra_ValidUntil_update json_int64)]"

definition json_market :: "('e, PerpMarket) decoder" where
  "json_market = struct [(''name'', field pm_Name pm_Name_update json_string), (''szDecimals'', field pm_SizeDecimals pm_SizeDecimals_update json_int64),
     (''isDelisted'', field pm_Delisted pm_Delisted_update json_bool), (''maxLeverage'', field pm_MaxLeverage pm_MaxLeverage_update json_int64),
     (''onlyIsolated'', field pm_OnlyIsolated pm_OnlyIsolated_update json_bool)]"

definition json_PerpMeta :: "('e, PerpMarket list option) decoder" where
  "json_PerpMeta = struct [(''universe'', slice_of
     \<lparr>pm_Name = [], pm_SizeDecimals = 0, pm_Delisted = False, pm_MaxLeverage = 0, pm_OnlyIsolated = False\<rparr> json_market)]"

definition json_contract :: "('e, EvmContract) decoder" where
  "json_contract = struct [(''address'', field ec_Address ec_Address_update json_string),
     (''evm_extra_wei_decimals'', field ec_EvmExtraWeiDecimals ec_EvmExtraWeiDecimals_update json_int32)]"

definition json_SpotToken :: "('e, SpotToken) decoder" where
  "json_SpotToken = struct [(''name'', field tk_Name tk_Name_update json_string), (''index'', field tk_Index tk_Index_update json_int64),
     (''szDecimals'', field tk_SzDecimals tk_SzDecimals_update json_int32), (''weiDecimals'', field tk_WeiDecimals tk_WeiDecimals_update json_int32),
     (''evmContract'', field tk_EvmContract tk_EvmContract_update (pointer \<lparr>ec_Address = [], ec_EvmExtraWeiDecimals = 0\<rparr> json_contract))]"

definition json_SpotPair :: "('e, SpotPair) decoder" where
  "json_SpotPair = struct [(''name'', field sp_Name sp_Name_update json_string),
     (''tokens'', field sp_Tokens sp_Tokens_update (slice_of 0 json_int64)),
     (''index'', field sp_Index sp_Index_update json_int64), (''isCanonical'', field sp_IsCanonical sp_IsCanonical_update json_bool)]"

definition json_SpotMeta :: "('e, SpotMeta) decoder" where
  "json_SpotMeta = struct [(''tokens'', field sm_Tokens sm_Tokens_update
        (slice_of \<lparr>tk_Name = [], tk_Index = 0, tk_SzDecimals = 0, tk_WeiDecimals = 0, tk_EvmContract = None\<rparr> json_SpotToken)),
     (''universe'', field sm_Universe sm_Universe_update
        (slice_of \<lparr>sp_Name = [], sp_Tokens = None, sp_Index = 0, sp_IsCanonical = False\<rparr> json_SpotPair))]"

definition json_SpotAssetCtx :: "('e, SpotAssetCtx) decoder" where
  "json_SpotAssetCtx = struct [(''dayNtlVlm'', field cx_DayNtlVlm cx_DayNtlVlm_update json_string),
     (''markPx'', field cx_MarkPx cx_MarkPx_update text_pointer), (''midPx'', field cx_MidPx cx_MidPx_update text_pointer),
     (''prevDayPx'', field cx_PrevDayPx cx_PrevDayPx_update text_pointer)]"

section \<open>Requests of the info client\<close>

definition quote :: "string \<Rightarrow> string" where
  "quote s = [CHR 0x22] @ s @ [CHR 0x22]"

definition user_hex :: "address \<Rightarrow> string" where
  "user_hex user = ''0x'' @ hex_nat 40 (unat user)"

fun json_members :: "(string \<times> string) list \<Rightarrow> string" where
  "json_members [] = []"
| "json_members [(k, v)] = quote k @ '':'' @ v"
| "json_members ((k, v) # m # ms) = quote k @ '':'' @ v @ '','' @ json_members (m # ms)"

text \<open>What \<open>json.Marshal\<close> writes for an object; a Go map is written in the order of its keys.\<close>

definition json_object :: "(string \<times> string) list \<Rightarrow> string" where
  "json_object ms = ''{'' @ json_members ms @ ''}''"

definition labelled :: "string \<Rightarrow> 'a reply \<Rightarrow> hl_error + 'a" where
  "labelled kind x = (case snd (fst x) of Inl e \<Rightarrow> Inl (HlWrap (''hyperliquid: '' @ kind) e) | Inr v \<Rightarrow> Inr v)"

definition userRequest :: "hl_env \<Rightarrow> InfoClient option \<Rightarrow> string \<Rightarrow> address \<Rightarrow> (hl_error, 'a) decoder \<Rightarrow> 'a \<Rightarrow> hl_error + 'a" where
  "userRequest env c kind user d out =
     labelled kind (info_Post env c (Inr (json_object [(''type'', quote kind), (''user'', quote (user_hex user))]))
       (Unmarshal json_failed d out))"

definition ClearinghouseState :: "hl_env \<Rightarrow> InfoClient option \<Rightarrow> address \<Rightarrow> hl_error + PerpState" where
  "ClearinghouseState env c user = userRequest env c ''clearinghouseState'' user json_PerpState zero_PerpState"

definition SpotClearinghouseState :: "hl_env \<Rightarrow> InfoClient option \<Rightarrow> address \<Rightarrow> hl_error + SpotBalance list option" where
  "SpotClearinghouseState env c user = userRequest env c ''spotClearinghouseState'' user json_SpotState None"

definition ExtraAgents :: "hl_env \<Rightarrow> eth_json \<Rightarrow> InfoClient option \<Rightarrow> address \<Rightarrow> hl_error + ExtraAgent list option" where
  "ExtraAgents env E c user = userRequest env c ''extraAgents'' user
     (slice_of \<lparr>ea_Address = 0, ea_Name = [], ea_ValidUntil = 0\<rparr> (json_ExtraAgent E)) None"

definition RawExtraAgents :: "hl_env \<Rightarrow> InfoClient option \<Rightarrow> address \<Rightarrow> hl_error + RawExtraAgent list option" where
  "RawExtraAgents env c user = userRequest env c ''extraAgents'' user
     (slice_of \<lparr>ra_Address = [], ra_Name = [], ra_ValidUntil = 0\<rparr> json_RawExtraAgent) None"

definition PerpMeta :: "hl_env \<Rightarrow> InfoClient option \<Rightarrow> hl_error + PerpMarket list option" where
  "PerpMeta env c = labelled ''meta'' (info_Post env c (Inr (json_object [(''type'', quote ''meta'')])) (Unmarshal json_failed json_PerpMeta None))"

definition get_UserRateLimit :: "hl_env \<Rightarrow> InfoClient option \<Rightarrow> address \<Rightarrow> hl_error + UserRateLimit" where
  "get_UserRateLimit env c user = userRequest env c ''userRateLimit'' user (custom UserRateLimit_UnmarshalJSON)
     \<lparr>rl_Cap = None, rl_Used = None, rl_CumVlm = []\<rparr>"

text \<open>\<open>oid\<close> is what \<open>json.Marshal\<close> makes of the ID of the order.\<close>

definition OrderStatus :: "hl_env \<Rightarrow> InfoClient option \<Rightarrow> address \<Rightarrow> string + string \<Rightarrow> hl_error + OrderStatusResponse" where
  "OrderStatus env c user oid =
     labelled ''orderStatus'' (info_Post env c
       (case oid of Inl e \<Rightarrow> Inl e
        | Inr t \<Rightarrow> Inr (json_object [(''oid'', t), (''type'', quote ''orderStatus''), (''user'', quote (user_hex user))]))
       (Unmarshal json_failed (custom OrderStatusResponse_UnmarshalJSON) \<lparr>or_Status = [], or_Order = None, or_Raw = []\<rparr>))"

definition NonFundingLedgerUpdatesPage :: "hl_env \<Rightarrow> InfoClient option \<Rightarrow> address \<Rightarrow> int \<Rightarrow> int option \<Rightarrow>
    hl_error + LedgerUpdate list option" where
  "NonFundingLedgerUpdatesPage env c user startTime endTime =
     labelled ''userNonFundingLedgerUpdates'' (info_Post env c
       (Inr (json_object ([(''type'', quote ''userNonFundingLedgerUpdates''), (''user'', quote (user_hex user)),
          (''startTime'', dec_int startTime)] @ (case endTime of None \<Rightarrow> [] | Some t \<Rightarrow> [(''endTime'', dec_int t)]))))
       (Unmarshal json_failed (slice LedgerUpdate_UnmarshalJSON) None))"

definition NonFundingLedgerUpdates :: "hl_env \<Rightarrow> InfoClient option \<Rightarrow> address \<Rightarrow> int \<Rightarrow> hl_error + LedgerUpdate list option" where
  "NonFundingLedgerUpdates env c user startTime = NonFundingLedgerUpdatesPage env c user startTime None"

definition DecodeSpotMetaAndAssetCtxs :: "string list \<Rightarrow> hl_error + SpotMeta \<times> SpotAssetCtx list option" where
  "DecodeSpotMetaAndAssetCtxs raw =
     (if length raw \<noteq> 2
      then Inl (HlMessage (''hyperliquid: spotMetaAndAssetCtxs returned '' @ dec_nat (length raw) @ '' elements, want 2''))
      else case Unmarshal json_failed json_SpotMeta \<lparr>sm_Tokens = None, sm_Universe = None\<rparr> (raw ! 0) of
             Inl e \<Rightarrow> Inl (HlWrap ''hyperliquid: decoding spot meta'' e)
           | Inr spotMeta \<Rightarrow>
               (case Unmarshal json_failed (slice_of \<lparr>cx_DayNtlVlm = [], cx_MarkPx = None, cx_MidPx = None, cx_PrevDayPx = None\<rparr> json_SpotAssetCtx)
                   None (raw ! 1) of
                  Inl e \<Rightarrow> Inl (HlWrap ''hyperliquid: decoding spot asset contexts'' e)
                | Inr contexts \<Rightarrow> Inr (spotMeta, contexts)))"

definition SpotMetaAndAssetCtxs :: "hl_env \<Rightarrow> InfoClient option \<Rightarrow> hl_error + SpotMeta \<times> SpotAssetCtx list option" where
  "SpotMetaAndAssetCtxs env c =
     (case labelled ''spotMetaAndAssetCtxs'' (info_Post env c (Inr (json_object [(''type'', quote ''spotMetaAndAssetCtxs'')]))
         (Unmarshal json_failed (slice Inr) None)) of
        Inl e \<Rightarrow> Inl e
      | Inr raw \<Rightarrow> DecodeSpotMetaAndAssetCtxs (case raw of None \<Rightarrow> [] | Some rs \<Rightarrow> rs))"

section \<open>Queries of the explorer\<close>

type_synonym L1ExplorerClient = "InfoClient option"

definition NewL1ExplorerClient :: "string \<Rightarrow> hl_doer option \<Rightarrow> (InfoClient \<Rightarrow> InfoClient) option list \<Rightarrow> L1ExplorerClient" where
  "NewL1ExplorerClient endpoint0 doer opts =
     Some (NewInfoClient (if endpoint0 = [] then ''https://rpc.hyperliquid.xyz/explorer'' else endpoint0) doer opts)"

text \<open>\<open>errors.As\<close> with a \<open>*RequestError\<close>.\<close>

fun request_kind :: "hl_error \<Rightarrow> ErrorKind option" where
  "request_kind (HlRequest k _) = Some k"
| "request_kind (HlWrap _ e) = request_kind e"
| "request_kind _ = None"

text \<open>A client that is nil or has no transport is \<open>None\<close>.\<close>

definition explorer_post :: "hl_env \<Rightarrow> L1ExplorerClient option \<Rightarrow> string \<Rightarrow> string \<Rightarrow> (string \<Rightarrow> hl_error + 'a) \<Rightarrow> hl_error + 'a" where
  "explorer_post env c requestType payload decode =
     (case c of
        Some (Some cl) \<Rightarrow>
          (case snd (fst (info_Post env (Some cl) (Inr payload) decode)) of
             Inl e \<Rightarrow> Inl (HlWrap (if request_kind e = Some ErrorDecode then ''decoding '' @ requestType @ '' response''
                                  else ''posting '' @ requestType @ '' request'') e)
           | Inr v \<Rightarrow> Inr v)
      | _ \<Rightarrow> Inl (HlMessage (''posting '' @ requestType @ '' request: L1 Explorer client is not configured'')))"

definition validateL1ExplorerResponseType :: "string \<Rightarrow> string \<Rightarrow> string \<Rightarrow> hl_error option" where
  "validateL1ExplorerResponseType got want message =
     (if got = ''error'' then Some (HlExplorer (if message = [] then ''unknown error'' else message))
      else if got \<noteq> want then Some (HlQuoted ''L1 Explorer response type is '' got (''; want '' @ quote want))
      else None)"

record 'a explorer_response =
  er_Type :: string
  er_Message :: string
  er_Content :: "'a option"

definition response_fields :: "string \<Rightarrow> (hl_error, 'a option) decoder \<Rightarrow> (hl_error, 'a explorer_response) fields" where
  "response_fields name d = [(''type'', field er_Type er_Type_update json_string),
     (''message'', field er_Message er_Message_update json_string), (name, field er_Content er_Content_update d)]"

definition ask :: "hl_env \<Rightarrow> L1ExplorerClient option \<Rightarrow> string \<Rightarrow> string \<Rightarrow> string \<Rightarrow> string \<Rightarrow> (hl_error, 'a option) decoder \<Rightarrow>
    hl_error + 'a option" where
  "ask env c requestType payload what name d =
     (case explorer_post env c requestType payload (Unmarshal json_failed (struct (response_fields name d))
         \<lparr>er_Type = [], er_Message = [], er_Content = None\<rparr>) of
        Inl e \<Rightarrow> Inl (HlWrap (''querying L1 Explorer '' @ what) e)
      | Inr response \<Rightarrow>
          (case validateL1ExplorerResponseType (er_Type response) requestType (er_Message response) of
             Some e \<Rightarrow> Inl e
           | None \<Rightarrow> Inr (er_Content response)))"

fun foreign_transaction :: "eth_json \<Rightarrow> address \<Rightarrow> L1Transaction list \<Rightarrow> hl_error option" where
  "foreign_transaction E user [] = None"
| "foreign_transaction E user (tx # txs) =
     (if lt_User tx \<noteq> user
      then Some (HlMessage (''L1 Explorer userDetails transaction '' @ hash_hex (lt_Hash tx) @ '' belongs to '' @
             ejAddressHex E (lt_User tx) @ '', want '' @ ejAddressHex E user))
      else foreign_transaction E user txs)"

definition UserDetails :: "hl_env \<Rightarrow> eth_json \<Rightarrow> L1ExplorerClient option \<Rightarrow> address \<Rightarrow> hl_error + L1Transaction list option" where
  "UserDetails env E c user =
     (case ask env c ''userDetails'' (json_object [(''type'', quote ''userDetails''), (''user'', quote (user_hex user))])
         (''user details for '' @ ejAddressHex E user) ''txs'' (slice (L1Transaction_UnmarshalJSON E)) of
        Inl e \<Rightarrow> Inl e
      | Inr txs \<Rightarrow>
          (case foreign_transaction E user (case txs of None \<Rightarrow> [] | Some ts \<Rightarrow> ts) of
             Some e \<Rightarrow> Inl e
           | None \<Rightarrow> Inr txs))"

definition zero_transaction :: L1Transaction where
  "zero_transaction = \<lparr>lt_Time = 0, lt_User = 0, lt_Action = UnknownL1Action [] [], lt_Block = 0, lt_Hash = 0, lt_Error = None\<rparr>"

definition TxDetails :: "hl_env \<Rightarrow> eth_json \<Rightarrow> L1ExplorerClient option \<Rightarrow> hash \<Rightarrow> hl_error + L1Transaction" where
  "TxDetails env E c h =
     (case ask env c ''txDetails'' (json_object [(''type'', quote ''txDetails''), (''hash'', quote (hash_hex h))])
         (''transaction '' @ hash_hex h) ''tx'' (pointer zero_transaction (custom (L1Transaction_UnmarshalJSON E))) of
        Inl e \<Rightarrow> Inl e
      | Inr None \<Rightarrow> Inl (HlMessage (''L1 Explorer txDetails response for '' @ hash_hex h @ '' has no transaction''))
      | Inr (Some tx) \<Rightarrow>
          if lt_Hash tx \<noteq> h
          then Inl (HlMessage (''L1 Explorer returned transaction '' @ hash_hex (lt_Hash tx) @ '' for requested hash '' @ hash_hex h))
          else Inr tx)"

definition zero_block :: L1BlockDetails where
  "zero_block = \<lparr>bd_BlockTime = 0, bd_Hash = 0, bd_Height = 0, bd_NumTransactions = 0, bd_Transactions = None\<rparr>"

definition BlockDetails :: "hl_env \<Rightarrow> eth_json \<Rightarrow> L1ExplorerClient option \<Rightarrow> u64 \<Rightarrow> hl_error + L1BlockDetails" where
  "BlockDetails env E c height =
     (case ask env c ''blockDetails'' (json_object [(''type'', quote ''blockDetails''), (''height'', dec_nat (unat height))])
         (''block '' @ dec_nat (unat height)) ''blockDetails'' (pointer zero_block (custom (L1BlockDetails_UnmarshalJSON E))) of
        Inl e \<Rightarrow> Inl e
      | Inr None \<Rightarrow> Inl (HlMessage (''L1 Explorer blockDetails response for '' @ dec_nat (unat height) @ '' has no block''))
      | Inr (Some b) \<Rightarrow>
          if bd_Height b \<noteq> height
          then Inl (HlMessage (''L1 Explorer returned block '' @ dec_nat (unat (bd_Height b)) @ '' for requested height '' @
                 dec_nat (unat height)))
          else Inr b)"

section \<open>Answers of the explorer\<close>

lemma reads_content:
  "reads_field (response_fields ''txs'' d) ''txs'' er_Content d"
  "reads_field (response_fields ''tx'' d) ''tx'' er_Content d"
  "reads_field (response_fields ''blockDetails'' d) ''blockDetails'' er_Content d"
  by (simp_all add: reads_field_def response_fields_def byte_def in_range_def)

text \<open>What an answer contains was decoded from a text in it.\<close>

lemma ask_decodes:
  assumes "ask env c requestType payload what name d = Inr (Some x)" and "reads_field (response_fields name d) name er_Content d"
    and "\<And>old raw v b. d old raw = Inr (v, b) \<Longrightarrow> v = old \<or> v = None \<or> (\<exists>w. v = Some w \<and> P w)"
  shows "P x"
proof -
  obtain answer r where r: "Unmarshal json_failed (struct (response_fields name d)) \<lparr>er_Type = [], er_Message = [], er_Content = None\<rparr> answer = Inr r"
      "er_Content r = Some x"
    using assms(1) by (auto simp: ask_def explorer_post_def info_Post_def Let_def split: sum.splits option.splits if_splits prod.splits)
  from r(1) show ?thesis
  proof (cases rule: Unmarshal_struct)
    case (object v raw ms)
    have "set_fields [(name, d)] ms None = Inr (Some x, False)" using set_fields_get [OF assms(2) object(3)] r(2) by simp
    then have "Some x = None \<or> (\<exists>w. Some x = Some w \<and> P w)"
      by (rule set_fields_keeps) (use assms(3) in blast)+
    then show ?thesis by simp
  qed (use r(2) in simp)
qed

lemma pointer_custom:
  "pointer z (custom u) old raw = Inr (v, b) \<Longrightarrow> v = old \<or> v = None \<or> (\<exists>w. v = Some w \<and> (\<exists>raw. u raw = Inr w))"
  by (auto simp: pointer_def custom_def split: if_splits sum.splits)

lemma slice_custom:
  "slice u old raw = Inr (v, b) \<Longrightarrow> v = old \<or> v = None \<or> (\<exists>w. v = Some w \<and> (\<forall>x \<in> set w. \<exists>raw. u raw = Inr x))"
  by (auto simp: slice_def each_Inr list_all2_conv_all_nth in_set_conv_nth split: option.splits json.splits sum.splits) blast

lemma foreign_transaction_None: "foreign_transaction E user txs = None \<longleftrightarrow> (\<forall>tx \<in> set txs. lt_User tx = user)"
  by (induction txs) auto

text \<open>
  The explorer's answers are about what was asked. Transactions returned for a user are all of that
  user, a transaction returned for a hash has it, and a block returned for a height has it and is
  complete and consistent; each was decoded, with all its required parts, from a text of the answer.
\<close>

theorem explorer_answers:
  "(\<forall>txs tx. UserDetails env E c user = Inr (Some txs) \<and> tx \<in> set txs \<longrightarrow>
      lt_User tx = user \<and> (\<exists>raw. L1Transaction_UnmarshalJSON E raw = Inr tx)) \<and>
   (\<forall>tx. TxDetails env E c h = Inr tx \<longrightarrow> lt_Hash tx = h \<and> (\<exists>raw. L1Transaction_UnmarshalJSON E raw = Inr tx)) \<and>
   (\<forall>b. BlockDetails env E c height = Inr b \<longrightarrow>
      bd_Height b = height \<and> block_Validate b = None \<and> (\<exists>raw. L1BlockDetails_UnmarshalJSON E raw = Inr b))"
proof (intro conjI allI impI)
  fix txs tx assume a: "UserDetails env E c user = Inr (Some txs) \<and> tx \<in> set txs"
  then obtain t p w where ask: "ask env c t p w ''txs'' (slice (L1Transaction_UnmarshalJSON E)) = Inr (Some txs)"
      and f: "foreign_transaction E user txs = None"
    by (auto simp: UserDetails_def split: sum.splits option.splits)
  show "lt_User tx = user" using f a foreign_transaction_None by blast
  show "\<exists>raw. L1Transaction_UnmarshalJSON E raw = Inr tx" 
    using ask_decodes [where P = "\<lambda>ts. \<forall>x \<in> set ts. \<exists>raw. L1Transaction_UnmarshalJSON E raw = Inr x", OF ask reads_content(1) slice_custom] a
    by auto
next
  fix tx assume "TxDetails env E c h = Inr tx"
  then obtain t p w where ask: "ask env c t p w ''tx'' (pointer zero_transaction (custom (L1Transaction_UnmarshalJSON E))) = Inr (Some tx)"
      and h: "lt_Hash tx = h"
    by (auto simp: TxDetails_def split: sum.splits option.splits if_splits)
  show "lt_Hash tx = h" by (rule h)
  show "\<exists>raw. L1Transaction_UnmarshalJSON E raw = Inr tx" 
    by (rule ask_decodes [where P = "\<lambda>t. \<exists>raw. L1Transaction_UnmarshalJSON E raw = Inr t", OF ask reads_content(2)]) (erule pointer_custom)
next
  fix b assume "BlockDetails env E c height = Inr b"
  then obtain t p w where ask: "ask env c t p w ''blockDetails'' (pointer zero_block (custom (L1BlockDetails_UnmarshalJSON E))) = Inr (Some b)"
      and h: "bd_Height b = height"
    by (auto simp: BlockDetails_def split: sum.splits option.splits if_splits)
  show "bd_Height b = height" by (rule h)
  show raw: "\<exists>raw. L1BlockDetails_UnmarshalJSON E raw = Inr b" 
    by (rule ask_decodes [where P = "\<lambda>b. \<exists>raw. L1BlockDetails_UnmarshalJSON E raw = Inr b", OF ask reads_content(3)]) (erule pointer_custom)
  then show "block_Validate b = None" using L1Block_validated by blast
qed

end
