(* ===== verification/Hyperliquid_Example.thy ===== *)
theory Hyperliquid_Example
  imports Hyperliquid_Reads "HOL-Library.Code_Target_Numeral"
begin

text \<open>Concrete texts of the venue, on which the theorems about its evidence are applied. A backquote stands for a quote.\<close>

definition quoted :: "string \<Rightarrow> string" where
  "quoted s = map (\<lambda>c. if c = CHR 0x60 then CHR 0x22 else c) s"

definition example_eth :: eth_json where
  "example_eth = \<lparr>ejAddress = \<lambda>raw. Inr (of_nat (length raw)), ejHash = \<lambda>raw. Inr (of_nat (length raw)), ejAddressHex = \<lambda>_. []\<rparr>"

definition example_send :: string where
  "example_send = quoted (''{`type`:`send`, `user`:`u`, `destination`:`d`, `sourceDex`:`spot`, `destinationDex`:``, `token`:`USDC`, '' @
     ''`amount`:1.50, `usdcValue`:`1.5`, `fee`:0, `nativeTokenFee`:`0.0`, `nonce`:3, `feeToken`:``}'')"

definition example_block :: string where
  "example_block = quoted (''{`blockTime`:5, `hash`:`h`, `height`:9, `numTxs`:1, `txs`:[{`time`:5, `user`:`u`, '' @
     ''`action`:{`type`:`noop`}, `block`:9, `hash`:`t`, `error`:null}]}'')"

lemma example_send_decodes: "\<exists>s. DecodeLedgerDelta example_eth example_send = Inr (SendDelta s) \<and> sd_Amount s = ''1.50''"
proof -
  have "(case DecodeLedgerDelta example_eth example_send of Inr (SendDelta s) \<Rightarrow> sd_Amount s | _ \<Rightarrow> []) = ''1.50''" by code_simp
  then show ?thesis by (auto split: sum.splits NonFundingLedgerDelta.splits)
qed

lemma example_block_decodes: "\<exists>b. L1BlockDetails_UnmarshalJSON example_eth example_block = Inr b \<and> bd_Height b = 9"
proof -
  have "(case L1BlockDetails_UnmarshalJSON example_eth example_block of Inr b \<Rightarrow> bd_Height b | _ \<Rightarrow> 0) = 9" by code_simp
  then show ?thesis by (auto split: sum.splits)
qed

theorem DecodeLedgerDelta_faithful_witness:
  "\<exists>s a. DecodeLedgerDelta example_eth example_send = Inr (SendDelta s) \<and> sd_Amount s = ''1.50'' \<and> ParseAmount (sd_Amount s) = Inr a \<and>
     Unmarshal json_failed discriminator [] example_send = Inr (sd_Type s)"
proof -
  obtain s where s: "DecodeLedgerDelta example_eth example_send = Inr (SendDelta s)" "sd_Amount s = ''1.50''"
    using example_send_decodes by blast
  then show ?thesis using DecodeLedgerDelta_faithful [OF s(1)] by auto
qed

theorem L1Block_complete_witness:
  "\<exists>b txs. L1BlockDetails_UnmarshalJSON example_eth example_block = Inr b \<and> bd_Height b = 9 \<and> bd_Transactions b = Some txs \<and>
     of_nat (length txs) = bd_NumTransactions b \<and> distinct (map lt_Hash txs)"
proof -
  obtain b where b: "L1BlockDetails_UnmarshalJSON example_eth example_block = Inr b" "bd_Height b = 9"
    using example_block_decodes by blast
  then show ?thesis using L1Block_complete [OF b(1)] by (metis list_all2_lengthD)
qed

definition example_answer :: "string \<Rightarrow> hl_env" where
  "example_answer answer = \<lparr>hvCtxBefore = None, hvCtxAfter = None, hvInvalid = \<lambda>_. None,
     hvDo = \<lambda>_. Inr \<lparr>respStatus = 200, respHeader = [], respBody = \<lparr>rbBytes = answer, rbErr = None, rbCloseErr = None\<rparr>\<rparr>\<rparr>"

definition empty_block :: string where
  "empty_block = quoted ''{`type`:`blockDetails`,`blockDetails`:{`blockTime`:5,`hash`:`h`,`height`:9,`numTxs`:0,`txs`:[]}}''"

definition example_query :: "hl_error + L1BlockDetails" where
  "example_query = BlockDetails (example_answer empty_block) example_eth (Some (NewL1ExplorerClient [] None [])) 9"

lemma example_query_answered: "\<exists>b. example_query = Inr b"
proof -
  have "(case example_query of Inr b \<Rightarrow> True | _ \<Rightarrow> False) = True" by code_simp
  then show ?thesis by (auto split: sum.splits)
qed

theorem explorer_answers_witness: "\<exists>b. example_query = Inr b \<and> bd_Height b = 9 \<and> block_Validate b = None"
proof -
  obtain b where "example_query = Inr b" using example_query_answered by blast
  then show ?thesis
    using explorer_answers [of "example_answer empty_block" example_eth "Some (NewL1ExplorerClient [] None [])" 0 0 9]
    unfolding example_query_def by blast
qed

lemma example_write:
  "exchange_Post (example_answer ''true'') (Some (NewExchangeClient [] None [])) (Inr ''{}'') (\<lambda>_. Inr ()) (Some None) =
     ((answered \<lparr>respStatus = 200, respHeader = [], respBody = \<lparr>rbBytes = ''true'', rbErr = None, rbCloseErr = None\<rparr>\<rparr>, Inr ()),
      [CalledBack, Sent (json_request ''https://api.hyperliquid.xyz/exchange'' ''{}'')])"
  by (simp add: exchange_Post_def example_answer_def NewExchangeClient_def read_upto_def read_limited_def wrap_i64_def)

theorem signed_write_dispatch_witness:
  "\<exists>resp events. exchange_Post (example_answer ''true'') (Some (NewExchangeClient [] None [])) (Inr ''{}'') (\<lambda>_. Inr ()) (Some None) =
     ((resp, Inr ()), events) \<and> rsDispatched resp \<and> hd events = CalledBack"
proof -
  note w = signed_write_dispatch [OF example_write]
  show ?thesis unfolding example_write using w by auto
qed

end
