(* ===== verification/Go_Crypto.thy ===== *)
theory Go_Crypto
  imports Go_Hex
begin

unbundle bit_operations_syntax

text \<open>
  What the Polymarket client uses of Go's packages \<open>encoding/base64\<close>, \<open>crypto/sha256\<close> and
  \<open>crypto/hmac\<close>: the URL-safe alphabet with and without padding, the hash of FIPS 180-4 and the
  message authentication code of RFC 2104.
\<close>

section \<open>URL-safe base64\<close>

definition url_alphabet :: string where
  "url_alphabet = ''ABCDEFGHIJKLMNOPQRSTUVWXYZabcdefghijklmnopqrstuvwxyz0123456789-_''"

definition sextet_char :: "nat \<Rightarrow> char" where
  "sextet_char i = url_alphabet ! i"

fun find_index :: "'a \<Rightarrow> 'a list \<Rightarrow> nat option" where
  "find_index x [] = None"
| "find_index x (y # ys) = (if x = y then Some 0 else map_option Suc (find_index x ys))"

definition char_sextet :: "char \<Rightarrow> nat option" where
  "char_sextet c = find_index c url_alphabet"

text \<open>\<open>EncodeToString\<close>; \<open>pad\<close> distinguishes \<open>URLEncoding\<close> from \<open>RawURLEncoding\<close>.\<close>

fun base64_encode :: "bool \<Rightarrow> bytes \<Rightarrow> string" where
  "base64_encode pad [] = []"
| "base64_encode pad [a] =
     map sextet_char [unat a div 4, unat a mod 4 * 16] @ (if pad then ''=='' else [])"
| "base64_encode pad [a, b] =
     map sextet_char [unat a div 4, unat a mod 4 * 16 + unat b div 16, unat b mod 16 * 4] @ (if pad then ''='' else [])"
| "base64_encode pad (a # b # c # bs) =
     map sextet_char [unat a div 4, unat a mod 4 * 16 + unat b div 16, unat b mod 16 * 4 + unat c div 64, unat c mod 64] @
     base64_encode pad bs"

text \<open>
  \<open>DecodeString\<close> ignores line ends. The last quantum has padding exactly for the padded encoding; the
  bits of its last digit that belong to no byte are ignored.
\<close>

definition byte3 :: "nat \<Rightarrow> nat \<Rightarrow> nat \<Rightarrow> nat \<Rightarrow> bytes" where
  "byte3 p q r s = [of_nat (p * 4 + q div 16), of_nat (q mod 16 * 16 + r div 4), of_nat (r mod 4 * 64 + s)]"

definition sextets :: "string \<Rightarrow> nat list option" where
  "sextets s = (if None \<in> set (map char_sextet s) then None else Some (map (the \<circ> char_sextet) s))"

definition decode_last :: "bool \<Rightarrow> string \<Rightarrow> bytes option" where
  "decode_last pad s =
     (if s = [] then Some []
      else let digits = (if pad then takeWhile (\<lambda>c. c \<noteq> CHR ''='') s else s)
           in if pad \<and> (length s \<noteq> 4 \<or> drop (length digits) s \<noteq> replicate (4 - length digits) (CHR ''=''))
              then None
              else case sextets digits of
                     Some [p, q] \<Rightarrow> Some (take 1 (byte3 p q 0 0))
                   | Some [p, q, r] \<Rightarrow> Some (take 2 (byte3 p q r 0))
                   | _ \<Rightarrow> None)"

fun decode_quanta :: "bool \<Rightarrow> string \<Rightarrow> bytes option" where
  "decode_quanta pad (a # b # c # d # s) =
     (case sextets [a, b, c, d] of
        Some [p, q, r, t] \<Rightarrow> map_option (\<lambda>bs. byte3 p q r t @ bs) (decode_quanta pad s)
      | _ \<Rightarrow> if s = [] then decode_last pad [a, b, c, d] else None)"
| "decode_quanta pad s = decode_last pad s"

definition base64_decode :: "bool \<Rightarrow> string \<Rightarrow> bytes option" where
  "base64_decode pad s = decode_quanta pad (filter (\<lambda>c. byte c \<noteq> 10 \<and> byte c \<noteq> 13) s)"

section \<open>SHA-256\<close>

type_synonym sha_state = "32 word list"

text \<open>
  The constants are the first 32 bits after the point of the square roots of the first 8 and of the cube
  roots of the first 64 primes; \<open>root_bits\<close> tries the bits of a root from the highest.
\<close>

fun root_bits :: "nat \<Rightarrow> nat \<Rightarrow> nat \<Rightarrow> nat \<Rightarrow> nat" where
  "root_bits k x 0 r = r"
| "root_bits k x (Suc i) r = root_bits k x i (if (r + 2 ^ i) ^ k \<le> x then r + 2 ^ i else r)"

definition root_fraction :: "nat \<Rightarrow> nat \<Rightarrow> 32 word" where
  "root_fraction k p = of_nat (root_bits k (p * 2 ^ (32 * k)) 35 0)"

definition small_primes :: "nat list" where
  "small_primes = filter (\<lambda>n. list_all (\<lambda>d. n mod d \<noteq> 0) [2..<n]) [2..<312]"

definition sha_init :: sha_state where
  "sha_init = map (root_fraction 2) (take 8 small_primes)"

definition sha_constants :: "32 word list" where
  "sha_constants = map (root_fraction 3) small_primes"

definition rotr :: "nat \<Rightarrow> 32 word \<Rightarrow> 32 word" where
  "rotr n w = drop_bit n w OR push_bit (32 - n) w"

definition schedule_step :: "32 word list \<Rightarrow> nat \<Rightarrow> 32 word list" where
  "schedule_step ws i =
     (let v1 = ws ! (i - 2); v2 = ws ! (i - 15);
          t1 = rotr 17 v1 XOR rotr 19 v1 XOR drop_bit 10 v1;
          t2 = rotr 7 v2 XOR rotr 18 v2 XOR drop_bit 3 v2
      in ws @ [t1 + ws ! (i - 7) + t2 + ws ! (i - 16)])"

fun sha_round :: "sha_state \<Rightarrow> 32 word \<times> 32 word \<Rightarrow> sha_state" where
  "sha_round [a, b, c, d, e, f, g, h] (k, w) =
     (let t1 = h + (rotr 6 e XOR rotr 11 e XOR rotr 25 e) + ((e AND f) XOR (NOT e AND g)) + k + w;
          t2 = (rotr 2 a XOR rotr 13 a XOR rotr 22 a) + ((a AND b) XOR (a AND c) XOR (b AND c))
      in [t1 + t2, a, b, c, d + t1, e, f, g])"
| "sha_round s kw = s"

fun word32s :: "bytes \<Rightarrow> 32 word list" where
  "word32s (a # b # c # d # bs) = of_nat (bytes_value [a, b, c, d]) # word32s bs"
| "word32s bs = []"

definition sha_block :: "bytes \<Rightarrow> sha_state \<Rightarrow> sha_state" where
  "sha_block block s =
     map2 (+) s (foldl sha_round s (zip sha_constants (foldl schedule_step (word32s block) [16..<64])))"

function sha_blocks :: "bytes \<Rightarrow> sha_state \<Rightarrow> sha_state" where
  "sha_blocks bs s = (if bs = [] then s else sha_blocks (drop 64 bs) (sha_block (take 64 bs) s))"
  by pat_completeness auto
termination by (relation "measure (length \<circ> fst)") auto

declare sha_blocks.simps [simp del]

text \<open>A one bit, zeros up to 56 bytes modulo 64, and the length in bits.\<close>

definition sha_pad :: "bytes \<Rightarrow> bytes" where
  "sha_pad bs = bs @ [0x80] @ replicate ((119 - length bs mod 64) mod 64) 0 @ u64_bytes (of_nat (8 * length bs))"

definition Sum256 :: "bytes \<Rightarrow> bytes" where
  "Sum256 bs = concat (map (\<lambda>w. map (\<lambda>i. ucast (drop_bit (8 * (3 - i)) w)) [0..<4]) (sha_blocks (sha_pad bs) sha_init))"

definition hmac_sha256 :: "bytes \<Rightarrow> bytes \<Rightarrow> bytes" where
  "hmac_sha256 key message =
     (let k = (if length key > 64 then Sum256 key else key);
          k = k @ replicate (64 - length k) 0
      in Sum256 (map (\<lambda>b. b XOR 0x5c) k @ Sum256 (map (\<lambda>b. b XOR 0x36) k @ message)))"

section \<open>Base64 round trip\<close>

lemma find_index_nth: "distinct xs \<Longrightarrow> i < length xs \<Longrightarrow> find_index (xs ! i) xs = Some i"
  by (induction xs arbitrary: i) (auto simp: nth_Cons split: nat.splits)

lemma url_alphabet_distinct: "distinct url_alphabet" and url_alphabet_length: "length url_alphabet = 64"
  and url_alphabet_plain: "c \<in> set url_alphabet \<Longrightarrow> byte c \<noteq> 10 \<and> byte c \<noteq> 13 \<and> c \<noteq> CHR ''=''"
  by (simp add: url_alphabet_def, simp add: url_alphabet_def, auto simp: url_alphabet_def byte_def)

lemma char_sextet_char [simp]: "i < 64 \<Longrightarrow> char_sextet (sextet_char i) = Some i"
  by (simp add: char_sextet_def sextet_char_def find_index_nth url_alphabet_distinct url_alphabet_length)

lemma sextet_char_plain [simp]:
  "i < 64 \<Longrightarrow> byte (sextet_char i) \<noteq> 10" "i < 64 \<Longrightarrow> byte (sextet_char i) \<noteq> 13" "i < 64 \<Longrightarrow> sextet_char i \<noteq> CHR ''=''"
  using url_alphabet_plain [of "sextet_char i"] nth_mem [of i url_alphabet] by (simp_all add: sextet_char_def url_alphabet_length)

lemma sextets_chars: "(\<And>n. n \<in> set ns \<Longrightarrow> n < 64) \<Longrightarrow> sextets (map sextet_char ns) = Some ns"
  by (auto simp: sextets_def comp_def map_idI)

lemma byte_bounds: "unat (a :: 8 word) < 256"
  using unsigned_less [of a] by simp

lemma sextet_bounds:
  fixes a b c :: "8 word"
  shows "unat a div 4 < 64" "unat a mod 4 * 16 < 64" "unat a mod 4 * 16 + unat b div 16 < 64" "unat b mod 16 * 4 < 64"
    "unat b mod 16 * 4 + unat c div 64 < 64" "unat c mod 64 < 64"
  using byte_bounds [of a] byte_bounds [of b] byte_bounds [of c] by linarith+

lemma byte3_group:
  fixes a b c :: "8 word"
  shows "byte3 (unat a div 4) (unat a mod 4 * 16 + unat b div 16) (unat b mod 16 * 4 + unat c div 64) (unat c mod 64) = [a, b, c]"
    "take 2 (byte3 (unat a div 4) (unat a mod 4 * 16 + unat b div 16) (unat b mod 16 * 4) 0) = [a, b]"
    "take 1 (byte3 (unat a div 4) (unat a mod 4 * 16) 0 0) = [a]"
proof -
  have d: "unat b div 16 < 16" "unat c div 64 < 4" using byte_bounds [of b] byte_bounds [of c] by linarith+
  have 1: "unat a div 4 * 4 + (unat a mod 4 * 16 + unat b div 16) div 16 = unat a"
    "unat a div 4 * 4 + unat a mod 4 * 16 div 16 = unat a"
    using d(1) by simp_all
  have 2: "(unat a mod 4 * 16 + unat b div 16) mod 16 * 16 + (unat b mod 16 * 4 + unat c div 64) div 4 = unat b"
    "(unat a mod 4 * 16 + unat b div 16) mod 16 * 16 + unat b mod 16 * 4 div 4 = unat b"
    using d by simp_all
  have 3: "(unat b mod 16 * 4 + unat c div 64) mod 4 * 64 + unat c mod 64 = unat c" using d(2) by simp
  show "byte3 (unat a div 4) (unat a mod 4 * 16 + unat b div 16) (unat b mod 16 * 4 + unat c div 64) (unat c mod 64) = [a, b, c]"
    "take 2 (byte3 (unat a div 4) (unat a mod 4 * 16 + unat b div 16) (unat b mod 16 * 4) 0) = [a, b]"
    "take 1 (byte3 (unat a div 4) (unat a mod 4 * 16) 0 0) = [a]"
    unfolding byte3_def 1 2 3 by simp_all
qed

lemma sextets_group:
  "p < 64 \<Longrightarrow> q < 64 \<Longrightarrow> sextets [sextet_char p, sextet_char q] = Some [p, q]"
  "p < 64 \<Longrightarrow> q < 64 \<Longrightarrow> r < 64 \<Longrightarrow> sextets [sextet_char p, sextet_char q, sextet_char r] = Some [p, q, r]"
  "p < 64 \<Longrightarrow> q < 64 \<Longrightarrow> r < 64 \<Longrightarrow> t < 64 \<Longrightarrow>
    sextets [sextet_char p, sextet_char q, sextet_char r, sextet_char t] = Some [p, q, r, t]"
  using sextets_chars [of "[p, q]"] sextets_chars [of "[p, q, r]"] sextets_chars [of "[p, q, r, t]"] by auto

lemma equals_byte: "byte (CHR ''='') = 61"
  by (simp add: byte_def)

lemma base64_encode_plain: "c \<in> set (base64_encode pad bs) \<Longrightarrow> byte c \<noteq> 10 \<and> byte c \<noteq> 13"
  by (induction pad bs rule: base64_encode.induct) (auto simp: sextet_bounds equals_byte split: if_splits)

lemma decode_quanta_encode: "decode_quanta pad (base64_encode pad bs) = Some bs"
proof (induction pad bs rule: base64_encode.induct)
  case (2 pad a)
  have "sextets [sextet_char (unat a div 4), sextet_char (unat a mod 4 * 16), CHR ''='', CHR ''=''] = None"
    by (simp add: sextets_def char_sextet_def url_alphabet_def)
  moreover have "sextets [sextet_char (unat a div 4), sextet_char (unat a mod 4 * 16)] = Some [unat a div 4, unat a mod 4 * 16]"
    by (intro sextets_group sextet_bounds)
  moreover have "sextet_char (unat a div 4) \<noteq> CHR ''=''" "sextet_char (unat a mod 4 * 16) \<noteq> CHR ''=''"
    by (intro sextet_char_plain sextet_bounds)+
  ultimately show ?case using byte3_group(3) [of a] by (auto simp: decode_last_def numeral_2_eq_2)
next
  case (3 pad a b)
  let ?p = "unat a div 4" and ?q = "unat a mod 4 * 16 + unat b div 16" and ?r = "unat b mod 16 * 4"
  have "sextets [sextet_char ?p, sextet_char ?q, sextet_char ?r, CHR ''=''] = None"
    by (simp add: sextets_def char_sextet_def url_alphabet_def)
  moreover have "sextets [sextet_char ?p, sextet_char ?q, sextet_char ?r] = Some [?p, ?q, ?r]"
    by (intro sextets_group sextet_bounds)
  moreover have "sextet_char ?p \<noteq> CHR ''=''" "sextet_char ?q \<noteq> CHR ''=''" "sextet_char ?r \<noteq> CHR ''=''"
    by (intro sextet_char_plain sextet_bounds)+
  ultimately show ?case using byte3_group(2) [of a b] by (auto simp: decode_last_def)
next
  case (4 pad a b c bs)
  then show ?case by (simp add: sextets_group byte3_group sextet_bounds)
qed (simp_all add: decode_last_def)

lemma base64_decode_encode [simp]: "base64_decode pad (base64_encode pad bs) = Some bs"
proof -
  have "filter (\<lambda>c. byte c \<noteq> 10 \<and> byte c \<noteq> 13) (base64_encode pad bs) = base64_encode pad bs"
    using base64_encode_plain by (auto simp: filter_id_conv)
  then show ?thesis by (simp add: base64_decode_def decode_quanta_encode)
qed

text \<open>A text without padding is the same in both encodings.\<close>

lemmas sextet_not_equals = sextet_bounds [THEN sextet_char_plain(3)]

lemma base64_raw_plain: "CHR ''='' \<notin> set (base64_encode False bs)"
proof -
  have "\<not> pad \<Longrightarrow> CHR ''='' \<notin> set (base64_encode pad bs)" for pad
    by (induction pad bs rule: base64_encode.induct) (auto simp: sextet_not_equals sextet_not_equals [symmetric])
  then show ?thesis by blast
qed

lemma base64_unpadded: "CHR ''='' \<notin> set (base64_encode True bs) \<Longrightarrow> base64_encode True bs = base64_encode False bs"
  by (induction True bs rule: base64_encode.induct) auto

lemma base64_canonical_inj: "base64_encode True bs = base64_encode False cs \<Longrightarrow> bs = cs"
  by (metis base64_decode_encode base64_raw_plain base64_unpadded option.inject)

end
