(* ===== verification/Polymarket_Types.thy ===== *)
theory Polymarket_Types
  imports Polymarket_Order Broadcast_Errors Go_Json Go_Time Go_Crypto "HOL-Library.AList"
begin

text \<open>
  \<open>providers/polymarket/types.go\<close>: what the client sends to the order book of Polymarket and accepts from
  it, the decoding of the responses and their validation. A \<open>Validate\<close> method returns its first error.
\<close>

section \<open>Standard library\<close>

text \<open>\<open>strings.Trim\<close> with a one-byte cutset, and \<open>strings.EqualFold\<close> where one side is ASCII.\<close>

definition Trim :: "string \<Rightarrow> char \<Rightarrow> string" where
  "Trim s c = TrimRight (dropWhile (\<lambda>d. d = c) s) c"

definition EqualFold :: "string \<Rightarrow> string \<Rightarrow> bool" where
  "EqualFold a b \<longleftrightarrow> fold_name a = fold_name b"

text \<open>
  \<open>Time.UnmarshalJSON\<close>: the layout of RFC 3339 with two-digit fields, fractional seconds of any length, of
  which nine digits count, and an offset below 24 hours.
\<close>

definition two_digits :: "string \<Rightarrow> int \<Rightarrow> int \<Rightarrow> int option" where
  "two_digits s lo hi =
     (let v = int (digits_val s) in if list_all is_digit s \<and> lo \<le> v \<and> v \<le> hi then Some v else None)"

definition parse_offset :: "string \<Rightarrow> int option" where
  "parse_offset s =
     (if s = ''Z'' then Some 0
      else if length s = 6 \<and> (s ! 0 = CHR ''-'' \<or> s ! 0 = CHR ''+'') \<and> s ! 3 = CHR '':'' then
        (case (two_digits (take 2 (drop 1 s)) 0 23, two_digits (drop 4 s) 0 59) of
           (Some hr, Some mm) \<Rightarrow> Some ((if s ! 0 = CHR ''-'' then -1 else 1) * (hr * 60 + mm) * 60)
         | _ \<Rightarrow> None)
      else None)"

definition parse_RFC3339 :: "string \<Rightarrow> time option" where
  "parse_RFC3339 s =
     (if length s < 19 then None
      else case (two_digits (take 4 s) 0 9999, two_digits (take 2 (drop 5 s)) 1 12, two_digits (take 2 (drop 11 s)) 0 23,
          two_digits (take 2 (drop 14 s)) 0 59, two_digits (take 2 (drop 17 s)) 0 59) of
        (Some year, Some month, Some hour, Some minute, Some sec) \<Rightarrow>
          (case two_digits (take 2 (drop 8 s)) 1 (daysIn month year) of
             None \<Rightarrow> None
           | Some day \<Rightarrow>
               if \<not> (s ! 4 = CHR ''-'' \<and> s ! 7 = CHR ''-'' \<and> s ! 10 = CHR ''T'' \<and> s ! 13 = CHR '':'' \<and> s ! 16 = CHR '':'')
               then None
               else
                 let rest = drop 19 s;
                     fraction = (if rest \<noteq> [] \<and> hd rest = CHR ''.'' then takeWhile is_digit (tl rest) else []);
                     nanos = int (digits_val (take 9 (fraction @ replicate 9 (CHR ''0''))));
                     zone = (if fraction = [] then rest else drop (length fraction + 1) rest)
                 in map_option (\<lambda>offset. Date year month day + (hour * 3600 + minute * 60 + sec - offset) * second + nanos)
                      (parse_offset zone))
      | _ \<Rightarrow> None)"

text \<open>\<open>json.Number\<close>: a number, or a string that is one.\<close>

definition valid_number :: "string \<Rightarrow> bool" where
  "valid_number s \<longleftrightarrow> (case scan_number s of Some (_, r) \<Rightarrow> r = [] | None \<Rightarrow> False)"

definition json_number :: "('e, string) decoder" where
  "json_number = scalar (\<lambda>v. case v of
     JNumber s \<Rightarrow> Some s
   | JString s \<Rightarrow> if valid_number s then Some s else None
   | _ \<Rightarrow> None)"

text \<open>\<open>map[string]string\<close>.\<close>

fun set_entries :: "(string \<times> string) list \<Rightarrow> (string \<times> string) list \<Rightarrow> (string \<times> string) list \<times> bool" where
  "set_entries [] m = (m, False)"
| "set_entries ((k, raw) # ms) m =
     (let (v, mismatch) = (case json_view raw of Some JNull \<Rightarrow> ([], False) | Some (JString s) \<Rightarrow> (s, False) | _ \<Rightarrow> ([], True));
          (m', later) = set_entries ms (AList.update k v m)
      in (m', mismatch \<or> later))"

definition string_map :: "('e, (string \<times> string) list) decoder" where
  "string_map old raw =
     (case json_view raw of
        Some JNull \<Rightarrow> Inr ([], False)
      | Some (JObject ms) \<Rightarrow> Inr (set_entries ms old)
      | _ \<Rightarrow> Inr (old, True))"

text \<open>\<open>json.Marshal\<close> of a string, with the escapes for HTML.\<close>

definition escape_byte :: "char \<Rightarrow> string" where
  "escape_byte c =
     (if c = CHR 0x22 \<or> c = CHR 0x5C then [CHR 0x5C, c]
      else if byte c = 8 then [CHR 0x5C, CHR ''b''] else if byte c = 12 then [CHR 0x5C, CHR ''f'']
      else if byte c = 10 then [CHR 0x5C, CHR ''n''] else if byte c = 13 then [CHR 0x5C, CHR ''r'']
      else if byte c = 9 then [CHR 0x5C, CHR ''t'']
      else if byte c < 32 \<or> c \<in> set ''<>&''
      then CHR 0x5C # ''u00'' @ [digit_char (byte c div 16), digit_char (byte c mod 16)]
      else [c])"

function quote_chars :: "string \<Rightarrow> string" where
  "quote_chars s =
     (case s of
        [] \<Rightarrow> []
      | c # t \<Rightarrow>
          if byte c < 128 then escape_byte c @ quote_chars t
          else if rune_width s = 0 then CHR 0x5C # ''ufffd'' @ quote_chars t
          else if map byte (take 3 s) = [0xE2, 0x80, 0xA8] then CHR 0x5C # ''u2028'' @ quote_chars (drop 3 s)
          else if map byte (take 3 s) = [0xE2, 0x80, 0xA9] then CHR 0x5C # ''u2029'' @ quote_chars (drop 3 s)
          else take (rune_width s) s @ quote_chars (drop (rune_width s) s))"
  by pat_completeness auto
termination by (relation "measure length") auto

declare quote_chars.simps [simp del]

definition json_quote :: "string \<Rightarrow> string" where
  "json_quote s = [CHR 0x22] @ quote_chars s @ [CHR 0x22]"

fun join_fields :: "string list \<Rightarrow> string" where
  "join_fields [] = []"
| "join_fields [x] = x"
| "join_fields (x # xs) = x @ '','' @ join_fields xs"

text \<open>An object with its members in the order of the struct's fields; the values are texts already.\<close>

definition json_object :: "(string \<times> string) list \<Rightarrow> string" where
  "json_object ms = ''{'' @ join_fields (map (\<lambda>(k, v). json_quote k @ '':'' @ v) ms) @ ''}''"

section \<open>Errors\<close>

record HTTPError =
  pmStatusCode :: int
  pmBody :: string
  pmRetryAfter :: duration

datatype pm_error =
    PmText string
  | PmWrap string pm_error
  | PmHTTP HTTPError
  | PmTradingDisabled
  | PmCredentialsMissing pm_error
  | PmOrderNotFound
  | PmOrder order_error
  | PmDecimal decimal_error
  | PmCause string

text \<open>\<open>errors.As(err, &httpErr)\<close>, and \<open>errors.Is(err, ErrRateLimited)\<close>.\<close>

fun as_HTTPError :: "pm_error \<Rightarrow> HTTPError option" where
  "as_HTTPError (PmHTTP h) = Some h"
| "as_HTTPError (PmWrap _ e) = as_HTTPError e"
| "as_HTTPError _ = None"

definition HTTPError_Is :: "HTTPError \<Rightarrow> bool" where
  "HTTPError_Is e \<longleftrightarrow> pmStatusCode e = 429"

definition is_rate_limited :: "pm_error \<Rightarrow> bool" where
  "is_rate_limited err = (case as_HTTPError err of Some h \<Rightarrow> HTTPError_Is h | None \<Rightarrow> False)"

section \<open>Identifiers\<close>

definition isHex :: "string \<Rightarrow> bool" where
  "isHex s \<longleftrightarrow> list_all is_hex s \<and> s \<noteq> []"

definition isAddress :: "string \<Rightarrow> bool" where
  "isAddress s =
     (if length s \<noteq> 42 \<or> \<not> prefix ''0x'' s then False
      else isHex (drop 2 s) \<and> Trim (drop 2 s) (CHR ''0'') \<noteq> [])"

definition isHash :: "string \<Rightarrow> bool" where
  "isHash s \<longleftrightarrow> length s = 66 \<and> prefix ''0x'' s \<and> isHex (drop 2 s) \<and> Trim (drop 2 s) (CHR ''0'') \<noteq> []"

definition isHexBytes :: "string \<Rightarrow> nat \<Rightarrow> nat \<Rightarrow> bool" where
  "isHexBytes s minimum maximum \<longleftrightarrow> length s \<ge> 2 + minimum * 2 \<and> length s \<le> 2 + maximum * 2 \<and> length s mod 2 = 0 \<and>
     prefix ''0x'' s \<and> isHex (drop 2 s)"

definition validateCursor :: "string \<Rightarrow> pm_error option" where
  "validateCursor cursor =
     (if length cursor > 512 \<or> TrimSpace cursor \<noteq> cursor \<or> ContainsAny cursor [CHR 0x0D, CHR 0x0A]
      then Some (PmText ''polymarket: cursor is invalid'') else None)"

text \<open>The pattern \<open>^[A-Za-z0-9._:-]{1,256}$\<close>.\<close>

definition order_id_char :: "char \<Rightarrow> bool" where
  "order_id_char c \<longleftrightarrow> in_range 65 90 c \<or> in_range 97 122 c \<or> in_range 48 57 c \<or> c \<in> set ''._:-''"

definition orderIDPattern :: "string \<Rightarrow> bool" where
  "orderIDPattern s \<longleftrightarrow> 1 \<le> length s \<and> length s \<le> 256 \<and> list_all order_id_char s"

definition validateOrderID :: "string \<Rightarrow> pm_error option" where
  "validateOrderID orderID = (if \<not> orderIDPattern orderID then Some (PmText ''polymarket: order ID is invalid'') else None)"

section \<open>Books, tokens and markets\<close>

record BookLevel =
  lvPrice :: string
  lvSize :: string

definition BookLevel_Validate :: "BookLevel \<Rightarrow> pm_error option" where
  "BookLevel_Validate l =
     (case ParseFixedPoint (lvPrice l) 6 of
        Inl _ \<Rightarrow> Some (PmText ''price is invalid'')
      | Inr price \<Rightarrow>
          if price \<le> 0 \<or> price \<ge> 1000000 then Some (PmText ''price is invalid'')
          else case ParseFixedPoint (lvSize l) 6 of
                 Inl _ \<Rightarrow> Some (PmText ''size is invalid'')
               | Inr size0 \<Rightarrow> if size0 \<le> 0 then Some (PmText ''size is invalid'') else None)"

record OrderBook =
  bkMarket :: string
  bkAssetID :: string
  bkTimestamp :: string
  bkBids :: "BookLevel list"
  bkAsks :: "BookLevel list"
  bkMinimumOrder :: string
  bkNegRisk :: bool
  bkTickSize :: string
  bkLastTradePrice :: string
  bkHash :: string

text \<open>A loop that validates the elements of a slice in order, and names the index of the first invalid one.\<close>

fun first_error :: "string \<Rightarrow> ('a \<Rightarrow> pm_error option) \<Rightarrow> nat \<Rightarrow> 'a list \<Rightarrow> pm_error option" where
  "first_error what check i [] = None"
| "first_error what check i (x # xs) =
     (case check x of
        Some e \<Rightarrow> Some (PmWrap (what @ '' '' @ dec_nat i) e)
      | None \<Rightarrow> first_error what check (i + 1) xs)"

definition OrderBook_Validate :: "string \<Rightarrow> OrderBook \<Rightarrow> pm_error option" where
  "OrderBook_Validate tokenID b =
     (if \<not> isHash (bkMarket b) \<or> bkAssetID b \<noteq> tokenID then Some (PmText ''book market or asset_id is invalid'')
      else if length (bkBids b) > 20000 \<or> length (bkAsks b) > 20000 then Some (PmText ''book depth exceeds bounds'')
      else case first_error ''bid'' BookLevel_Validate 0 (bkBids b) of
             Some e \<Rightarrow> Some e
           | None \<Rightarrow> first_error ''ask'' BookLevel_Validate 0 (bkAsks b))"

record Token =
  tnTokenID :: string
  tnOutcome :: string
  tnPrice :: string
  tnWinner :: bool
  tnBook :: "OrderBook option"

definition Token_Validate :: "Token \<Rightarrow> pm_error option" where
  "Token_Validate t =
     (if \<not> IsCanonicalUint256 (tnTokenID t) False then Some (PmText ''token_id is invalid'')
      else if TrimSpace (tnOutcome t) = [] \<or> length (tnOutcome t) > 1024 then Some (PmText ''outcome is invalid'')
      else case ParseFixedPoint (tnPrice t) 6 of
             Inl _ \<Rightarrow> Some (PmText ''price is outside [0,1]'')
           | Inr price \<Rightarrow> if price < 0 \<or> price > 1000000 then Some (PmText ''price is outside [0,1]'') else None)"

record Market =
  mkEnableOrderBook :: bool
  mkActive :: bool
  mkClosed :: bool
  mkArchived :: bool
  mkAcceptingOrders :: bool
  mkAcceptingOrdersAt :: "time option"
  mkMinimumOrderSize :: string
  mkMinimumTickSize :: string
  mkConditionID :: string
  mkQuestionID :: string
  mkQuestion :: string
  mkDescription :: string
  mkSlug :: string
  mkEndDate :: string
  mkNegRisk :: bool
  mkNegRiskMarketID :: string
  mkNegRiskRequestID :: string
  mkIcon :: string
  mkImage :: string
  mkTokens :: "Token list"
  mkTags :: "string list"

fun validate_tokens :: "nat \<Rightarrow> string list \<Rightarrow> Token list \<Rightarrow> pm_error option" where
  "validate_tokens i seen [] = None"
| "validate_tokens i seen (t # ts) =
     (case Token_Validate t of
        Some e \<Rightarrow> Some (PmWrap (''token '' @ dec_nat i) e)
      | None \<Rightarrow>
          if tnTokenID t \<in> set seen then Some (PmText (''token '' @ dec_nat i @ '' duplicates token_id''))
          else validate_tokens (i + 1) (tnTokenID t # seen) ts)"

definition Market_Validate :: "Market \<Rightarrow> pm_error option" where
  "Market_Validate m =
     (if \<not> isHash (mkConditionID m) then Some (PmText ''condition_id is invalid'')
      else if TrimSpace (mkQuestion m) = [] \<or> length (mkQuestion m) > 16384 then Some (PmText ''question is invalid'')
      else if length (mkDescription m) > 262144 \<or> length (mkSlug m) > 1024 \<or> length (mkIcon m) > 4096 \<or> length (mkImage m) > 4096
      then Some (PmText ''market text field exceeds bounds'')
      else case DecimalToE6 (mkMinimumTickSize m) of
             Inl e \<Rightarrow> Some (PmWrap ''minimum_tick_size'' (PmDecimal e))
           | Inr _ \<Rightarrow>
               (case DecimalToE6 (mkMinimumOrderSize m) of
                  Inl e \<Rightarrow> Some (PmWrap ''minimum_order_size'' (PmDecimal e))
                | Inr _ \<Rightarrow>
                    if length (mkTokens m) = 0 \<or> length (mkTokens m) > 64
                    then Some (PmText ''tokens must contain between 1 and 64 entries'')
                    else validate_tokens 0 [] (mkTokens m)))"

definition TickSizeE6 :: "Market \<Rightarrow> decimal_error + u64" where
  "TickSizeE6 m = DecimalToE6 (mkMinimumTickSize m)"

definition MinimumOrderSizeE6 :: "Market \<Rightarrow> decimal_error + int" where
  "MinimumOrderSizeE6 m = ParseFixedPoint (mkMinimumOrderSize m) 6"

definition ContainsToken :: "Market \<Rightarrow> string \<Rightarrow> bool" where
  "ContainsToken m tokenID = list_ex (\<lambda>t. tnTokenID t = tokenID) (mkTokens m)"

record MarketPage =
  mpData :: "Market list"
  mpNextCursor :: string
  mpLimit :: int
  mpCount :: int

fun validate_markets :: "nat \<Rightarrow> string list \<Rightarrow> Market list \<Rightarrow> pm_error option" where
  "validate_markets i seen [] = None"
| "validate_markets i seen (m # ms) =
     (case Market_Validate m of
        Some e \<Rightarrow> Some (PmWrap (''market '' @ dec_nat i) e)
      | None \<Rightarrow>
          let key = go_lower (mkConditionID m)
          in if key \<in> set seen then Some (PmText (''market '' @ dec_nat i @ '' duplicates condition_id''))
             else validate_markets (i + 1) (key # seen) ms)"

definition MarketPage_Validate :: "MarketPage \<Rightarrow> pm_error option" where
  "MarketPage_Validate p =
     (if length (mpData p) > 2000 then Some (PmText ''market page exceeds 2000 entries'')
      else case validateCursor (mpNextCursor p) of
             Some e \<Rightarrow> Some e
           | None \<Rightarrow> validate_markets 0 [] (mpData p))"

section \<open>Requests\<close>

record BalanceAllowanceUpdate =
  baAssetType :: string
  baTokenID :: string

definition BalanceAllowanceUpdate_Validate :: "BalanceAllowanceUpdate \<Rightarrow> pm_error option" where
  "BalanceAllowanceUpdate_Validate u =
     (if baAssetType u = ''COLLATERAL'' then
        (if baTokenID u \<noteq> [] then Some (PmText ''polymarket: collateral allowance update must not include token_id'') else None)
      else if baAssetType u = ''CONDITIONAL'' then
        (if \<not> IsCanonicalUint256 (baTokenID u) False
         then Some (PmText ''polymarket: conditional allowance update requires token_id'') else None)
      else Some (PmText ''polymarket: balance allowance asset type is invalid''))"

record SignedOrder =
  soOrder :: Order
  soSignature :: string
  soExpiration :: u64
  soOrderType :: string
  soPostOnly :: bool

definition SignedOrder_Validate :: "SignedOrder \<Rightarrow> pm_error option" where
  "SignedOrder_Validate s =
     (case Validate (soOrder s) of
        Some e \<Rightarrow> Some (PmOrder e)
      | None \<Rightarrow>
          if \<not> isHexBytes (soSignature s) 1 (128 * 1024) then Some (PmText ''polymarket: order signature is invalid'')
          else case
            (if soOrderType s = ''GTD'' then
               (if soExpiration s = 0 \<or> soExpiration s > 2 ^ 63 - 1 then Some (PmText ''polymarket: GTD expiration is invalid'') else None)
             else if soOrderType s \<in> {''GTC'', ''FOK'', ''FAK''} then
               (if soExpiration s \<noteq> 0 then Some (PmText ''polymarket: expiration is only valid for GTD'') else None)
             else Some (PmText ''polymarket: order type is invalid'')) of
              Some e \<Rightarrow> Some e
            | None \<Rightarrow>
                if soPostOnly s \<and> soOrderType s \<noteq> ''GTC'' \<and> soOrderType s \<noteq> ''GTD''
                then Some (PmText ''polymarket: post-only requires GTC or GTD'') else None)"

record providerOrder =
  prSalt :: u64
  prMaker :: string
  prSigner :: string
  prTokenID :: string
  prMakerAmount :: string
  prTakerAmount :: string
  prSide :: string
  prExpiration :: string
  prSignatureType :: "8 word"
  prTimestamp :: string
  prMetadata :: string
  prBuilder :: string
  prSignature :: string

record createOrderPayload =
  cpOrder :: providerOrder
  cpOwner :: string
  cpOrderType :: string
  cpDeferExec :: bool
  cpPostOnly :: bool

text \<open>\<open>addr_hex\<close> is go-ethereum's \<open>Address.Hex\<close>.\<close>

definition SignedOrder_payload :: "(address \<Rightarrow> string) \<Rightarrow> SignedOrder \<Rightarrow> string \<Rightarrow> createOrderPayload" where
  "SignedOrder_payload addr_hex s owner =
     (let ord = soOrder s;
          side = (if Side ord = OrderSideSell then ''SELL'' else ''BUY'')
      in \<lparr>cpOrder = \<lparr>prSalt = Salt ord, prMaker = go_lower (addr_hex (Maker ord)), prSigner = go_lower (addr_hex (Signer ord)),
             prTokenID = TokenID ord, prMakerAmount = MakerAmount ord, prTakerAmount = TakerAmount ord, prSide = side,
             prExpiration = dec_nat (unat (soExpiration s)), prSignatureType = SignatureType ord,
             prTimestamp = dec_nat (unat (Timestamp ord)), prMetadata = hash_hex (Metadata ord), prBuilder = hash_hex (Builder ord),
             prSignature = soSignature s\<rparr>,
          cpOwner = owner, cpOrderType = soOrderType s, cpDeferExec = False, cpPostOnly = soPostOnly s\<rparr>)"

definition json_of_bool :: "bool \<Rightarrow> string" where
  "json_of_bool b = (if b then ''true'' else ''false'')"

definition marshal_providerOrder :: "providerOrder \<Rightarrow> string" where
  "marshal_providerOrder p = json_object
     [(''salt'', dec_nat (unat (prSalt p))), (''maker'', json_quote (prMaker p)), (''signer'', json_quote (prSigner p)),
      (''tokenId'', json_quote (prTokenID p)), (''makerAmount'', json_quote (prMakerAmount p)),
      (''takerAmount'', json_quote (prTakerAmount p)), (''side'', json_quote (prSide p)),
      (''expiration'', json_quote (prExpiration p)), (''signatureType'', dec_nat (unat (prSignatureType p))),
      (''timestamp'', json_quote (prTimestamp p)), (''metadata'', json_quote (prMetadata p)),
      (''builder'', json_quote (prBuilder p)), (''signature'', json_quote (prSignature p))]"

definition marshal_createOrder :: "createOrderPayload \<Rightarrow> string" where
  "marshal_createOrder p = json_object
     [(''order'', marshal_providerOrder (cpOrder p)), (''owner'', json_quote (cpOwner p)),
      (''orderType'', json_quote (cpOrderType p)), (''deferExec'', json_of_bool (cpDeferExec p)),
      (''postOnly'', json_of_bool (cpPostOnly p))]"

definition marshal_cancelRequest :: "string \<Rightarrow> string" where
  "marshal_cancelRequest orderID = json_object [(''orderID'', json_quote orderID)]"

section \<open>Responses\<close>

record OrderPlacement =
  plSuccess :: bool
  plErrorMessage :: string
  plOrderID :: string
  plStatus :: string
  plTransactionHashes :: "string list"
  plTradeIDs :: "string list"
  plMakingAmount :: string
  plTakingAmount :: string

definition OrderPlacement_Validate :: "OrderPlacement \<Rightarrow> pm_error option" where
  "OrderPlacement_Validate p =
     (if \<not> plSuccess p \<or> validateOrderID (plOrderID p) \<noteq> None
      then Some (PmText ''placement did not return a successful order ID'')
      else if length (plErrorMessage p) > 16384 \<or> length (plStatus p) > 128 \<or> length (plTransactionHashes p) > 256 \<or>
        length (plTradeIDs p) > 256
      then Some (PmText ''placement response exceeds bounds'') else None)"

record OpenOrderFilter =
  ofConditionID :: string
  ofTokenID :: string
  ofOrderID :: string
  ofNextCursor :: string

definition OpenOrderFilter_Validate :: "OpenOrderFilter \<Rightarrow> pm_error option" where
  "OpenOrderFilter_Validate f =
     (if ofConditionID f \<noteq> [] \<and> \<not> isHash (ofConditionID f) then Some (PmText ''polymarket: market filter is invalid'')
      else if ofTokenID f \<noteq> [] \<and> \<not> IsCanonicalUint256 (ofTokenID f) False then Some (PmText ''polymarket: asset filter is invalid'')
      else case (if ofOrderID f \<noteq> [] then validateOrderID (ofOrderID f) else None) of
             Some e \<Rightarrow> Some e
           | None \<Rightarrow> validateCursor (ofNextCursor f))"

record OpenOrder =
  ooID :: string
  ooStatus :: string
  ooOwner :: string
  ooMakerAddress :: string
  ooMarket :: string
  ooAssetID :: string
  ooSide :: string
  ooOriginalSize :: string
  ooSizeMatched :: string
  ooPrice :: string
  ooAssociateTrades :: "string list"
  ooCreatedAt :: int
  ooExpiration :: string
  ooOrderType :: string

definition OpenOrder_Validate :: "string \<Rightarrow> OpenOrder \<Rightarrow> pm_error option" where
  "OpenOrder_Validate maker r =
     (if validateOrderID (ooID r) \<noteq> None then Some (PmText ''order id is invalid'')
      else if \<not> isAddress (ooMakerAddress r) \<or> maker \<noteq> [] \<and> \<not> EqualFold (ooMakerAddress r) maker
      then Some (PmText ''maker address mismatch'')
      else if \<not> isHash (ooMarket r) \<or> \<not> IsCanonicalUint256 (ooAssetID r) False then Some (PmText ''market or asset id is invalid'')
      else if ooSide r \<noteq> ''BUY'' \<and> ooSide r \<noteq> ''SELL'' then Some (PmText ''side is invalid'')
      else if length (ooStatus r) > 128 \<or> length (ooAssociateTrades r) > 256 then Some (PmText ''order response exceeds bounds'')
      else None)"

record OpenOrderPage =
  opData :: "OpenOrder list"
  opNextCursor :: string
  opLimit :: int
  opCount :: int

definition OpenOrderPage_Validate :: "string \<Rightarrow> OpenOrderPage \<Rightarrow> pm_error option" where
  "OpenOrderPage_Validate maker p =
     (if length (opData p) > 2000 then Some (PmText ''open-order page exceeds bounds'')
      else case validateCursor (opNextCursor p) of
             Some e \<Rightarrow> Some e
           | None \<Rightarrow> first_error ''open order'' (OpenOrder_Validate maker) 0 (opData p))"

record CancelResult =
  crCanceled :: "string list"
  crNotCanceled :: "(string \<times> string) list"

fun find_canceled :: "string \<Rightarrow> string list \<Rightarrow> (pm_error option) option" where
  "find_canceled orderID [] = None"
| "find_canceled orderID (canceled # cs) =
     (if validateOrderID canceled \<noteq> None then Some (Some (PmText ''cancellation response has invalid order id''))
      else if canceled = orderID then Some None
      else find_canceled orderID cs)"

definition CancelResult_Validate :: "string \<Rightarrow> CancelResult \<Rightarrow> pm_error option" where
  "CancelResult_Validate orderID r =
     (if length (crCanceled r) > 256 \<or> length (crNotCanceled r) > 256 then Some (PmText ''cancellation response exceeds bounds'')
      else case find_canceled orderID (crCanceled r) of
             Some result \<Rightarrow> result
           | None \<Rightarrow>
               if map_of (crNotCanceled r) orderID \<noteq> None then None
               else Some (PmText ''cancellation response does not mention requested order''))"

section \<open>Decoding of the responses\<close>

text \<open>A slice whose being nil is not observed.\<close>

definition list_of :: "'a \<Rightarrow> ('e, 'a) decoder \<Rightarrow> ('e, 'a list) decoder" where
  "list_of zero d old raw =
     (case slice_of zero d (Some old) raw of
        Inl e \<Rightarrow> Inl e
      | Inr (vs, mismatch) \<Rightarrow> Inr (case vs of None \<Rightarrow> [] | Some vs \<Rightarrow> vs, mismatch))"

definition json_time :: "(pm_error, time option) decoder" where
  "json_time = pointer 0 (custom (\<lambda>raw.
     if json_view raw \<noteq> None \<and> hd raw = CHR 0x22
     then (case parse_RFC3339 (butlast (tl raw)) of Some t \<Rightarrow> Inr t | None \<Rightarrow> Inl (PmCause ''parsing time''))
     else Inl (PmCause ''Time.UnmarshalJSON: input is not a JSON string'')))"

definition json_level :: "(pm_error, BookLevel) decoder" where
  "json_level = struct [(''price'', field lvPrice lvPrice_update json_string), (''size'', field lvSize lvSize_update json_string)]"

definition json_levels :: "(pm_error, BookLevel list) decoder" where
  "json_levels = list_of \<lparr>lvPrice = [], lvSize = []\<rparr> json_level"

definition zero_book :: OrderBook where
  "zero_book = \<lparr>bkMarket = [], bkAssetID = [], bkTimestamp = [], bkBids = [], bkAsks = [], bkMinimumOrder = [],
     bkNegRisk = False, bkTickSize = [], bkLastTradePrice = [], bkHash = []\<rparr>"

definition json_OrderBook :: "(pm_error, OrderBook) decoder" where
  "json_OrderBook = struct [
     (''market'', field bkMarket bkMarket_update json_string), (''asset_id'', field bkAssetID bkAssetID_update json_string),
     (''timestamp'', field bkTimestamp bkTimestamp_update json_string), (''bids'', field bkBids bkBids_update json_levels),
     (''asks'', field bkAsks bkAsks_update json_levels),
     (''min_order_size'', field bkMinimumOrder bkMinimumOrder_update json_string),
     (''neg_risk'', field bkNegRisk bkNegRisk_update json_bool),
     (''tick_size'', field bkTickSize bkTickSize_update json_string),
     (''last_trade_price'', field bkLastTradePrice bkLastTradePrice_update json_string),
     (''hash'', field bkHash bkHash_update json_string)]"

definition zero_token :: Token where
  "zero_token = \<lparr>tnTokenID = [], tnOutcome = [], tnPrice = [], tnWinner = False, tnBook = None\<rparr>"

definition json_Token :: "(pm_error, Token) decoder" where
  "json_Token = struct [
     (''token_id'', field tnTokenID tnTokenID_update json_string),
     (''outcome'', field tnOutcome tnOutcome_update json_string), (''price'', field tnPrice tnPrice_update json_number),
     (''winner'', field tnWinner tnWinner_update json_bool),
     (''book'', field tnBook tnBook_update (pointer zero_book json_OrderBook))]"

definition zero_market :: Market where
  "zero_market = \<lparr>mkEnableOrderBook = False, mkActive = False, mkClosed = False, mkArchived = False, mkAcceptingOrders = False,
     mkAcceptingOrdersAt = None, mkMinimumOrderSize = [], mkMinimumTickSize = [], mkConditionID = [], mkQuestionID = [],
     mkQuestion = [], mkDescription = [], mkSlug = [], mkEndDate = [], mkNegRisk = False, mkNegRiskMarketID = [],
     mkNegRiskRequestID = [], mkIcon = [], mkImage = [], mkTokens = [], mkTags = []\<rparr>"

definition json_texts :: "(pm_error, string list) decoder" where
  "json_texts = list_of [] json_string"

definition json_Market :: "(pm_error, Market) decoder" where
  "json_Market = struct [
     (''enable_order_book'', field mkEnableOrderBook mkEnableOrderBook_update json_bool),
     (''active'', field mkActive mkActive_update json_bool), (''closed'', field mkClosed mkClosed_update json_bool),
     (''archived'', field mkArchived mkArchived_update json_bool),
     (''accepting_orders'', field mkAcceptingOrders mkAcceptingOrders_update json_bool),
     (''accepting_order_timestamp'', field mkAcceptingOrdersAt mkAcceptingOrdersAt_update json_time),
     (''minimum_order_size'', field mkMinimumOrderSize mkMinimumOrderSize_update json_number),
     (''minimum_tick_size'', field mkMinimumTickSize mkMinimumTickSize_update json_number),
     (''condition_id'', field mkConditionID mkConditionID_update json_string),
     (''question_id'', field mkQuestionID mkQuestionID_update json_string),
     (''question'', field mkQuestion mkQuestion_update json_string),
     (''description'', field mkDescription mkDescription_update json_string),
     (''market_slug'', field mkSlug mkSlug_update json_string),
     (''end_date_iso'', field mkEndDate mkEndDate_update json_string),
     (''neg_risk'', field mkNegRisk mkNegRisk_update json_bool),
     (''neg_risk_market_id'', field mkNegRiskMarketID mkNegRiskMarketID_update json_string),
     (''neg_risk_request_id'', field mkNegRiskRequestID mkNegRiskRequestID_update json_string),
     (''icon'', field mkIcon mkIcon_update json_string), (''image'', field mkImage mkImage_update json_string),
     (''tokens'', field mkTokens mkTokens_update (list_of zero_token json_Token)),
     (''tags'', field mkTags mkTags_update json_texts)]"

definition zero_page :: MarketPage where
  "zero_page = \<lparr>mpData = [], mpNextCursor = [], mpLimit = 0, mpCount = 0\<rparr>"

definition json_MarketPage :: "(pm_error, MarketPage) decoder" where
  "json_MarketPage = struct [
     (''data'', field mpData mpData_update (list_of zero_market json_Market)),
     (''next_cursor'', field mpNextCursor mpNextCursor_update json_string),
     (''limit'', field mpLimit mpLimit_update json_int64), (''count'', field mpCount mpCount_update json_int64)]"

definition zero_placement :: OrderPlacement where
  "zero_placement = \<lparr>plSuccess = False, plErrorMessage = [], plOrderID = [], plStatus = [], plTransactionHashes = [],
     plTradeIDs = [], plMakingAmount = [], plTakingAmount = []\<rparr>"

definition json_OrderPlacement :: "(pm_error, OrderPlacement) decoder" where
  "json_OrderPlacement = struct [
     (''success'', field plSuccess plSuccess_update json_bool),
     (''errorMsg'', field plErrorMessage plErrorMessage_update json_string),
     (''orderID'', field plOrderID plOrderID_update json_string), (''status'', field plStatus plStatus_update json_string),
     (''transactionsHashes'', field plTransactionHashes plTransactionHashes_update json_texts),
     (''tradeIDs'', field plTradeIDs plTradeIDs_update json_texts),
     (''makingAmount'', field plMakingAmount plMakingAmount_update json_string),
     (''takingAmount'', field plTakingAmount plTakingAmount_update json_string)]"

definition zero_open :: OpenOrder where
  "zero_open = \<lparr>ooID = [], ooStatus = [], ooOwner = [], ooMakerAddress = [], ooMarket = [], ooAssetID = [], ooSide = [],
     ooOriginalSize = [], ooSizeMatched = [], ooPrice = [], ooAssociateTrades = [], ooCreatedAt = 0, ooExpiration = [],
     ooOrderType = []\<rparr>"

definition json_OpenOrder :: "(pm_error, OpenOrder) decoder" where
  "json_OpenOrder = struct [
     (''id'', field ooID ooID_update json_string), (''status'', field ooStatus ooStatus_update json_string),
     (''owner'', field ooOwner ooOwner_update json_string),
     (''maker_address'', field ooMakerAddress ooMakerAddress_update json_string),
     (''market'', field ooMarket ooMarket_update json_string), (''asset_id'', field ooAssetID ooAssetID_update json_string),
     (''side'', field ooSide ooSide_update json_string),
     (''original_size'', field ooOriginalSize ooOriginalSize_update json_string),
     (''size_matched'', field ooSizeMatched ooSizeMatched_update json_string),
     (''price'', field ooPrice ooPrice_update json_string),
     (''associate_trades'', field ooAssociateTrades ooAssociateTrades_update json_texts),
     (''created_at'', field ooCreatedAt ooCreatedAt_update json_int64),
     (''expiration'', field ooExpiration ooExpiration_update json_string),
     (''order_type'', field ooOrderType ooOrderType_update json_string)]"

definition zero_open_page :: OpenOrderPage where
  "zero_open_page = \<lparr>opData = [], opNextCursor = [], opLimit = 0, opCount = 0\<rparr>"

definition json_OpenOrderPage :: "(pm_error, OpenOrderPage) decoder" where
  "json_OpenOrderPage = struct [
     (''data'', field opData opData_update (list_of zero_open json_OpenOrder)),
     (''next_cursor'', field opNextCursor opNextCursor_update json_string),
     (''limit'', field opLimit opLimit_update json_int64), (''count'', field opCount opCount_update json_int64)]"

definition zero_cancel :: CancelResult where
  "zero_cancel = \<lparr>crCanceled = [], crNotCanceled = []\<rparr>"

definition json_CancelResult :: "(pm_error, CancelResult) decoder" where
  "json_CancelResult = struct [
     (''canceled'', field crCanceled crCanceled_update json_texts),
     (''not_canceled'', field crNotCanceled crNotCanceled_update string_map)]"

section \<open>What validation accepts\<close>

lemma first_error_None: "first_error what check i xs = None \<longleftrightarrow> (\<forall>x \<in> set xs. check x = None)"
  by (induction xs arbitrary: i) (auto split: option.splits)

lemma validate_tokens_None:
  "validate_tokens i seen ts = None \<longleftrightarrow>
     (\<forall>t \<in> set ts. Token_Validate t = None) \<and> distinct (map tnTokenID ts) \<and> set seen \<inter> tnTokenID ` set ts = {}"
  by (induction ts arbitrary: i seen) (auto split: option.splits)

lemma validate_markets_None:
  "validate_markets i seen ms = None \<longleftrightarrow>
     (\<forall>m \<in> set ms. Market_Validate m = None) \<and> distinct (map (go_lower \<circ> mkConditionID) ms) \<and>
     set seen \<inter> (go_lower \<circ> mkConditionID) ` set ms = {}"
  by (induction ms arbitrary: i seen) (auto simp: Let_def split: option.splits)

end
