(* ===== verification/Polymarket_Client.thy ===== *)
theory Polymarket_Client
  imports Polymarket_Types Http_Client
begin

text \<open>
  \<open>providers/polymarket/client.go\<close>: the HTTP boundary of Polymarket's order book. A call passes on the
  world: the requests handed to \<open>Do\<close> so far and the times waited between them. \<open>net/url\<close>, the context,
  request construction and transport are the fields of \<open>clob_env\<close>; a natural number is the number of
  requests sent before.
\<close>

section \<open>Environment\<close>

record clob_url =
  urlScheme :: string
  urlHost :: string
  urlUser :: bool
  urlPath :: string
  urlRawQuery :: string
  urlFragment :: string

record clob_http =
  chDoer :: "nat option"
  chTimeout :: duration
  chFollowsRedirects :: bool

record clob_env =
  ceParse :: "string \<Rightarrow> string + clob_url"
  ceString :: "clob_url \<Rightarrow> string"
  ceInvalid :: "string \<Rightarrow> string option"
  ceDo :: "clob_http \<Rightarrow> nat \<Rightarrow> http_request \<Rightarrow> string + http_response"
  ceCtxErr :: "nat \<Rightarrow> string option"
  ceWaitCancelled :: "nat \<Rightarrow> string option"
  ceParseTime :: "string \<Rightarrow> time option"
  ceWall :: "nat \<Rightarrow> time"
  ceAddrHex :: "address \<Rightarrow> string"

record clob_world =
  cwSent :: "http_request list"
  cwWaits :: "duration list"

text \<open>\<open>Time.Unix\<close> and \<open>Time.IsZero\<close>.\<close>

definition Unix :: "time \<Rightarrow> int" where
  "Unix t = t div second - 62135596800"

definition IsZero :: "time \<Rightarrow> bool" where
  "IsZero t \<longleftrightarrow> t = 0"

text \<open>\<open>url.QueryEscape\<close> and \<open>url.Values.Encode\<close>: one value per key, in the order of the keys.\<close>

definition upper_hex_digit :: "nat \<Rightarrow> char" where
  "upper_hex_digit n = ''0123456789ABCDEF'' ! n"

definition QueryEscape :: "string \<Rightarrow> string" where
  "QueryEscape s = concat (map (\<lambda>c.
     if in_range 48 57 c \<or> in_range 65 90 c \<or> in_range 97 122 c \<or> c \<in> set ''-_.~'' then [c]
     else if c = CHR '' '' then ''+''
     else [CHR ''%'', upper_hex_digit (byte c div 16), upper_hex_digit (byte c mod 16)]) s)"

fun string_le :: "string \<Rightarrow> string \<Rightarrow> bool" where
  "string_le [] t = True"
| "string_le (c # s) [] = False"
| "string_le (c # s) (d # t) = (byte c < byte d \<or> c = d \<and> string_le s t)"

fun insert_key :: "string \<times> string \<Rightarrow> (string \<times> string) list \<Rightarrow> (string \<times> string) list" where
  "insert_key kv [] = [kv]"
| "insert_key kv (x # xs) = (if string_le (fst kv) (fst x) then kv # x # xs else x # insert_key kv xs)"

fun join_ampersand :: "string list \<Rightarrow> string" where
  "join_ampersand [] = []"
| "join_ampersand [x] = x"
| "join_ampersand (x # xs) = x @ ''&'' @ join_ampersand xs"

definition Values_Encode :: "(string \<times> string) list \<Rightarrow> string" where
  "Values_Encode q = join_ampersand (map (\<lambda>(k, v). QueryEscape k @ ''='' @ QueryEscape v) (foldr insert_key q []))"

section \<open>Constants\<close>

definition DefaultCLOBURL :: string where "DefaultCLOBURL = ''https://clob.polymarket.com''"
definition clob_defaultTimeout :: duration where "clob_defaultTimeout = 10 * second"
definition maxPublicBodyBytes :: nat where "maxPublicBodyBytes = 8388608"
definition maxPrivateBodyBytes :: nat where "maxPrivateBodyBytes = 2097152"
definition clob_maxErrorBodyBytes :: nat where "clob_maxErrorBodyBytes = 8192"
definition maxRequestBodyBytes :: nat where "maxRequestBodyBytes = 1048576"
definition maxTransientAttempts :: nat where "maxTransientAttempts = 2"

definition IsDefinitiveSubmissionRejection :: "pm_error \<Rightarrow> bool" where
  "IsDefinitiveSubmissionRejection err =
     (case as_HTTPError err of
        None \<Rightarrow> False
      | Some e \<Rightarrow> pmStatusCode e \<ge> 400 \<and> pmStatusCode e < 500 \<and> pmStatusCode e \<noteq> 408)"

section \<open>Credentials\<close>

record Credentials =
  crAddress :: string
  crAPIKey :: string
  crAPISecret :: string
  crPassphrase :: string

definition Credentials_String :: "Credentials \<Rightarrow> string" where
  "Credentials_String c = ''[redacted polymarket credentials]''"

definition Credentials_GoString :: "Credentials \<Rightarrow> string" where
  "Credentials_GoString c = ''polymarket.Credentials{redacted}''"

definition Credentials_MarshalJSON :: "Credentials \<Rightarrow> string" where
  "Credentials_MarshalJSON c = json_quote ''[redacted polymarket credentials]''"

definition decodeURLBase64 :: "string \<Rightarrow> bytes option" where
  "decodeURLBase64 s =
     (case base64_decode True s of
        Some decoded \<Rightarrow> if base64_encode True decoded = s then Some decoded else
          (case base64_decode False s of
             Some raw \<Rightarrow> if base64_encode False raw \<noteq> s then None else Some raw
           | None \<Rightarrow> None)
      | None \<Rightarrow>
          (case base64_decode False s of
             Some raw \<Rightarrow> if base64_encode False raw \<noteq> s then None else Some raw
           | None \<Rightarrow> None))"

definition Credentials_Validate :: "Credentials \<Rightarrow> pm_error option" where
  "Credentials_Validate c =
     (if \<not> isAddress (crAddress c) then Some (PmText ''polymarket: credential address is invalid'')
      else if TrimSpace (crAPIKey c) = [] \<or> length (crAPIKey c) > 256 then Some (PmText ''polymarket: API key is invalid'')
      else if TrimSpace (crPassphrase c) = [] \<or> length (crPassphrase c) > 256 then Some (PmText ''polymarket: passphrase is invalid'')
      else if TrimSpace (crAPISecret c) = [] \<or> length (crAPISecret c) > 512 then Some (PmText ''polymarket: API secret is invalid'')
      else case decodeURLBase64 (crAPISecret c) of
             None \<Rightarrow> Some (PmText ''polymarket: API secret is not canonical URL-safe base64'')
           | Some secret \<Rightarrow> None)"

definition requireCredentials :: "Credentials \<Rightarrow> pm_error option" where
  "requireCredentials c = map_option PmCredentialsMissing (Credentials_Validate c)"

section \<open>Construction\<close>

record clob_client =
  clBaseURL :: string
  clHttpClient :: clob_http
  clOrderSubmissionEnabled :: bool
  clNow :: "nat \<Rightarrow> time"

record clientConfig =
  cfBaseURL :: string
  cfHttpClient :: "clob_http option"
  cfTimeout :: duration
  cfTimeoutConfigured :: bool
  cfOrderSubmissionEnabled :: bool
  cfNow :: "(nat \<Rightarrow> time) option"

definition clob_WithBaseURL :: "string \<Rightarrow> clientConfig \<Rightarrow> clientConfig" where
  "clob_WithBaseURL baseURL config = config\<lparr>cfBaseURL := TrimRight (TrimSpace baseURL) (CHR ''/'')\<rparr>"

definition clob_WithHTTPClient :: "clob_http option \<Rightarrow> clientConfig \<Rightarrow> clientConfig" where
  "clob_WithHTTPClient httpClient config = (if httpClient \<noteq> None then config\<lparr>cfHttpClient := httpClient\<rparr> else config)"

definition clob_WithTimeout :: "duration \<Rightarrow> clientConfig \<Rightarrow> clientConfig" where
  "clob_WithTimeout timeout config = config\<lparr>cfTimeout := timeout, cfTimeoutConfigured := True\<rparr>"

definition WithOrderSubmissionEnabled :: "bool \<Rightarrow> clientConfig \<Rightarrow> clientConfig" where
  "WithOrderSubmissionEnabled enabled config = config\<lparr>cfOrderSubmissionEnabled := enabled\<rparr>"

definition clob_withClock :: "(nat \<Rightarrow> time) option \<Rightarrow> clientConfig \<Rightarrow> clientConfig" where
  "clob_withClock now config = config\<lparr>cfNow := now\<rparr>"

definition clob_New :: "clob_env \<Rightarrow> (nat \<Rightarrow> time) \<Rightarrow> (clientConfig \<Rightarrow> clientConfig) option list \<Rightarrow> pm_error + clob_client" where
  "clob_New env time_Now options =
     (let config = fold (\<lambda>opt c. case opt of None \<Rightarrow> c | Some f \<Rightarrow> f c) options
            \<lparr>cfBaseURL = DefaultCLOBURL, cfHttpClient = None, cfTimeout = clob_defaultTimeout, cfTimeoutConfigured = False,
             cfOrderSubmissionEnabled = False, cfNow = Some time_Now\<rparr>;
          config = (if cfBaseURL config = [] then config\<lparr>cfBaseURL := DefaultCLOBURL\<rparr> else config)
      in if (case ceParse env (cfBaseURL config) of
               Inl _ \<Rightarrow> True
             | Inr parsed \<Rightarrow> urlScheme parsed \<noteq> ''https'' \<or> urlHost parsed = [] \<or> urlUser parsed \<or> urlPath parsed \<noteq> [] \<or>
                 urlRawQuery parsed \<noteq> [] \<or> urlFragment parsed \<noteq> [])
         then Inl (PmText ''polymarket: CLOB URL must be an absolute HTTPS origin'')
         else if cfTimeout config \<le> 0 then Inl (PmText ''polymarket: timeout must be positive'')
         else case cfNow config of
                None \<Rightarrow> Inl (PmText ''polymarket: clock is required'')
              | Some clock \<Rightarrow>
                  let http = (case cfHttpClient config of
                        None \<Rightarrow> \<lparr>chDoer = None, chTimeout = cfTimeout config, chFollowsRedirects = True\<rparr>
                      | Some h \<Rightarrow> if cfTimeoutConfigured config \<or> chTimeout h \<le> 0 then h\<lparr>chTimeout := cfTimeout config\<rparr> else h)
                  in Inr \<lparr>clBaseURL = cfBaseURL config, clHttpClient = http\<lparr>chFollowsRedirects := False\<rparr>,
                          clOrderSubmissionEnabled = cfOrderSubmissionEnabled config, clNow = clock\<rparr>)"

section \<open>Responses\<close>

definition readBounded :: "response_body \<Rightarrow> nat \<Rightarrow> pm_error + string" where
  "readBounded reader maximum =
     (case read_limited (maximum + 1) reader of
        (_, Some e) \<Rightarrow> Inl (PmWrap ''polymarket: read response'' (PmCause (heText e)))
      | (payload, None) \<Rightarrow>
          if length payload > maximum then Inl (PmText (''polymarket: response exceeds '' @ dec_nat maximum @ '' bytes''))
          else Inr payload)"

definition clob_retryAfter :: "clob_env \<Rightarrow> nat \<Rightarrow> http_response \<Rightarrow> duration" where
  "clob_retryAfter env n response =
     (let value = TrimSpace (Header_Get ''Retry-After'' (respHeader response))
      in if value = [] then 0
         else if list_all is_digit value \<and> digits_val value < 2 ^ 32 then wrap_i64 (int (digits_val value) * second)
         else case ceParseTime env value of
                None \<Rightarrow> 0
              | Some w \<Rightarrow> max (time_sub w (ceWall env n)) 0)"

definition isTransientStatus :: "int \<Rightarrow> bool" where
  "isTransientStatus status \<longleftrightarrow> status = 429 \<or> status \<ge> 500"

text \<open>
  \<open>Decoder.Decode\<close> of the first value, and \<open>ensureEOF\<close>. A scalar that is not a member ends where the next
  byte cannot belong to it.
\<close>

definition ensureEOF :: "string \<Rightarrow> pm_error option" where
  "ensureEOF rest =
     (if skip_ws rest = [] then None
      else if scan_value 0 (skip_ws rest) \<noteq> None then Some (PmText ''polymarket: response contains multiple JSON values'')
      else Some (PmWrap ''polymarket: invalid trailing response data'' (PmCause ''json'')))"

definition Decode :: "(pm_error, 'a) decoder \<Rightarrow> 'a \<Rightarrow> string \<Rightarrow> pm_error + 'a" where
  "Decode d zero payload =
     (case scan_value 0 (skip_ws payload) of
        None \<Rightarrow> Inl (PmWrap ''polymarket: decode response'' (PmCause ''json''))
      | Some (_, rest) \<Rightarrow>
          (case d zero (consumed (skip_ws payload) rest) of
             Inl e \<Rightarrow> Inl (PmWrap ''polymarket: decode response'' e)
           | Inr (v, mismatch) \<Rightarrow>
               if mismatch then Inl (PmWrap ''polymarket: decode response'' (PmCause ''json''))
               else (case ensureEOF rest of Some e \<Rightarrow> Inl e | None \<Rightarrow> Inr v)))"

text \<open>\<open>decode\<close> is \<open>Decode\<close> into the target, or ignores the payload if the target is nil.\<close>

definition decodeResponse :: "clob_env \<Rightarrow> nat \<Rightarrow> http_response \<Rightarrow> nat \<Rightarrow> (string \<Rightarrow> pm_error + 'a) \<Rightarrow> pm_error + 'a" where
  "decodeResponse env n response limit decode =
     (if respStatus response < 200 \<or> respStatus response \<ge> 300 then
        (case readBounded (respBody response) clob_maxErrorBodyBytes of
           Inl e \<Rightarrow> Inl e
         | Inr text \<Rightarrow> Inl (PmHTTP \<lparr>pmStatusCode = respStatus response, pmBody = text, pmRetryAfter = clob_retryAfter env n response\<rparr>))
      else case readBounded (respBody response) limit of
             Inl e \<Rightarrow> Inl e
           | Inr payload \<Rightarrow> decode payload)"

section \<open>Requests\<close>

definition l2_message :: "int \<Rightarrow> string \<Rightarrow> string \<Rightarrow> string \<Rightarrow> string" where
  "l2_message timestamp verb path payload = dec_int timestamp @ verb @ path @ payload"

definition setL2Headers :: "http_request \<Rightarrow> Credentials \<Rightarrow> string \<Rightarrow> string \<Rightarrow> time \<Rightarrow> pm_error + http_request" where
  "setL2Headers request credentials path payload t =
     (case Credentials_Validate credentials of
        Some e \<Rightarrow> Inl e
      | None \<Rightarrow>
          if IsZero t \<or> Unix t \<le> 0 then Inl (PmText ''polymarket: authentication clock is invalid'')
          else case decodeURLBase64 (crAPISecret credentials) of
                 None \<Rightarrow> Inl (PmText ''polymarket: decode API secret'')
               | Some secret \<Rightarrow>
                   let signature = base64_encode True
                         (hmac_sha256 secret (string_bytes (l2_message (Unix t) (reqMethod request) path payload)))
                   in Inr (request\<lparr>reqHeader :=
                        Header_Set ''POLY_PASSPHRASE'' (crPassphrase credentials)
                          (Header_Set ''POLY_API_KEY'' (crAPIKey credentials)
                            (Header_Set ''POLY_TIMESTAMP'' (dec_int (Unix t))
                              (Header_Set ''POLY_SIGNATURE'' signature
                                (Header_Set ''POLY_ADDRESS'' (crAddress credentials) (reqHeader request)))))\<rparr>))"

definition sent_one :: "http_request \<Rightarrow> clob_world \<Rightarrow> clob_world" where
  "sent_one req w = w\<lparr>cwSent := cwSent w @ [req]\<rparr>"

definition build_request :: "clob_client \<Rightarrow> string \<Rightarrow> string \<Rightarrow> string \<Rightarrow> string option \<Rightarrow> Credentials option \<Rightarrow> nat \<Rightarrow> pm_error + http_request" where
  "build_request c verb path url content credentials n =
     (let payload = (case content of None \<Rightarrow> [] | Some b \<Rightarrow> b);
          accepting = Header_Set ''Accept'' ''application/json'' [];
          header = (if content \<noteq> None then Header_Set ''Content-Type'' ''application/json'' accepting else accepting);
          request = \<lparr>reqMethod = verb, reqURL = url, reqHeader = header, reqBody = string_bytes payload, reqDeadline = None\<rparr>
      in case credentials of
           None \<Rightarrow> Inr request
         | Some creds \<Rightarrow> setL2Headers request creds path payload (clNow c n))"

text \<open>The attempts that are left; the last one does not wait.\<close>

fun do_attempts :: "clob_env \<Rightarrow> clob_client \<Rightarrow> string \<Rightarrow> string \<Rightarrow> string \<Rightarrow> string option \<Rightarrow> Credentials option \<Rightarrow> nat \<Rightarrow>
    (string \<Rightarrow> pm_error + 'a) \<Rightarrow> nat \<Rightarrow> clob_world \<Rightarrow> (pm_error + 'a) \<times> clob_world" where
  "do_attempts env c verb path url content credentials limit decode 0 w =
     (Inl (PmText ''polymarket: request attempts exhausted''), w)"
| "do_attempts env c verb path url content credentials limit decode (Suc left) w =
     (let n = length (cwSent w)
      in case ceInvalid env url of
           Some e \<Rightarrow> (Inl (PmWrap ''polymarket: create request'' (PmCause e)), w)
         | None \<Rightarrow>
             (case build_request c verb path url content credentials n of
                Inl e \<Rightarrow> (Inl e, w)
              | Inr request \<Rightarrow>
                  let w1 = sent_one request w
                  in case ceDo env (clHttpClient c) n request of
                       Inl e \<Rightarrow>
                         (case ceCtxErr env n of
                            Some ctxErr \<Rightarrow> (Inl (PmWrap ''polymarket: request cancelled'' (PmCause ctxErr)), w1)
                          | None \<Rightarrow> (Inl (PmWrap ''polymarket: request failed'' (PmCause e)), w1))
                     | Inr response \<Rightarrow>
                         (case decodeResponse env n response limit decode of
                            Inr v \<Rightarrow>
                              (case rbCloseErr (respBody response) of
                                 Some e \<Rightarrow> (Inl (PmWrap ''polymarket: close response'' (PmCause (heText e))), w1)
                               | None \<Rightarrow> (Inr v, w1))
                          | Inl resultErr \<Rightarrow>
                              (case as_HTTPError resultErr of
                                 None \<Rightarrow> (Inl resultErr, w1)
                               | Some httpErr \<Rightarrow>
                                   if \<not> isTransientStatus (pmStatusCode httpErr) \<or> left = 0 then (Inl resultErr, w1)
                                   else if pmRetryAfter httpErr > 0 then
                                     (let w2 = w1\<lparr>cwWaits := cwWaits w1 @ [min (pmRetryAfter httpErr) second]\<rparr>
                                      in case ceWaitCancelled env n of
                                           Some e \<Rightarrow> (Inl (PmWrap ''polymarket: retry cancelled'' (PmCause e)), w2)
                                         | None \<Rightarrow> do_attempts env c verb path url content credentials limit decode left w2)
                                   else do_attempts env c verb path url content credentials limit decode left w1))))"

text \<open>\<open>content\<close> is the text of the request; \<open>json.Marshal\<close> does not fail on the types that are sent.\<close>

definition clob_do :: "clob_env \<Rightarrow> clob_client \<Rightarrow> string \<Rightarrow> string \<Rightarrow> (string \<times> string) list option \<Rightarrow> string option \<Rightarrow>
    Credentials option \<Rightarrow> nat \<Rightarrow> (string \<Rightarrow> pm_error + 'a) \<Rightarrow> clob_world \<Rightarrow> (pm_error + 'a) \<times> clob_world" where
  "clob_do env c verb path query content credentials limit decode w =
     (case ceParse env (clBaseURL c @ path) of
        Inl e \<Rightarrow> (Inl (PmWrap ''polymarket: build endpoint'' (PmCause e)), w)
      | Inr parsed \<Rightarrow>
          let endpoint = (case query of None \<Rightarrow> parsed | Some q \<Rightarrow> parsed\<lparr>urlRawQuery := Values_Encode q\<rparr>)
          in if (case content of None \<Rightarrow> False | Some payload \<Rightarrow> length payload > maxRequestBodyBytes)
             then (Inl (PmText ''polymarket: request content is too large''), w)
             else do_attempts env c verb path (ceString env endpoint) content credentials limit decode
                    (if verb = ''GET'' then maxTransientAttempts else 1) w)"

section \<open>Operations\<close>

text \<open>A response that its \<open>Validate\<close> rejects becomes an error with the given text.\<close>

definition validated :: "string \<Rightarrow> ('a \<Rightarrow> pm_error option) \<Rightarrow> (pm_error + 'a) \<times> clob_world \<Rightarrow> (pm_error + 'a) \<times> clob_world" where
  "validated what check r =
     (case r of
        (Inl e, w) \<Rightarrow> (Inl e, w)
      | (Inr v, w) \<Rightarrow> (case check v of Some e \<Rightarrow> (Inl (PmWrap what e), w) | None \<Rightarrow> (Inr v, w)))"

definition ListMarkets :: "clob_env \<Rightarrow> clob_client \<Rightarrow> string \<Rightarrow> clob_world \<Rightarrow> (pm_error + MarketPage) \<times> clob_world" where
  "ListMarkets env c nextCursor w =
     (case validateCursor nextCursor of
        Some e \<Rightarrow> (Inl e, w)
      | None \<Rightarrow>
          validated ''polymarket: invalid markets response'' MarketPage_Validate
            (clob_do env c ''GET'' ''/sampling-markets'' (Some (if nextCursor \<noteq> [] then [(''next_cursor'', nextCursor)] else []))
               None None maxPublicBodyBytes (Decode json_MarketPage zero_page) w))"

definition getBook :: "clob_env \<Rightarrow> clob_client \<Rightarrow> string \<Rightarrow> clob_world \<Rightarrow> (pm_error + OrderBook) \<times> clob_world" where
  "getBook env c tokenID w =
     (if \<not> IsCanonicalUint256 tokenID False then (Inl (PmText ''polymarket: token_id is invalid''), w)
      else validated ''polymarket: invalid order book'' (OrderBook_Validate tokenID)
             (clob_do env c ''GET'' ''/book'' (Some [(''token_id'', tokenID)]) None None maxPublicBodyBytes (Decode json_OrderBook zero_book) w))"

fun add_books :: "clob_env \<Rightarrow> clob_client \<Rightarrow> Token list \<Rightarrow> clob_world \<Rightarrow> (pm_error + Token list) \<times> clob_world" where
  "add_books env c [] w = (Inr [], w)"
| "add_books env c (t # ts) w =
     (case getBook env c (tnTokenID t) w of
        (Inl e, w1) \<Rightarrow> (Inl e, w1)
      | (Inr book, w1) \<Rightarrow>
          (case add_books env c ts w1 of
             (Inl e, w2) \<Rightarrow> (Inl e, w2)
           | (Inr ts', w2) \<Rightarrow> (Inr (t\<lparr>tnBook := Some book\<rparr> # ts'), w2)))"

definition GetMarket :: "clob_env \<Rightarrow> clob_client \<Rightarrow> string \<Rightarrow> bool \<Rightarrow> clob_world \<Rightarrow> (pm_error + Market) \<times> clob_world" where
  "GetMarket env c conditionID includeBooks w =
     (if \<not> isHash conditionID then (Inl (PmText ''polymarket: condition_id must be a nonzero 0x-prefixed bytes32''), w)
      else case validated ''polymarket: invalid market response'' Market_Validate
          (clob_do env c ''GET'' (''/markets/'' @ go_lower conditionID) None None None maxPublicBodyBytes (Decode json_Market zero_market) w) of
        (Inl e, w1) \<Rightarrow> (Inl e, w1)
      | (Inr market, w1) \<Rightarrow>
          if \<not> EqualFold (mkConditionID market) conditionID
          then (Inl (PmText ''polymarket: market response condition_id mismatch''), w1)
          else if includeBooks then
            (case add_books env c (mkTokens market) w1 of
               (Inl e, w2) \<Rightarrow> (Inl e, w2)
             | (Inr tokens, w2) \<Rightarrow> (Inr (market\<lparr>mkTokens := tokens\<rparr>), w2))
          else (Inr market, w1))"

definition requireSubmission :: "clob_client \<Rightarrow> Credentials \<Rightarrow> pm_error option" where
  "requireSubmission c credentials =
     (if \<not> clOrderSubmissionEnabled c then Some PmTradingDisabled else requireCredentials credentials)"

definition PostOrder :: "clob_env \<Rightarrow> clob_client \<Rightarrow> Credentials \<Rightarrow> SignedOrder \<Rightarrow> clob_world \<Rightarrow> (pm_error + OrderPlacement) \<times> clob_world" where
  "PostOrder env c credentials ord w =
     (case requireSubmission c credentials of
        Some e \<Rightarrow> (Inl e, w)
      | None \<Rightarrow>
          (case SignedOrder_Validate ord of
             Some e \<Rightarrow> (Inl e, w)
           | None \<Rightarrow>
               validated ''polymarket: invalid order placement response'' OrderPlacement_Validate
                 (clob_do env c ''POST'' ''/order'' None
                    (Some (marshal_createOrder (SignedOrder_payload (ceAddrHex env) ord (crAPIKey credentials))))
                    (Some credentials) maxPrivateBodyBytes (Decode json_OrderPlacement zero_placement) w)))"

definition ListOpenOrders :: "clob_env \<Rightarrow> clob_client \<Rightarrow> Credentials \<Rightarrow> OpenOrderFilter \<Rightarrow> clob_world \<Rightarrow> (pm_error + OpenOrderPage) \<times> clob_world" where
  "ListOpenOrders env c credentials flt w =
     (case requireCredentials credentials of
        Some e \<Rightarrow> (Inl e, w)
      | None \<Rightarrow>
          (case OpenOrderFilter_Validate flt of
             Some e \<Rightarrow> (Inl e, w)
           | None \<Rightarrow>
               let query = (if ofConditionID flt \<noteq> [] then [(''market'', go_lower (ofConditionID flt))] else []) @
                     (if ofTokenID flt \<noteq> [] then [(''asset_id'', ofTokenID flt)] else []) @
                     (if ofOrderID flt \<noteq> [] then [(''id'', ofOrderID flt)] else []) @
                     (if ofNextCursor flt \<noteq> [] then [(''next_cursor'', ofNextCursor flt)] else [])
               in validated ''polymarket: invalid open-orders response'' (OpenOrderPage_Validate [])
                    (clob_do env c ''GET'' ''/data/orders'' (Some query) None (Some credentials) maxPrivateBodyBytes
                       (Decode json_OpenOrderPage zero_open_page) w)))"

definition GetOrder :: "clob_env \<Rightarrow> clob_client \<Rightarrow> Credentials \<Rightarrow> string \<Rightarrow> clob_world \<Rightarrow> (pm_error + OpenOrder) \<times> clob_world" where
  "GetOrder env c credentials orderID w =
     (case requireCredentials credentials of
        Some e \<Rightarrow> (Inl e, w)
      | None \<Rightarrow>
          (case validateOrderID orderID of
             Some e \<Rightarrow> (Inl e, w)
           | None \<Rightarrow>
               (case clob_do env c ''GET'' (''/data/order/'' @ go_lower orderID) None None (Some credentials) maxPrivateBodyBytes
                   (Decode json_OpenOrder zero_open) w of
                  (Inl err, w1) \<Rightarrow>
                    (case as_HTTPError err of
                       Some e \<Rightarrow> if pmStatusCode e = 404 then (Inl PmOrderNotFound, w1) else (Inl err, w1)
                     | None \<Rightarrow> (Inl err, w1))
                | (Inr ord, w1) \<Rightarrow>
                    (case OpenOrder_Validate [] ord of
                       Some e \<Rightarrow> (Inl (PmWrap ''polymarket: invalid order response'' e), w1)
                     | None \<Rightarrow>
                         if \<not> EqualFold (ooID ord) orderID then (Inl (PmText ''polymarket: order response ID mismatch''), w1)
                         else (Inr ord, w1)))))"

definition UpdateBalanceAllowance :: "clob_env \<Rightarrow> clob_client \<Rightarrow> Credentials \<Rightarrow> BalanceAllowanceUpdate \<Rightarrow> clob_world \<Rightarrow>
    pm_error option \<times> clob_world" where
  "UpdateBalanceAllowance env c credentials update w =
     (case requireCredentials credentials of
        Some e \<Rightarrow> (Some e, w)
      | None \<Rightarrow>
          (case BalanceAllowanceUpdate_Validate update of
             Some e \<Rightarrow> (Some e, w)
           | None \<Rightarrow>
               let query = [(''asset_type'', baAssetType update), (''signature_type'', ''3'')] @
                     (if baTokenID update \<noteq> [] then [(''token_id'', baTokenID update)] else [])
               in case clob_do env c ''GET'' ''/balance-allowance/update'' (Some query) None (Some credentials) maxPrivateBodyBytes
                   (\<lambda>_. Inr ()) w of
                    (Inl e, w1) \<Rightarrow> (Some (PmWrap ''polymarket: update balance allowance'' e), w1)
                  | (Inr _, w1) \<Rightarrow> (None, w1)))"

definition CancelOrder :: "clob_env \<Rightarrow> clob_client \<Rightarrow> Credentials \<Rightarrow> string \<Rightarrow> clob_world \<Rightarrow> (pm_error + CancelResult) \<times> clob_world" where
  "CancelOrder env c credentials orderID w =
     (case requireCredentials credentials of
        Some e \<Rightarrow> (Inl e, w)
      | None \<Rightarrow>
          (case validateOrderID orderID of
             Some e \<Rightarrow> (Inl e, w)
           | None \<Rightarrow>
               validated ''polymarket: invalid cancellation response'' (CancelResult_Validate orderID)
                 (clob_do env c ''DELETE'' ''/order'' None (Some (marshal_cancelRequest orderID)) (Some credentials) maxPrivateBodyBytes
                    (Decode json_CancelResult zero_cancel) w)))"

end
