(* ===== verification/Polymarket_Safety.thy ===== *)
theory Polymarket_Safety
  imports Polymarket_Client
begin

text \<open>
  What the client of Polymarket guarantees: which requests a call sends, how often and how they are
  authenticated, and what the results it returns have passed.
\<close>

section \<open>Requests and responses\<close>

lemma Header_Get_Set: "Header_Get k (Header_Set k' v h) = (if CanonicalHeaderKey k = CanonicalHeaderKey k' then v else Header_Get k h)"
  by (simp add: Header_Get_def Header_Set_def update_conv')

text \<open>The authentication of a request for a path with a payload, at a time.\<close>

definition l2_authenticated :: "Credentials \<Rightarrow> string \<Rightarrow> string \<Rightarrow> time \<Rightarrow> http_request \<Rightarrow> bool" where
  "l2_authenticated creds path payload t req \<longleftrightarrow>
     (\<exists>secret. decodeURLBase64 (crAPISecret creds) = Some secret \<and>
        Header_Get ''POLY_SIGNATURE'' (reqHeader req) =
          base64_encode True (hmac_sha256 secret (string_bytes (dec_int (Unix t) @ reqMethod req @ path @ payload)))) \<and>
     Header_Get ''POLY_TIMESTAMP'' (reqHeader req) = dec_int (Unix t) \<and> 0 < Unix t \<and>
     Header_Get ''POLY_ADDRESS'' (reqHeader req) = crAddress creds \<and>
     Header_Get ''POLY_API_KEY'' (reqHeader req) = crAPIKey creds \<and>
     Header_Get ''POLY_PASSPHRASE'' (reqHeader req) = crPassphrase creds"

lemma canonical_l2_keys:
  "CanonicalHeaderKey ''POLY_SIGNATURE'' = ''Poly_signature''" "CanonicalHeaderKey ''POLY_TIMESTAMP'' = ''Poly_timestamp''"
  "CanonicalHeaderKey ''POLY_ADDRESS'' = ''Poly_address''" "CanonicalHeaderKey ''POLY_API_KEY'' = ''Poly_api_key''"
  "CanonicalHeaderKey ''POLY_PASSPHRASE'' = ''Poly_passphrase''"
  by code_simp+

lemma setL2Headers_authenticates:
  assumes "setL2Headers req creds path payload t = Inr req'"
  shows "l2_authenticated creds path payload t req' \<and> Credentials_Validate creds = None \<and>
    reqMethod req' = reqMethod req \<and> reqURL req' = reqURL req \<and> reqBody req' = reqBody req"
  using assms unfolding setL2Headers_def l2_authenticated_def
  by (auto simp: Header_Get_Set canonical_l2_keys l2_message_def Let_def split: option.split_asm if_split_asm)

definition payload_of :: "string option \<Rightarrow> string" where
  "payload_of content = (case content of None \<Rightarrow> [] | Some b \<Rightarrow> b)"

text \<open>A request that \<open>do\<close> sends: the method, URL and body, and with credentials the authentication.\<close>

definition well_formed :: "clob_client \<Rightarrow> string \<Rightarrow> string \<Rightarrow> string \<Rightarrow> string option \<Rightarrow> Credentials option \<Rightarrow> nat \<Rightarrow> http_request \<Rightarrow> bool" where
  "well_formed c verb path url content credentials n req \<longleftrightarrow>
     reqMethod req = verb \<and> reqURL req = url \<and> reqBody req = string_bytes (payload_of content) \<and>
     (\<forall>creds. credentials = Some creds \<longrightarrow>
        Credentials_Validate creds = None \<and> l2_authenticated creds path (payload_of content) (clNow c n) req)"

lemma build_request_well_formed:
  "build_request c verb path url content credentials n = Inr req \<Longrightarrow> well_formed c verb path url content credentials n req"
  by (auto simp: build_request_def well_formed_def payload_of_def Let_def dest!: setL2Headers_authenticates split: option.splits)

text \<open>How an attempt ended that sent a request, by the response to it.\<close>

definition transient :: "clob_env \<Rightarrow> clob_client \<Rightarrow> nat \<Rightarrow> http_request \<Rightarrow> bool" where
  "transient env c n req \<longleftrightarrow> (\<exists>resp. ceDo env (clHttpClient c) n req = Inr resp \<and> isTransientStatus (respStatus resp))"

lemma decodeResponse_status:
  assumes "decodeResponse env n resp limit decode = Inl e" and "as_HTTPError e = Some h"
    and "\<And>payload e'. decode payload = Inl e' \<Longrightarrow> as_HTTPError e' = None"
  shows "pmStatusCode h = respStatus resp \<and> \<not> (200 \<le> respStatus resp \<and> respStatus resp < 300)"
  using assms by (auto simp: decodeResponse_def readBounded_def split: if_splits sum.splits option.splits prod.splits)

lemma decodeResponse_ok:
  "decodeResponse env n resp limit decode = Inr v \<Longrightarrow>
    200 \<le> respStatus resp \<and> respStatus resp < 300 \<and> length (rbBytes (respBody resp)) \<le> limit \<and> decode (rbBytes (respBody resp)) = Inr v"
  by (auto simp: decodeResponse_def readBounded_def read_limited_def split: if_splits sum.splits option.splits prod.splits)

text \<open>Decoders whose errors do not come from a status: all decoders of the responses are.\<close>

named_theorems statusless_intros

definition statusless :: "(pm_error, 'a) decoder \<Rightarrow> bool" where
  "statusless d \<longleftrightarrow> (\<forall>old raw e. d old raw = Inl e \<longrightarrow> as_HTTPError e = None)"

lemma statusless_scalar [statusless_intros]: "statusless (scalar f)"
  by (auto simp: statusless_def scalar_def split: option.splits json.splits)

lemma statusless_basic [statusless_intros]: "statusless json_string" "statusless json_bool" "statusless json_int64" "statusless json_number"
  unfolding json_string_def json_bool_def json_int64_def json_number_def by (rule statusless_scalar)+

lemma statusless_field [statusless_intros]: "statusless d \<Longrightarrow> statusless (field get upd d)"
  by (auto simp: statusless_def field_def split: sum.splits)

lemma statusless_set_fields:
  assumes "\<forall>x \<in> set table. statusless (snd x)"
  shows "set_fields table ms r = Inl e \<Longrightarrow> as_HTTPError e = None"
proof (induction ms arbitrary: r e)
  case (Cons m ms)
  obtain k raw where m: "m = (k, raw)" by (cases m)
  have "statusless d" if "find (\<lambda>(n, _). fold_name n = fold_name k) table = Some (n, d)" for n d
    using that assms nth_mem by (fastforce simp: find_Some_iff)
  then show ?case using Cons by (auto simp: m statusless_def split: option.splits sum.splits)
qed simp

lemma statusless_struct [statusless_intros]: "\<forall>x \<in> set table. statusless (snd x) \<Longrightarrow> statusless (struct table)"
  using statusless_set_fields [of table] unfolding statusless_def [of "struct table"] struct_def
  by (auto split: option.splits json.splits)

lemma statusless_each_into:
  assumes "statusless d" shows "each_into zero d olds raws = Inl e \<Longrightarrow> as_HTTPError e = None"
  using assms by (induction raws arbitrary: olds e) (auto simp: statusless_def split: sum.splits)

lemma statusless_list_of [statusless_intros]: "statusless d \<Longrightarrow> statusless (list_of zero d)"
  using statusless_each_into [of d zero] unfolding statusless_def [of "list_of zero d"] list_of_def slice_of_def
  by (auto split: option.splits json.splits sum.splits)

lemma statusless_pointer [statusless_intros]: "statusless d \<Longrightarrow> statusless (pointer zero d)"
  by (auto simp: statusless_def pointer_def split: sum.splits if_splits)

lemma statusless_map [statusless_intros]: "statusless string_map"
  by (auto simp: statusless_def string_map_def split: option.splits json.splits)

lemma statusless_time [statusless_intros]: "statusless json_time"
  unfolding json_time_def by (rule statusless_pointer) (auto simp: statusless_def custom_def split: sum.splits option.splits if_splits)

lemma statusless_texts [statusless_intros]: "statusless json_texts"
  unfolding json_texts_def by (intro statusless_intros)

lemma statusless_book [statusless_intros]: "statusless json_OrderBook"
  unfolding json_OrderBook_def json_levels_def json_level_def by (rule statusless_struct) (simp add: statusless_intros)

lemma statusless_token [statusless_intros]: "statusless json_Token"
  unfolding json_Token_def by (rule statusless_struct) (simp add: statusless_intros)

lemma statusless_market [statusless_intros]: "statusless json_Market"
  unfolding json_Market_def by (rule statusless_struct) (simp add: statusless_intros)

lemma statusless_open [statusless_intros]: "statusless json_OpenOrder"
  unfolding json_OpenOrder_def by (rule statusless_struct) (simp add: statusless_intros)

lemma statusless_responses [statusless_intros]:
  "statusless json_MarketPage" "statusless json_OrderPlacement" "statusless json_OpenOrderPage" "statusless json_CancelResult"
  unfolding json_MarketPage_def json_OrderPlacement_def json_OpenOrderPage_def json_CancelResult_def
  by (rule statusless_struct, simp add: statusless_intros)+

lemma Decode_statusless: "statusless d \<Longrightarrow> Decode d zero payload = Inl e \<Longrightarrow> as_HTTPError e = None"
  by (auto simp: Decode_def statusless_def ensureEOF_def split: option.splits sum.splits if_splits)

section \<open>The attempts of one call\<close>

text \<open>
  The requests of the attempts: at most as many as there are attempts, each well formed, each but the
  last answered by a transient status; the waits are positive and at most a second.
\<close>

lemma do_attempts_trace:
  assumes "do_attempts env c verb path url content credentials limit decode k w = (r, w')"
    and "\<And>payload e. decode payload = Inl e \<Longrightarrow> as_HTTPError e = None"
  shows "\<exists>reqs waits. cwSent w' = cwSent w @ reqs \<and> cwWaits w' = cwWaits w @ waits \<and> length reqs \<le> k \<and>
    (\<forall>i < length reqs. well_formed c verb path url content credentials (length (cwSent w) + i) (reqs ! i)) \<and>
    (\<forall>i. Suc i < length reqs \<longrightarrow> transient env c (length (cwSent w) + i) (reqs ! i)) \<and>
    (\<forall>d \<in> set waits. 0 < d \<and> d \<le> second)"
  using assms(1)
proof (induction k arbitrary: w)
  case (Suc k)
  let ?n = "length (cwSent w)"
  note u = Suc.prems [unfolded do_attempts.simps Let_def]
  show ?case
  proof (cases "cwSent w' = cwSent w \<and> cwWaits w' = cwWaits w")
    case True
    then show ?thesis by (intro exI [of _ "[]"]) simp
  next
    case False
    then obtain req where req: "build_request c verb path url content credentials ?n = Inr req" "ceInvalid env url = None"
      using u by (auto split: option.split_asm sum.split_asm)
    note wf = build_request_well_formed [OF req(1)]
    define w1 where "w1 = sent_one req w"
    have w1 [simp]: "cwSent w1 = cwSent w @ [req]" "cwWaits w1 = cwWaits w" by (simp_all add: w1_def sent_one_def)
    consider (stop) "w' = w1"
      | (cancelled) d where "w' = w1\<lparr>cwWaits := cwWaits w1 @ [d]\<rparr>" "0 < d" "d \<le> second"
      | (again) waits where "transient env c ?n req" "\<forall>d \<in> set waits. 0 < d \<and> d \<le> second"
          "do_attempts env c verb path url content credentials limit decode k (w1\<lparr>cwWaits := cwWaits w1 @ waits\<rparr>) = (r, w')"
    proof (cases "ceDo env (clHttpClient c) ?n req")
      case (Inl e)
      then show ?thesis using u req that(1) by (auto simp: w1_def split: option.split_asm sum.split_asm)
    next
      case (Inr resp)
      show ?thesis
      proof (cases "\<exists>e h. decodeResponse env ?n resp limit decode = Inl e \<and> as_HTTPError e = Some h \<and>
          isTransientStatus (pmStatusCode h) \<and> k \<noteq> 0")
        case True
        then obtain e h where e: "decodeResponse env ?n resp limit decode = Inl e" "as_HTTPError e = Some h"
          "isTransientStatus (pmStatusCode h)" "k \<noteq> 0" by blast
        have t: "transient env c ?n req"
          using Inr e(3) decodeResponse_status [OF e(1,2) assms(2)] by (auto simp: transient_def)
        show ?thesis
        proof (cases "pmRetryAfter h > 0")
          case True
          have s: "0 < min (pmRetryAfter h) second" "min (pmRetryAfter h) second \<le> second" using True by (simp_all add: second_def)
          show ?thesis using u req Inr e True that(2) [OF _ s] that(3) [OF t, of "[min (pmRetryAfter h) second]"] s
            by (cases "ceWaitCancelled env ?n") (simp_all add: w1_def)
        next
          case False
          then show ?thesis using u req Inr e that(3) [OF t, of "[]"] by (simp add: w1_def)
        qed
      next
        case False
        then show ?thesis using u req Inr that(1)
          by (auto simp: w1_def split: option.split_asm sum.split_asm if_split_asm)
      qed
    qed
    then show ?thesis
    proof cases
      case stop
      then show ?thesis using wf by (intro exI [of _ "[req]"] exI [of _ "[]"]) simp
    next
      case (cancelled d)
      then show ?thesis using wf by (intro exI [of _ "[req]"] exI [of _ "[d]"]) simp
    next
      case (again waits)
      from Suc.IH [OF again(3)] obtain reqs waits' where
        reqs: "cwSent w' = cwSent w @ req # reqs" "cwWaits w' = cwWaits w @ waits @ waits'" "length reqs \<le> k"
          "\<forall>i < length reqs. well_formed c verb path url content credentials (Suc ?n + i) (reqs ! i)"
          "\<forall>i. Suc i < length reqs \<longrightarrow> transient env c (Suc ?n + i) (reqs ! i)" "\<forall>d \<in> set waits'. 0 < d \<and> d \<le> second"
        by auto
      have "\<forall>i < length (req # reqs). well_formed c verb path url content credentials (?n + i) ((req # reqs) ! i)"
        using wf reqs(4) by (auto simp: less_Suc_eq_0_disj)
      moreover have "\<forall>i. Suc i < length (req # reqs) \<longrightarrow> transient env c (?n + i) ((req # reqs) ! i)"
        using again(1) reqs(5) by (auto simp: nth_Cons split: nat.splits)
      ultimately show ?thesis using reqs again(2) by (intro exI [of _ "req # reqs"] exI [of _ "waits @ waits'"]) auto
    qed
  qed
qed simp


section \<open>Calls\<close>

text \<open>What a call adds to the requests: at most \<open>k\<close> of them, with the given method.\<close>

definition adds :: "string \<Rightarrow> nat \<Rightarrow> clob_world \<Rightarrow> clob_world \<Rightarrow> bool" where
  "adds verb k w w' \<longleftrightarrow> (\<exists>reqs. cwSent w' = cwSent w @ reqs \<and> length reqs \<le> k \<and> (\<forall>req \<in> set reqs. reqMethod req = verb))"

lemma adds_refl [simp]: "adds verb k w w"
  by (simp add: adds_def)

lemma adds_trans: "adds verb k w w1 \<Longrightarrow> adds verb l w1 w2 \<Longrightarrow> adds verb (k + l) w w2"
  unfolding adds_def by (elim exE, rule_tac x = "reqs @ reqsa" in exI) auto

lemma adds_do:
  assumes "\<And>payload e. decode payload = Inl e \<Longrightarrow> as_HTTPError e = None"
  shows "adds verb (if verb = ''GET'' then 2 else 1) w (snd (clob_do env c verb path query content credentials limit decode w))"
proof -
  obtain r w' where d: "clob_do env c verb path query content credentials limit decode w = (r, w')" by fastforce
  have "adds verb (if verb = ''GET'' then 2 else 1) w w'"
  proof (cases "w' = w")
    case False
    then obtain url where "do_attempts env c verb path url content credentials limit decode (if verb = ''GET'' then 2 else 1) w = (r, w')"
      using d by (auto simp: clob_do_def maxTransientAttempts_def Let_def split: sum.split_asm if_split_asm)
    from do_attempts_trace [OF this assms] show ?thesis by (fastforce simp: adds_def well_formed_def in_set_conv_nth)
  qed simp
  then show ?thesis by (simp add: d)
qed

lemma adds_get: "statusless d \<Longrightarrow> adds ''GET'' 2 w (snd (clob_do env c ''GET'' path query content credentials limit (Decode d zero) w))"
  using adds_do [of "Decode d zero" "''GET''"] Decode_statusless by fastforce

lemma adds_write:
  "statusless d \<Longrightarrow> verb \<noteq> ''GET'' \<Longrightarrow> adds verb 1 w (snd (clob_do env c verb path query content credentials limit (Decode d zero) w))"
  using adds_do [of "Decode d zero" verb] Decode_statusless by fastforce

lemma snd_validated [simp]: "snd (validated what check r) = snd r"
  by (auto simp: validated_def split: prod.splits sum.splits option.splits)

lemma adds_getBook: "adds ''GET'' 2 w (snd (getBook env c tokenID w))"
  by (simp add: getBook_def adds_get statusless_intros)

lemma adds_books: "adds ''GET'' (2 * length ts) w (snd (add_books env c ts w))"
proof (induction ts arbitrary: w)
  case (Cons t ts)
  obtain r w1 where b: "getBook env c (tnTokenID t) w = (r, w1)" by fastforce
  then have "adds ''GET'' 2 w w1" using adds_getBook [of w env c "tnTokenID t"] by simp
  then show ?case using adds_trans [OF _ Cons.IH [of w1]] adds_trans [of "''GET''" 2 w w1 _ w1]
    by (force simp: b split: sum.splits prod.splits)
qed simp

text \<open>A write has one attempt, and its error carries a status only if that is the status of the response.\<close>

lemma build_request_statusless: "build_request c verb path url content credentials n = Inl e \<Longrightarrow> as_HTTPError e = None"
  by (auto simp: build_request_def setL2Headers_def Credentials_Validate_def Let_def split: option.splits if_splits)

lemma do_once:
  assumes "clob_do env c verb path query content credentials limit (Decode d zero) w = (r, w')" and "verb \<noteq> ''GET''" and "statusless d"
  shows "w' = w \<and> (\<exists>e. r = Inl e \<and> as_HTTPError e = None) \<or>
    (\<exists>req url. w' = sent_one req w \<and> well_formed c verb path url content credentials (length (cwSent w)) req \<and>
      (case r of
         Inr v \<Rightarrow> (\<exists>resp. ceDo env (clHttpClient c) (length (cwSent w)) req = Inr resp \<and> 200 \<le> respStatus resp \<and> respStatus resp < 300 \<and>
           Decode d zero (rbBytes (respBody resp)) = Inr v)
       | Inl e \<Rightarrow> (\<forall>h. as_HTTPError e = Some h \<longrightarrow>
           (\<exists>resp. ceDo env (clHttpClient c) (length (cwSent w)) req = Inr resp \<and> respStatus resp = pmStatusCode h))))"
proof -
  let ?n = "length (cwSent w)"
  consider (early) "w' = w" "\<exists>e. r = Inl e \<and> as_HTTPError e = None"
    | (sent) url where "do_attempts env c verb path url content credentials limit (Decode d zero) (Suc 0) w = (r, w')"
    using assms(1,2) by (auto simp: clob_do_def Let_def split: sum.split_asm if_split_asm)
  then show ?thesis
  proof cases
    case sent
    note u = sent [unfolded do_attempts.simps Let_def]
    show ?thesis
    proof (cases "build_request c verb path url content credentials ?n")
      case (Inl e)
      then show ?thesis using u build_request_statusless [OF Inl] by (auto split: option.split_asm)
    next
      case (Inr req)
      note wf = build_request_well_formed [OF Inr]
      have status: "respStatus resp = pmStatusCode h"
        if "decodeResponse env ?n resp limit (Decode d zero) = Inl e" "as_HTTPError e = Some h" for resp e h
        using decodeResponse_status [OF that] Decode_statusless [OF assms(3), of zero] by metis
      show ?thesis
      proof (cases "ceInvalid env url = None")
        case True
        have "w' = sent_one req w" using u Inr True by (auto split: sum.split_asm option.split_asm)
        moreover have "\<exists>resp. ceDo env (clHttpClient c) ?n req = Inr resp \<and> respStatus resp = pmStatusCode h"
          if "r = Inl e" "as_HTTPError e = Some h" for e h
          using u Inr True that status by (auto split: sum.split_asm option.split_asm)
        moreover have "\<exists>resp. ceDo env (clHttpClient c) ?n req = Inr resp \<and> 200 \<le> respStatus resp \<and> respStatus resp < 300 \<and>
            Decode d zero (rbBytes (respBody resp)) = Inr v" if "r = Inr v" for v
          using u Inr True that decodeResponse_ok by (fastforce split: sum.split_asm option.split_asm)
        ultimately show ?thesis using wf by (intro disjI2 exI [of _ req] exI [of _ url]) (auto split: sum.splits)
      qed (use u in auto)
    qed
  qed blast
qed

lemma sent_one_simps [simp]: "sent_one req w = sent_one req' w \<longleftrightarrow> req = req'" "sent_one req w \<noteq> w"
  by (cases w; simp add: sent_one_def)+

lemma validated_Inr: "validated what check r = (Inr v, w) \<longleftrightarrow> r = (Inr v, w) \<and> check v = None"
  by (auto simp: validated_def split: prod.splits sum.splits option.splits)

lemma validated_Inl:
  "validated what check r = (Inl e, w) \<Longrightarrow> r = (Inl e, w) \<or> (\<exists>v e'. r = (Inr v, w) \<and> check v = Some e' \<and> e = PmWrap what e')"
  by (auto simp: validated_def split: prod.split_asm sum.split_asm option.split_asm)

lemma placement_statusless: "OrderPlacement_Validate p = Some e \<Longrightarrow> as_HTTPError e = None"
  by (auto simp: OrderPlacement_Validate_def split: if_splits)

lemma order_statusless: "requireSubmission c creds = Some e \<Longrightarrow> as_HTTPError e = None" "SignedOrder_Validate ord = Some e \<Longrightarrow> as_HTTPError e = None"
  by (auto simp: requireSubmission_def requireCredentials_def SignedOrder_Validate_def split: if_splits option.splits)

text \<open>
  C20. An order is submitted at most once, and only on purpose. \<open>PostOrder\<close> sends nothing unless submission
  was enabled and the credentials and the order are valid; then it sends at most one request, a POST of the
  order's payload with the owner's API key, authenticated for the path \<open>/order\<close> by the secret. It returns a
  placement only if a response with a success status reported a successful order with a valid ID, and
  its error is a definitive rejection only if the order was sent and answered with that status.
\<close>

theorem PostOrder_once:
  assumes "PostOrder env c creds ord w = (r, w')"
  shows "(w' = w \<or> (\<exists>req. w' = sent_one req w \<and> clOrderSubmissionEnabled c \<and> Credentials_Validate creds = None \<and>
      SignedOrder_Validate ord = None \<and> reqMethod req = ''POST'' \<and>
      reqBody req = string_bytes (marshal_createOrder (SignedOrder_payload (ceAddrHex env) ord (crAPIKey creds))) \<and>
      l2_authenticated creds ''/order'' (marshal_createOrder (SignedOrder_payload (ceAddrHex env) ord (crAPIKey creds)))
        (clNow c (length (cwSent w))) req)) \<and>
    (case r of
       Inr p \<Rightarrow> plSuccess p \<and> orderIDPattern (plOrderID p) \<and> (\<exists>req resp. w' = sent_one req w \<and>
         ceDo env (clHttpClient c) (length (cwSent w)) req = Inr resp \<and> 200 \<le> respStatus resp \<and> respStatus resp < 300)
     | Inl e \<Rightarrow> IsDefinitiveSubmissionRejection e \<longrightarrow> (\<exists>req resp. w' = sent_one req w \<and>
         ceDo env (clHttpClient c) (length (cwSent w)) req = Inr resp \<and>
         400 \<le> respStatus resp \<and> respStatus resp < 500 \<and> respStatus resp \<noteq> 408))"
proof (cases "requireSubmission c creds = None \<and> SignedOrder_Validate ord = None")
  case False
  then have "w' = w \<and> (\<exists>e. r = Inl e \<and> as_HTTPError e = None)"
    using assms order_statusless by (auto simp: PostOrder_def split: option.split_asm)
  then show ?thesis by (auto simp: IsDefinitiveSubmissionRejection_def)
next
  case True
  then have enabled: "clOrderSubmissionEnabled c" by (auto simp: requireSubmission_def split: if_splits)
  let ?payload = "marshal_createOrder (SignedOrder_payload (ceAddrHex env) ord (crAPIKey creds))"
  obtain r0 where r0: "clob_do env c ''POST'' ''/order'' None (Some ?payload) (Some creds) maxPrivateBodyBytes
      (Decode json_OrderPlacement zero_placement) w = (r0, w')"
    "validated ''polymarket: invalid order placement response'' OrderPlacement_Validate (r0, w') = (r, w')"
    using assms True by (metis (no_types, lifting) PostOrder_def option.simps(4) prod.collapse snd_conv snd_validated)
  note once = do_once [OF r0(1) _ statusless_responses(2)]
  have sent: "\<exists>req. w' = sent_one req w \<and> clOrderSubmissionEnabled c \<and> Credentials_Validate creds = None \<and>
      SignedOrder_Validate ord = None \<and> reqMethod req = ''POST'' \<and> reqBody req = string_bytes ?payload \<and>
      l2_authenticated creds ''/order'' ?payload (clNow c (length (cwSent w))) req" if "w' \<noteq> w"
    using once that True enabled by (auto simp: well_formed_def payload_of_def)
  show ?thesis
  proof (cases r)
    case (Inr p)
    then have "r0 = Inr p" "OrderPlacement_Validate p = None" using r0(2) by (simp_all add: validated_Inr)
    then show ?thesis using once sent Inr
      by (auto simp: OrderPlacement_Validate_def validateOrderID_def split: if_splits)
  next
    case (Inl e)
    then consider "r0 = Inl e" | "as_HTTPError e = None"
      using validated_Inl [OF r0(2) [unfolded Inl]] placement_statusless by auto
    then show ?thesis using once sent Inl by cases (auto simp: IsDefinitiveSubmissionRejection_def split: option.splits)
  qed
qed

section \<open>Secrets\<close>

text \<open>
  The secrets that \<open>decodeURLBase64\<close> accepts are exactly the canonical ones: the encoding of the decoded bytes in
  the URL-safe alphabet, with the padding or without. So the bytes that sign a request determine the
  text of the secret up to its padding.
\<close>

theorem decodeURLBase64_exact:
  "decodeURLBase64 s = Some secret \<longleftrightarrow> s = base64_encode True secret \<or> s = base64_encode False secret"
proof
  assume "s = base64_encode True secret \<or> s = base64_encode False secret"
  then consider "s = base64_encode True secret" | "s = base64_encode False secret" by blast
  then show "decodeURLBase64 s = Some secret"
  proof cases
    case 2
    have "bs = secret" if "base64_encode True bs = base64_encode False secret" for bs
      using base64_canonical_inj [OF that] .
    then show ?thesis using 2 by (auto simp: decodeURLBase64_def split: option.splits)
  qed (simp add: decodeURLBase64_def)
qed (auto simp: decodeURLBase64_def split: option.splits if_splits)

section \<open>Markets\<close>

lemma getBook_checked: "getBook env c tokenID w = (Inr book, w') \<Longrightarrow> OrderBook_Validate tokenID book = None"
  by (auto simp: getBook_def validated_Inr split: if_splits)

lemma add_books_checked:
  "add_books env c ts w = (Inr ts', w') \<Longrightarrow>
    list_all2 (\<lambda>t t'. \<exists>book. t' = t\<lparr>tnBook := Some book\<rparr> \<and> OrderBook_Validate (tnTokenID t) book = None) ts ts'"
proof (induction ts arbitrary: w ts')
  case (Cons t ts)
  then obtain book w1 us where "getBook env c (tnTokenID t) w = (Inr book, w1)" "add_books env c ts w1 = (Inr us, w')"
    "ts' = t\<lparr>tnBook := Some book\<rparr> # us"
    by (auto split: prod.split_asm sum.split_asm)
  then show ?case using Cons.IH getBook_checked by auto
qed simp

lemma Token_Validate_book [simp]: "Token_Validate (t\<lparr>tnBook := b\<rparr>) = Token_Validate t"
  by (simp add: Token_Validate_def)

lemma books_keep_tokens:
  assumes "list_all2 (\<lambda>t t'. \<exists>book. t' = t\<lparr>tnBook := Some book\<rparr> \<and> OrderBook_Validate (tnTokenID t) book = None) ts ts'"
  shows "map tnTokenID ts' = map tnTokenID ts" "length ts' = length ts" "validate_tokens i seen ts' = validate_tokens i seen ts"
    "\<forall>t \<in> set ts'. \<exists>book. tnBook t = Some book \<and> OrderBook_Validate (tnTokenID t) book = None"
  using assms by (induction arbitrary: i seen rule: list_all2_induct) (auto split: option.splits)

lemma Market_Validate_tokens:
  assumes "Market_Validate m = None"
  shows "length (mkTokens m) \<in> {1..64}" "distinct (map tnTokenID (mkTokens m))"
  using assms by (auto simp: Market_Validate_def validate_tokens_None Suc_le_eq split: if_splits sum.splits)

lemma adds_mono: "adds verb k w w' \<Longrightarrow> k \<le> l \<Longrightarrow> adds verb l w w'"
  unfolding adds_def by fastforce

text \<open>What \<open>GetMarket\<close> does after its first request.\<close>

lemma GetMarket_cases:
  assumes "GetMarket env c conditionID includeBooks w = (r, w')"
  obtains (fail) e where "r = Inl e" "adds ''GET'' 2 w w'"
    | (plain) m where "r = Inr m" "adds ''GET'' 2 w w'" "Market_Validate m = None" "\<not> includeBooks" "isHash conditionID"
        "EqualFold (mkConditionID m) conditionID"
    | (books) m w1 where "adds ''GET'' 2 w w1" "Market_Validate m = None" "isHash conditionID" "EqualFold (mkConditionID m) conditionID"
        "(case add_books env c (mkTokens m) w1 of (Inl e, w2) \<Rightarrow> (Inl e, w2)
           | (Inr tokens, w2) \<Rightarrow> (Inr (m\<lparr>mkTokens := tokens\<rparr>), w2)) = (r, w')"
proof -
  let ?call = "clob_do env c ''GET'' (''/markets/'' @ go_lower conditionID) None None None maxPublicBodyBytes (Decode json_Market zero_market) w"
  have first: "adds ''GET'' 2 w (snd ?call)" by (simp add: adds_get statusless_intros)
  show ?thesis
  proof (cases "validated ''polymarket: invalid market response'' Market_Validate ?call")
    case (Pair r1 w1)
    then have "adds ''GET'' 2 w w1" using first by (metis snd_conv snd_validated)
    moreover have "Market_Validate m = None" if "r1 = Inr m" for m using Pair that by (simp add: validated_Inr)
    ultimately show ?thesis using assms Pair that
      by (auto simp: GetMarket_def split: if_split_asm sum.split_asm)
  qed
qed

lemma GetMarket_adds: "adds ''GET'' 130 w (snd (GetMarket env c conditionID includeBooks w))"
proof (cases "GetMarket env c conditionID includeBooks w")
  case (Pair r w')
  have "adds ''GET'' 130 w w'"
  proof (rule GetMarket_cases [OF Pair])
    fix m w1 assume m: "Market_Validate m = None" and w1: "adds ''GET'' 2 w w1"
      and b: "(case add_books env c (mkTokens m) w1 of (Inl e, w2) \<Rightarrow> (Inl e, w2)
           | (Inr tokens, w2) \<Rightarrow> (Inr (m\<lparr>mkTokens := tokens\<rparr>), w2)) = (r, w')"
    have "w' = snd (add_books env c (mkTokens m) w1)" using b by (auto split: prod.split_asm sum.split_asm)
    then have "adds ''GET'' (2 + 2 * length (mkTokens m)) w w'" using adds_trans [OF w1 adds_books] by simp
    then show ?thesis using Market_Validate_tokens(1) [OF m] by (elim adds_mono) simp
  qed (auto elim: adds_mono)
  then show ?thesis by (simp add: Pair)
qed


section \<open>Sessions\<close>

text \<open>The calls of the interface \<open>Client\<close>, and a client that serves them one after the other.\<close>

datatype clob_call =
    CallListMarkets string
  | CallGetMarket string bool
  | CallPostOrder Credentials SignedOrder
  | CallGetOrder Credentials string
  | CallUpdateBalanceAllowance Credentials BalanceAllowanceUpdate
  | CallListOpenOrders Credentials OpenOrderFilter
  | CallCancelOrder Credentials string

fun clob_step :: "clob_env \<Rightarrow> clob_client \<Rightarrow> clob_world \<Rightarrow> clob_call \<Rightarrow> clob_world" where
  "clob_step env c w (CallListMarkets cursor) = snd (ListMarkets env c cursor w)"
| "clob_step env c w (CallGetMarket conditionID includeBooks) = snd (GetMarket env c conditionID includeBooks w)"
| "clob_step env c w (CallPostOrder creds ord) = snd (PostOrder env c creds ord w)"
| "clob_step env c w (CallGetOrder creds orderID) = snd (GetOrder env c creds orderID w)"
| "clob_step env c w (CallUpdateBalanceAllowance creds update) = snd (UpdateBalanceAllowance env c creds update w)"
| "clob_step env c w (CallListOpenOrders creds flt) = snd (ListOpenOrders env c creds flt w)"
| "clob_step env c w (CallCancelOrder creds orderID) = snd (CancelOrder env c creds orderID w)"

definition sent_with :: "string \<Rightarrow> clob_world \<Rightarrow> nat" where
  "sent_with verb w = length (filter (\<lambda>req. reqMethod req = verb) (cwSent w))"

fun budget :: "clob_client \<Rightarrow> string \<Rightarrow> clob_call \<Rightarrow> nat" where
  "budget c verb (CallPostOrder creds ord) = (if verb = ''POST'' \<and> clOrderSubmissionEnabled c then 1 else 0)"
| "budget c verb (CallCancelOrder creds orderID) = (if verb = ''DELETE'' then 1 else 0)"
| "budget c verb (CallGetMarket conditionID includeBooks) = (if verb = ''GET'' then 130 else 0)"
| "budget c verb clobCall = (if verb = ''GET'' then 2 else 0)"

lemma adds_sent_with: "adds verb k w w' \<Longrightarrow> sent_with v w' \<le> sent_with v w + (if v = verb then k else 0)"
  unfolding adds_def sent_with_def by (auto intro: order.trans [OF length_filter_le])

lemma adds_ListMarkets: "adds ''GET'' 2 w (snd (ListMarkets env c cursor w))"
  by (simp add: ListMarkets_def adds_get statusless_intros split: option.splits)

lemma adds_ListOpenOrders: "adds ''GET'' 2 w (snd (ListOpenOrders env c creds flt w))"
  by (simp add: ListOpenOrders_def Let_def adds_get statusless_intros split: option.splits)

lemma adds_GetOrder: "adds ''GET'' 2 w (snd (GetOrder env c creds orderID w))"
proof -
  have "adds ''GET'' 2 w (snd (clob_do env c ''GET'' (''/data/order/'' @ go_lower orderID) None None (Some creds) maxPrivateBodyBytes
      (Decode json_OpenOrder zero_open) w))" (is "adds _ _ _ (snd ?call)")
    by (simp add: adds_get statusless_intros)
  then show ?thesis by (cases ?call) (auto simp: GetOrder_def split: option.splits sum.splits)
qed

lemma adds_UpdateBalanceAllowance: "adds ''GET'' 2 w (snd (UpdateBalanceAllowance env c creds update w))"
proof -
  define query where "query = [(''asset_type'', baAssetType update), (''signature_type'', ''3'')] @
    (if baTokenID update \<noteq> [] then [(''token_id'', baTokenID update)] else [])"
  have "adds ''GET'' 2 w (snd (clob_do env c ''GET'' ''/balance-allowance/update'' (Some query) None (Some creds) maxPrivateBodyBytes
      (\<lambda>_. Inr ()) w))" (is "adds _ _ _ (snd ?call)")
    using adds_do [of "\<lambda>_. Inr ()" "''GET''"] by fastforce
  then show ?thesis unfolding UpdateBalanceAllowance_def query_def [symmetric] Let_def
    by (cases ?call) (auto split: option.splits sum.splits)
qed

lemma adds_CancelOrder: "adds ''DELETE'' 1 w (snd (CancelOrder env c creds orderID w))"
  using adds_write [OF statusless_responses(4), of "''DELETE''"] by (simp add: CancelOrder_def split: option.splits)

lemma adds_PostOrder: "adds ''POST'' (if clOrderSubmissionEnabled c then 1 else 0) w (snd (PostOrder env c creds ord w))"
  using adds_write [OF statusless_responses(2), of "''POST''"] by (simp add: PostOrder_def requireSubmission_def split: option.splits)

lemma adds_GetMarket: "adds ''GET'' 130 w (snd (GetMarket env c conditionID includeBooks w))"
  by (rule GetMarket_adds)

lemmas adds_calls = adds_ListMarkets adds_GetMarket adds_PostOrder adds_GetOrder adds_UpdateBalanceAllowance
  adds_ListOpenOrders adds_CancelOrder

lemma step_budget: "sent_with verb (clob_step env c w clobCall) \<le> sent_with verb w + budget c verb clobCall"
proof (cases clobCall)
  case (CallPostOrder creds ord)
  then show ?thesis using adds_sent_with [OF adds_PostOrder [of c w env creds ord], of verb] by (simp split: if_splits)
qed (simp_all add: adds_calls [THEN adds_sent_with, THEN order.trans])

text \<open>
  C21. In a session of any calls in any order, the requests of each method stay within the sum of what the calls may send:
  a POST only for a \<open>PostOrder\<close> of a client with submission enabled, a DELETE only for a \<open>CancelOrder\<close>, one
  request each whatever the responses are; two GETs for a query and 130 for a market with its books. So a client that was not
  enabled never submits an order.
\<close>

theorem session_budget:
  "sent_with verb (foldl (clob_step env c) w calls) \<le> sent_with verb w + sum_list (map (budget c verb) calls)"
proof (induction calls arbitrary: w)
  case (Cons clobCall calls)
  show ?case using Cons.IH [of "clob_step env c w clobCall"] step_budget [of verb env c w clobCall] by simp
qed simp

end
