(* ===== verification/Polymarket_Auth.thy ===== *)
theory Polymarket_Auth
  imports Polymarket_Safety
begin

text \<open>
  The account credentials of Polymarket: \<open>utils/polymarket/auth.go\<close>, the proof a wallet signs, and
  \<open>providers/polymarket/auth.go\<close>, its exchange for credentials and their revocation. What go-ethereum
  does with addresses, typed data and signatures is the record \<open>auth_env\<close>.
\<close>

section \<open>The proof\<close>

definition AuthDomainName :: string where "AuthDomainName = ''ClobAuthDomain''"
definition AuthDomainVersion :: string where "AuthDomainVersion = ''1''"
definition AuthMessage :: string where "AuthMessage = ''This message attests that I control the given wallet''"

record AuthPayload =
  tdTypes :: "(string \<times> (string \<times> string) list) list"
  tdPrimaryType :: string
  tdName :: string
  tdVersion :: string
  tdChainId :: int
  tdMessage :: "(string \<times> string) list"

record auth_env =
  aeIsHexAddress :: "string \<Rightarrow> bool"
  aeHexToAddress :: "string \<Rightarrow> address"
  aeTypedDataHash :: "AuthPayload \<Rightarrow> string + bytes"
  aeHexDecode :: "string \<Rightarrow> string + bytes"
  aeValidateSignatureValues :: "8 word \<Rightarrow> nat \<Rightarrow> nat \<Rightarrow> bool \<Rightarrow> bool"
  aeSigToAddress :: "bytes \<Rightarrow> bytes \<Rightarrow> string + address"

definition AuthTypedData :: "auth_env \<Rightarrow> string \<Rightarrow> int \<Rightarrow> u64 \<Rightarrow> pm_error + AuthPayload" where
  "AuthTypedData ae addr timestamp nonce =
     (if \<not> aeIsHexAddress ae addr \<or> aeHexToAddress ae addr = 0 \<or> timestamp \<le> 0
      then Inl (PmText ''polymarket: invalid authentication identity or timestamp'')
      else Inr \<lparr>tdTypes =
           [(''EIP712Domain'', [(''name'', ''string''), (''version'', ''string''), (''chainId'', ''uint256'')]),
            (''ClobAuth'', [(''address'', ''address''), (''timestamp'', ''string''), (''nonce'', ''uint256''), (''message'', ''string'')])],
         tdPrimaryType = ''ClobAuth'', tdName = AuthDomainName, tdVersion = AuthDomainVersion, tdChainId = 137,
         tdMessage = [(''address'', go_lower addr), (''timestamp'', dec_int timestamp), (''nonce'', dec_nat (unat nonce)),
           (''message'', AuthMessage)]\<rparr>)"

definition VerifyAuthSignature :: "auth_env \<Rightarrow> string \<Rightarrow> int \<Rightarrow> u64 \<Rightarrow> string \<Rightarrow> pm_error option" where
  "VerifyAuthSignature ae addr timestamp nonce signature =
     (case AuthTypedData ae addr timestamp nonce of
        Inl e \<Rightarrow> Some e
      | Inr data \<Rightarrow>
     (case aeTypedDataHash ae data of
        Inl _ \<Rightarrow> Some (PmText ''polymarket: invalid authentication payload'')
      | Inr digest \<Rightarrow>
     (case aeHexDecode ae signature of
        Inl _ \<Rightarrow> Some (PmText ''polymarket: invalid authentication signature'')
      | Inr sig0 \<Rightarrow>
          if length sig0 \<noteq> 65 then Some (PmText ''polymarket: invalid authentication signature'')
          else
            let sig = (if sig0 ! 64 \<ge> 27 then sig0[64 := sig0 ! 64 - 27] else sig0)
            in if \<not> aeValidateSignatureValues ae (sig ! 64) (bytes_value (take 32 sig)) (bytes_value (take 32 (drop 32 sig))) True
               then Some (PmText ''polymarket: invalid authentication signature'')
               else case aeSigToAddress ae digest sig of
                      Inl _ \<Rightarrow> Some (PmText ''polymarket: authentication signer mismatch'')
                    | Inr signer \<Rightarrow>
                        if signer \<noteq> aeHexToAddress ae addr then Some (PmText ''polymarket: authentication signer mismatch'')
                        else None)))"

section \<open>Credentials\<close>

record L1Authorization =
  l1Address :: string
  l1Timestamp :: int
  l1Nonce :: u64
  l1Signature :: string

definition L1Authorization_String :: "L1Authorization \<Rightarrow> string" where
  "L1Authorization_String auth = ''[redacted polymarket authorization]''"

definition L1Authorization_MarshalJSON :: "L1Authorization \<Rightarrow> string" where
  "L1Authorization_MarshalJSON auth = json_quote ''[redacted polymarket authorization]''"

definition NewCredentialClient :: "clob_env \<Rightarrow> (nat \<Rightarrow> time) \<Rightarrow> (clientConfig \<Rightarrow> clientConfig) option list \<Rightarrow> pm_error + clob_client" where
  "NewCredentialClient env time_Now options = (case clob_New env time_Now options of Inl e \<Rightarrow> Inl e | Inr c \<Rightarrow> Inr c)"

text \<open>\<open>time.Unix(sec, 0)\<close>: the seconds are an int64 since Go's zero time.\<close>

definition unix_time :: "int \<Rightarrow> time" where
  "unix_time sec = wrap_i64 (sec + 62135596800) * second"

record credential_wire =
  wiAPIKey :: string
  wiSecret :: string
  wiPassphrase :: string

definition json_wire :: "(pm_error, credential_wire) decoder" where
  "json_wire = struct [(''apiKey'', field wiAPIKey wiAPIKey_update json_string), (''secret'', field wiSecret wiSecret_update json_string),
     (''passphrase'', field wiPassphrase wiPassphrase_update json_string)]"

definition credential_request :: "clob_client \<Rightarrow> string \<Rightarrow> string \<Rightarrow> L1Authorization \<Rightarrow> http_request" where
  "credential_request c verb path auth =
     \<lparr>reqMethod = verb, reqURL = clBaseURL c @ path,
      reqHeader = Header_Set ''POLY_SIGNATURE'' (l1Signature auth)
        (Header_Set ''POLY_NONCE'' (dec_nat (unat (l1Nonce auth)))
          (Header_Set ''POLY_TIMESTAMP'' (dec_int (l1Timestamp auth))
            (Header_Set ''POLY_ADDRESS'' (go_lower (l1Address auth)) (Header_Set ''Accept'' ''application/json'' [])))),
      reqBody = [], reqDeadline = None\<rparr>"

definition exchangeCredentials :: "clob_env \<Rightarrow> clob_client \<Rightarrow> string \<Rightarrow> string \<Rightarrow> L1Authorization \<Rightarrow> clob_world \<Rightarrow>
    (pm_error + Credentials) \<times> clob_world" where
  "exchangeCredentials env c verb path auth w =
     (let n = length (cwSent w)
      in if ceInvalid env (clBaseURL c @ path) \<noteq> None then (Inl (PmText ''polymarket: cannot construct credential request''), w)
         else
           let request = credential_request c verb path auth; w1 = sent_one request w
           in case ceDo env (clHttpClient c) n request of
                Inl _ \<Rightarrow> (Inl (PmText ''polymarket: credential request failed''), w1)
              | Inr response \<Rightarrow>
                  if respStatus response < 200 \<or> respStatus response \<ge> 300
                  then (Inl (PmHTTP \<lparr>pmStatusCode = respStatus response, pmBody = [], pmRetryAfter = clob_retryAfter env n response\<rparr>), w1)
                  else case readBounded (respBody response) 4096 of
                         Inl _ \<Rightarrow> (Inl (PmText ''polymarket: invalid credential response''), w1)
                       | Inr payload \<Rightarrow>
                           (case Unmarshal (PmCause ''json'') json_wire \<lparr>wiAPIKey = [], wiSecret = [], wiPassphrase = []\<rparr> payload of
                              Inl _ \<Rightarrow> (Inl (PmText ''polymarket: invalid credential response''), w1)
                            | Inr wire \<Rightarrow>
                                let creds = \<lparr>crAddress = go_lower (l1Address auth), crAPIKey = wiAPIKey wire,
                                      crAPISecret = wiSecret wire, crPassphrase = wiPassphrase wire\<rparr>
                                in if Credentials_Validate creds \<noteq> None
                                   then (Inl (PmText ''polymarket: invalid credential response''), w1)
                                   else (Inr creds, w1)))"

definition CreateOrDeriveCredentials :: "clob_env \<Rightarrow> auth_env \<Rightarrow> clob_client \<Rightarrow> L1Authorization \<Rightarrow> clob_world \<Rightarrow>
    (pm_error + Credentials) \<times> clob_world" where
  "CreateOrDeriveCredentials env ae c auth w =
     (let n = length (cwSent w); t = clNow c n; stamp = unix_time (l1Timestamp auth)
      in if stamp < t - 5 * 60 * second \<or> stamp > t + 30 * second
         then (Inl (PmText ''polymarket: authentication proof is expired or future-dated''), w)
         else case VerifyAuthSignature ae (l1Address auth) (l1Timestamp auth) (l1Nonce auth) (l1Signature auth) of
                Some e \<Rightarrow> (Inl e, w)
              | None \<Rightarrow>
                  (case exchangeCredentials env c ''POST'' ''/auth/api-key'' auth w of
                     (Inr creds, w1) \<Rightarrow> (Inr creds, w1)
                   | (Inl err, w1) \<Rightarrow>
                       (case ceCtxErr env n of
                          Some e \<Rightarrow> (Inl (PmCause e), w1)
                        | None \<Rightarrow>
                            if (case as_HTTPError err of
                                  Some h \<Rightarrow> pmStatusCode h = 401 \<or> pmStatusCode h = 403 \<or> pmStatusCode h = 429
                                | None \<Rightarrow> False)
                            then (Inl err, w1)
                            else exchangeCredentials env c ''GET'' ''/auth/derive-api-key'' auth w1)))"

definition RevokeCredentials :: "clob_env \<Rightarrow> clob_client \<Rightarrow> Credentials \<Rightarrow> clob_world \<Rightarrow> pm_error option \<times> clob_world" where
  "RevokeCredentials env c credentials w =
     (case requireCredentials credentials of
        Some e \<Rightarrow> (Some e, w)
      | None \<Rightarrow>
          (case clob_do env c ''DELETE'' ''/auth/api-key'' None None (Some credentials) 4096 (\<lambda>_. Inr ()) w of
             (Inr _, w1) \<Rightarrow> (None, w1)
           | (Inl err, w1) \<Rightarrow>
               (case as_HTTPError err of
                  Some h \<Rightarrow> (Some (PmHTTP \<lparr>pmStatusCode = pmStatusCode h, pmBody = [], pmRetryAfter = pmRetryAfter h\<rparr>), w1)
                | None \<Rightarrow> (Some err, w1))))"

section \<open>The exchange of a proof for credentials\<close>

lemma exchangeCredentials_sends:
  assumes "exchangeCredentials env c verb path auth w = (r, w')"
  shows "w' = w \<and> r = Inl (PmText ''polymarket: cannot construct credential request'') \<or> w' = sent_one (credential_request c verb path auth) w"
  using assms by (auto simp: exchangeCredentials_def Let_def split: if_split_asm sum.split_asm)

lemma exchangeCredentials_result:
  assumes "exchangeCredentials env c verb path auth w = (r, w')"
  shows "case r of
      Inr creds \<Rightarrow> Credentials_Validate creds = None \<and> crAddress creds = go_lower (l1Address auth)
    | Inl e \<Rightarrow> \<forall>h. as_HTTPError e = Some h \<longrightarrow> pmBody h = []"
  using assms by (auto simp: exchangeCredentials_def Let_def split: if_split_asm sum.split_asm)

lemma exchangeCredentials_status:
  assumes "exchangeCredentials env c verb path auth w = (r, sent_one req w)"
    and "ceDo env (clHttpClient c) (length (cwSent w)) req = Inr resp" and "respStatus resp \<in> {401, 403, 429}"
  shows "\<exists>h. r = Inl (PmHTTP h) \<and> pmStatusCode h = respStatus resp"
  using assms sent_one_simps(2) [of req w, symmetric] by (auto simp: exchangeCredentials_def Let_def split: if_split_asm sum.split_asm)

lemma derive_after_create:
  assumes "exchangeCredentials env c ''POST'' ''/auth/api-key'' auth w = (r1, w1)"
    and "exchangeCredentials env c ''GET'' ''/auth/derive-api-key'' auth w1 = (r, w')"
    and "r1 = Inl err" and "\<And>h. as_HTTPError err = Some h \<Longrightarrow> pmStatusCode h \<notin> {401, 403, 429}"
  defines "n \<equiv> length (cwSent w)"
    and "create \<equiv> credential_request c ''POST'' ''/auth/api-key'' auth"
    and "derive \<equiv> credential_request c ''GET'' ''/auth/derive-api-key'' auth"
  shows "\<exists>reqs \<in> {[], [create], [derive], [create, derive]}. cwSent w' = cwSent w @ reqs \<and>
    (\<forall>resp. reqs = [create, derive] \<and> ceDo env (clHttpClient c) n create = Inr resp \<longrightarrow> respStatus resp \<notin> {401, 403, 429})"
proof (cases "w1 = w")
  case True
  then show ?thesis using exchangeCredentials_sends [OF assms(2), folded derive_def] by (auto simp: sent_one_def)
next
  case False
  then have w1: "w1 = sent_one create w" using exchangeCredentials_sends [OF assms(1), folded create_def] by simp
  have "respStatus resp \<notin> {401, 403, 429}" if "ceDo env (clHttpClient c) n create = Inr resp" for resp
    using exchangeCredentials_status [OF assms(1) [unfolded w1] that [unfolded n_def]] assms(3,4) by auto
  then show ?thesis using exchangeCredentials_sends [OF assms(2), folded derive_def] by (auto simp: w1 sent_one_def)
qed

text \<open>
  C23. A wallet's proof is exchanged at most once. \<open>CreateOrDeriveCredentials\<close> sends nothing for a proof that is more
  than five minutes old, more than thirty seconds ahead or not signed by its address. Otherwise it sends
  at most one POST, which creates credentials, and after it at most one GET, which derives them, with the
  same proof; there is no GET after the context is done or after a response 401, 403 or 429. Credentials it
  returns are valid and belong to the address of the proof; an error that reports a status has
  nothing of the response's body.
\<close>

theorem CreateOrDerive_once:
  assumes "CreateOrDeriveCredentials env ae c auth w = (r, w')"
  defines "n \<equiv> length (cwSent w)"
    and "create \<equiv> credential_request c ''POST'' ''/auth/api-key'' auth"
    and "derive \<equiv> credential_request c ''GET'' ''/auth/derive-api-key'' auth"
  shows "\<exists>reqs \<in> {[], [create], [derive], [create, derive]}. cwSent w' = cwSent w @ reqs \<and>
    (reqs \<noteq> [] \<longrightarrow> clNow c n - 300 * second \<le> unix_time (l1Timestamp auth) \<and> unix_time (l1Timestamp auth) \<le> clNow c n + 30 * second \<and>
       VerifyAuthSignature ae (l1Address auth) (l1Timestamp auth) (l1Nonce auth) (l1Signature auth) = None) \<and>
    (derive \<in> set reqs \<longrightarrow> ceCtxErr env n = None) \<and>
    (\<forall>resp. reqs = [create, derive] \<and> ceDo env (clHttpClient c) n create = Inr resp \<longrightarrow> respStatus resp \<notin> {401, 403, 429}) \<and>
    (case r of
       Inr creds \<Rightarrow> Credentials_Validate creds = None \<and> crAddress creds = go_lower (l1Address auth)
     | Inl e \<Rightarrow> \<forall>h. as_HTTPError e = Some h \<longrightarrow> pmBody h = [])"
proof -
  have differ: "create \<noteq> derive" by (simp add: create_def derive_def credential_request_def)
  have proof_error: "as_HTTPError e = None" if "VerifyAuthSignature ae a t nonce sig = Some e" for a t nonce sig e
    using that by (auto simp: VerifyAuthSignature_def AuthTypedData_def Let_def split: sum.split_asm if_split_asm)
  let ?fresh = "clNow c n - 300 * second \<le> unix_time (l1Timestamp auth) \<and> unix_time (l1Timestamp auth) \<le> clNow c n + 30 * second \<and>
       VerifyAuthSignature ae (l1Address auth) (l1Timestamp auth) (l1Nonce auth) (l1Signature auth) = None"
  let ?result = "case r of
       Inr creds \<Rightarrow> Credentials_Validate creds = None \<and> crAddress creds = go_lower (l1Address auth)
     | Inl e \<Rightarrow> \<forall>h. as_HTTPError e = Some h \<longrightarrow> pmBody h = []"
  show ?thesis
  proof (cases ?fresh)
    case False
    then have "w' = w" "\<exists>e. r = Inl e \<and> as_HTTPError e = None"
      using assms(1) proof_error by (auto simp: CreateOrDeriveCredentials_def Let_def n_def not_le split: if_split_asm option.split_asm)
    then show ?thesis by (intro bexI [of _ "[]"]) auto
  next
    case True
    obtain r1 w1 where e1: "exchangeCredentials env c ''POST'' ''/auth/api-key'' auth w = (r1, w1)" by fastforce
    note s1 = exchangeCredentials_sends [OF e1, folded create_def]
    consider (one) "r = r1 \<or> (\<exists>e. r = Inl (PmCause e))" "w' = w1"
      | (two) err where "r1 = Inl err" "ceCtxErr env n = None"
          "\<And>h. as_HTTPError err = Some h \<Longrightarrow> pmStatusCode h \<notin> {401, 403, 429}"
          "exchangeCredentials env c ''GET'' ''/auth/derive-api-key'' auth w1 = (r, w')"
      using assms(1) True e1
      by (auto simp: CreateOrDeriveCredentials_def Let_def n_def split: if_split_asm option.split_asm sum.split_asm)
    then show ?thesis
    proof cases
      case one
      have res: ?result using one exchangeCredentials_result [OF e1] by auto
      show ?thesis
      proof (cases "w1 = w")
        case True
        then show ?thesis using one res by (intro bexI [of _ "[]"]) simp_all
      next
        case False
        then have "cwSent w' = cwSent w @ [create]" using one s1 by (simp add: sent_one_def)
        then show ?thesis using res \<open>?fresh\<close> differ [symmetric] by (intro bexI [of _ "[create]"]) simp_all
      qed
    next
      case two
      from derive_after_create [OF e1 two(4), of err] two(1,3) obtain reqs where
        reqs: "reqs \<in> {[], [create], [derive], [create, derive]}" "cwSent w' = cwSent w @ reqs"
          "\<forall>resp. reqs = [create, derive] \<and> ceDo env (clHttpClient c) n create = Inr resp \<longrightarrow> respStatus resp \<notin> {401, 403, 429}"
        unfolding create_def derive_def n_def by blast
      show ?thesis using reqs(2,3) exchangeCredentials_result [OF two(4)] \<open>?fresh\<close> two(2)
        by (intro bexI [OF _ reqs(1)] conjI) simp_all
    qed
  qed
qed

end
