(* ===== verification/Polymarket_Example.thy ===== *)
theory Polymarket_Example
  imports Polymarket_Auth "HOL-Library.Code_Target_Numeral"
begin

text \<open>
  A client of Polymarket with an order, a market and a wallet's proof, on which the theorems about the
  client are applied, and a market whose book was never validated. A backquote stands for a quote.
\<close>

section \<open>A client and its provider\<close>

definition pm_quoted :: "string \<Rightarrow> string" where
  "pm_quoted s = map (\<lambda>c. if c = CHR 0x60 then CHR 0x22 else c) s"

definition pm_env :: "string \<Rightarrow> clob_env" where
  "pm_env answer = \<lparr>ceParse = \<lambda>s. Inr \<lparr>urlScheme = ''https'', urlHost = s, urlUser = False, urlPath = [], urlRawQuery = [], urlFragment = []\<rparr>,
     ceString = urlHost, ceInvalid = \<lambda>_. None,
     ceDo = \<lambda>_ _ _. Inr \<lparr>respStatus = 200, respHeader = [], respBody = \<lparr>rbBytes = pm_quoted answer, rbErr = None, rbCloseErr = None\<rparr>\<rparr>,
     ceCtxErr = \<lambda>_. None, ceWaitCancelled = \<lambda>_. None, ceParseTime = \<lambda>_. None, ceWall = \<lambda>_. 0, ceAddrHex = \<lambda>_. ''0xAb''\<rparr>"

definition pm_client :: clob_client where
  "pm_client = \<lparr>clBaseURL = DefaultCLOBURL, clHttpClient = \<lparr>chDoer = None, chTimeout = 10 * second, chFollowsRedirects = False\<rparr>,
     clOrderSubmissionEnabled = True, clNow = \<lambda>_. 63900000000 * second\<rparr>"

definition pm_address :: string where
  "pm_address = ''0x00000000000000000000000000000000000000ab''"

definition pm_hash :: string where
  "pm_hash = ''0x00000000000000000000000000000000000000000000000000000000000000cd''"

definition pm_creds :: Credentials where
  "pm_creds = \<lparr>crAddress = pm_address, crAPIKey = ''key'', crAPISecret = ''c2VjcmV0'', crPassphrase = ''pass''\<rparr>"

definition pm_world :: clob_world where
  "pm_world = \<lparr>cwSent = [], cwWaits = []\<rparr>"

section \<open>An order\<close>

definition pm_order :: SignedOrder where
  "pm_order = \<lparr>soOrder = \<lparr>Salt = 7, Maker = 171, Signer = 171, TokenID = ''5'', MakerAmount = ''10000'', TakerAmount = ''20000'',
     Side = 0, SignatureType = 3, Timestamp = 1, Metadata = 0, Builder = 0\<rparr>,
     soSignature = ''0x01'', soExpiration = 0, soOrderType = ''GTC'', soPostOnly = False\<rparr>"

definition pm_placed :: string where
  "pm_placed = ''{`success`:true, `orderID`:`A-1`, `status`:`live`} ''"

lemma pm_creds_valid: "Credentials_Validate pm_creds = None"
  by code_simp

lemma pm_order_valid: "SignedOrder_Validate pm_order = None"
  by code_simp

lemma pm_placed_decodes: "(case Decode json_OrderPlacement zero_placement (pm_quoted pm_placed) of
    Inr p \<Rightarrow> OrderPlacement_Validate p = None \<and> plOrderID p = ''A-1'' | Inl _ \<Rightarrow> False)"
  by code_simp

lemma pm_payload_short: "length (marshal_createOrder (SignedOrder_payload (ceAddrHex (pm_env pm_placed)) pm_order (crAPIKey pm_creds))) \<le> 1048576"
  by code_simp

text \<open>A request with valid credentials is built, whatever it is signed to.\<close>

lemma pm_request: "\<exists>req. build_request pm_client verb path url content (Some pm_creds) n = Inr req"
proof -
  have "\<exists>secret. decodeURLBase64 (crAPISecret pm_creds) = Some secret"
    using pm_creds_valid by (auto simp: Credentials_Validate_def split: if_splits option.splits)
  then show ?thesis
    by (auto simp: build_request_def setL2Headers_def pm_creds_valid pm_client_def IsZero_def Unix_def second_def Let_def)
qed

lemma pm_answer_short: "length (pm_quoted pm_placed) \<le> maxPrivateBodyBytes"
  by code_simp

lemma pm_placement: "\<exists>p w'. PostOrder (pm_env pm_placed) pm_client pm_creds pm_order pm_world = (Inr p, w') \<and> plOrderID p = ''A-1''"
proof -
  obtain p where p: "Decode json_OrderPlacement zero_placement (pm_quoted pm_placed) = Inr p" "OrderPlacement_Validate p = None" "plOrderID p = ''A-1''"
    using pm_placed_decodes by (auto split: sum.splits)
  have require: "requireSubmission pm_client pm_creds = None"
    by (simp add: requireSubmission_def requireCredentials_def pm_creds_valid pm_client_def)
  obtain req where req: "build_request pm_client ''POST'' ''/order'' (DefaultCLOBURL @ ''/order'')
      (Some (marshal_createOrder (SignedOrder_payload (ceAddrHex (pm_env pm_placed)) pm_order (crAPIKey pm_creds)))) (Some pm_creds) 0 = Inr req"
    using pm_request by blast
  have url: "clBaseURL pm_client = DefaultCLOBURL" "length (cwSent pm_world) = 0" by (simp_all add: pm_client_def pm_world_def)
  have env: "ceParse (pm_env pm_placed) u = Inr \<lparr>urlScheme = ''https'', urlHost = u, urlUser = False, urlPath = [], urlRawQuery = [], urlFragment = []\<rparr>"
    "ceString (pm_env pm_placed) = urlHost" "ceInvalid (pm_env pm_placed) u = None"
    "ceDo (pm_env pm_placed) h n r = Inr \<lparr>respStatus = 200, respHeader = [], respBody = \<lparr>rbBytes = pm_quoted pm_placed, rbErr = None, rbCloseErr = None\<rparr>\<rparr>"
    for u h n r by (simp_all add: pm_env_def)
  have "\<not> length (marshal_createOrder (SignedOrder_payload (ceAddrHex (pm_env pm_placed)) pm_order (crAPIKey pm_creds))) > maxRequestBodyBytes"
    using pm_payload_short by (simp add: maxRequestBodyBytes_def)
  then show ?thesis using p(3) pm_answer_short
    by (simp add: PostOrder_def require pm_order_valid clob_do_def url env req decodeResponse_def readBounded_def read_limited_def
        p(1,2) validated_def Let_def)
qed

theorem PostOrder_once_witness:
  "\<exists>p req. PostOrder (pm_env pm_placed) pm_client pm_creds pm_order pm_world = (Inr p, sent_one req pm_world) \<and> plOrderID p = ''A-1'' \<and>
     reqMethod req = ''POST'' \<and>
     l2_authenticated pm_creds ''/order'' (marshal_createOrder (SignedOrder_payload (ceAddrHex (pm_env pm_placed)) pm_order (crAPIKey pm_creds)))
       (clNow pm_client 0) req"
proof -
  obtain p w' where p: "PostOrder (pm_env pm_placed) pm_client pm_creds pm_order pm_world = (Inr p, w')" "plOrderID p = ''A-1''"
    using pm_placement by blast
  have "length (cwSent pm_world) = 0" by (simp add: pm_world_def)
  then show ?thesis using PostOrder_once [OF p(1)] p by auto
qed

section \<open>A market\<close>

text \<open>The response to the market carries an empty book, which the client replaces if it was asked for books.\<close>

definition pm_market :: string where
  "pm_market = ''{`condition_id`:`'' @ pm_hash @ ''`, `question`:`q`, `minimum_tick_size`:0.01, `minimum_order_size`:`5`, '' @
     ''`tokens`:[{`token_id`:`5`, `outcome`:`Yes`, `price`:0.5, `book`:{}}]}''"

definition pm_book :: string where
  "pm_book = ''{`market`:`'' @ pm_hash @ ''`, `asset_id`:`5`, `bids`:[{`price`:`0.4`,`size`:`10`}], `asks`:[]}''"

definition pm_market_env :: clob_env where
  "pm_market_env = (pm_env [])\<lparr>ceDo := \<lambda>_ n _. Inr \<lparr>respStatus = 200, respHeader = [],
     respBody = \<lparr>rbBytes = pm_quoted (if n = 0 then pm_market else pm_book), rbErr = None, rbCloseErr = None\<rparr>\<rparr>\<rparr>"

text \<open>A query without credentials whose response decodes returns the value after one request.\<close>

lemma pm_query:
  assumes "length (pm_quoted (if length (cwSent w) = 0 then pm_market else pm_book)) \<le> limit"
    and "Decode d zero (pm_quoted (if length (cwSent w) = 0 then pm_market else pm_book)) = Inr v"
  shows "\<exists>w'. clob_do pm_market_env pm_client ''GET'' path query None None limit (Decode d zero) w = (Inr v, w') \<and>
    length (cwSent w') = Suc (length (cwSent w))"
proof -
  have env: "ceParse pm_market_env u = Inr \<lparr>urlScheme = ''https'', urlHost = u, urlUser = False, urlPath = [], urlRawQuery = [], urlFragment = []\<rparr>"
    "ceInvalid pm_market_env u = None"
    "ceDo pm_market_env h n r = Inr \<lparr>respStatus = 200, respHeader = [],
      respBody = \<lparr>rbBytes = pm_quoted (if n = 0 then pm_market else pm_book), rbErr = None, rbCloseErr = None\<rparr>\<rparr>"
    for u h n r by (simp_all add: pm_market_env_def pm_env_def)
  show ?thesis using assms
    by (simp add: clob_do_def env build_request_def decodeResponse_def readBounded_def read_limited_def Let_def maxTransientAttempts_def
        numeral_2_eq_2 sent_one_def)
qed

lemma pm_hash_valid: "isHash pm_hash" and pm_texts_short: "length (pm_quoted pm_market) \<le> maxPublicBodyBytes" "length (pm_quoted pm_book) \<le> maxPublicBodyBytes"
  by code_simp+

definition pm_market_ok :: "Market \<Rightarrow> bool" where
  "pm_market_ok m \<longleftrightarrow> Market_Validate m = None \<and> mkConditionID m = pm_hash \<and> map tnTokenID (mkTokens m) = [''5''] \<and>
     map (map_option bkMarket \<circ> tnBook) (mkTokens m) = [Some []]"

lemma pm_market_decodes: "case Decode json_Market zero_market (pm_quoted pm_market) of Inr m \<Rightarrow> pm_market_ok m | Inl _ \<Rightarrow> False"
  by code_simp

lemma pm_book_decodes: "case Decode json_OrderBook zero_book (pm_quoted pm_book) of Inr b \<Rightarrow> OrderBook_Validate ''5'' b = None | Inl _ \<Rightarrow> False"
  by code_simp

lemma pm_market_call:
  obtains m w1 t book where "pm_market_ok m" "mkTokens m = [t]" "tnTokenID t = ''5''" "tnBook t = Some book" "bkMarket book = []"
    "\<And>b. GetMarket pm_market_env pm_client pm_hash b pm_world =
      (if b then (case getBook pm_market_env pm_client ''5'' w1 of (Inl e, w2) \<Rightarrow> (Inl e, w2)
         | (Inr bk, w2) \<Rightarrow> (Inr (m\<lparr>mkTokens := [t\<lparr>tnBook := Some bk\<rparr>]\<rparr>), w2)) else (Inr m, w1))"
    "length (cwSent w1) = 1"
proof -
  obtain m where m: "Decode json_Market zero_market (pm_quoted pm_market) = Inr m" "pm_market_ok m"
    using pm_market_decodes by (auto split: sum.splits)
  have w: "length (cwSent pm_world) = 0" by (simp add: pm_world_def)
  from pm_query [of pm_world maxPublicBodyBytes json_Market zero_market m "''/markets/'' @ go_lower pm_hash" None] m(1) w pm_texts_short(1)
  obtain w1 where w1: "clob_do pm_market_env pm_client ''GET'' (''/markets/'' @ go_lower pm_hash) None None None maxPublicBodyBytes
      (Decode json_Market zero_market) pm_world = (Inr m, w1)" "length (cwSent w1) = 1" by auto
  from m(2) obtain t book where t: "mkTokens m = [t]" "tnTokenID t = ''5''" "tnBook t = Some book" "bkMarket book = []"
    by (auto simp: pm_market_ok_def)
  have "GetMarket pm_market_env pm_client pm_hash b pm_world =
      (if b then (case getBook pm_market_env pm_client ''5'' w1 of (Inl e, w2) \<Rightarrow> (Inl e, w2)
         | (Inr bk, w2) \<Rightarrow> (Inr (m\<lparr>mkTokens := [t\<lparr>tnBook := Some bk\<rparr>]\<rparr>), w2)) else (Inr m, w1))" for b
    unfolding GetMarket_def w1(1) using m(2)
    by (cases "getBook pm_market_env pm_client ''5'' w1"; cases "fst (getBook pm_market_env pm_client ''5'' w1)")
      (simp_all add: pm_hash_valid validated_def pm_market_ok_def EqualFold_def t)
  then show ?thesis using that m(2) t w1(2) by blast
qed


text \<open>Without \<open>includeBooks\<close> the book of the response is passed on, and \<open>Validate\<close> of the market does not look at it.\<close>

lemma unvalidated_book:
  "\<exists>m w' t book. GetMarket pm_market_env pm_client pm_hash False pm_world = (Inr m, w') \<and> mkTokens m = [t] \<and> tnBook t = Some book \<and>
     OrderBook_Validate (tnTokenID t) book \<noteq> None"
proof -
  obtain m w1 t book where m: "GetMarket pm_market_env pm_client pm_hash False pm_world = (Inr m, w1)"
    "mkTokens m = [t]" "tnBook t = Some book" "bkMarket book = []"
    by (rule pm_market_call) simp
  then have "OrderBook_Validate (tnTokenID t) book \<noteq> None" by (simp add: OrderBook_Validate_def isHash_def)
  then show ?thesis using m by blast
qed

section \<open>A proof\<close>

definition pm_auth_env :: auth_env where
  "pm_auth_env = \<lparr>aeIsHexAddress = \<lambda>s. length s = 42, aeHexToAddress = \<lambda>s. of_nat (length s), aeTypedDataHash = \<lambda>_. Inr [],
     aeHexDecode = \<lambda>_. Inr (replicate 64 1 @ [28]), aeValidateSignatureValues = \<lambda>v _ _ _. v = 0 \<or> v = 1, aeSigToAddress = \<lambda>_ _. Inr 42\<rparr>"

definition pm_auth :: L1Authorization where
  "pm_auth = \<lparr>l1Address = pm_address, l1Timestamp = 63900000000 - 62135596800, l1Nonce = 0, l1Signature = ''0x01''\<rparr>"

text \<open>The creation is answered by an error of the provider, the derivation by the credentials.\<close>

definition pm_credential_env :: clob_env where
  "pm_credential_env = (pm_env [])\<lparr>ceDo := \<lambda>_ n _. Inr \<lparr>respStatus = (if n = 0 then 500 else 200), respHeader = [],
     respBody = \<lparr>rbBytes = pm_quoted ''{`apiKey`:`k`,`secret`:`c2VjcmV0`,`passphrase`:`p`}'', rbErr = None, rbCloseErr = None\<rparr>\<rparr>\<rparr>"

lemma pm_credentials_derived: "(case CreateOrDeriveCredentials pm_credential_env pm_auth_env pm_client pm_auth pm_world of
    (Inr creds, w') \<Rightarrow> crAPIKey creds = ''k'' \<and> length (cwSent w') = 2 | _ \<Rightarrow> False)"
  by code_simp

theorem CreateOrDerive_once_witness:
  "\<exists>creds w'. CreateOrDeriveCredentials pm_credential_env pm_auth_env pm_client pm_auth pm_world = (Inr creds, w') \<and>
     cwSent w' = [credential_request pm_client ''POST'' ''/auth/api-key'' pm_auth,
       credential_request pm_client ''GET'' ''/auth/derive-api-key'' pm_auth] \<and> Credentials_Validate creds = None"
proof -
  obtain creds w' where c: "CreateOrDeriveCredentials pm_credential_env pm_auth_env pm_client pm_auth pm_world = (Inr creds, w')"
    "length (cwSent w') = 2"
    using pm_credentials_derived by (auto split: prod.splits sum.splits)
  then show ?thesis using CreateOrDerive_once [OF c(1)] by (auto simp: pm_world_def)
qed

end
