(* ===== verification/Spec2Isabelle.thy ===== *)
theory Spec2Isabelle
  imports Tx_Example Tx_Lifecycle Event_Indexer Backoff Http_Client Polymarket_Order Addresses Core_Writer Hyperliquid_Action
    Frankfurter_Example Pg_Example Kms_Signer Hyperliquid_Example Polymarket_Example
begin

text \<open>
  Verification of superform-go-utils, a library of Go packages shared by the backend services of
  Superform: a durable transaction manager for EVM chains, an event indexer, an HTTP client with
  retries, clients of third-party services built on it, and helpers for amounts, addresses, slices
  and Polymarket orders.

  \<^bold>\<open>Conventions.\<close> A uint64 is a 64-bit word and wraps; an int and a \<open>time.Duration\<close> are integers that wrap
  through \<open>wrap_i64\<close> where the code computes with them near their bounds; a \<open>*big.Int\<close> is an integer, or
  an optional one where nil is distinguished; a string is a list of bytes; a struct is a record; a
  map is an association list in the order of one iteration. A call returns a value (\<open>Ret\<close>), an error
  (\<open>Fail\<close>) or panics (\<open>Panic\<close>); stateful code is an action, a function from a state to an outcome and
  the next state, and a panic unwinds through \<open>bindA\<close> and \<open>tryA\<close> as in Go. Goroutines are inductive
  step relations in which a critical section is one step. Nodes, clocks, contexts, signers, the
  network and go-ethereum are parameters: functions of a counter of calls, so each call may answer
  differently, with what the code relies on as named hypotheses.

  \<^bold>\<open>Shared theories.\<close> \<open>Prelude\<close>: machine types, decimal and hexadecimal text, stable sorting, actions
  with Hoare triples (\<open>triple\<close>), invariants (\<open>keeps\<close>) and their rules (\<open>hoare_rules\<close>). \<open>Go_Errors\<close>: error
  values and chains. \<open>Go_Text\<close>: what is used of \<open>strings\<close>, \<open>strconv\<close> and \<open>big.Int.SetString\<close>. \<open>Go_Hex\<close>:
  \<open>encoding/hex\<close> and big-endian bytes. \<open>Go_Time\<close>: the proleptic Gregorian calendar of \<open>time\<close>, with formatting
  and parsing of dates. \<open>Go_Json\<close>: valid texts of \<open>encoding/json\<close> and \<open>Unmarshal\<close> into structs, with its
  case-insensitive keys, its treatment of \<open>null\<close> and its \<open>UnmarshalJSON\<close> methods. \<open>Go_Crypto\<close>: URL-safe
  base64, which decodes what it encodes, SHA-256 and HMAC.

  \<^bold>\<open>The transaction manager\<close> (\<open>src/evm/txmngr\<close>). A service submits a transaction; the manager
  records it, assigns nonces in order per sender and chain (a lane) under a lock of the store, signs,
  records each signed attempt before it is sent, rebroadcasts with higher fees, reconciles with
  receipts and nonces of the chain, and delivers terminal results to a callback. Several replicas
  may share the store.

    \<^item> \<open>Tx_Provider\<close> (\<open>txmngr_provider/tx.go\<close>): rows, attempts, statuses, queries, and the store interface
      as the record \<open>queue\<close> and the locale \<open>transactions_queue\<close>, which fixes the abstract contents of a
      store and assumes what each operation does to them.
    \<^item> \<open>Mem_Queue\<close> (\<open>txmngr_provider/mem\<close>): the in-memory store, operation by operation, and its
      interpretation of \<open>transactions_queue\<close>: the refinement of the abstract contents by the maps of
      the code. Idempotent insertion, exclusion of lane locks, order of queries.
    \<^item> \<open>Pg_Rows\<close>, \<open>Pg_Store\<close> (\<open>txmngr_provider/pg\<close>): the PostgreSQL store: columns of a row and back,
      statements as functions of the tables that may fail before or after they are executed, queues of
      one signer, advisory locks. Rows read back what was written, both providers answer the same
      queries alike, updates are guarded. \<open>Pg_Example\<close>: the witnesses.
    \<^item> \<open>Kms_Signer\<close> (\<open>evm/ethawskmssigner\<close>): signatures of a KMS key in Ethereum's form: 65 bytes, a low
      \<open>s\<close>, recovering to the expected key.
    \<^item> \<open>Nonce_Lane\<close>, \<open>Gas_Fee\<close>, \<open>Messages\<close>, \<open>Broadcast_Errors\<close> (\<open>txmngr.go\<close>): the parts without state:
      the lane counter, fee arithmetic, bounded UTF-8 messages, classification and redaction of RPC
      errors with the regular expressions as matchers.
    \<^item> \<open>Tx_World\<close>, \<open>Tx_Attempts\<close>, \<open>Tx_Step\<close>, \<open>Tx_Batch\<close> (\<open>txmngr.go\<close>): the manager's operations over the
      record \<open>world\<close> (the store, the lane, the counter of environment calls, the log of observable
      events), in the order of the code: scheduling and terminal transitions; attempts; one step of one
      transaction; lane batches, the round robin over chains, notifications, metrics, submission.
    \<^item> \<open>Tx_Frame\<close>: locales \<open>store_invariant\<close> and \<open>locked_invariant\<close>: what every store operation keeps, the
      manager keeps. \<open>Tx_Invariant\<close>, \<open>Tx_Safety\<close>, \<open>Tx_Step_Safety\<close>, \<open>Tx_Batch_Safety\<close>: the invariant of
      the durable rows and attempts through every operation, inside \<open>transactions_queue\<close>.
    \<^item> \<open>Tx_Properties\<close>, \<open>Tx_History\<close>: the theorems about all runs of any number of managers on one store:
      no nonce is shared, nothing is sent that is not recorded, results have receipts, attempts agree,
      messages are bounded; terminal rows are final, attempts are only appended, locks are released on
      every path. \<open>Tx_Example\<close>: a concrete run, the source of their witnesses.
    \<^item> \<open>Tx_Lifecycle\<close>: \<open>Start\<close>, \<open>Stop\<close> and \<open>runLoop\<close> as concurrent steps: nothing runs after \<open>Stop\<close>
      returns, and \<open>Stop\<close> can always return.

  \<^bold>\<open>The event indexer\<close> (\<open>src/evm/eventindexer\<close>), \<open>Event_Indexer\<close>: registration, subscriptions, the watcher
  and a goroutine per contract as the step relation \<open>indexer_step\<close>. In every interleaving channels are
  closed once and never used afterwards, the bookkeeping is exact, a stop drains, registration is
  atomic.

  \<^bold>\<open>HTTP and backoff\<close> (\<open>src/pkg\<close>). \<open>Backoff\<close>: the retry loops with their waits, and that they end.
  \<open>Http_Client\<close>: the builder, the retrying transport, body limits, status errors, \<open>Retry-After\<close>, JSON
  requests. Bodies are read through the locale \<open>io_reader\<close>.

  \<^bold>\<open>Helpers\<close> (\<open>src/utils\<close>). \<open>Units\<close>: amounts; printing and parsing are inverse, basis points split an amount
  without loss. \<open>Polymarket_Order\<close>: orders; what \<open>BuildOrder\<close> accepts and returns, what a digest binds,
  what counts as a canonical number. \<open>Slices\<close>, \<open>Addresses\<close>: generic slice helpers, normal forms of
  addresses, native tokens.

  \<^bold>\<open>Frankfurter\<close> (\<open>src/providers/frankfurter\<close>). \<open>Frankfurter\<close>: the client with its cache of rates and failures;
  \<open>Frankfurter_Cache\<close>: its invariant, exact decoding, sound answers; \<open>Frankfurter_Calls\<close>: concurrent calls
  as steps between the critical sections; \<open>Frankfurter_Example\<close>: witnesses, and the interleaving that
  loses a fresh rate.

  \<^bold>\<open>Hyperliquid\<close> (\<open>src/providers/hyperliquid\<close>). \<open>Hyperliquid_Action\<close>: the digest of a signed action and what it
  binds, signer recovery, envelopes and their wire form, which are inverse up to the normal form of the
  recovery byte and the vault. \<open>Hyperliquid_Amount\<close>: decimals and their exact values.
  \<open>Hyperliquid_Evidence\<close>: ledger deltas, L1 actions, transactions and blocks decoded from JSON; decoded
  blocks are complete. \<open>Hyperliquid_Http\<close>, \<open>Hyperliquid_Reads\<close>: the clients; a signed write is dispatched at
  most once and its errors disclose nothing, the explorer's answers are about what was asked.
  \<open>Hyperliquid_Example\<close>: witnesses on concrete texts. In \<open>hypercore\<close>, \<open>Hypercore\<close>: conversions between EVM
  and HyperCore amounts, USD units, system addresses; the exact conversions are inverse. \<open>Core_Writer\<close>:
  actions decoded from calldata, logs and receipts; a decoded action encodes to the bytes it came from,
  and a receipt loses no evidence.

  \<^bold>\<open>Polymarket\<close> (\<open>src/providers/polymarket\<close>, \<open>src/utils/polymarket/auth.go\<close>). \<open>Polymarket_Types\<close>: the wire types,
  their decoding, encoding and validation. \<open>Polymarket_Client\<close>: the client over the world of requests sent
  and times waited: construction, authentication of requests, bounded responses, the retry of reads, one
  definition per call. \<open>Polymarket_Safety\<close>: a request that is sent is well formed and authenticated; an
  order is submitted at most once and only by an enabled client; the requests of a session stay within
  the budget of its calls; markets and books are checked; secrets are canonical. \<open>Polymarket_Auth\<close>: the
  proof of a wallet and its exchange for credentials, at most one creation and one derivation.
  \<open>Polymarket_Example\<close>: witnesses, and a market whose book was not validated.

  \<^bold>\<open>Fuel and bounds.\<close> \<open>strip_runes\<close> takes the length of the text as fuel, enough because each rune has a
  byte; \<open>persist_loop\<close> and the retry loops (\<open>do_attempts\<close> too) recurse on the number of tries the code allows;
  \<open>WaitTxCompleted\<close> and the reads of a body recurse on the number of ticks or reads granted by the
  environment, and their theorems say what holds after each; \<open>pad_left\<close> makes 32 passes, the most the
  padding of a signature needs; \<open>evict\<close> is a partial function that is shown to return; \<open>Chunk_loop\<close>,
  \<open>ToValidUTF8\<close>, the scanner of \<open>Go_Json\<close> and the other loops have termination proofs.

  \<^bold>\<open>Not modelled.\<close> Transaction authorization (calls of go-ethereum), configuration hooks and the file loader
  (reflection and I/O), the ABI helpers (wrappers of go-ethereum), constants, generated mocks and
  bindings, the contract reads of \<open>hypercore\<close>, and the remaining clients of third-party services, whose code is
  JSON structs and requests through the modelled HTTP client. Memory exhaustion, and log output, are
  outside the model.
\<close>

end
